(* ===== verification/Prelude.thy ===== *)
theory Prelude
  imports Main "HOL-Library.Word" "HOL-Library.Signed_Division"
begin

text \<open>
  What every component of the development shares: Go's sized integers as machine words with
  signed reading, Go's truncated division, points in time and saturating differences,
  \<^verbatim>\<open>fmt.Sprintf("%d")\<close>, big-endian byte encoding, SQL updates over a table kept as a list of
  rows, and enumerations of a Go map (whose iteration order Go leaves open). The three
  collections below carry the component proofs: \<open>exact_arith\<close> (when word arithmetic is
  integer arithmetic), \<open>sql_simps\<close> (statements over tables) and \<open>go_defs\<close> (the small
  library functions of Go that the code calls).
\<close>

named_theorems exact_arith
named_theorems sql_simps
named_theorems go_defs


section \<open>Sized integers\<close>

text \<open>
  Go's \<^verbatim>\<open>int32\<close> and \<^verbatim>\<open>int64\<close> wrap around silently and compare as signed numbers. A value is a
  word of the same width; \<open>+\<close>, \<open>-\<close> and \<open>*\<close> are the word operations, a comparison is one
  of the \<open>sint\<close> readings. \<^verbatim>\<open>int64(x)\<close> of an \<^verbatim>\<open>int32\<close> is \<open>scast\<close>, \<^verbatim>\<open>int32(x)\<close> of an \<^verbatim>\<open>int64\<close> is
  \<open>ucast\<close> (the low 32 bits).
\<close>

type_synonym int32 = "32 word"
type_synonym int64 = "64 word"
type_synonym byte = "8 word"
type_synonym bytes = "8 word list"
type_synonym uuid = string  \<comment> \<open>a UUID by its canonical text\<close>
type_synonym ('e, 'a) result = "'e + 'a"  \<comment> \<open>\<open>Inl\<close> is a returned Go error\<close>

lemma sint64_ge [simp]: "- 9223372036854775808 \<le> sint (x :: int64)"
  using sint_ge [of x] by simp

lemma sint64_less [simp]: "sint (x :: int64) < 9223372036854775808"
  using sint_lt [of x] by simp

lemma sint32_ge [simp]: "- 2147483648 \<le> sint (x :: int32)"
  using sint_ge [of x] by simp

lemma sint32_less [simp]: "sint (x :: int32) < 2147483648"
  using sint_lt [of x] by simp

lemma sint_eq_iff: "sint x = sint y \<longleftrightarrow> x = (y :: 'a::len word)"
  by (auto intro: signed_word_eqI)

lemma sint_word_of_int_exact [exact_arith]:
  "- 9223372036854775808 \<le> k \<Longrightarrow> k < 9223372036854775808 \<Longrightarrow> sint (word_of_int k :: int64) = k"
  by (simp add: sint_sbintrunc' signed_take_bit_int_eq_self)

lemma sint64_add [exact_arith]:
  "- 9223372036854775808 \<le> sint a + sint b \<Longrightarrow> sint a + sint b < 9223372036854775808 \<Longrightarrow>
   sint (a + b :: int64) = sint a + sint b"
  by (simp add: sint_word_add signed_take_bit_int_eq_self)

lemma sint64_sub [exact_arith]:
  "- 9223372036854775808 \<le> sint a - sint b \<Longrightarrow> sint a - sint b < 9223372036854775808 \<Longrightarrow>
   sint (a - b :: int64) = sint a - sint b"
  by (simp add: sint_word_diff signed_take_bit_int_eq_self)

lemma sint64_mult [exact_arith]:
  "- 9223372036854775808 \<le> sint a * sint b \<Longrightarrow> sint a * sint b < 9223372036854775808 \<Longrightarrow>
   sint (a * b :: int64) = sint a * sint b"
  by (simp add: sint_word_mult signed_take_bit_int_eq_self)

lemma sint64_minus [exact_arith]:
  "sint a \<noteq> - 9223372036854775808 \<Longrightarrow> sint (- a :: int64) = - sint a"
proof -
  assume "sint a \<noteq> - 9223372036854775808"
  with sint64_ge [of a] have "- sint a < 9223372036854775808" by linarith
  moreover have "- 9223372036854775808 \<le> - sint a"
    using sint64_less [of a] by linarith
  ultimately show ?thesis
    by (simp add: sint_word_minus signed_take_bit_int_eq_self del: neg_le_iff_le)
qed

lemma sint32_add [exact_arith]:
  "- 2147483648 \<le> sint a + sint b \<Longrightarrow> sint a + sint b < 2147483648 \<Longrightarrow>
   sint (a + b :: int32) = sint a + sint b"
  by (simp add: sint_word_add signed_take_bit_int_eq_self)

lemma sint32_sub [exact_arith]:
  "- 2147483648 \<le> sint a - sint b \<Longrightarrow> sint a - sint b < 2147483648 \<Longrightarrow>
   sint (a - b :: int32) = sint a - sint b"
  by (simp add: sint_word_diff signed_take_bit_int_eq_self)

lemma sint_int64_of_int32 [simp]: "sint (scast (x :: int32) :: int64) = sint x"
  by (rule sint_up_scast) (simp add: is_up)

text \<open>Go's \<open>/\<close> on \<^verbatim>\<open>int64\<close> truncates towards zero (the caller guards against a zero divisor).\<close>

definition go_div :: "int64 \<Rightarrow> int64 \<Rightarrow> int64" where
  "go_div a b = word_of_int (sint a sdiv sint b)"

declare go_div_def [go_defs]

lemma sint_go_div_nonneg:
  assumes "0 \<le> sint a" and "0 < sint b"
  shows "sint (go_div a b) = sint a div sint b"
proof -
  have q: "sint a sdiv sint b = sint a div sint b"
    using assms by (cases "sint a = 0") (simp_all add: signed_divide_int_def)
  have "0 \<le> sint a div sint b" using assms by (simp add: pos_imp_zdiv_nonneg_iff)
  moreover have "sint a div sint b \<le> sint a"
    using assms zdiv_mono2 [of "sint a" 1 "sint b"] by simp
  ultimately have "sint (word_of_int (sint a div sint b) :: int64) = sint a div sint b"
    using sint64_less [of a] by (intro sint_word_of_int_exact) linarith+
  then show ?thesis by (simp add: go_div_def q)
qed


section \<open>Time\<close>

text \<open>
  A \<^verbatim>\<open>time.Time\<close> is its number of nanoseconds since the Unix epoch. \<^verbatim>\<open>t.Sub(u)\<close> saturates at the
  ends of the 64-bit duration range; \<^verbatim>\<open>t.UnixMicro()\<close> rounds down.
\<close>

type_synonym time = int
type_synonym duration = int

definition time_Sub :: "time \<Rightarrow> time \<Rightarrow> duration" where
  "time_Sub t u = max (- (2 ^ 63)) (min (2 ^ 63 - 1) (t - u))"

definition time_UnixMicro :: "time \<Rightarrow> int64" where
  "time_UnixMicro t = word_of_int (t div 1000)"

definition time_Second :: duration where
  "time_Second = 1000000000"

definition time_Minute :: duration where
  "time_Minute = 60 * time_Second"

definition zero_time :: time where
  "zero_time = - 62135596800 * 1000000000"

declare time_Sub_def [go_defs] time_Second_def [go_defs] time_Minute_def [go_defs]

lemma time_Sub_less_iff:
  "- (2 ^ 63) < d \<Longrightarrow> d < 2 ^ 63 \<Longrightarrow> time_Sub t u < d \<longleftrightarrow> t - u < d"
  by (auto simp: time_Sub_def)

lemma time_Sub_greater_iff:
  "- (2 ^ 63) \<le> d \<Longrightarrow> d < 2 ^ 63 - 1 \<Longrightarrow> d < time_Sub t u \<longleftrightarrow> d < t - u"
  by (auto simp: time_Sub_def)


section \<open>Formatting\<close>

definition digit :: "nat \<Rightarrow> char" where
  "digit d = ''0123456789abcdef'' ! d"

fun show_nat :: "nat \<Rightarrow> string" where
  "show_nat n = (if n < 10 then [digit n] else show_nat (n div 10) @ [digit (n mod 10)])"

declare show_nat.simps [simp del]

text \<open>\<^verbatim>\<open>fmt.Sprintf("%d", i)\<close>.\<close>

definition show_int :: "int \<Rightarrow> string" where
  "show_int i = (if i < 0 then ''-'' @ show_nat (nat (- i)) else show_nat (nat i))"

text \<open>\<^verbatim>\<open>fmt.Sprintf("%06d", n)\<close> for a count: at least six digits.\<close>

definition pad_left :: "nat \<Rightarrow> string \<Rightarrow> string" where
  "pad_left w s = replicate (w - length s) CHR ''0'' @ s"

lemma digit_inj: "a < 16 \<Longrightarrow> b < 16 \<Longrightarrow> digit a = digit b \<longleftrightarrow> a = b"
proof -
  have "distinct ''0123456789abcdef''" by simp
  then show "a < 16 \<Longrightarrow> b < 16 \<Longrightarrow> ?thesis"
    unfolding digit_def by (subst nth_eq_iff_index_eq) simp_all
qed

lemma show_nat_nonempty [simp]: "show_nat n \<noteq> []"
  by (subst show_nat.simps) simp

definition decimal_digits :: "char set" where
  "decimal_digits = set ''0123456789''"

lemma digit_mem: "d < 10 \<Longrightarrow> digit d \<in> decimal_digits"
  by (cases d rule: nat.exhaust; simp add: digit_def decimal_digits_def)
     (auto simp: numeral_eq_Suc less_Suc_eq nth_Cons')

lemma show_nat_digits: "set (show_nat n) \<subseteq> decimal_digits"
proof (induction n rule: show_nat.induct)
  case (1 n)
  then show ?case
    by (subst show_nat.simps) (auto simp: digit_mem)
qed

lemma colon_not_digit [simp]: "CHR '':'' \<notin> decimal_digits"
  by (simp add: decimal_digits_def)

lemma colon_not_in_show_int [simp]: "CHR '':'' \<notin> set (show_int i)"
proof -
  have "CHR '':'' \<notin> set (show_nat n)" for n
    using show_nat_digits [of n] colon_not_digit by blast
  then show ?thesis by (simp add: show_int_def)
qed

lemma show_nat_inj: "show_nat m = show_nat n \<Longrightarrow> m = n"
proof (induction m arbitrary: n rule: show_nat.induct)
  case (1 m)
  have small: "show_nat k = [digit k]" if "k < 10" for k
    using that by (simp add: show_nat.simps)
  have big: "show_nat k = show_nat (k div 10) @ [digit (k mod 10)]" if "\<not> k < 10" for k
    using that by (subst show_nat.simps) simp
  show ?case
  proof (cases "m < 10")
    case True
    then show ?thesis
      using 1(2) show_nat_nonempty [of "n div 10"]
      by (cases "n < 10") (auto simp: small big digit_inj simp del: show_nat_nonempty)
  next
    case False
    then have "\<not> n < 10" using 1(2) by (auto simp: small big)
    with False 1 have "m div 10 = n div 10" and "m mod 10 = n mod 10"
      by (auto simp: big digit_inj)
    then show ?thesis by (metis div_mult_mod_eq)
  qed
qed

lemma show_int_inj: "show_int i = show_int j \<longleftrightarrow> i = j"
proof -
  have "hd (show_nat n) \<noteq> CHR ''-''" for n
  proof
    assume "hd (show_nat n) = CHR ''-''"
    then have "CHR ''-'' \<in> decimal_digits"
      using show_nat_digits [of n] hd_in_set [OF show_nat_nonempty [of n]] by auto
    then show False by (simp add: decimal_digits_def)
  qed
  then show ?thesis
    by (auto simp: show_int_def dest!: show_nat_inj) (metis list.sel(1))+
qed


section \<open>Bytes\<close>

text \<open>
  \<^verbatim>\<open>binary.Write(w, binary.BigEndian, x)\<close> of an \<^verbatim>\<open>int32\<close> or \<^verbatim>\<open>int64\<close>, and \<^verbatim>\<open>[]byte(s)\<close> of a string.
\<close>

definition be32 :: "int32 \<Rightarrow> bytes" where
  "be32 w = map (\<lambda>k. ucast (drop_bit k w)) [24, 16, 8, 0]"

definition be64 :: "int64 \<Rightarrow> bytes" where
  "be64 w = map (\<lambda>k. ucast (drop_bit k w)) [56, 48, 40, 32, 24, 16, 8, 0]"

definition bytes_of :: "string \<Rightarrow> bytes" where
  "bytes_of s = map of_char s"

lemma length_be32 [simp]: "length (be32 w) = 4"
  by (simp add: be32_def)

lemma length_be64 [simp]: "length (be64 w) = 8"
  by (simp add: be64_def)

lemma length_bytes_of [simp]: "length (bytes_of s) = length s"
  by (simp add: bytes_of_def)

lemma ucast_byte_eqD:
  assumes "ucast (drop_bit k v) = (ucast (drop_bit k w) :: byte)" and "k \<le> n" and "n < k + 8"
  shows "bit v n \<longleftrightarrow> bit w n"
proof -
  have "bit (ucast (drop_bit k v) :: byte) (n - k) \<longleftrightarrow> bit (ucast (drop_bit k w) :: byte) (n - k)"
    using assms(1) by simp
  moreover have "n - k < 8" using assms(2,3) by arith
  ultimately show ?thesis using assms(2) by (simp add: bit_simps)
qed

lemma be32_inj [simp]: "be32 v = be32 w \<longleftrightarrow> v = w"
proof
  assume eq: "be32 v = be32 w"
  show "v = w"
  proof (rule bit_word_eqI)
    fix n assume "n < LENGTH(32)"
    then consider "n < 8" | "8 \<le> n \<and> n < 16" | "16 \<le> n \<and> n < 24" | "24 \<le> n \<and> n < 32"
      by fastforce
    then show "bit v n \<longleftrightarrow> bit w n"
      using eq by cases (auto simp: be32_def del: iffI intro: ucast_byte_eqD
        [of 0 v w n, simplified] ucast_byte_eqD [of 8 v w n] ucast_byte_eqD [of 16 v w n]
        ucast_byte_eqD [of 24 v w n])
  qed
qed simp

lemma be64_inj [simp]: "be64 v = be64 w \<longleftrightarrow> v = w"
proof
  assume eq: "be64 v = be64 w"
  show "v = w"
  proof (rule bit_word_eqI)
    fix n assume n: "n < LENGTH(64)"
    define k where "k = n div 8 * 8"
    have k: "k \<le> n" "n < k + 8" by (simp_all add: k_def)
    have "k \<in> (\<lambda>i. i * 8) ` {..<8}"
      unfolding k_def using n by (intro imageI) auto
    then have "k \<in> set [56, 48, 40, 32, 24, 16, 8, 0]"
      by (simp add: lessThan_nat_numeral lessThan_Suc)
    with eq have "ucast (drop_bit k v) = (ucast (drop_bit k w) :: byte)"
      unfolding be64_def map_eq_conv by blast
    then show "bit v n \<longleftrightarrow> bit w n" using k by (rule ucast_byte_eqD)
  qed
qed simp

lemma bytes_of_inj [simp]: "bytes_of s = bytes_of t \<longleftrightarrow> s = t"
proof -
  have "inj (of_char :: char \<Rightarrow> byte)"
  proof (rule injI)
    fix c d :: char
    assume "(of_char c :: byte) = of_char d"
    then have "(word_of_nat (of_char c) :: byte) = word_of_nat (of_char d)"
      by (simp only: of_nat_of_char)
    moreover have "unat (word_of_nat (of_char x) :: byte) = of_char x" for x :: char
    proof -
      have "(of_char x :: nat) \<in> {0..<256}"
        using range_nat_of_char by blast
      then show ?thesis by (simp add: unat_of_nat)
    qed
    ultimately have "(of_char c :: nat) = of_char d" by metis
    then show "c = d" by (metis char_of_char)
  qed
  then show ?thesis unfolding bytes_of_def by (simp add: inj_map_eq_map)
qed

lemma bytes_of_append [simp]: "bytes_of (s @ t) = bytes_of s @ bytes_of t"
  by (simp add: bytes_of_def)


section \<open>Tables, maps and transition systems\<close>

text \<open>
  A PostgreSQL table is the list of its rows in insertion order.
  \<^verbatim>\<open>UPDATE t SET .. WHERE p\<close> is \<open>sql_update\<close>, and the command tag's row count is
  \<open>rows_affected\<close>.
\<close>

definition sql_update :: "('r \<Rightarrow> bool) \<Rightarrow> ('r \<Rightarrow> 'r) \<Rightarrow> 'r list \<Rightarrow> 'r list" where
  "sql_update p f rows = map (\<lambda>r. if p r then f r else r) rows"

definition rows_affected :: "('r \<Rightarrow> bool) \<Rightarrow> 'r list \<Rightarrow> nat" where
  "rows_affected p rows = length (filter p rows)"

text \<open>\<^verbatim>\<open>INSERT .. ON CONFLICT .. DO UPDATE\<close>, with \<open>p\<close> the rows in conflict.\<close>

definition sql_upsert :: "('r \<Rightarrow> bool) \<Rightarrow> ('r \<Rightarrow> 'r) \<Rightarrow> 'r \<Rightarrow> 'r list \<Rightarrow> 'r list" where
  "sql_upsert p f r rows = (if rows_affected p rows = 0 then rows @ [r] else sql_update p f rows)"

lemma sql_update_Nil [simp, sql_simps]: "sql_update p f [] = []"
  by (simp add: sql_update_def)

lemma sql_update_Cons [simp, sql_simps]:
  "sql_update p f (r # rows) = (if p r then f r else r) # sql_update p f rows"
  by (simp add: sql_update_def)

lemma sql_update_append [simp, sql_simps]:
  "sql_update p f (xs @ ys) = sql_update p f xs @ sql_update p f ys"
  by (simp add: sql_update_def)

lemma length_sql_update [simp]: "length (sql_update p f rows) = length rows"
  by (simp add: sql_update_def)

lemma sql_update_column [sql_simps]:
  "(\<And>r. g (f r) = g r) \<Longrightarrow> map g (sql_update p f rows) = map g rows"
  by (simp add: sql_update_def)

lemma sql_update_id [sql_simps]:
  "(\<And>r. r \<in> set rows \<Longrightarrow> \<not> p r) \<Longrightarrow> sql_update p f rows = rows"
  by (induction rows) auto

lemma in_sql_update:
  "r \<in> set (sql_update p f rows) \<longleftrightarrow>
   (r \<in> set rows \<and> \<not> p r) \<or> (\<exists>r0 \<in> set rows. p r0 \<and> r = f r0)"
  by (auto simp: sql_update_def)

lemma rows_affected_eq_0 [simp, sql_simps]:
  "rows_affected p rows = 0 \<longleftrightarrow> (\<forall>r \<in> set rows. \<not> p r)"
  by (simp add: rows_affected_def filter_empty_conv)

text \<open>
  \<^verbatim>\<open>for k, v := range m\<close> visits the keys of a Go map once each, in an order the language leaves
  open. A loop of the model takes the order as an argument; \<open>enumerates ks m\<close> says that it is
  one of the orders Go may choose. \<^verbatim>\<open>m[k]\<close> of an absent key is the zero value: \<open>map_get\<close>.
\<close>

definition enumerates :: "'k list \<Rightarrow> ('k \<rightharpoonup> 'v) \<Rightarrow> bool" where
  "enumerates ks m \<longleftrightarrow> distinct ks \<and> set ks = dom m"

definition map_get :: "('k \<rightharpoonup> 'v) \<Rightarrow> 'k \<Rightarrow> 'v \<Rightarrow> 'v" where
  "map_get m k d = (case m k of None \<Rightarrow> d | Some v \<Rightarrow> v)"

declare map_get_def [go_defs]

lemma map_get_upd [simp]: "map_get (m(k \<mapsto> v)) j d = (if j = k then v else map_get m j d)"
  by (simp add: map_get_def)

lemma map_get_empty [simp]: "map_get Map.empty k d = d"
  by (simp add: map_get_def)

lemma enumerates_Nil [simp]: "enumerates [] m \<longleftrightarrow> m = Map.empty"
  by (auto simp: enumerates_def)

lemma enumerates_ran: "enumerates ks m \<Longrightarrow> set (map (the \<circ> m) ks) = ran m"
  by (force simp: enumerates_def ran_def image_iff)

text \<open>
  An invariant of a step relation holds in every state reached from one where it holds. Each
  component with a step relation interprets this locale on its own steps.
\<close>

locale step_invariant =
  fixes step :: "'s \<Rightarrow> 's \<Rightarrow> bool" and inv :: "'s \<Rightarrow> bool"
  assumes step_keeps: "step s t \<Longrightarrow> inv s \<Longrightarrow> inv t"
begin

lemma reachable_inv: "step\<^sup>*\<^sup>* s t \<Longrightarrow> inv s \<Longrightarrow> inv t"
  by (induction rule: rtranclp_induct) (auto intro: step_keeps)

end

end
