(* ===== verification/Float64.thy ===== *)
theory Float64
  imports Complex_Main "HOL-Library.Log_Nat" Prelude
begin

text \<open>
  Go's \<^verbatim>\<open>float64\<close> as the code uses it: a finite value is the rational it denotes, and every
  operation rounds its exact result to the nearest value with a 53-bit significand, ties to
  even (IEEE 754 binary64). Division by zero gives the infinities and NaN. The exponent is
  unbounded: the code only forms quotients and products of 64-bit integers, percentages and
  probabilities, far inside the binary64 range. The sign of zero is not represented (the code
  never divides by a computed zero of negative sign).
\<close>

section \<open>Rounding\<close>

definition round_half_even :: "rat \<Rightarrow> int" where
  "round_half_even x =
     (let f = \<lfloor>x\<rfloor>; d = x - of_int f in
      if d < 1 / 2 then f else if d > 1 / 2 then f + 1
      else if even f then f else f + 1)"

text \<open>
  The exponent of a positive rational: \<open>2 ^ 52 \<le> x / 2 ^ fexp x < 2 ^ 53\<close>.
\<close>

definition fexp :: "rat \<Rightarrow> int" where
  "fexp x =
     (let (p, q) = quotient_of x; e = bitlen p - bitlen q - 53 in
      if x < 2 powi (e + 53) then e else e + 1)"

definition round_pos :: "rat \<Rightarrow> rat" where
  "round_pos x = of_int (round_half_even (x / 2 powi (fexp x))) * 2 powi (fexp x)"

definition rnd :: "rat \<Rightarrow> rat" where
  "rnd x = (if x = 0 then 0 else if x < 0 then - round_pos (- x) else round_pos x)"

lemma round_half_even_of_int [simp]: "round_half_even (of_int k) = k"
  by (simp add: round_half_even_def)

lemma round_half_even_mono: "x \<le> y \<Longrightarrow> round_half_even x \<le> round_half_even y"
proof -
  assume le: "x \<le> y"
  then have fl: "\<lfloor>x\<rfloor> \<le> \<lfloor>y\<rfloor>" by (rule floor_mono)
  show ?thesis
  proof (cases "\<lfloor>x\<rfloor> = \<lfloor>y\<rfloor>")
    case True
    then show ?thesis using le by (auto simp: round_half_even_def Let_def)
  next
    case False
    with fl have "\<lfloor>x\<rfloor> + 1 \<le> \<lfloor>y\<rfloor>" by simp
    moreover have "round_half_even x \<le> \<lfloor>x\<rfloor> + 1" and "\<lfloor>y\<rfloor> \<le> round_half_even y"
      by (auto simp: round_half_even_def Let_def)
    ultimately show ?thesis by linarith
  qed
qed

lemma two_powi_pos [simp]: "(0::rat) < 2 powi e"
  by simp

lemma powi_of_nonneg: "0 \<le> n \<Longrightarrow> (2::rat) powi n = 2 ^ nat n"
  by (simp add: power_int_def)

lemma bitlen_rat_bounds:
  assumes "0 < p"
  shows "(2::rat) powi (bitlen p - 1) \<le> of_int p" and "of_int p < (2::rat) powi (bitlen p)"
proof -
  have b: "2 ^ nat (bitlen p - 1) \<le> p" "p < 2 ^ nat (bitlen p)"
    using bitlen_bounds [OF assms] by simp_all
  have pos: "0 < bitlen p" using assms bitlen_eq_zero_iff bitlen_nonneg
    by (metis linorder_not_le order_le_less)
  have "(of_int (2 ^ nat (bitlen p - 1)) :: rat) \<le> of_int p"
    using b(1) by (simp only: of_int_le_iff)
  then show "(2::rat) powi (bitlen p - 1) \<le> of_int p"
    using pos by (simp add: powi_of_nonneg)
  have "(of_int p :: rat) < of_int (2 ^ nat (bitlen p))"
    using b(2) by (simp only: of_int_less_iff)
  then show "of_int p < (2::rat) powi (bitlen p)"
    using pos by (simp add: powi_of_nonneg)
qed

lemma fexp_bounds:
  assumes "0 < x"
  shows "2 powi (fexp x + 52) \<le> x" and "x < 2 powi (fexp x + 53)"
proof -
  obtain p q where pq: "quotient_of x = (p, q)" by (cases "quotient_of x") auto
  have q: "0 < q" and x: "x = of_int p / of_int q"
    using quotient_of_denom_pos [OF pq] quotient_of_div [OF pq] by auto
  have p: "0 < p" using assms q x by (simp add: zero_less_divide_iff)
  define e where "e = bitlen p - bitlen q - 53"
  have "(2::rat) powi (bitlen p - 1) / 2 powi (bitlen q) \<le> x"
    unfolding x using bitlen_rat_bounds [OF p] bitlen_rat_bounds [OF q] p q
    by (intro frac_le) (simp_all add: less_imp_le)
  then have lo: "2 powi (e + 52) \<le> x"
    by (simp add: e_def algebra_simps flip: power_int_diff)
  have "x < (2::rat) powi (bitlen p) / 2 powi (bitlen q - 1)"
    unfolding x using bitlen_rat_bounds [OF p] bitlen_rat_bounds [OF q] p q
    by (intro frac_less) simp_all
  then have hi: "x < 2 powi (e + 54)"
    by (simp add: e_def algebra_simps flip: power_int_diff)
  have "fexp x = (if x < 2 powi (e + 53) then e else e + 1)"
    unfolding fexp_def by (simp add: pq e_def Let_def)
  with lo hi show "2 powi (fexp x + 52) \<le> x" and "x < 2 powi (fexp x + 53)"
    by (auto simp: add.commute add.left_commute)
qed

lemma round_pos_bounds:
  assumes "0 < x"
  shows "2 powi (fexp x + 52) \<le> round_pos x" and "round_pos x \<le> 2 powi (fexp x + 53)"
proof -
  let ?s = "(2::rat) powi (fexp x)"
  have "2 powi 52 * ?s \<le> x" and "x \<le> 2 powi 53 * ?s"
    using fexp_bounds [OF assms] by (simp_all add: power_int_add mult.commute less_imp_le)
  then have "of_int (2 ^ 52) \<le> x / ?s" and "x / ?s \<le> of_int (2 ^ 53)"
    by (simp_all add: field_simps)
  then have "2 ^ 52 \<le> round_half_even (x / ?s)" and "round_half_even (x / ?s) \<le> 2 ^ 53"
    by (metis round_half_even_mono round_half_even_of_int)+
  then have "(of_int (2 ^ 52) :: rat) \<le> of_int (round_half_even (x / ?s))"
    and "of_int (round_half_even (x / ?s)) \<le> (of_int (2 ^ 53) :: rat)"
    by (simp_all only: of_int_le_iff)
  then show "2 powi (fexp x + 52) \<le> round_pos x" and "round_pos x \<le> 2 powi (fexp x + 53)"
    by (simp_all add: round_pos_def power_int_add mult.commute)
qed

lemma fexp_mono:
  assumes "0 < x" and "x \<le> y"
  shows "fexp x \<le> fexp y"
proof (rule ccontr)
  assume "\<not> fexp x \<le> fexp y"
  then have "(2::rat) powi (fexp y + 53) \<le> 2 powi (fexp x + 52)"
    by (intro power_int_increasing) simp_all
  with fexp_bounds [of x] fexp_bounds [of y] assms show False by auto
qed

lemma round_pos_mono:
  assumes "0 < x" and "x \<le> y"
  shows "round_pos x \<le> round_pos y"
proof (cases "fexp x = fexp y")
  case True
  have "x / 2 powi (fexp y) \<le> y / 2 powi (fexp y)"
    using assms(2) by (simp add: divide_right_mono)
  then have "(of_int (round_half_even (x / 2 powi (fexp y))) :: rat)
      \<le> of_int (round_half_even (y / 2 powi (fexp y)))"
    by (simp add: round_half_even_mono)
  then show ?thesis
    unfolding round_pos_def True by (intro mult_right_mono) simp_all
next
  case False
  with fexp_mono [OF assms] have "fexp x + 53 \<le> fexp y + 52" by simp
  then have "(2::rat) powi (fexp x + 53) \<le> 2 powi (fexp y + 52)"
    by (intro power_int_increasing) simp_all
  moreover have "0 < y" using assms by simp
  ultimately show ?thesis
    using round_pos_bounds(2) [OF assms(1)] round_pos_bounds(1) [of y] by linarith
qed

lemma round_pos_positive: "0 < x \<Longrightarrow> 0 < round_pos x"
  using round_pos_bounds(1) [of x] two_powi_pos [of "fexp x + 52"] by linarith

text \<open>Rounding is monotone, odd, and the identity on the representable values.\<close>

lemma rnd_mono: "x \<le> y \<Longrightarrow> rnd x \<le> rnd y"
  using round_pos_mono [of x y] round_pos_mono [of "- y" "- x"]
    round_pos_positive [of y] round_pos_positive [of "- x"]
  by (auto simp: rnd_def)

lemma rnd_0 [simp]: "rnd 0 = 0"
  by (simp add: rnd_def)

lemma rnd_minus [simp]: "rnd (- x) = - rnd x"
  by (simp add: rnd_def)

lemma rnd_nonneg: "0 \<le> x \<Longrightarrow> 0 \<le> rnd x"
  using rnd_mono [of 0 x] by simp

definition representable :: "rat \<Rightarrow> bool" where
  "representable x \<longleftrightarrow> (\<exists>m k. \<bar>m\<bar> \<le> 2 ^ 53 \<and> x = of_int m * 2 powi k)"

lemma round_pos_exact:
  assumes "0 < m" and "m \<le> 2 ^ 53" and x: "x = of_int m * 2 powi k"
  shows "round_pos x = x"
proof -
  let ?e = "fexp x"
  have "0 < x" using assms(1) x by simp
  have "\<exists>n. x / 2 powi ?e = of_int n"
  proof (cases "?e \<le> k")
    case True
    then have "x / 2 powi ?e = of_int (m * 2 ^ nat (k - ?e))"
      by (simp add: x powi_of_nonneg flip: power_int_diff times_divide_eq_right)
    then show ?thesis by blast
  next
    case False
    have "x \<le> 2 powi 53 * 2 powi k"
    proof -
      have "(of_int m :: rat) \<le> of_int (2 ^ 53)"
        using assms(2) by (simp only: of_int_le_iff)
      then have "(of_int m :: rat) \<le> 2 powi 53" by simp
      then show ?thesis unfolding x by (intro mult_right_mono) simp_all
    qed
    also have "\<dots> = 2 powi (53 + k)" by (simp add: power_int_add)
    also have "\<dots> \<le> 2 powi (?e + 52)"
      using False by (intro power_int_increasing) simp_all
    finally have "x = 2 powi (?e + 52)"
      using fexp_bounds(1) [OF \<open>0 < x\<close>] by simp
    then have "x = of_int (2 ^ 52) * 2 powi ?e"
      by (simp add: power_int_add mult.commute)
    then have "x / 2 powi ?e = of_int (2 ^ 52)"
      by (simp add: nonzero_divide_eq_eq)
    then show ?thesis by blast
  qed
  then obtain n where n: "x / 2 powi ?e = of_int n" by blast
  then have "of_int n * 2 powi ?e = x" by (simp add: field_simps)
  then show ?thesis by (simp add: round_pos_def n)
qed

lemma rnd_exact: "representable x \<Longrightarrow> rnd x = x"
proof -
  assume "representable x"
  then obtain m k where m: "\<bar>m\<bar> \<le> 2 ^ 53" and x: "x = of_int m * 2 powi k"
    unfolding representable_def by blast
  consider "m = 0" | "0 < m" | "m < 0" by linarith
  then show ?thesis
  proof cases
    case 1
    then show ?thesis by (simp add: x)
  next
    case 2
    then have "round_pos x = x" using m x by (intro round_pos_exact [of m]) simp_all
    moreover have "0 < x" using 2 by (simp add: x)
    ultimately show ?thesis by (simp add: rnd_def)
  next
    case 3
    then have "round_pos (- x) = - x" using m x by (intro round_pos_exact [of "- m"]) simp_all
    moreover have "x < 0" using 3 by (simp add: x mult_less_0_iff)
    ultimately show ?thesis by (simp add: rnd_def)
  qed
qed

lemma representable_of_int: "\<bar>k\<bar> \<le> 2 ^ 53 \<Longrightarrow> representable (of_int k)"
  unfolding representable_def by (intro exI [of _ k] exI [of _ 0]) simp

lemma rnd_of_int [simp]: "\<bar>k\<bar> \<le> 2 ^ 53 \<Longrightarrow> rnd (of_int k) = of_int k"
  by (rule rnd_exact [OF representable_of_int])

lemma rnd_numeral [simp]: "numeral k \<le> (2 ^ 53 :: int) \<Longrightarrow> rnd (numeral k) = numeral k"
  using rnd_of_int [of "numeral k"] by simp

lemma rnd_1 [simp]: "rnd 1 = 1"
  using rnd_of_int [of 1] by simp

lemma rnd_ge: "representable y \<Longrightarrow> y \<le> x \<Longrightarrow> y \<le> rnd x"
  by (metis rnd_exact rnd_mono)

lemma rnd_le: "representable y \<Longrightarrow> x \<le> y \<Longrightarrow> rnd x \<le> y"
  by (metis rnd_exact rnd_mono)


section \<open>Values and operations\<close>

datatype float64 = Fin rat | PosInf | NegInf | NaN

text \<open>\<^verbatim>\<open>float64(i)\<close> of an integer, a decimal literal, and the arithmetic the code uses.\<close>

definition f_of_int :: "int \<Rightarrow> float64" where
  "f_of_int i = Fin (rnd (of_int i))"

definition f_lit :: "rat \<Rightarrow> float64" where
  "f_lit x = Fin (rnd x)"

fun f_add :: "float64 \<Rightarrow> float64 \<Rightarrow> float64" where
  "f_add (Fin x) (Fin y) = Fin (rnd (x + y))"
| "f_add (Fin x) y = y"
| "f_add x (Fin y) = x"
| "f_add PosInf PosInf = PosInf"
| "f_add NegInf NegInf = NegInf"
| "f_add x y = NaN"

text \<open>An infinity of the sign of \<open>x\<close> (and NaN for 0): the result of \<open>x / 0\<close> and \<open>x * Inf\<close>.\<close>

definition f_inf :: "rat \<Rightarrow> float64" where
  "f_inf x = (if x = 0 then NaN else if 0 < x then PosInf else NegInf)"

fun f_mul :: "float64 \<Rightarrow> float64 \<Rightarrow> float64" where
  "f_mul NaN y = NaN"
| "f_mul x NaN = NaN"
| "f_mul (Fin x) (Fin y) = Fin (rnd (x * y))"
| "f_mul (Fin x) PosInf = f_inf x"
| "f_mul (Fin x) NegInf = f_inf (- x)"
| "f_mul PosInf (Fin y) = f_inf y"
| "f_mul NegInf (Fin y) = f_inf (- y)"
| "f_mul PosInf PosInf = PosInf"
| "f_mul NegInf NegInf = PosInf"
| "f_mul x y = NegInf"

fun f_div :: "float64 \<Rightarrow> float64 \<Rightarrow> float64" where
  "f_div (Fin x) (Fin y) = (if y = 0 then f_inf x else Fin (rnd (x / y)))"
| "f_div NaN y = NaN"
| "f_div x NaN = NaN"
| "f_div (Fin x) y = Fin 0"
| "f_div PosInf (Fin y) = (if 0 \<le> y then PosInf else NegInf)"
| "f_div NegInf (Fin y) = (if 0 \<le> y then NegInf else PosInf)"
| "f_div x y = NaN"

text \<open>Every comparison with NaN is false.\<close>

fun f_less :: "float64 \<Rightarrow> float64 \<Rightarrow> bool" where
  "f_less (Fin x) (Fin y) = (x < y)"
| "f_less NegInf (Fin y) = True"
| "f_less NegInf PosInf = True"
| "f_less (Fin x) PosInf = True"
| "f_less x y = False"

fun f_le :: "float64 \<Rightarrow> float64 \<Rightarrow> bool" where
  "f_le NaN y = False"
| "f_le x NaN = False"
| "f_le x y = (\<not> f_less y x)"

text \<open>\<^verbatim>\<open>int(f)\<close>: the value truncated towards zero (the code converts finite values only).\<close>

fun f_trunc :: "float64 \<Rightarrow> int" where
  "f_trunc (Fin x) = (if x < 0 then - \<lfloor>- x\<rfloor> else \<lfloor>x\<rfloor>)"
| "f_trunc x = 0"

text \<open>\<^verbatim>\<open>fmt.Sprintf("%.kf", f)\<close>: the exact value rounded to \<open>k\<close> decimals, ties to even.\<close>

fun show_float :: "nat \<Rightarrow> float64 \<Rightarrow> string" where
  "show_float k (Fin x) =
     (let n = nat (round_half_even (\<bar>x\<bar> * 10 ^ k));
          frac = show_nat (n mod 10 ^ k)
      in (if x < 0 then ''-'' else []) @ show_nat (n div 10 ^ k)
         @ (if k = 0 then [] else ''.'' @ pad_left k frac))"
| "show_float k PosInf = ''+Inf''"
| "show_float k NegInf = ''-Inf''"
| "show_float k NaN = ''NaN''"

text \<open>
  \<^verbatim>\<open>d.Seconds()\<close> of a duration in nanoseconds: whole seconds plus the rounded remainder.
\<close>

definition duration_Seconds :: "duration \<Rightarrow> float64" where
  "duration_Seconds d =
     f_add (f_of_int (d sdiv 1000000000))
       (f_div (f_of_int (d smod 1000000000)) (f_of_int 1000000000))"

section \<open>The comparisons of the code in exact arithmetic\<close>

lemma representable_add_pow:
  assumes "0 \<le> n" and "n < 2 ^ 22"
  shows "representable (of_int n + 1 / 2 ^ 30)"
proof -
  have "(of_int n + 1 / 2 ^ 30 :: rat) = of_int (n * 2 ^ 30 + 1) * 2 powi (- 30)"
    by (simp add: power_int_minus field_simps)
  moreover have "\<bar>n * 2 ^ 30 + 1\<bar> \<le> 2 ^ 53" using assms by simp
  ultimately show ?thesis unfolding representable_def by blast
qed

lemma representable_nano: "representable (1 / 2 ^ 30)"
  unfolding representable_def by (intro exI [of _ 1] exI [of _ "-30"]) (simp add: power_int_minus field_simps)

text \<open>
  The float comparison \<^verbatim>\<open>d.Seconds() > float64(n)\<close> decides \<open>d > n\<close> seconds exactly, down to the
  nanosecond, for every limit below \<open>2 ^ 22\<close> seconds (48 days).
\<close>

lemma duration_Seconds_split:
  obtains s ns where "d = s * 1000000000 + ns" and "\<bar>ns\<bar> < 1000000000"
    and "0 \<le> d \<Longrightarrow> 0 \<le> s \<and> 0 \<le> ns" and "d \<le> 0 \<Longrightarrow> s \<le> 0 \<and> ns \<le> 0"
    and "duration_Seconds d = Fin (rnd (rnd (of_int s) + rnd (of_int ns / 1000000000)))"
proof
  let ?s = "d sdiv 1000000000" and ?ns = "d smod 1000000000"
  show "d = ?s * 1000000000 + ?ns"
    using mult_sdiv_smod_eq [of 1000000000 d] by (simp add: mult.commute)
  show ns: "\<bar>?ns\<bar> < 1000000000"
    using smod_int_range [of 1000000000 d] by (simp add: abs_less_iff)
  show "0 \<le> ?s \<and> 0 \<le> ?ns" if "0 \<le> d"
    using that by (simp add: signed_divide_int_def signed_modulo_int_def sgn_if)
  show "?s \<le> 0 \<and> ?ns \<le> 0" if "d \<le> 0"
    using that
    by (simp add: signed_divide_int_def signed_modulo_int_def sgn_if pos_imp_zdiv_nonneg_iff)
  show "duration_Seconds d = Fin (rnd (rnd (of_int ?s) + rnd (of_int ?ns / 1000000000)))"
    using ns by (simp add: duration_Seconds_def f_of_int_def)
qed

lemma duration_Seconds_exact:
  assumes n: "0 \<le> n" "n < 2 ^ 22"
  shows "f_less (f_of_int n) (duration_Seconds d) \<longleftrightarrow> n * 1000000000 < d"
proof -
  obtain s ns where ds: "d = s * 1000000000 + ns" and ns: "\<bar>ns\<bar> < 1000000000"
    and pos: "0 \<le> d \<Longrightarrow> 0 \<le> s \<and> 0 \<le> ns" and neg: "d \<le> 0 \<Longrightarrow> s \<le> 0 \<and> ns \<le> 0"
    and val: "duration_Seconds d = Fin (rnd (rnd (of_int s) + rnd (of_int ns / 1000000000)))"
    using duration_Seconds_split [of d] by blast
  let ?r = "rnd (of_int ns / 1000000000)"
  have up: "rnd (of_int s) + ?r \<le> of_int n" if le: "d \<le> n * 1000000000"
  proof (cases "d \<le> 0")
    case True
    with neg have "rnd (of_int s) \<le> 0" and "?r \<le> 0"
      using rnd_mono [of "of_int s" 0] rnd_mono [of "of_int ns / 1000000000" 0] by simp_all
    moreover have "(0::rat) \<le> of_int n" using n by simp
    ultimately show ?thesis by linarith
  next
    case False
    with pos have "0 \<le> s" "0 \<le> ns" by auto
    show ?thesis
    proof (cases "s = n")
      case True
      with le ds \<open>0 \<le> ns\<close> have "ns = 0" by simp
      then show ?thesis using True n by simp
    next
      case False
      with le ds \<open>0 \<le> ns\<close> have "s \<le> n - 1" by linarith
      then have "rnd (of_int s) \<le> rnd (of_int (n - 1))" by (intro rnd_mono) simp
      moreover have "rnd (of_int (n - 1)) = of_int (n - 1)" using n by (intro rnd_of_int) simp
      moreover have "?r \<le> rnd (of_int 1)" using ns by (intro rnd_mono) simp
      ultimately show ?thesis using rnd_of_int [of 1] by simp
    qed
  qed
  have low: "of_int n + 1 / 2 ^ 30 \<le> rnd (of_int s) + ?r" if gt: "n * 1000000000 < d"
  proof -
    have "0 \<le> s" "0 \<le> ns" using pos gt n by auto
    show ?thesis
    proof (cases "s = n")
      case True
      then have "1 \<le> ns" using gt ds by simp
      then have "(1 :: rat) \<le> of_int ns" by simp
      then have "1 / 2 ^ 30 \<le> of_int ns / (1000000000 :: rat)" by simp
      then have "1 / 2 ^ 30 \<le> ?r" by (intro rnd_ge representable_nano)
      then show ?thesis using True n by simp
    next
      case False
      with gt ds ns have "n + 1 \<le> s" by linarith
      then have "rnd (of_int (n + 1)) \<le> rnd (of_int s)" by (intro rnd_mono) simp
      moreover have "rnd (of_int (n + 1)) = of_int (n + 1)" using n by (intro rnd_of_int) simp
      moreover have "0 \<le> ?r" using \<open>0 \<le> ns\<close> by (intro rnd_nonneg) simp
      ultimately show ?thesis by simp
    qed
  qed
  have "f_of_int n = Fin (of_int n)" using n by (simp add: f_of_int_def)
  moreover have "rnd (rnd (of_int s) + ?r) \<le> of_int n" if "d \<le> n * 1000000000"
    using up [OF that] n by (intro rnd_le representable_of_int) simp_all
  moreover have "of_int n + 1 / 2 ^ 30 \<le> rnd (rnd (of_int s) + ?r)" if "n * 1000000000 < d"
    using low [OF that] n by (intro rnd_ge representable_add_pow) simp_all
  ultimately show ?thesis
    unfolding val by (cases "n * 1000000000 < d") force+
qed

end
