(* ===== verification/Models.thy ===== *)
theory Models
  imports Float64
begin

text \<open>
  The shared types of \<^verbatim>\<open>internal/models\<close>: money in microdollars (\<^verbatim>\<open>money.go\<close>), market data
  (\<^verbatim>\<open>market.go\<close>), and proposed orders, order records and the order status machine
  (\<^verbatim>\<open>order.go\<close>). A Go \<^verbatim>\<open>type X string\<close> is the string itself, its constants are abbreviations. The
  fields of the Go structs carry a prefix per struct (\<open>o_\<close> for \<^verbatim>\<open>ProposedOrder\<close>, \<open>r_\<close> for
  \<^verbatim>\<open>OrderRecord\<close>, \<open>md_\<close> for \<^verbatim>\<open>MarketData\<close>).
\<close>

section \<open>Money\<close>

type_synonym Money = int64

definition MicroPerDollar :: Money where
  "MicroPerDollar = 1000000"

definition USD :: "float64 \<Rightarrow> Money" where
  "USD dollars = word_of_int (f_trunc (f_mul dollars (f_of_int (sint MicroPerDollar))))"

definition Dollars :: "Money \<Rightarrow> float64" where
  "Dollars m = f_div (f_of_int (sint m)) (f_of_int (sint MicroPerDollar))"

definition Money_String :: "Money \<Rightarrow> string" where
  "Money_String m = ''$'' @ show_float 2 (Dollars m)"

definition Money_Abs :: "Money \<Rightarrow> Money" where
  "Money_Abs m = (if sint m < 0 then - m else m)"

lemma sint_Money_Abs:
  "sint m \<noteq> - 9223372036854775808 \<Longrightarrow> sint (Money_Abs m) = \<bar>sint m\<bar>"
  by (simp add: Money_Abs_def exact_arith)

lemma Money_Abs_wraps: "Money_Abs (word_of_int (- (2 ^ 63))) = word_of_int (- (2 ^ 63))"
  by (simp add: Money_Abs_def)


section \<open>Market data\<close>

record MarketData =
  md_Venue :: string
  md_MarketID :: string
  md_DisplayName :: string
  md_BidPriceMicros :: int64
  md_AskPriceMicros :: int64
  md_LastPriceMicros :: int64
  md_BidDepth :: int32
  md_AskDepth :: int32
  md_Volume24h :: float64
  md_UpdatedAt :: time

definition SpreadMicros :: "MarketData \<Rightarrow> int64" where
  "SpreadMicros m = md_AskPriceMicros m - md_BidPriceMicros m"

definition MidPriceMicros :: "MarketData \<Rightarrow> int64" where
  "MidPriceMicros m = go_div (md_BidPriceMicros m + md_AskPriceMicros m) 2"

definition SpreadBps :: "MarketData \<Rightarrow> int64" where
  "SpreadBps m =
     (let mid = go_div (md_BidPriceMicros m + md_AskPriceMicros m) 2 in
      if mid = 0 then 0 else go_div (SpreadMicros m * 10000) mid)"

definition AgeSeconds :: "MarketData \<Rightarrow> time \<Rightarrow> float64" where
  "AgeSeconds m now = duration_Seconds (time_Sub now (md_UpdatedAt m))"

text \<open>
  A quote of a prediction market: both sides within one dollar, the bid not above the ask.
\<close>

definition sane_quote :: "MarketData \<Rightarrow> bool" where
  "sane_quote m \<longleftrightarrow> 0 \<le> sint (md_BidPriceMicros m) \<and>
     sint (md_BidPriceMicros m) \<le> sint (md_AskPriceMicros m) \<and>
     sint (md_AskPriceMicros m) \<le> 1000000"

lemma sane_quote_sum:
  "sane_quote m \<Longrightarrow> sint (md_BidPriceMicros m + md_AskPriceMicros m) =
     sint (md_BidPriceMicros m) + sint (md_AskPriceMicros m)"
  by (rule sint64_add) (auto simp: sane_quote_def)

lemma sint_MidPriceMicros:
  assumes "sane_quote m"
  shows "sint (MidPriceMicros m) =
           (sint (md_BidPriceMicros m) + sint (md_AskPriceMicros m)) div 2"
  using assms sane_quote_sum [OF assms]
  by (simp add: MidPriceMicros_def sint_go_div_nonneg sane_quote_def)

lemma MidPriceMicros_between:
  assumes "sane_quote m"
  shows "sint (md_BidPriceMicros m) \<le> sint (MidPriceMicros m)"
    and "sint (MidPriceMicros m) \<le> sint (md_AskPriceMicros m)"
  using assms by (auto simp: sint_MidPriceMicros sane_quote_def)


section \<open>Orders\<close>

type_synonym Side = string
abbreviation SideBuy :: Side where "SideBuy \<equiv> ''buy''"
abbreviation SideSell :: Side where "SideSell \<equiv> ''sell''"

type_synonym OrderStatus = string
abbreviation StatusPending :: OrderStatus where "StatusPending \<equiv> ''pending''"
abbreviation StatusOpen :: OrderStatus where "StatusOpen \<equiv> ''open''"
abbreviation StatusPartiallyFilled :: OrderStatus where "StatusPartiallyFilled \<equiv> ''partially_filled''"
abbreviation StatusFilled :: OrderStatus where "StatusFilled \<equiv> ''filled''"
abbreviation StatusCancelled :: OrderStatus where "StatusCancelled \<equiv> ''cancelled''"
abbreviation StatusRejected :: OrderStatus where "StatusRejected \<equiv> ''rejected''"
abbreviation StatusExpired :: OrderStatus where "StatusExpired \<equiv> ''expired''"
abbreviation StatusFailed :: OrderStatus where "StatusFailed \<equiv> ''failed''"

definition OrderStatus_IsTerminal :: "OrderStatus \<Rightarrow> bool" where
  "OrderStatus_IsTerminal s \<longleftrightarrow>
     s \<in> {StatusFilled, StatusCancelled, StatusRejected, StatusExpired, StatusFailed}"

definition validTransitions :: "OrderStatus \<rightharpoonup> OrderStatus list" where
  "validTransitions =
     [StatusPending \<mapsto> [StatusOpen, StatusRejected, StatusFailed, StatusFilled],
      StatusOpen \<mapsto> [StatusPartiallyFilled, StatusFilled, StatusCancelled, StatusExpired],
      StatusPartiallyFilled \<mapsto> [StatusPartiallyFilled, StatusFilled, StatusCancelled]]"

datatype transition_error = NoTransitionsFrom OrderStatus | IllegalTransition OrderStatus OrderStatus

definition ValidateTransition :: "OrderStatus \<Rightarrow> OrderStatus \<Rightarrow> (transition_error, unit) result" where
  "ValidateTransition from to =
     (case validTransitions from of
        None \<Rightarrow> Inl (NoTransitionsFrom from)
      | Some allowed \<Rightarrow> if to \<in> set allowed then Inr () else Inl (IllegalTransition from to))"

record ProposedOrder =
  o_TraceID :: string
  o_StrategyID :: string
  o_Venue :: string
  o_MarketID :: string
  o_Side :: Side
  o_Quantity :: int32
  o_PriceMicros :: int64
  o_NotionalMicros :: int64
  o_ProposedAt :: time

datatype order_error =
    TraceIdRequired | StrategyIdRequired | MarketIdRequired | InvalidSide Side
  | QuantityNotPositive int32 | PriceOutOfRange int64 | NotionalNotPositive int64
  | NotionalMismatch int64 int32 int64 int64

definition ProposedOrder_Validate :: "ProposedOrder \<Rightarrow> (order_error, unit) result" where
  "ProposedOrder_Validate ord =
     (if o_TraceID ord = [] then Inl TraceIdRequired
      else if o_StrategyID ord = [] then Inl StrategyIdRequired
      else if o_MarketID ord = [] then Inl MarketIdRequired
      else if o_Side ord \<noteq> SideBuy \<and> o_Side ord \<noteq> SideSell then Inl (InvalidSide (o_Side ord))
      else if sint (o_Quantity ord) \<le> 0 then Inl (QuantityNotPositive (o_Quantity ord))
      else if sint (o_PriceMicros ord) \<le> 0 \<or> 1000000 \<le> sint (o_PriceMicros ord)
        then Inl (PriceOutOfRange (o_PriceMicros ord))
      else if sint (o_NotionalMicros ord) \<le> 0 then Inl (NotionalNotPositive (o_NotionalMicros ord))
      else let expected = scast (o_Quantity ord) * o_PriceMicros ord in
        if o_NotionalMicros ord \<noteq> expected
        then Inl (NotionalMismatch (o_NotionalMicros ord) (o_Quantity ord) (o_PriceMicros ord) expected)
        else Inr ())"

definition IdempotencyKey :: "ProposedOrder \<Rightarrow> string" where
  "IdempotencyKey ord =
     o_StrategyID ord @ '':'' @ o_Venue ord @ '':'' @ o_MarketID ord @ '':'' @ o_Side ord
     @ '':'' @ show_int (sint (o_PriceMicros ord))"

record OrderRecord =
  r_InternalOrderID :: uuid
  r_TraceID :: string
  r_StrategyID :: string
  r_Venue :: string
  r_MarketID :: string
  r_Side :: Side
  r_Quantity :: int32
  r_PriceMicros :: int64
  r_NotionalMicros :: int64
  r_ExchangeOrderID :: string
  r_Status :: OrderStatus
  r_FilledQuantity :: int32
  r_AvgFillPriceMicros :: int64
  r_CredentialID :: string
  r_SigningKeyID :: string
  r_ApprovalHMAC :: bytes
  r_PolicyConfigHash :: string
  r_ProposedAt :: time
  r_ApprovedAt :: time
  r_SubmittedAt :: "time option"
  r_AcknowledgedAt :: "time option"
  r_LastFillAt :: "time option"
  r_CompletedAt :: "time option"
  r_CreatedAt :: time

record Fill =
  fl_FillID :: uuid
  fl_InternalOrderID :: uuid
  fl_ExchangeFillID :: string
  fl_Quantity :: int32
  fl_PriceMicros :: int64
  fl_FeeMicros :: int64
  fl_FilledAt :: time



section \<open>The order status machine\<close>

definition order_step :: "OrderStatus \<Rightarrow> OrderStatus \<Rightarrow> bool" where
  "order_step from to \<longleftrightarrow> ValidateTransition from to = Inr ()"

lemma order_step_iff:
  "order_step a b \<longleftrightarrow>
     a = StatusPending \<and> b \<in> {StatusOpen, StatusRejected, StatusFailed, StatusFilled} \<or>
     a = StatusOpen \<and> b \<in> {StatusPartiallyFilled, StatusFilled, StatusCancelled, StatusExpired} \<or>
     a = StatusPartiallyFilled \<and> b \<in> {StatusPartiallyFilled, StatusFilled, StatusCancelled}"
  by (auto simp: order_step_def ValidateTransition_def validTransitions_def split: if_splits)

lemma ValidateTransition_ok_iff: "ValidateTransition a b = Inr () \<longleftrightarrow> order_step a b"
  by (simp add: order_step_def)

lemma ValidateTransition_cases:
  obtains "ValidateTransition a b = Inr ()" "order_step a b"
  | e where "ValidateTransition a b = Inl e" "\<not> order_step a b"
  by (cases "ValidateTransition a b") (auto simp: order_step_def)

definition known_statuses :: "OrderStatus set" where
  "known_statuses = {StatusPending, StatusOpen, StatusPartiallyFilled, StatusFilled,
     StatusCancelled, StatusRejected, StatusExpired, StatusFailed}"

definition working_statuses :: "OrderStatus set" where
  "working_statuses = {StatusPending, StatusOpen, StatusPartiallyFilled}"

lemma known_statuses_split:
  "s \<in> known_statuses \<longleftrightarrow> s \<in> working_statuses \<or> OrderStatus_IsTerminal s"
  by (auto simp: known_statuses_def working_statuses_def OrderStatus_IsTerminal_def)

lemma order_step_from_working: "order_step a b \<Longrightarrow> a \<in> working_statuses"
  by (auto simp: working_statuses_def order_step_iff)

lemma order_step_from_terminal: "OrderStatus_IsTerminal a \<Longrightarrow> \<not> order_step a b"
  by (auto simp: OrderStatus_IsTerminal_def order_step_iff)

lemma order_step_not_pending: "order_step a b \<Longrightarrow> b \<noteq> StatusPending"
  by (auto simp: order_step_iff)

lemma order_step_progress: "s \<in> working_statuses \<Longrightarrow> order_step s StatusFilled"
  by (auto simp: working_statuses_def order_step_iff)

lemma terminal_iff_stuck:
  assumes "s \<in> known_statuses"
  shows "OrderStatus_IsTerminal s \<longleftrightarrow> (\<nexists>t. order_step s t)"
proof (cases "OrderStatus_IsTerminal s")
  case True
  then show ?thesis by (simp add: order_step_from_terminal)
next
  case False
  with assms have "order_step s StatusFilled"
    by (auto simp only: known_statuses_split intro: order_step_progress)
  then have "\<exists>t. order_step s t" by (rule exI)
  with False show ?thesis by (simp only:) simp
qed

lemma order_can_complete:
  assumes "s \<in> known_statuses"
  shows "\<exists>t. order_step\<^sup>*\<^sup>* s t \<and> OrderStatus_IsTerminal t"
proof (cases "OrderStatus_IsTerminal s")
  case True
  then show ?thesis by (intro exI [of _ s] conjI rtranclp.rtrancl_refl)
next
  case False
  with assms have "order_step s StatusFilled"
    by (auto simp only: known_statuses_split intro: order_step_progress)
  moreover have "OrderStatus_IsTerminal StatusFilled" by (simp add: OrderStatus_IsTerminal_def)
  ultimately show ?thesis by (intro exI [of _ StatusFilled] conjI r_into_rtranclp)
qed

interpretation order_status: step_invariant order_step "\<lambda>s. s \<in> known_statuses"
  by unfold_locales (auto simp: known_statuses_def order_step_iff)

interpretation never_pending: step_invariant order_step "\<lambda>s. s \<noteq> StatusPending"
  by unfold_locales (rule order_step_not_pending)

text \<open>
  The order life cycle. From \<^verbatim>\<open>pending\<close> the legal transitions of \<^verbatim>\<open>ValidateTransition\<close> lead only
  to the eight declared statuses; a status reached has no legal successor exactly when
  \<^verbatim>\<open>IsTerminal\<close> says so; every status reached can still be completed (a terminal status is
  reachable from it); and once an order has left \<^verbatim>\<open>pending\<close> no sequence of legal transitions
  brings it back.
\<close>

theorem order_lifecycle:
  assumes "order_step\<^sup>*\<^sup>* StatusPending s"
  shows "s \<in> known_statuses
    \<and> (OrderStatus_IsTerminal s \<longleftrightarrow> (\<nexists>t. ValidateTransition s t = Inr ()))
    \<and> (\<exists>t. order_step\<^sup>*\<^sup>* s t \<and> OrderStatus_IsTerminal t)
    \<and> (\<forall>t. order_step\<^sup>+\<^sup>+ s t \<longrightarrow> t \<noteq> StatusPending)"
proof (intro conjI)
  show known: "s \<in> known_statuses"
    using order_status.reachable_inv [OF assms] by (simp add: known_statuses_def)
  show "OrderStatus_IsTerminal s \<longleftrightarrow> (\<nexists>t. ValidateTransition s t = Inr ())"
    unfolding ValidateTransition_ok_iff using known by (rule terminal_iff_stuck)
  show "\<exists>t. order_step\<^sup>*\<^sup>* s t \<and> OrderStatus_IsTerminal t"
    using known by (rule order_can_complete)
  show "\<forall>t. order_step\<^sup>+\<^sup>+ s t \<longrightarrow> t \<noteq> StatusPending"
  proof (intro allI impI)
    fix t assume "order_step\<^sup>+\<^sup>+ s t"
    from tranclpD [OF this] obtain u where "order_step s u" and ut: "order_step\<^sup>*\<^sup>* u t"
      by (elim exE conjE)
    then have "u \<noteq> StatusPending" by (intro order_step_not_pending)
    with ut show "t \<noteq> StatusPending" by (rule never_pending.reachable_inv)
  qed
qed

theorem order_lifecycle_witness:
  "order_step\<^sup>*\<^sup>* StatusPending StatusPartiallyFilled \<and>
   (\<exists>t. order_step\<^sup>*\<^sup>* StatusPartiallyFilled t \<and> OrderStatus_IsTerminal t)"
proof -
  have "order_step\<^sup>*\<^sup>* StatusPending StatusPartiallyFilled"
    by (rule converse_rtranclp_into_rtranclp [of _ _ StatusOpen])
       (simp add: order_step_iff, rule r_into_rtranclp, simp add: order_step_iff)
  then show ?thesis using order_lifecycle [of StatusPartiallyFilled] by blast
qed


section \<open>Validated orders\<close>

lemma notional_exact:
  assumes "0 < sint q" and "0 < sint p" and "sint p < 1000000"
  shows "sint (scast (q :: int32) * p :: int64) = sint q * sint p"
    and "sint q * sint p < 2147483648 * 1000000" and "0 < sint q * sint p"
proof -
  show b: "sint q * sint p < 2147483648 * 1000000"
    using assms by (intro mult_strict_mono) simp_all
  show "0 < sint q * sint p" using assms by simp
  then show "sint (scast q * p :: int64) = sint q * sint p"
    using b by (subst sint64_mult) (simp_all add: sint_int64_of_int32)
qed

definition well_formed_order :: "ProposedOrder \<Rightarrow> bool" where
  "well_formed_order ord \<longleftrightarrow>
     o_TraceID ord \<noteq> [] \<and> o_StrategyID ord \<noteq> [] \<and> o_MarketID ord \<noteq> []
     \<and> o_Side ord \<in> {SideBuy, SideSell}
     \<and> 0 < sint (o_Quantity ord) \<and> 0 < sint (o_PriceMicros ord) \<and> sint (o_PriceMicros ord) < 1000000
     \<and> sint (o_NotionalMicros ord) = sint (o_Quantity ord) * sint (o_PriceMicros ord)"

lemma Validate_ok_iff: "ProposedOrder_Validate ord = Inr () \<longleftrightarrow> well_formed_order ord"
proof (cases "0 < sint (o_Quantity ord) \<and> 0 < sint (o_PriceMicros ord) \<and> sint (o_PriceMicros ord) < 1000000")
  case True
  define n where "n = sint (o_Quantity ord) * sint (o_PriceMicros ord)"
  have "sint (scast (o_Quantity ord) * o_PriceMicros ord :: int64) = n" and "0 < n"
    using notional_exact [of "o_Quantity ord" "o_PriceMicros ord"] True by (simp_all add: n_def)
  then show ?thesis
    using True unfolding ProposedOrder_Validate_def well_formed_order_def Let_def n_def [symmetric]
    by (auto simp: sint_eq_iff [symmetric] split: if_splits)
next
  case False
  then show ?thesis
    by (auto simp: ProposedOrder_Validate_def well_formed_order_def Let_def split: if_splits)
qed

text \<open>
  Order validation is exact. \<^verbatim>\<open>ProposedOrder.Validate\<close> accepts an order exactly when its
  identifiers are present, its side is known, quantity and price are in range and the notional
  is the integer product of quantity and price: the 64-bit product the code compares with never
  wraps around for an order that passes the range checks before it.
\<close>

theorem validate_exact: "ProposedOrder_Validate ord = Inr () \<longleftrightarrow> well_formed_order ord"
  by (rule Validate_ok_iff)

lemma well_formed_notional_bounds:
  assumes "well_formed_order ord"
  shows "0 < sint (o_NotionalMicros ord)" and "sint (o_NotionalMicros ord) < 2147483648000000"
  using assms notional_exact [of "o_Quantity ord" "o_PriceMicros ord"]
  by (auto simp: well_formed_order_def)

end
