(* ===== verification/Config.thy ===== *)
theory Config
  imports Models
begin

text \<open>
  The policy of \<^verbatim>\<open>internal/config/loader.go\<close>: the structs, \<^verbatim>\<open>LoadPolicy\<close>, \<^verbatim>\<open>Policy.Validate\<close> and
  \<^verbatim>\<open>ConfigHash\<close>. Reading the file and the YAML library are parameters (\<open>readFile\<close>,
  \<open>yaml_Unmarshal\<close>, \<open>yaml_Marshal\<close>).
\<close>

record Execution =
  ex_TransmitOrders :: bool
  ex_RequireSignedApproval :: bool
  ex_RequireHeartbeat :: bool

record PerTradeLimits =
  pt_MaxNotionalMicros :: int64
  pt_MaxQuantity :: int32
  pt_MinPriceMicros :: int64
  pt_MaxPriceMicros :: int64
  pt_MaxSpreadBps :: int64

record PerPositionLimits =
  pp_MaxNotionalMicros :: int64
  pp_MaxQuantity :: int32
  pp_MaxConcentrationPct :: float64

record PerStrategyLimits =
  ps_MaxDailyLossMicros :: int64
  ps_MaxDailyTurnoverMicros :: int64
  ps_MaxOrdersPerMinute :: int32
  ps_MaxConsecutiveLosses :: int32
  ps_MaxOpenOrders :: int32

record VenueLimits =
  vl_MaxExposureMicros :: int64
  vl_MaxDailyLossMicros :: int64

record GlobalLimits =
  gl_MaxTotalExposureMicros :: int64
  gl_MaxDailyLossMicros :: int64
  gl_MaxDrawdownPct :: float64
  gl_TradingHoursStart :: string
  gl_TradingHoursEnd :: string

record DataQuality =
  dq_MaxDataAgeSeconds :: int32
  dq_MinOrderbookDepth :: int32

record KillSwitchTriggers =
  kt_GlobalDailyLossMicros :: int64
  kt_GlobalDrawdownPct :: float64
  kt_VenueDailyLossMicros :: int64
  kt_StrategyDailyLossMicros :: int64
  kt_StrategyConsecLosses :: int32
  kt_HeartbeatTimeoutSec :: int32

record Policy =
  p_Mode :: string
  p_Execution :: Execution
  p_AllowedMarkets :: "string \<rightharpoonup> string list"
  p_PerTrade :: PerTradeLimits
  p_PerPosition :: PerPositionLimits
  p_PerStrategy :: PerStrategyLimits
  p_PerVenue :: "string \<rightharpoonup> VenueLimits"
  p_Global :: GlobalLimits
  p_DataQuality :: DataQuality
  p_KillSwitch :: KillSwitchTriggers

datatype policy_error =
    ModeRequired | PerTradeNotionalNotPositive | GlobalDailyLossNotPositive
  | ReadPolicyFile | ParsePolicyFile | InvalidPolicy policy_error

definition Policy_Validate :: "Policy \<Rightarrow> (policy_error, unit) result" where
  "Policy_Validate p =
     (if p_Mode p = [] then Inl ModeRequired
      else if sint (pt_MaxNotionalMicros (p_PerTrade p)) \<le> 0 then Inl PerTradeNotionalNotPositive
      else if sint (gl_MaxDailyLossMicros (p_Global p)) \<le> 0 then Inl GlobalDailyLossNotPositive
      else Inr ())"

definition LoadPolicy ::
  "(string \<Rightarrow> bytes option) \<Rightarrow> (bytes \<Rightarrow> Policy option) \<Rightarrow> string \<Rightarrow> (policy_error, Policy) result" where
  "LoadPolicy readFile yaml_Unmarshal path =
     (case readFile path of None \<Rightarrow> Inl ReadPolicyFile
      | Some data \<Rightarrow>
        (case yaml_Unmarshal data of None \<Rightarrow> Inl ParsePolicyFile
         | Some p \<Rightarrow>
           (case Policy_Validate p of Inl e \<Rightarrow> Inl (InvalidPolicy e) | Inr _ \<Rightarrow> Inr p)))"

text \<open>\<^verbatim>\<open>fmt.Sprintf("%016x", h)\<close>.\<close>

definition show_hex16 :: "int64 \<Rightarrow> string" where
  "show_hex16 h = map (\<lambda>k. digit (unat (ucast (drop_bit (4 * k) h) :: 4 word))) (rev [0..<16])"

definition ConfigHash :: "(Policy \<Rightarrow> bytes) \<Rightarrow> Policy \<Rightarrow> string" where
  "ConfigHash yaml_Marshal p =
     ''policy:'' @ show_hex16 (foldl (\<lambda>h b. h * 31 + ucast b) 0 (yaml_Marshal p))"

lemma LoadPolicy_ok:
  assumes "LoadPolicy readFile yaml_Unmarshal path = Inr p"
  shows "p_Mode p \<noteq> []" and "0 < sint (pt_MaxNotionalMicros (p_PerTrade p))"
    and "0 < sint (gl_MaxDailyLossMicros (p_Global p))"
  using assms
  by (auto simp: LoadPolicy_def Policy_Validate_def split: option.splits sum.splits if_splits)

lemma length_ConfigHash [simp]: "length (ConfigHash yaml_Marshal p) = 23"
  by (simp add: ConfigHash_def show_hex16_def)

end
