(* ===== verification/Events.thy ===== *)
theory Events
  imports Models
begin

text \<open>
  The event bus of \<^verbatim>\<open>internal/events\<close>: the payloads of \<^verbatim>\<open>schemas.go\<close>, the subjects, and
  \<^verbatim>\<open>Publisher.Publish\<close> of \<^verbatim>\<open>publisher.go\<close>. What a service has published is the list of messages
  the JetStream accepted, in order. PostgreSQL and NATS are outside the program: an operation
  takes a \<open>faults\<close> oracle that says which of its calls to them fail, and every theorem holds
  for every oracle it does not constrain.
\<close>

section \<open>Calls that may fail\<close>

datatype ext_call =
    Db string string  \<comment> \<open>a statement (by the table or query it is about) and the row's key\<close>
  | Pub string        \<comment> \<open>publication on a subject\<close>
  | Rpc string string \<comment> \<open>a call of another service (by its method) about the row with this key\<close>

type_synonym faults = "ext_call \<Rightarrow> bool"

definition no_faults :: faults where
  "no_faults c = False"

lemma no_faults_simp [simp]: "no_faults c = False"
  by (simp add: no_faults_def)


section \<open>Payloads\<close>

record MarketDataEvent =
  mde_Venue :: string
  mde_MarketID :: string
  mde_BidPriceMicros :: int64
  mde_AskPriceMicros :: int64
  mde_LastPriceMicros :: int64
  mde_BidDepth :: int32
  mde_AskDepth :: int32
  mde_Timestamp :: time

record OrderProposedEvent =
  ope_TraceID :: string
  ope_StrategyID :: string
  ope_Venue :: string
  ope_MarketID :: string
  ope_Side :: string
  ope_Quantity :: int32
  ope_PriceMicros :: int64
  ope_NotionalMicros :: int64
  ope_Timestamp :: time

record OrderApprovedEvent =
  oae_TraceID :: string
  oae_PolicyConfigHash :: string
  oae_Timestamp :: time

record CheckResult =
  cr_Name :: string
  cr_Result :: string
  cr_Detail :: string

record OrderDeniedEvent =
  ode_TraceID :: string
  ode_DenyReason :: string
  ode_FailedChecks :: "CheckResult list"
  ode_Timestamp :: time

record OrderSubmittedEvent =
  ose_TraceID :: string
  ose_InternalOrderID :: string
  ose_ExchangeOrderID :: string
  ose_CredentialID :: string
  ose_Venue :: string
  ose_Timestamp :: time

record OrderFilledEvent =
  ofe_TraceID :: string
  ofe_InternalOrderID :: string
  ofe_ExchangeOrderID :: string
  ofe_FilledQuantity :: int32
  ofe_AveragePriceMicros :: int64
  ofe_RemainingQuantity :: int32
  ofe_Timestamp :: time

record OrderCancelledEvent =
  oce_TraceID :: string
  oce_InternalOrderID :: string
  oce_Reason :: string
  oce_CancelledBy :: string
  oce_Timestamp :: time

record KillSwitchEvent =
  kse_Level :: string
  kse_Scope :: string
  kse_Reason :: string
  kse_TriggeredBy :: string
  kse_Timestamp :: time

datatype event =
    EvMarketData MarketDataEvent
  | EvOrderProposed OrderProposedEvent
  | EvOrderApproved OrderApprovedEvent
  | EvOrderDenied OrderDeniedEvent
  | EvOrderSubmitted OrderSubmittedEvent
  | EvOrderFilled OrderFilledEvent
  | EvOrderCancelled OrderCancelledEvent
  | EvKillSwitch KillSwitchEvent


section \<open>Subjects and publication\<close>

abbreviation SubjectMarketData :: string where "SubjectMarketData \<equiv> ''data.market''"
abbreviation SubjectOrderProposed :: string where "SubjectOrderProposed \<equiv> ''order.proposed''"
abbreviation SubjectOrderApproved :: string where "SubjectOrderApproved \<equiv> ''order.approved''"
abbreviation SubjectOrderDenied :: string where "SubjectOrderDenied \<equiv> ''order.denied''"
abbreviation SubjectOrderSubmitted :: string where "SubjectOrderSubmitted \<equiv> ''order.submitted''"
abbreviation SubjectOrderFilled :: string where "SubjectOrderFilled \<equiv> ''order.filled''"
abbreviation SubjectOrderCancelled :: string where "SubjectOrderCancelled \<equiv> ''order.cancelled''"
abbreviation SubjectKillActivated :: string where "SubjectKillActivated \<equiv> ''kill.activated''"

type_synonym outbox = "(string \<times> event) list"

datatype publish_error = PublishFailed string

definition Publish :: "faults \<Rightarrow> string \<Rightarrow> event \<Rightarrow> outbox \<Rightarrow> (publish_error, unit) result \<times> outbox" where
  "Publish flt subject payload out =
     (if flt (Pub subject) then (Inl (PublishFailed subject), out)
      else (Inr (), out @ [(subject, payload)]))"

text \<open>Every caller in the code drops the error, so a call is its effect on the stream.\<close>

definition publish :: "faults \<Rightarrow> string \<Rightarrow> event \<Rightarrow> outbox \<Rightarrow> outbox" where
  "publish flt subject payload out = snd (Publish flt subject payload out)"

lemma publish_eq:
  "publish flt subject payload out =
     (if flt (Pub subject) then out else out @ [(subject, payload)])"
  by (simp add: publish_def Publish_def)

lemma in_publish: "m \<in> set out \<Longrightarrow> m \<in> set (publish flt subject payload out)"
  by (simp add: publish_eq)



section \<open>The kill switch table\<close>

text \<open>
  \<^verbatim>\<open>watchdog.kill_switch_events\<close> of migration 001: written by the watchdog (and by \<^verbatim>\<open>trade-ctl\<close>),
  read at startup by the watchdog and by the risk engine.
\<close>

record KillRow =
  ks_level :: string
  ks_scope :: string
  ks_reason :: string
  ks_triggered_by :: string
  ks_acknowledged :: bool
  ks_acknowledged_by :: "string option"
  ks_acknowledged_at :: "time option"
  ks_root_cause :: "string option"
  ks_resumed :: bool
  ks_resumed_by :: "string option"
  ks_resumed_at :: "time option"
  ks_triggered_at :: time

abbreviation LevelSoftPause :: string where "LevelSoftPause \<equiv> ''soft_pause''"
abbreviation LevelCancelOnly :: string where "LevelCancelOnly \<equiv> ''cancel_only''"
abbreviation LevelFullStop :: string where "LevelFullStop \<equiv> ''full_stop''"

definition severityRank :: "string \<Rightarrow> nat" where
  "severityRank level =
     (if level = LevelSoftPause then 1 else if level = LevelCancelOnly then 2
      else if level = LevelFullStop then 3 else 0)"

text \<open>The level constraint of the table.\<close>

definition kill_levels :: "string list" where
  "kill_levels = [LevelSoftPause, LevelCancelOnly, LevelFullStop]"

lemma severityRank_pos: "0 < severityRank l \<longleftrightarrow> l \<in> set kill_levels"
  by (simp add: severityRank_def kill_levels_def)

lemma severityRank_inj:
  "l \<in> set kill_levels \<Longrightarrow> severityRank l = severityRank k \<Longrightarrow> l = k"
  by (auto simp: severityRank_def kill_levels_def split: if_splits)

end
