(* ===== verification/Risk_Checks.thy ===== *)
theory Risk_Checks
  imports Config Events
begin

text \<open>
  The risk state of \<^verbatim>\<open>services/risk/engine.go\<close> and the twenty pre-trade checks of
  \<^verbatim>\<open>services/risk/checks.go\<close>, one definition per check with the code's branches, comparisons,
  overflow behaviour and messages, and \<^verbatim>\<open>RunAllChecks\<close>. \<open>path_Match\<close> follows the documented
  semantics of Go's \<^verbatim>\<open>path.Match\<close>. The main result states in integers what an order that passes
  all twenty has been held to.
\<close>

section \<open>State\<close>

record StrategyState =
  ss_DailyPnL :: Money
  ss_Exposure :: Money
  ss_DailyOrderCount :: int32
  ss_DailyTurnover :: Money
  ss_ConsecutiveLosses :: int32
  ss_Halted :: bool
  ss_HaltReason :: string
  ss_OpenOrderCount :: int32

record VenueState =
  vs_DailyPnL :: Money
  vs_Exposure :: Money
  vs_Halted :: bool

record MarketState =
  ms_PositionContracts :: int32
  ms_PositionNotional :: Money
  ms_StrategyID :: string

text \<open>\<open>st_NowFunc\<close> is the time a set \<^verbatim>\<open>NowFunc\<close> returns at the moment of the call.\<close>

record State =
  st_SystemMode :: string
  st_TotalExposure :: Money
  st_DailyPnL :: Money
  st_PeakEquity :: Money
  st_CurrentEquity :: Money
  st_Strategies :: "string \<rightharpoonup> StrategyState"
  st_Venues :: "string \<rightharpoonup> VenueState"
  st_Markets :: "string \<rightharpoonup> MarketState"
  st_RecentOrderTimes :: "string \<rightharpoonup> time list"
  st_RecentOrderKeys :: "string \<rightharpoonup> time"
  st_RecentNotionals :: "string \<rightharpoonup> int64 list"
  st_MarketData :: "string \<rightharpoonup> MarketData"
  st_NowFunc :: "time option"

definition NewEmptyState :: State where
  "NewEmptyState =
     \<lparr>st_SystemMode = ''normal'', st_TotalExposure = 0, st_DailyPnL = 0, st_PeakEquity = 0,
      st_CurrentEquity = 0, st_Strategies = Map.empty, st_Venues = Map.empty, st_Markets = Map.empty,
      st_RecentOrderTimes = Map.empty, st_RecentOrderKeys = Map.empty,
      st_RecentNotionals = Map.empty, st_MarketData = Map.empty, st_NowFunc = None\<rparr>"

text \<open>\<open>wall\<close> is what \<^verbatim>\<open>time.Now()\<close> returns.\<close>

definition State_Now :: "time \<Rightarrow> State \<Rightarrow> time" where
  "State_Now wall s = (case st_NowFunc s of Some t \<Rightarrow> t | None \<Rightarrow> wall)"

record CheckResultDetail =
  c_Name :: string
  c_Passed :: bool
  c_Detail :: string

definition pass :: CheckResultDetail where
  "pass = \<lparr>c_Name = [], c_Passed = True, c_Detail = []\<rparr>"

definition fail :: "string \<Rightarrow> CheckResultDetail" where
  "fail detail = \<lparr>c_Name = [], c_Passed = False, c_Detail = detail\<rparr>"

lemma pass_passed [simp]: "c_Passed pass" and fail_passed [simp]: "\<not> c_Passed (fail d)"
  by (simp_all add: pass_def fail_def)

abbreviation d64 :: "int64 \<Rightarrow> string" where "d64 n \<equiv> show_int (sint n)"
abbreviation d32 :: "int32 \<Rightarrow> string" where "d32 n \<equiv> show_int (sint n)"


section \<open>Glob patterns\<close>

text \<open>
  \<^verbatim>\<open>path.Match\<close>: a star for any run of characters other than the slash, a question mark for one
  of them, character classes with ranges and negation, backslash escapes; a malformed pattern
  matches nothing. \<open>class_ranges\<close> reads the ranges of a class and says whether \<open>r\<close> is in one.
\<close>

definition getEsc :: "string \<Rightarrow> (char \<times> string) option" where
  "getEsc p =
     (case p of [] \<Rightarrow> None
      | c # q \<Rightarrow>
        if c = CHR ''-'' \<or> c = CHR '']'' then None
        else if c = CHR 0x5C
        then (case q of [] \<Rightarrow> None | x # q' \<Rightarrow> if q' = [] then None else Some (x, q'))
        else if q = [] then None else Some (c, q))"

lemma getEsc_shorter: "getEsc p = Some (c, q) \<Longrightarrow> length q < length p"
  by (auto simp: getEsc_def split: list.splits if_splits)

definition char_le :: "char \<Rightarrow> char \<Rightarrow> bool" where
  "char_le a b \<longleftrightarrow> (of_char a :: nat) \<le> of_char b"

function class_ranges :: "bool \<Rightarrow> char \<Rightarrow> string \<Rightarrow> (bool \<times> string) option" where
  "class_ranges first r p =
     (if \<not> first \<and> p \<noteq> [] \<and> hd p = CHR '']'' then Some (False, tl p)
      else case getEsc p of None \<Rightarrow> None
      | Some (lo, q) \<Rightarrow>
        if q \<noteq> [] \<and> hd q = CHR ''-''
        then (case getEsc (tl q) of None \<Rightarrow> None
              | Some (hi, q') \<Rightarrow>
                map_option (\<lambda>(b, rest). (b \<or> (char_le lo r \<and> char_le r hi), rest)) (class_ranges False r q'))
        else map_option (\<lambda>(b, rest). (b \<or> lo = r, rest)) (class_ranges False r q))"
  by pat_completeness auto
termination
  by (relation "measure (\<lambda>(_, _, p). length p)") (auto dest!: getEsc_shorter)

declare class_ranges.simps [simp del]

lemma class_ranges_shorter: "class_ranges first r p = Some (b, q) \<Longrightarrow> length q < length p"
proof (induction first r p arbitrary: b q rule: class_ranges.induct)
  case (1 first r p)
  note eq = 1(3) [unfolded class_ranges.simps [of first r p]]
  show ?case
  proof (cases "\<not> first \<and> p \<noteq> [] \<and> hd p = CHR '']''")
    case True
    then show ?thesis using eq by (cases p) auto
  next
    case False
    with eq obtain lo q1 where g: "getEsc p = Some (lo, q1)"
      by (auto split: option.splits)
    show ?thesis
    proof (cases "q1 \<noteq> [] \<and> hd q1 = CHR ''-''")
      case range: True
      then obtain hi q' b' where h: "getEsc (tl q1) = Some (hi, q')"
        and c: "class_ranges False r q' = Some (b', q)"
        using eq False g by (auto split: option.splits)
      have "length q < length q'"
        by (rule 1(1) [OF False g refl range h refl c])
      then show ?thesis using getEsc_shorter [OF g] getEsc_shorter [OF h] by simp
    next
      case single: False
      then obtain b' where c: "class_ranges False r q1 = Some (b', q)"
        using eq False g by (auto simp only: option.case prod.case if_False split: option.splits)
      have "length q < length q1"
        by (rule 1(2) [OF False g refl single c])
      then show ?thesis using getEsc_shorter [OF g] by simp
    qed
  qed
qed

definition class_match :: "char \<Rightarrow> string \<Rightarrow> (bool \<times> string) option" where
  "class_match r p =
     (if p \<noteq> [] \<and> hd p = CHR ''^''
      then map_option (\<lambda>(b, rest). (\<not> b, rest)) (class_ranges True r (tl p))
      else class_ranges True r p)"

lemma class_match_shorter: "class_match r p = Some (b, q) \<Longrightarrow> length q < length p"
  by (auto simp: class_match_def split: if_splits dest!: class_ranges_shorter)

function path_Match :: "string \<Rightarrow> string \<Rightarrow> bool" where
  "path_Match [] s \<longleftrightarrow> s = []"
| "path_Match (x # p) s \<longleftrightarrow>
     (if x = CHR ''*''
      then path_Match p s \<or> (case s of [] \<Rightarrow> False | c # s' \<Rightarrow> c \<noteq> CHR ''/'' \<and> path_Match (x # p) s')
      else case s of [] \<Rightarrow> False
      | c # s' \<Rightarrow>
        if x = CHR ''?'' then c \<noteq> CHR ''/'' \<and> path_Match p s'
        else if x = CHR ''['' then
          (case class_match c p of None \<Rightarrow> False | Some (b, rest) \<Rightarrow> b \<and> path_Match rest s')
        else if x = CHR 0x5C then
          (case p of [] \<Rightarrow> False | y # q \<Rightarrow> y = c \<and> path_Match q s')
        else x = c \<and> path_Match p s')"
  by pat_completeness auto
termination
  by (relation "measure (\<lambda>(p, s). length p + length s)")
     (auto dest!: class_match_shorter)


declare path_Match.simps(2) [simp del]

lemma path_Match_plain:
  assumes "x \<noteq> CHR ''*''" and "x \<noteq> CHR ''?''" and "x \<noteq> CHR ''[''" and "x \<noteq> CHR 0x5C"
  shows "path_Match (x # p) s \<longleftrightarrow> (\<exists>s'. s = x # s' \<and> path_Match p s')"
  using assms by (subst path_Match.simps(2)) (simp split: list.splits, blast)

lemma path_Match_star_Cons:
  "path_Match (CHR ''*'' # p) (c # s) \<longleftrightarrow>
     path_Match p (c # s) \<or> (c \<noteq> CHR ''/'' \<and> path_Match (CHR ''*'' # p) s)"
  by (subst path_Match.simps(2)) simp

lemma path_Match_star_Nil: "path_Match (CHR ''*'' # p) [] \<longleftrightarrow> path_Match p []"
  by (subst path_Match.simps(2)) simp

text \<open>A pattern without special characters matches itself only; a final star any suffix without a slash.\<close>

lemma path_Match_star: "path_Match ''*'' s \<longleftrightarrow> CHR ''/'' \<notin> set s"
  by (induction s) (auto simp: path_Match_star_Nil path_Match_star_Cons)

lemma path_Match_prefix:
  assumes "\<forall>x \<in> set p. x \<noteq> CHR ''*'' \<and> x \<noteq> CHR ''?'' \<and> x \<noteq> CHR ''['' \<and> x \<noteq> CHR 0x5C"
  shows "path_Match (p @ q) s \<longleftrightarrow> (\<exists>s'. s = p @ s' \<and> path_Match q s')"
  using assms by (induction p arbitrary: s) (simp, simp add: path_Match_plain, blast)


section \<open>The checks\<close>

type_synonym CheckFunc = "time \<Rightarrow> ProposedOrder \<Rightarrow> State \<Rightarrow> Policy \<Rightarrow> CheckResultDetail"

definition checkSystemMode :: CheckFunc where
  "checkSystemMode wall ord st pol =
     (if st_SystemMode st \<noteq> ''normal'' then fail (''system in '' @ st_SystemMode st @ '' mode'') else pass)"

definition checkStrategyNotHalted :: CheckFunc where
  "checkStrategyNotHalted wall ord st pol =
     (case st_Strategies st (o_StrategyID ord) of
        Some ss \<Rightarrow> if ss_Halted ss then fail (''strategy halted: '' @ ss_HaltReason ss) else pass
      | None \<Rightarrow> pass)"

definition checkVenueNotHalted :: CheckFunc where
  "checkVenueNotHalted wall ord st pol =
     (case st_Venues st (o_Venue ord) of
        Some vs \<Rightarrow> if vs_Halted vs then fail ''venue halted'' else pass
      | None \<Rightarrow> pass)"

definition checkMarketAllowed :: CheckFunc where
  "checkMarketAllowed wall ord st pol =
     (case p_AllowedMarkets pol (o_Venue ord) of
        None \<Rightarrow> fail (''venue '' @ o_Venue ord @ '' not in allowed markets'')
      | Some patterns \<Rightarrow>
          if list_ex (\<lambda>pattern. pattern = ''*'' \<or> path_Match pattern (o_MarketID ord)) patterns then pass
          else fail (''market '' @ o_MarketID ord @ '' not in allowed list for venue '' @ o_Venue ord))"

definition market_key :: "ProposedOrder \<Rightarrow> string" where
  "market_key ord = o_Venue ord @ '':'' @ o_MarketID ord"

definition position_key :: "ProposedOrder \<Rightarrow> string" where
  "position_key ord = o_Venue ord @ '':'' @ o_MarketID ord @ '':'' @ o_StrategyID ord"

definition checkDataFreshness :: CheckFunc where
  "checkDataFreshness wall ord st pol =
     (case st_MarketData st (market_key ord) of
        None \<Rightarrow> fail ''no market data available''
      | Some md \<Rightarrow>
          let age = duration_Seconds (time_Sub (State_Now wall st) (md_UpdatedAt md));
              maxAge = f_of_int (sint (dq_MaxDataAgeSeconds (p_DataQuality pol))) in
          if f_less maxAge age
          then fail (''data age '' @ show_float 1 age @ ''s exceeds '' @ show_float 0 maxAge @ ''s limit'')
          else pass)"

definition checkPriceSanity :: CheckFunc where
  "checkPriceSanity wall ord st pol =
     (let lims = p_PerTrade pol in
      if sint (o_PriceMicros ord) < sint (pt_MinPriceMicros lims)
      then fail (''price '' @ d64 (o_PriceMicros ord) @ '' below minimum '' @ d64 (pt_MinPriceMicros lims))
      else if sint (pt_MaxPriceMicros lims) < sint (o_PriceMicros ord)
      then fail (''price '' @ d64 (o_PriceMicros ord) @ '' above maximum '' @ d64 (pt_MaxPriceMicros lims))
      else pass)"

definition checkSpread :: CheckFunc where
  "checkSpread wall ord st pol =
     (case st_MarketData st (market_key ord) of
        None \<Rightarrow> \<lparr>c_Name = ''spread_check'', c_Passed = True, c_Detail = ''no data, skipped''\<rparr>
      | Some md \<Rightarrow>
          let spreadBps = SpreadBps md in
          if sint (pt_MaxSpreadBps (p_PerTrade pol)) < sint spreadBps
          then fail (''spread '' @ d64 spreadBps @ '' bps exceeds '' @ d64 (pt_MaxSpreadBps (p_PerTrade pol))
                     @ '' bps limit'')
          else pass)"

definition checkPerTradeSize :: CheckFunc where
  "checkPerTradeSize wall ord st pol =
     (if sint (pt_MaxQuantity (p_PerTrade pol)) < sint (o_Quantity ord)
      then fail (''quantity '' @ d32 (o_Quantity ord) @ '' exceeds '' @ d32 (pt_MaxQuantity (p_PerTrade pol))
                 @ '' limit'')
      else pass)"

definition checkPerTradeNotional :: CheckFunc where
  "checkPerTradeNotional wall ord st pol =
     (if sint (pt_MaxNotionalMicros (p_PerTrade pol)) < sint (o_NotionalMicros ord)
      then fail (''notional '' @ d64 (o_NotionalMicros ord) @ '' exceeds ''
                 @ d64 (pt_MaxNotionalMicros (p_PerTrade pol)) @ '' limit'')
      else pass)"

definition current_notional :: "ProposedOrder \<Rightarrow> State \<Rightarrow> int64" where
  "current_notional ord st =
     (case st_Markets st (position_key ord) of None \<Rightarrow> 0 | Some ms \<Rightarrow> ms_PositionNotional ms)"

definition checkPositionLimit :: CheckFunc where
  "checkPositionLimit wall ord st pol =
     (let newNotional = current_notional ord st + o_NotionalMicros ord in
      if sint (pp_MaxNotionalMicros (p_PerPosition pol)) < sint newNotional
      then fail (''position would be '' @ d64 newNotional @ '', exceeds ''
                 @ d64 (pp_MaxNotionalMicros (p_PerPosition pol)) @ '' limit'')
      else pass)"

definition concentration_pct :: "ProposedOrder \<Rightarrow> State \<Rightarrow> float64" where
  "concentration_pct ord st =
     (let newNotional = current_notional ord st + o_NotionalMicros ord;
          totalWithNew = st_TotalExposure st + o_NotionalMicros ord
      in f_mul (f_div (f_of_int (sint newNotional)) (f_of_int (sint totalWithNew))) (f_of_int 100))"

definition checkConcentration :: CheckFunc where
  "checkConcentration wall ord st pol =
     (if st_TotalExposure st = 0 then pass
      else let pct = concentration_pct ord st in
        if f_less (pp_MaxConcentrationPct (p_PerPosition pol)) pct
        then fail (''concentration '' @ show_float 1 pct @ ''% exceeds ''
                   @ show_float 1 (pp_MaxConcentrationPct (p_PerPosition pol)) @ ''% limit'')
        else pass)"

definition checkStrategyDailyLoss :: CheckFunc where
  "checkStrategyDailyLoss wall ord st pol =
     (case st_Strategies st (o_StrategyID ord) of
        None \<Rightarrow> pass
      | Some ss \<Rightarrow>
          if sint (ss_DailyPnL ss) < sint (- ps_MaxDailyLossMicros (p_PerStrategy pol))
          then fail (''strategy daily loss '' @ Money_String (ss_DailyPnL ss) @ '' exceeds limit'')
          else pass)"

definition checkStrategyOrderFrequency :: CheckFunc where
  "checkStrategyOrderFrequency wall ord st pol =
     (case st_RecentOrderTimes st (o_StrategyID ord) of
        None \<Rightarrow> pass
      | Some ts \<Rightarrow>
          let oneMinuteAgo = State_Now wall st - time_Minute;
              count = (word_of_nat (length (filter (\<lambda>t. oneMinuteAgo < t) ts)) :: int32) in
          if sint (ps_MaxOrdersPerMinute (p_PerStrategy pol)) \<le> sint count
          then fail (d32 count @ '' orders/min exceeds ''
                     @ d32 (ps_MaxOrdersPerMinute (p_PerStrategy pol)) @ '' limit'')
          else pass)"

definition checkStrategyConsecutiveLosses :: CheckFunc where
  "checkStrategyConsecutiveLosses wall ord st pol =
     (case st_Strategies st (o_StrategyID ord) of
        None \<Rightarrow> pass
      | Some ss \<Rightarrow>
          if sint (ps_MaxConsecutiveLosses (p_PerStrategy pol)) \<le> sint (ss_ConsecutiveLosses ss)
          then fail (d32 (ss_ConsecutiveLosses ss) @ '' consecutive losses exceeds ''
                     @ d32 (ps_MaxConsecutiveLosses (p_PerStrategy pol)) @ '' limit'')
          else pass)"

definition checkVenueExposure :: CheckFunc where
  "checkVenueExposure wall ord st pol =
     (case p_PerVenue pol (o_Venue ord) of
        None \<Rightarrow> pass
      | Some vl \<Rightarrow>
          let currentExposure = (case st_Venues st (o_Venue ord) of None \<Rightarrow> 0 | Some vs \<Rightarrow> vs_Exposure vs) in
          if sint (vl_MaxExposureMicros vl) < sint (currentExposure + o_NotionalMicros ord)
          then fail (''venue exposure would be '' @ d64 (currentExposure + o_NotionalMicros ord)
                     @ '', exceeds '' @ d64 (vl_MaxExposureMicros vl) @ '' limit'')
          else pass)"

definition checkGlobalExposure :: CheckFunc where
  "checkGlobalExposure wall ord st pol =
     (let newExposure = st_TotalExposure st + o_NotionalMicros ord in
      if sint (gl_MaxTotalExposureMicros (p_Global pol)) < sint newExposure
      then fail (''global exposure would be '' @ d64 newExposure @ '', exceeds ''
                 @ d64 (gl_MaxTotalExposureMicros (p_Global pol)) @ '' limit'')
      else pass)"

definition checkGlobalDailyLoss :: CheckFunc where
  "checkGlobalDailyLoss wall ord st pol =
     (if sint (st_DailyPnL st) < sint (- gl_MaxDailyLossMicros (p_Global pol))
      then fail (''global daily loss '' @ Money_String (st_DailyPnL st) @ '' exceeds limit'')
      else pass)"

definition drawdown_pct :: "State \<Rightarrow> float64" where
  "drawdown_pct st =
     f_mul (f_div (f_of_int (sint (st_PeakEquity st - st_CurrentEquity st)))
                  (f_of_int (sint (st_PeakEquity st)))) (f_of_int 100)"

definition checkGlobalDrawdown :: CheckFunc where
  "checkGlobalDrawdown wall ord st pol =
     (if st_PeakEquity st = 0 then pass
      else if f_le (gl_MaxDrawdownPct (p_Global pol)) (drawdown_pct st)
      then fail (''drawdown '' @ show_float 2 (drawdown_pct st) @ ''% exceeds ''
                 @ show_float 2 (gl_MaxDrawdownPct (p_Global pol)) @ ''% limit'')
      else pass)"

definition checkDuplicateOrder :: CheckFunc where
  "checkDuplicateOrder wall ord st pol =
     (case st_RecentOrderKeys st (IdempotencyKey ord) of
        Some lastSeen \<Rightarrow>
          if time_Sub (State_Now wall st) lastSeen < 30 * time_Second
          then fail ''duplicate order within 30s window'' else pass
      | None \<Rightarrow> pass)"

text \<open>\<open>recent\<close> is the slice of the last ten values, \<open>avg\<close> the 64-bit sum divided by its length.\<close>

definition last10 :: "'a list \<Rightarrow> 'a list" where
  "last10 xs = (if 10 < length xs then drop (length xs - 10) xs else xs)"

definition checkFatFinger :: CheckFunc where
  "checkFatFinger wall ord st pol =
     (let notionals = map_get (st_RecentNotionals st) (o_StrategyID ord) [] in
      if length notionals < 3 then pass
      else let recent = last10 notionals;
               sum = foldl (+) 0 recent;
               avg = go_div sum (word_of_nat (length recent)) in
        if 0 < sint avg \<and> sint (avg * 5) < sint (o_NotionalMicros ord)
        then fail (''notional '' @ d64 (o_NotionalMicros ord) @ '' is >5x recent average '' @ d64 avg)
        else pass)"

definition allChecks :: "(string \<times> CheckFunc) list" where
  "allChecks =
     [(''system_mode'', checkSystemMode),
      (''strategy_halted'', checkStrategyNotHalted),
      (''venue_halted'', checkVenueNotHalted),
      (''market_allowed'', checkMarketAllowed),
      (''data_freshness'', checkDataFreshness),
      (''price_sanity'', checkPriceSanity),
      (''spread_check'', checkSpread),
      (''per_trade_size'', checkPerTradeSize),
      (''per_trade_notional'', checkPerTradeNotional),
      (''position_limit'', checkPositionLimit),
      (''concentration'', checkConcentration),
      (''strategy_daily_loss'', checkStrategyDailyLoss),
      (''strategy_order_freq'', checkStrategyOrderFrequency),
      (''strategy_consec_loss'', checkStrategyConsecutiveLosses),
      (''venue_exposure'', checkVenueExposure),
      (''global_exposure'', checkGlobalExposure),
      (''global_daily_loss'', checkGlobalDailyLoss),
      (''global_drawdown'', checkGlobalDrawdown),
      (''duplicate_order'', checkDuplicateOrder),
      (''fat_finger'', checkFatFinger)]"

definition RunAllChecks :: "time \<Rightarrow> ProposedOrder \<Rightarrow> State \<Rightarrow> Policy \<Rightarrow> CheckResultDetail list" where
  "RunAllChecks wall ord st pol =
     map (\<lambda>(name, f). (f wall ord st pol)\<lparr>c_Name := name\<rparr>) allChecks"



section \<open>What passing all checks means\<close>

text \<open>
  The numbers the checks add stay in range: positions and exposures within \<open>2 ^ 62\<close> in
  magnitude, loss limits that can be negated, a freshness limit below \<open>2 ^ 22\<close> seconds, at most
  \<open>2 ^ 31\<close> recent orders, recent notionals as of validated orders.
\<close>

definition in_range62 :: "int64 \<Rightarrow> bool" where
  "in_range62 x \<longleftrightarrow> \<bar>sint x\<bar> < 4611686018427387904"

definition numbers_in_range :: "ProposedOrder \<Rightarrow> State \<Rightarrow> Policy \<Rightarrow> bool" where
  "numbers_in_range ord st pol \<longleftrightarrow>
     in_range62 (current_notional ord st) \<and> in_range62 (st_TotalExposure st)
     \<and> (\<forall>vs. st_Venues st (o_Venue ord) = Some vs \<longrightarrow> in_range62 (vs_Exposure vs))
     \<and> in_range62 (ps_MaxDailyLossMicros (p_PerStrategy pol)) \<and> in_range62 (gl_MaxDailyLossMicros (p_Global pol))
     \<and> 0 \<le> sint (dq_MaxDataAgeSeconds (p_DataQuality pol))
     \<and> sint (dq_MaxDataAgeSeconds (p_DataQuality pol)) < 4194304
     \<and> (\<forall>ts. st_RecentOrderTimes st (o_StrategyID ord) = Some ts \<longrightarrow> length ts < 2147483648)
     \<and> (\<forall>n \<in> set (map_get (st_RecentNotionals st) (o_StrategyID ord) []).
          0 \<le> sint n \<and> sint n < 2147483648000000)"

text \<open>The limits, in integers (the two percentages are compared as the floats the code computes).\<close>

definition recent_average :: "ProposedOrder \<Rightarrow> State \<Rightarrow> int" where
  "recent_average ord st =
     (let recent = last10 (map_get (st_RecentNotionals st) (o_StrategyID ord) [])
      in (\<Sum>n\<leftarrow>recent. sint n) div int (length recent))"

definition trading_permitted :: "time \<Rightarrow> ProposedOrder \<Rightarrow> State \<Rightarrow> Policy \<Rightarrow> bool" where
  "trading_permitted now ord st pol \<longleftrightarrow>
     st_SystemMode st = ''normal''
     \<and> (\<forall>ss. st_Strategies st (o_StrategyID ord) = Some ss \<longrightarrow> \<not> ss_Halted ss)
     \<and> (\<forall>vs. st_Venues st (o_Venue ord) = Some vs \<longrightarrow> \<not> vs_Halted vs)
     \<and> (\<exists>patterns. p_AllowedMarkets pol (o_Venue ord) = Some patterns
          \<and> (\<exists>p \<in> set patterns. p = ''*'' \<or> path_Match p (o_MarketID ord)))
     \<and> (\<exists>md. st_MarketData st (market_key ord) = Some md
          \<and> now - md_UpdatedAt md \<le> sint (dq_MaxDataAgeSeconds (p_DataQuality pol)) * 1000000000
          \<and> sint (SpreadBps md) \<le> sint (pt_MaxSpreadBps (p_PerTrade pol)))"

definition size_permitted :: "ProposedOrder \<Rightarrow> State \<Rightarrow> Policy \<Rightarrow> bool" where
  "size_permitted ord st pol \<longleftrightarrow>
     sint (pt_MinPriceMicros (p_PerTrade pol)) \<le> sint (o_PriceMicros ord)
     \<and> sint (o_PriceMicros ord) \<le> sint (pt_MaxPriceMicros (p_PerTrade pol))
     \<and> sint (o_Quantity ord) \<le> sint (pt_MaxQuantity (p_PerTrade pol))
     \<and> sint (o_NotionalMicros ord) \<le> sint (pt_MaxNotionalMicros (p_PerTrade pol))
     \<and> sint (current_notional ord st) + sint (o_NotionalMicros ord)
         \<le> sint (pp_MaxNotionalMicros (p_PerPosition pol))
     \<and> (st_TotalExposure st = 0 \<or> \<not> f_less (pp_MaxConcentrationPct (p_PerPosition pol)) (concentration_pct ord st))
     \<and> (\<forall>vl. p_PerVenue pol (o_Venue ord) = Some vl \<longrightarrow>
          sint (case st_Venues st (o_Venue ord) of None \<Rightarrow> 0 | Some vs \<Rightarrow> vs_Exposure vs)
            + sint (o_NotionalMicros ord) \<le> sint (vl_MaxExposureMicros vl))
     \<and> sint (st_TotalExposure st) + sint (o_NotionalMicros ord) \<le> sint (gl_MaxTotalExposureMicros (p_Global pol))
     \<and> (length (map_get (st_RecentNotionals st) (o_StrategyID ord) []) < 3
        \<or> recent_average ord st \<le> 0 \<or> sint (o_NotionalMicros ord) \<le> 5 * recent_average ord st)"

definition losses_permitted :: "ProposedOrder \<Rightarrow> State \<Rightarrow> Policy \<Rightarrow> bool" where
  "losses_permitted ord st pol \<longleftrightarrow>
     (\<forall>ss. st_Strategies st (o_StrategyID ord) = Some ss \<longrightarrow>
        - sint (ps_MaxDailyLossMicros (p_PerStrategy pol)) \<le> sint (ss_DailyPnL ss)
        \<and> sint (ss_ConsecutiveLosses ss) < sint (ps_MaxConsecutiveLosses (p_PerStrategy pol)))
     \<and> - sint (gl_MaxDailyLossMicros (p_Global pol)) \<le> sint (st_DailyPnL st)
     \<and> (st_PeakEquity st = 0 \<or> \<not> f_le (gl_MaxDrawdownPct (p_Global pol)) (drawdown_pct st))"

definition rate_permitted :: "time \<Rightarrow> ProposedOrder \<Rightarrow> State \<Rightarrow> Policy \<Rightarrow> bool" where
  "rate_permitted now ord st pol \<longleftrightarrow>
     (\<forall>ts. st_RecentOrderTimes st (o_StrategyID ord) = Some ts \<longrightarrow>
        int (length (filter (\<lambda>t. now - time_Minute < t) ts)) < sint (ps_MaxOrdersPerMinute (p_PerStrategy pol)))
     \<and> (\<forall>t. st_RecentOrderKeys st (IdempotencyKey ord) = Some t \<longrightarrow> 30 * time_Second \<le> now - t)"

lemma sint_add_in_range:
  assumes "in_range62 x" and "0 < sint n" and "sint n < 2147483648000000"
  shows "sint (x + n) = sint x + sint n"
  using assms by (intro sint64_add) (simp_all add: in_range62_def)

lemma sint_neg_in_range: "in_range62 x \<Longrightarrow> sint (- x) = - sint x"
  by (intro sint64_minus) (auto simp: in_range62_def)

lemma in_range62_0: "in_range62 0"
  by (simp add: in_range62_def)

lemma sint_word_of_nat32: "n < 2147483648 \<Longrightarrow> sint (word_of_nat n :: int32) = int n"
  by (subst of_int_of_nat_eq [symmetric])
     (simp add: sint_sbintrunc' signed_take_bit_int_eq_self del: of_int_of_nat_eq)

lemma freshness_passes:
  assumes "0 \<le> sint (dq_MaxDataAgeSeconds (p_DataQuality pol))"
    and "sint (dq_MaxDataAgeSeconds (p_DataQuality pol)) < 4194304"
  shows "c_Passed (checkDataFreshness wall ord st pol) \<longleftrightarrow>
    (\<exists>md. st_MarketData st (market_key ord) = Some md \<and>
       State_Now wall st - md_UpdatedAt md \<le> sint (dq_MaxDataAgeSeconds (p_DataQuality pol)) * 1000000000)"
proof -
  let ?n = "sint (dq_MaxDataAgeSeconds (p_DataQuality pol))"
  have "f_less (f_of_int ?n) (duration_Seconds (time_Sub t u)) \<longleftrightarrow> ?n * 1000000000 < t - u" for t u
  proof -
    have "f_less (f_of_int ?n) (duration_Seconds (time_Sub t u)) \<longleftrightarrow> ?n * 1000000000 < time_Sub t u"
      using assms by (intro duration_Seconds_exact) simp_all
    also have "\<dots> \<longleftrightarrow> ?n * 1000000000 < t - u"
      using assms by (intro time_Sub_greater_iff) simp_all
    finally show ?thesis .
  qed
  then show ?thesis by (auto simp: checkDataFreshness_def Let_def not_less split: option.splits)
qed

lemma frequency_passes:
  assumes "\<forall>ts. st_RecentOrderTimes st (o_StrategyID ord) = Some ts \<longrightarrow> length ts < 2147483648"
  shows "c_Passed (checkStrategyOrderFrequency wall ord st pol) \<longleftrightarrow>
    (\<forall>ts. st_RecentOrderTimes st (o_StrategyID ord) = Some ts \<longrightarrow>
       int (length (filter (\<lambda>t. State_Now wall st - time_Minute < t) ts))
         < sint (ps_MaxOrdersPerMinute (p_PerStrategy pol)))"
proof -
  have "sint (word_of_nat (length (filter p ts)) :: int32) = int (length (filter p ts))"
    if "st_RecentOrderTimes st (o_StrategyID ord) = Some ts" for ts and p :: "time \<Rightarrow> bool"
    by (intro sint_word_of_nat32 le_less_trans [OF length_filter_le]) (use assms that in simp)
  then show ?thesis by (auto simp: checkStrategyOrderFrequency_def Let_def not_le split: option.splits)
qed

lemma foldl_plus_word: "foldl (+) a xs = a + (\<Sum>n\<leftarrow>xs. (n :: int64))"
  by (induction xs arbitrary: a) (simp_all add: add.assoc)

lemma sum_list_bounded:
  assumes "\<forall>n \<in> set xs. 0 \<le> f n \<and> f n < (b :: int)"
  shows "0 \<le> (\<Sum>n\<leftarrow>xs. f n) \<and> (\<Sum>n\<leftarrow>xs. f n) \<le> int (length xs) * b"
  using assms by (induction xs) (auto simp: distrib_right)

lemma last10_props: "set (last10 xs) \<subseteq> set xs" "length (last10 xs) = min 10 (length xs)"
  by (auto simp: last10_def dest: in_set_dropD)

lemma recent_sum_exact:
  assumes "\<forall>n \<in> set xs. 0 \<le> sint n \<and> sint n < 2147483648000000" and "length xs \<le> 10"
  shows "sint (foldl (+) 0 xs :: int64) = (\<Sum>n\<leftarrow>xs. sint n)"
proof -
  have b: "0 \<le> (\<Sum>n\<leftarrow>xs. sint n) \<and> (\<Sum>n\<leftarrow>xs. sint n) \<le> int (length xs) * 2147483648000000"
    using assms(1) by (intro sum_list_bounded) simp
  moreover have "int (length xs) * 2147483648000000 \<le> 10 * 2147483648000000"
    using assms(2) by (intro mult_right_mono) simp_all
  ultimately have "sint (word_of_int (\<Sum>n\<leftarrow>xs. sint n) :: int64) = (\<Sum>n\<leftarrow>xs. sint n)"
    by (intro sint_word_of_int_exact) simp_all
  moreover have "word_of_int (\<Sum>n\<leftarrow>xs. sint n) = (\<Sum>n\<leftarrow>xs. n)"
    by (induction xs) (simp_all add: wi_hom_add [symmetric])
  ultimately show ?thesis by (simp add: foldl_plus_word)
qed


lemma fat_finger_passes:
  assumes "\<forall>n \<in> set (map_get (st_RecentNotionals st) (o_StrategyID ord) []).
             0 \<le> sint n \<and> sint n < 2147483648000000"
  shows "c_Passed (checkFatFinger wall ord st pol) \<longleftrightarrow>
    length (map_get (st_RecentNotionals st) (o_StrategyID ord) []) < 3
    \<or> recent_average ord st \<le> 0 \<or> sint (o_NotionalMicros ord) \<le> 5 * recent_average ord st"
proof (cases "length (map_get (st_RecentNotionals st) (o_StrategyID ord) []) < 3")
  case True
  then show ?thesis by (simp add: checkFatFinger_def Let_def)
next
  case False
  define xs where "xs = last10 (map_get (st_RecentNotionals st) (o_StrategyID ord) [])"
  have len: "3 \<le> length xs" "length xs \<le> 10" using False by (simp_all add: xs_def last10_props)
  have ne: "xs \<noteq> []" using len by auto
  have rng: "\<forall>n \<in> set xs. 0 \<le> sint n \<and> sint n < 2147483648000000"
    using assms last10_props(1) by (fastforce simp: xs_def)
  let ?sum = "foldl (+) 0 xs :: int64" and ?len = "word_of_nat (length xs) :: int64"
  let ?avg = "go_div ?sum ?len"
  have sum: "sint ?sum = (\<Sum>n\<leftarrow>xs. sint n)" using rng len by (intro recent_sum_exact)
  have slen: "sint ?len = int (length xs)"
    using len by (subst of_int_of_nat_eq [symmetric]) (subst sint_word_of_int_exact, simp_all)
  have b: "0 \<le> (\<Sum>n\<leftarrow>xs. sint n) \<and> (\<Sum>n\<leftarrow>xs. sint n) \<le> int (length xs) * 2147483648000000"
    using rng by (intro sum_list_bounded) simp
  have "sint ?avg = sint ?sum div sint ?len"
    by (rule sint_go_div_nonneg) (use b len sum slen in linarith)+
  then have avg: "sint ?avg = recent_average ord st"
    by (simp only: sum slen) (simp add: recent_average_def Let_def xs_def)
  have "0 \<le> recent_average ord st \<and> recent_average ord st \<le> 2147483648000000"
  proof
    show "0 \<le> recent_average ord st"
    proof -
      have "0 < int (length xs)" using len by linarith
      from pos_imp_zdiv_nonneg_iff [OF this] show ?thesis
        using b by (simp add: recent_average_def Let_def xs_def [symmetric])
    qed
    have "(\<Sum>n\<leftarrow>xs. sint n) div int (length xs) \<le> int (length xs) * 2147483648000000 div int (length xs)"
      using b ne by (intro zdiv_mono1) simp_all
    then show "recent_average ord st \<le> 2147483648000000"
      using ne by (simp add: recent_average_def Let_def xs_def [symmetric])
  qed
  then have "sint (?avg * 5) = recent_average ord st * 5"
    using avg by (subst sint64_mult) simp_all
  with avg False show ?thesis
    by (auto simp: checkFatFinger_def Let_def xs_def [symmetric] not_less)
qed

lemmas check_passes = checkSystemMode_def checkStrategyNotHalted_def checkVenueNotHalted_def
  checkMarketAllowed_def checkPriceSanity_def checkSpread_def checkPerTradeSize_def
  checkPerTradeNotional_def checkPositionLimit_def checkConcentration_def checkStrategyDailyLoss_def
  checkStrategyConsecutiveLosses_def checkVenueExposure_def checkGlobalExposure_def
  checkGlobalDailyLoss_def checkGlobalDrawdown_def

lemma duplicate_passes:
  "c_Passed (checkDuplicateOrder wall ord st pol) \<longleftrightarrow>
     (\<forall>t. st_RecentOrderKeys st (IdempotencyKey ord) = Some t \<longrightarrow> 30 * time_Second \<le> State_Now wall st - t)"
  using time_Sub_less_iff [of "30 * time_Second" "State_Now wall st"]
  by (auto simp: checkDuplicateOrder_def not_less time_Second_def split: option.splits)

lemma all_checks_passed_iff:
  "(\<forall>r \<in> set (RunAllChecks wall ord st pol). c_Passed r) \<longleftrightarrow>
     (\<forall>(name, f) \<in> set allChecks. c_Passed (f wall ord st pol))"
  by (auto simp: RunAllChecks_def)

lemma position_limit_passes:
  assumes "well_formed_order ord" and "in_range62 (current_notional ord st)"
  shows "c_Passed (checkPositionLimit wall ord st pol) \<longleftrightarrow>
    sint (current_notional ord st) + sint (o_NotionalMicros ord) \<le> sint (pp_MaxNotionalMicros (p_PerPosition pol))"
  using sint_add_in_range [OF assms(2) well_formed_notional_bounds [OF assms(1)]]
  by (simp add: checkPositionLimit_def Let_def not_less)

lemma global_exposure_passes:
  assumes "well_formed_order ord" and "in_range62 (st_TotalExposure st)"
  shows "c_Passed (checkGlobalExposure wall ord st pol) \<longleftrightarrow>
    sint (st_TotalExposure st) + sint (o_NotionalMicros ord) \<le> sint (gl_MaxTotalExposureMicros (p_Global pol))"
  using sint_add_in_range [OF assms(2) well_formed_notional_bounds [OF assms(1)]]
  by (simp add: checkGlobalExposure_def Let_def not_less)

lemma venue_exposure_passes:
  assumes "well_formed_order ord"
    and "\<forall>vs. st_Venues st (o_Venue ord) = Some vs \<longrightarrow> in_range62 (vs_Exposure vs)"
  shows "c_Passed (checkVenueExposure wall ord st pol) \<longleftrightarrow>
    (\<forall>vl. p_PerVenue pol (o_Venue ord) = Some vl \<longrightarrow>
       sint (case st_Venues st (o_Venue ord) of None \<Rightarrow> 0 | Some vs \<Rightarrow> vs_Exposure vs)
         + sint (o_NotionalMicros ord) \<le> sint (vl_MaxExposureMicros vl))"
proof -
  let ?x = "case st_Venues st (o_Venue ord) of None \<Rightarrow> 0 | Some vs \<Rightarrow> vs_Exposure vs"
  have "in_range62 ?x" using assms(2) by (simp add: in_range62_0 split: option.splits)
  then have "sint (?x + o_NotionalMicros ord) = sint ?x + sint (o_NotionalMicros ord)"
    by (intro sint_add_in_range well_formed_notional_bounds [OF assms(1)])
  then show ?thesis
    by (cases "p_PerVenue pol (o_Venue ord)") (simp_all add: checkVenueExposure_def Let_def not_less)
qed

lemma trading_passes:
  assumes "numbers_in_range ord st pol"
  shows "c_Passed (checkSystemMode wall ord st pol) \<and> c_Passed (checkStrategyNotHalted wall ord st pol)
    \<and> c_Passed (checkVenueNotHalted wall ord st pol) \<and> c_Passed (checkMarketAllowed wall ord st pol)
    \<and> c_Passed (checkDataFreshness wall ord st pol) \<and> c_Passed (checkSpread wall ord st pol)
    \<longleftrightarrow> trading_permitted (State_Now wall st) ord st pol"
  using assms
  by (auto simp: freshness_passes numbers_in_range_def trading_permitted_def checkSystemMode_def
      checkStrategyNotHalted_def checkVenueNotHalted_def checkMarketAllowed_def checkSpread_def
      Let_def list_ex_iff split: option.splits if_splits)


lemma size_passes:
  assumes "well_formed_order ord" and "numbers_in_range ord st pol"
  shows "c_Passed (checkPriceSanity wall ord st pol) \<and> c_Passed (checkPerTradeSize wall ord st pol)
    \<and> c_Passed (checkPerTradeNotional wall ord st pol) \<and> c_Passed (checkPositionLimit wall ord st pol)
    \<and> c_Passed (checkConcentration wall ord st pol) \<and> c_Passed (checkVenueExposure wall ord st pol)
    \<and> c_Passed (checkGlobalExposure wall ord st pol) \<and> c_Passed (checkFatFinger wall ord st pol)
    \<longleftrightarrow> size_permitted ord st pol"
proof -
  have "c_Passed (checkPriceSanity wall ord st pol) \<and> c_Passed (checkPerTradeSize wall ord st pol)
      \<and> c_Passed (checkPerTradeNotional wall ord st pol) \<longleftrightarrow>
    sint (pt_MinPriceMicros (p_PerTrade pol)) \<le> sint (o_PriceMicros ord)
     \<and> sint (o_PriceMicros ord) \<le> sint (pt_MaxPriceMicros (p_PerTrade pol))
     \<and> sint (o_Quantity ord) \<le> sint (pt_MaxQuantity (p_PerTrade pol))
     \<and> sint (o_NotionalMicros ord) \<le> sint (pt_MaxNotionalMicros (p_PerTrade pol))"
    by (auto simp: checkPriceSanity_def checkPerTradeSize_def checkPerTradeNotional_def Let_def)
  moreover have "c_Passed (checkConcentration wall ord st pol) \<longleftrightarrow>
     st_TotalExposure st = 0 \<or> \<not> f_less (pp_MaxConcentrationPct (p_PerPosition pol)) (concentration_pct ord st)"
    by (simp add: checkConcentration_def Let_def)
  moreover note position_limit_passes [OF assms(1), of st wall pol] venue_exposure_passes [OF assms(1), of st wall pol]
    global_exposure_passes [OF assms(1), of st wall pol] fat_finger_passes [of st ord wall pol]
  ultimately show ?thesis
    using assms(2) unfolding numbers_in_range_def size_permitted_def by blast
qed

lemma losses_passes:
  assumes "numbers_in_range ord st pol"
  shows "c_Passed (checkStrategyDailyLoss wall ord st pol) \<and> c_Passed (checkStrategyConsecutiveLosses wall ord st pol)
    \<and> c_Passed (checkGlobalDailyLoss wall ord st pol) \<and> c_Passed (checkGlobalDrawdown wall ord st pol)
    \<longleftrightarrow> losses_permitted ord st pol"
proof -
  have neg: "sint (- ps_MaxDailyLossMicros (p_PerStrategy pol)) = - sint (ps_MaxDailyLossMicros (p_PerStrategy pol))"
    "sint (- gl_MaxDailyLossMicros (p_Global pol)) = - sint (gl_MaxDailyLossMicros (p_Global pol))"
    using assms by (simp_all add: numbers_in_range_def sint_neg_in_range)
  show ?thesis
    by (cases "st_Strategies st (o_StrategyID ord)")
       (simp_all add: checkStrategyDailyLoss_def checkStrategyConsecutiveLosses_def
         checkGlobalDailyLoss_def checkGlobalDrawdown_def losses_permitted_def neg not_less not_le)
qed

lemma rate_passes:
  assumes "numbers_in_range ord st pol"
  shows "c_Passed (checkStrategyOrderFrequency wall ord st pol) \<and> c_Passed (checkDuplicateOrder wall ord st pol)
    \<longleftrightarrow> rate_permitted (State_Now wall st) ord st pol"
  using assms frequency_passes [of st ord wall pol]
  by (simp add: numbers_in_range_def rate_permitted_def duplicate_passes)

definition order_permitted :: "time \<Rightarrow> ProposedOrder \<Rightarrow> State \<Rightarrow> Policy \<Rightarrow> bool" where
  "order_permitted now ord st pol \<longleftrightarrow> trading_permitted now ord st pol \<and> size_permitted ord st pol
     \<and> losses_permitted ord st pol \<and> rate_permitted now ord st pol"

lemma RunAllChecks_names: "map c_Name (RunAllChecks wall ord st pol) = map fst allChecks"
  by (auto simp: RunAllChecks_def)

lemma all_passed_iff_permitted:
  assumes "well_formed_order ord" and "numbers_in_range ord st pol"
  shows "(\<forall>r \<in> set (RunAllChecks wall ord st pol). c_Passed r) \<longleftrightarrow>
           order_permitted (State_Now wall st) ord st pol"
proof -
  have "(\<forall>(name, f) \<in> set allChecks. c_Passed (f wall ord st pol)) \<longleftrightarrow>
     (\<forall>f \<in> set (map snd allChecks). c_Passed (f wall ord st pol))"
    by auto
  then show ?thesis
    unfolding order_permitted_def all_checks_passed_iff trading_passes [OF assms(2), symmetric]
      size_passes [OF assms, of wall, symmetric] losses_passes [OF assms(2), of wall, symmetric]
      rate_passes [OF assms(2), symmetric]
    by (simp add: allChecks_def conj_ac)
qed

text \<open>
  Limits of the policy that no check reads: quantity per position, turnover and open orders per
  strategy, daily loss per venue, trading hours, order book depth, the execution switches and the
  kill switch triggers can take any value without changing a result.
\<close>

definition set_unchecked ::
  "int32 \<Rightarrow> int64 \<Rightarrow> int32 \<Rightarrow> (string \<Rightarrow> int64) \<Rightarrow> string \<Rightarrow> string \<Rightarrow> int32 \<Rightarrow> Execution \<Rightarrow> KillSwitchTriggers \<Rightarrow> Policy \<Rightarrow> Policy" where
  "set_unchecked qty turnover open1 loss opens closes depth ex kt pol =
     pol\<lparr>p_Execution := ex, p_KillSwitch := kt,
         p_PerPosition := (p_PerPosition pol)\<lparr>pp_MaxQuantity := qty\<rparr>,
         p_PerStrategy := (p_PerStrategy pol)\<lparr>ps_MaxDailyTurnoverMicros := turnover, ps_MaxOpenOrders := open1\<rparr>,
         p_PerVenue := (\<lambda>v. map_option (\<lambda>vl. vl\<lparr>vl_MaxDailyLossMicros := loss v\<rparr>) (p_PerVenue pol v)),
         p_Global := (p_Global pol)\<lparr>gl_TradingHoursStart := opens, gl_TradingHoursEnd := closes\<rparr>,
         p_DataQuality := (p_DataQuality pol)\<lparr>dq_MinOrderbookDepth := depth\<rparr>\<rparr>"

lemma unchecked_limits:
  "RunAllChecks wall ord st (set_unchecked qty turnover open1 loss opens closes depth ex kt pol) = RunAllChecks wall ord st pol"
proof -
  define pol' where "pol' = set_unchecked qty turnover open1 loss opens closes depth ex kt pol"
  have same: "p_AllowedMarkets pol' = p_AllowedMarkets pol" "p_PerTrade pol' = p_PerTrade pol"
    "pp_MaxNotionalMicros (p_PerPosition pol') = pp_MaxNotionalMicros (p_PerPosition pol)"
    "pp_MaxConcentrationPct (p_PerPosition pol') = pp_MaxConcentrationPct (p_PerPosition pol)"
    "ps_MaxDailyLossMicros (p_PerStrategy pol') = ps_MaxDailyLossMicros (p_PerStrategy pol)"
    "ps_MaxOrdersPerMinute (p_PerStrategy pol') = ps_MaxOrdersPerMinute (p_PerStrategy pol)"
    "ps_MaxConsecutiveLosses (p_PerStrategy pol') = ps_MaxConsecutiveLosses (p_PerStrategy pol)"
    "gl_MaxTotalExposureMicros (p_Global pol') = gl_MaxTotalExposureMicros (p_Global pol)"
    "gl_MaxDailyLossMicros (p_Global pol') = gl_MaxDailyLossMicros (p_Global pol)"
    "gl_MaxDrawdownPct (p_Global pol') = gl_MaxDrawdownPct (p_Global pol)"
    "dq_MaxDataAgeSeconds (p_DataQuality pol') = dq_MaxDataAgeSeconds (p_DataQuality pol)"
    by (simp_all add: pol'_def set_unchecked_def)
  have venue: "checkVenueExposure wall ord st pol' = checkVenueExposure wall ord st pol"
    by (cases "p_PerVenue pol (o_Venue ord)") (simp_all add: checkVenueExposure_def pol'_def set_unchecked_def Let_def)
  have others:
    "checkSystemMode wall ord st pol' = checkSystemMode wall ord st pol"
    "checkStrategyNotHalted wall ord st pol' = checkStrategyNotHalted wall ord st pol"
    "checkVenueNotHalted wall ord st pol' = checkVenueNotHalted wall ord st pol"
    "checkMarketAllowed wall ord st pol' = checkMarketAllowed wall ord st pol"
    "checkDataFreshness wall ord st pol' = checkDataFreshness wall ord st pol"
    "checkPriceSanity wall ord st pol' = checkPriceSanity wall ord st pol"
    "checkSpread wall ord st pol' = checkSpread wall ord st pol"
    "checkPerTradeSize wall ord st pol' = checkPerTradeSize wall ord st pol"
    "checkPerTradeNotional wall ord st pol' = checkPerTradeNotional wall ord st pol"
    "checkPositionLimit wall ord st pol' = checkPositionLimit wall ord st pol"
    "checkConcentration wall ord st pol' = checkConcentration wall ord st pol"
    "checkStrategyDailyLoss wall ord st pol' = checkStrategyDailyLoss wall ord st pol"
    "checkStrategyOrderFrequency wall ord st pol' = checkStrategyOrderFrequency wall ord st pol"
    "checkStrategyConsecutiveLosses wall ord st pol' = checkStrategyConsecutiveLosses wall ord st pol"
    "checkGlobalExposure wall ord st pol' = checkGlobalExposure wall ord st pol"
    "checkGlobalDailyLoss wall ord st pol' = checkGlobalDailyLoss wall ord st pol"
    "checkGlobalDrawdown wall ord st pol' = checkGlobalDrawdown wall ord st pol"
    "checkDuplicateOrder wall ord st pol' = checkDuplicateOrder wall ord st pol"
    "checkFatFinger wall ord st pol' = checkFatFinger wall ord st pol"
    by (simp_all only: same
        checkSystemMode_def checkStrategyNotHalted_def checkVenueNotHalted_def checkMarketAllowed_def
        checkDataFreshness_def checkPriceSanity_def checkSpread_def checkPerTradeSize_def checkPerTradeNotional_def
        checkPositionLimit_def checkConcentration_def checkStrategyDailyLoss_def checkStrategyOrderFrequency_def
        checkStrategyConsecutiveLosses_def checkGlobalExposure_def checkGlobalDailyLoss_def checkGlobalDrawdown_def
        checkDuplicateOrder_def checkFatFinger_def)
  have each: "f wall ord st pol' = f wall ord st pol" if "(n, f) \<in> set allChecks" for n f
    using that venue others by (auto simp: allChecks_def)
  show ?thesis unfolding RunAllChecks_def pol'_def [symmetric]
  proof (rule map_cong [OF refl])
    fix x assume "x \<in> set allChecks"
    moreover obtain n f where x: "x = (n, f)" by (cases x)
    ultimately have "f wall ord st pol' = f wall ord st pol" using each by simp
    then show "(case x of (name, f) \<Rightarrow> (f wall ord st pol')\<lparr>c_Name := name\<rparr>) = (case x of (name, f) \<Rightarrow> (f wall ord st pol)\<lparr>c_Name := name\<rparr>)"
      by (simp only: x prod.case)
  qed
qed

text \<open>
  C7: The twenty checks enforce exactly the limits they read. For an order that passed validation
  (\<open>well_formed_order\<close>) and figures far enough from the ends of their ranges (\<open>numbers_in_range\<close>),
  \<^verbatim>\<open>RunAllChecks\<close> returns twenty results under the twenty names in the declared order, and all
  of them pass exactly when the order satisfies the conditions on trading, size, losses and rate below,
  which state the limits the checks cover in integer
  arithmetic: no wrap-around of the 64-bit sums, no rounding of the data age and no truncation of the
  order count lets an order through or turns one away. The limits of the policy that no check reads
  are those of \<open>unchecked_limits\<close>.
\<close>

theorem checks_enforce_policy:
  assumes "well_formed_order ord" and "numbers_in_range ord st pol"
  shows "map c_Name (RunAllChecks wall ord st pol) = map fst allChecks \<and> length allChecks = 20
    \<and> ((\<forall>r \<in> set (RunAllChecks wall ord st pol). c_Passed r) \<longleftrightarrow>
        trading_permitted (State_Now wall st) ord st pol \<and> size_permitted ord st pol
        \<and> losses_permitted ord st pol \<and> rate_permitted (State_Now wall st) ord st pol)"
  using all_passed_iff_permitted [OF assms, of wall]
  by (simp only: RunAllChecks_names order_permitted_def) (simp add: allChecks_def)

definition sample_order :: ProposedOrder where
  "sample_order = \<lparr>o_TraceID = ''t1'', o_StrategyID = ''mm'', o_Venue = ''mock'', o_MarketID = ''KX-1'',
     o_Side = SideBuy, o_Quantity = 10, o_PriceMicros = 400000, o_NotionalMicros = 4000000, o_ProposedAt = 0\<rparr>"

definition sample_policy :: Policy where
  "sample_policy = \<lparr>p_Mode = ''paper'',
     p_Execution = \<lparr>ex_TransmitOrders = False, ex_RequireSignedApproval = True, ex_RequireHeartbeat = True\<rparr>,
     p_AllowedMarkets = [''mock'' \<mapsto> [''KX-*'']],
     p_PerTrade = \<lparr>pt_MaxNotionalMicros = 10000000, pt_MaxQuantity = 100, pt_MinPriceMicros = 10000,
        pt_MaxPriceMicros = 990000, pt_MaxSpreadBps = 1000\<rparr>,
     p_PerPosition = \<lparr>pp_MaxNotionalMicros = 50000000, pp_MaxQuantity = 500, pp_MaxConcentrationPct = f_of_int 30\<rparr>,
     p_PerStrategy = \<lparr>ps_MaxDailyLossMicros = 20000000, ps_MaxDailyTurnoverMicros = 200000000,
        ps_MaxOrdersPerMinute = 10, ps_MaxConsecutiveLosses = 5, ps_MaxOpenOrders = 10\<rparr>,
     p_PerVenue = [''mock'' \<mapsto> \<lparr>vl_MaxExposureMicros = 100000000, vl_MaxDailyLossMicros = 50000000\<rparr>],
     p_Global = \<lparr>gl_MaxTotalExposureMicros = 100000000, gl_MaxDailyLossMicros = 50000000,
        gl_MaxDrawdownPct = f_of_int 10, gl_TradingHoursStart = [], gl_TradingHoursEnd = []\<rparr>,
     p_DataQuality = \<lparr>dq_MaxDataAgeSeconds = 30, dq_MinOrderbookDepth = 0\<rparr>,
     p_KillSwitch = \<lparr>kt_GlobalDailyLossMicros = 40000000, kt_GlobalDrawdownPct = f_of_int 8,
        kt_VenueDailyLossMicros = 30000000, kt_StrategyDailyLossMicros = 15000000,
        kt_StrategyConsecLosses = 4, kt_HeartbeatTimeoutSec = 15\<rparr>\<rparr>"

definition sample_md :: MarketData where
  "sample_md = \<lparr>md_Venue = ''mock'', md_MarketID = ''KX-1'', md_DisplayName = [], md_BidPriceMicros = 390000,
     md_AskPriceMicros = 410000, md_LastPriceMicros = 400000, md_BidDepth = 100, md_AskDepth = 100,
     md_Volume24h = f_of_int 0, md_UpdatedAt = 5000000000\<rparr>"

definition sample_state :: State where
  "sample_state = NewEmptyState\<lparr>st_MarketData := [''mock:KX-1'' \<mapsto> sample_md]\<rparr>"

lemmas sample_risk_simps = sample_order_def sample_policy_def sample_md_def sample_state_def
  NewEmptyState_def market_key_def position_key_def current_notional_def

lemma sample_well_formed: "well_formed_order sample_order"
  by (simp add: well_formed_order_def sample_order_def)

lemma sample_in_range: "numbers_in_range sample_order sample_state sample_policy"
  by (simp add: numbers_in_range_def in_range62_def sample_risk_simps)

lemma sample_market_matches: "path_Match ''KX-*'' ''KX-1''"
  using path_Match_prefix [of "''KX-''" "''*''" "''KX-1''"] by (simp add: path_Match_star)

lemma sample_permitted:
  "trading_permitted 7000000000 sample_order sample_state sample_policy"
  "size_permitted sample_order sample_state sample_policy"
  "losses_permitted sample_order sample_state sample_policy"
  "rate_permitted 7000000000 sample_order sample_state sample_policy"
  by (simp_all add: trading_permitted_def size_permitted_def losses_permitted_def rate_permitted_def
      sample_risk_simps sample_market_matches SpreadBps_def SpreadMicros_def go_div_def)

theorem checks_enforce_policy_witness:
  "list_all c_Passed (RunAllChecks 7000000000 sample_order sample_state sample_policy)"
  using checks_enforce_policy [OF sample_well_formed sample_in_range, of 7000000000] sample_permitted
  by (simp add: list_all_iff State_Now_def sample_state_def NewEmptyState_def)

end
