(* ===== verification/Audit_Log.thy ===== *)
theory Audit_Log
  imports Events
begin

text \<open>
  The hash-chained audit log of \<^verbatim>\<open>internal/audit/logger.go\<close>. \<^verbatim>\<open>Logger.Log\<close> builds an entry, hashes
  it together with the hash of the entry before, and inserts it into \<^verbatim>\<open>audit.event_log\<close>. The
  hash (SHA-256 of the JSON text, in hexadecimal) is the parameter \<open>H\<close> of the definitions; the
  theorems assume no more of it than that the inputs hashed in the runs at hand do not collide and none hashes
  to the word \<^verbatim>\<open>genesis\<close>. The main result: the hash of a stored row fixes every call of the logger up to it,
  the failed writes included. The columns keep less than was hashed (times to the microsecond, payloads as JSONB), so a
  stored row cannot be hashed again.
\<close>

section \<open>Entries and the logger\<close>

datatype json_value =
    JString string | JInt int | JBool bool | JFloat float64
  | JArr "json_value list" | JObj "(string \<times> json_value) list"

type_synonym payload = "(string \<times> json_value) list"

record Entry =
  en_ID :: uuid
  en_Timestamp :: time
  en_Service :: string
  en_EventType :: string
  en_TraceID :: string
  en_Severity :: string
  en_Payload :: payload
  en_PreviousHash :: string
  en_EntryHash :: string

text \<open>The anonymous struct that \<^verbatim>\<open>Log\<close> hashes.\<close>

record HashInput =
  hi_ID :: uuid
  hi_Timestamp :: time
  hi_Service :: string
  hi_EventType :: string
  hi_TraceID :: string
  hi_Payload :: payload
  hi_PreviousHash :: string

text \<open>A row of \<^verbatim>\<open>audit.event_log\<close>, with NULL for an empty trace id.\<close>

record AuditRow =
  ar_id :: uuid
  ar_timestamp :: time
  ar_service :: string
  ar_event_type :: string
  ar_trace_id :: "string option"
  ar_severity :: string
  ar_payload :: payload
  ar_previous_hash :: string
  ar_entry_hash :: string

definition nilIfEmpty :: "string \<Rightarrow> string option" where
  "nilIfEmpty s = (if s = [] then None else Some s)"

text \<open>
  What the columns keep. \<^verbatim>\<open>TIMESTAMPTZ\<close> (migration 001) has microseconds, and the driver truncates the time to them.
  \<^verbatim>\<open>JSONB\<close> stores each object with its keys in order of length and then of bytes, the last of equal keys.
\<close>

definition timestamptz :: "time \<Rightarrow> time" where
  "timestamptz t = t div 1000 * 1000"

definition jsonb_key_less :: "string \<Rightarrow> string \<Rightarrow> bool" where
  "jsonb_key_less k j \<longleftrightarrow> length k < length j
     \<or> length k = length j \<and> ord_class.lexordp (map of_char k :: nat list) (map of_char j)"

fun jsonb_insert :: "string \<Rightarrow> 'a \<Rightarrow> (string \<times> 'a) list \<Rightarrow> (string \<times> 'a) list" where
  "jsonb_insert k v [] = [(k, v)]"
| "jsonb_insert k v ((j, w) # kvs) =
     (if k = j then (k, v) # kvs else if jsonb_key_less k j then (k, v) # (j, w) # kvs else (j, w) # jsonb_insert k v kvs)"

definition jsonb_object :: "(string \<times> 'a) list \<Rightarrow> (string \<times> 'a) list" where
  "jsonb_object kvs = fold (\<lambda>(k, v). jsonb_insert k v) kvs []"

primrec jsonb :: "json_value \<Rightarrow> json_value" where
  "jsonb (JString s) = JString s"
| "jsonb (JInt n) = JInt n"
| "jsonb (JBool b) = JBool b"
| "jsonb (JFloat x) = JFloat x"
| "jsonb (JArr vs) = JArr (map jsonb vs)"
| "jsonb (JObj kvs) = JObj (jsonb_object (map (map_prod id jsonb) kvs))"

definition jsonb_payload :: "payload \<Rightarrow> payload" where
  "jsonb_payload p = jsonb_object (map (map_prod id jsonb) p)"

definition audit_row :: "Entry \<Rightarrow> AuditRow" where
  "audit_row e =
     \<lparr>ar_id = en_ID e, ar_timestamp = timestamptz (en_Timestamp e), ar_service = en_Service e,
      ar_event_type = en_EventType e, ar_trace_id = nilIfEmpty (en_TraceID e),
      ar_severity = en_Severity e, ar_payload = jsonb_payload (en_Payload e),
      ar_previous_hash = en_PreviousHash e, ar_entry_hash = en_EntryHash e\<rparr>"

record Logger =
  lg_service :: string
  lg_lastHash :: string
  lg_event_log :: "AuditRow list"  \<comment> \<open>the rows of \<^verbatim>\<open>audit.event_log\<close> this logger wrote\<close>

definition NewLogger :: "string \<Rightarrow> Logger" where
  "NewLogger service = \<lparr>lg_service = service, lg_lastHash = ''genesis'', lg_event_log = []\<rparr>"

definition hash_input :: "Entry \<Rightarrow> HashInput" where
  "hash_input e =
     \<lparr>hi_ID = en_ID e, hi_Timestamp = en_Timestamp e, hi_Service = en_Service e,
      hi_EventType = en_EventType e, hi_TraceID = en_TraceID e, hi_Payload = en_Payload e,
      hi_PreviousHash = en_PreviousHash e\<rparr>"

datatype audit_error = AuditWriteFailed

definition Log ::
  "(HashInput \<Rightarrow> string) \<Rightarrow> faults \<Rightarrow> uuid \<Rightarrow> time \<Rightarrow> string \<Rightarrow> string \<Rightarrow> string \<Rightarrow> payload \<Rightarrow> Logger
     \<Rightarrow> (audit_error, unit) result \<times> Logger" where
  "Log H flt newID now eventType traceID severity payload l =
     (let entry = \<lparr>en_ID = newID, en_Timestamp = now, en_Service = lg_service l,
                   en_EventType = eventType, en_TraceID = traceID, en_Severity = severity,
                   en_Payload = payload, en_PreviousHash = lg_lastHash l, en_EntryHash = []\<rparr>;
          entry = entry\<lparr>en_EntryHash := H (hash_input entry)\<rparr>;
          l = l\<lparr>lg_lastHash := en_EntryHash entry\<rparr>
      in if flt (Db ''audit.event_log'' newID) then (Inl AuditWriteFailed, l)
         else (Inr (), l\<lparr>lg_event_log := lg_event_log l @ [audit_row entry]\<rparr>))"

text \<open>\<^verbatim>\<open>LogInfo\<close>, \<^verbatim>\<open>LogWarn\<close> and \<^verbatim>\<open>LogCritical\<close> drop the error.\<close>

definition LogInfo ::
  "(HashInput \<Rightarrow> string) \<Rightarrow> faults \<Rightarrow> uuid \<Rightarrow> time \<Rightarrow> string \<Rightarrow> string \<Rightarrow> payload \<Rightarrow> Logger \<Rightarrow> Logger" where
  "LogInfo H flt newID now eventType traceID payload l =
     snd (Log H flt newID now eventType traceID ''info'' payload l)"

definition LogWarn ::
  "(HashInput \<Rightarrow> string) \<Rightarrow> faults \<Rightarrow> uuid \<Rightarrow> time \<Rightarrow> string \<Rightarrow> string \<Rightarrow> payload \<Rightarrow> Logger \<Rightarrow> Logger" where
  "LogWarn H flt newID now eventType traceID payload l =
     snd (Log H flt newID now eventType traceID ''warn'' payload l)"

definition LogCritical ::
  "(HashInput \<Rightarrow> string) \<Rightarrow> faults \<Rightarrow> uuid \<Rightarrow> time \<Rightarrow> string \<Rightarrow> string \<Rightarrow> payload \<Rightarrow> Logger \<Rightarrow> Logger" where
  "LogCritical H flt newID now eventType traceID payload l =
     snd (Log H flt newID now eventType traceID ''critical'' payload l)"



section \<open>Runs of a logger\<close>

text \<open>A run of the logger: the calls of \<^verbatim>\<open>Log\<close> in order, each with the outcome of its INSERT.\<close>

record LogCall =
  lc_fails :: bool
  lc_id :: uuid
  lc_now :: time
  lc_event_type :: string
  lc_trace_id :: string
  lc_severity :: string
  lc_payload :: payload

definition log_call :: "(HashInput \<Rightarrow> string) \<Rightarrow> LogCall \<Rightarrow> Logger \<Rightarrow> Logger" where
  "log_call H c l = snd (Log H (\<lambda>_. lc_fails c) (lc_id c) (lc_now c) (lc_event_type c)
     (lc_trace_id c) (lc_severity c) (lc_payload c) l)"

definition call_input :: "string \<Rightarrow> string \<Rightarrow> LogCall \<Rightarrow> HashInput" where
  "call_input service prev c =
     \<lparr>hi_ID = lc_id c, hi_Timestamp = lc_now c, hi_Service = service,
      hi_EventType = lc_event_type c, hi_TraceID = lc_trace_id c, hi_Payload = lc_payload c,
      hi_PreviousHash = prev\<rparr>"

fun inputs_hashed :: "(HashInput \<Rightarrow> string) \<Rightarrow> string \<Rightarrow> string \<Rightarrow> LogCall list \<Rightarrow> HashInput list" where
  "inputs_hashed H service prev [] = []"
| "inputs_hashed H service prev (c # cs) =
     (let i = call_input service prev c in i # inputs_hashed H service (H i) cs)"

definition logged_row :: "(HashInput \<Rightarrow> string) \<Rightarrow> string \<Rightarrow> string \<Rightarrow> LogCall \<Rightarrow> AuditRow" where
  "logged_row H service prev c =
     \<lparr>ar_id = lc_id c, ar_timestamp = timestamptz (lc_now c), ar_service = service,
      ar_event_type = lc_event_type c, ar_trace_id = nilIfEmpty (lc_trace_id c),
      ar_severity = lc_severity c, ar_payload = jsonb_payload (lc_payload c), ar_previous_hash = prev,
      ar_entry_hash = H (call_input service prev c)\<rparr>"

lemma log_call_eq:
  "log_call H c l =
     l\<lparr>lg_lastHash := H (call_input (lg_service l) (lg_lastHash l) c),
       lg_event_log := lg_event_log l @
         (if lc_fails c then [] else [logged_row H (lg_service l) (lg_lastHash l) c])\<rparr>"
  by (simp add: log_call_def Log_def Let_def hash_input_def call_input_def logged_row_def
      audit_row_def)

fun rows_written :: "(HashInput \<Rightarrow> string) \<Rightarrow> string \<Rightarrow> string \<Rightarrow> LogCall list \<Rightarrow> AuditRow list" where
  "rows_written H service prev [] = []"
| "rows_written H service prev (c # cs) =
     (if lc_fails c then [] else [logged_row H service prev c])
     @ rows_written H service (H (call_input service prev c)) cs"

lemma event_log_run:
  "lg_event_log (fold (log_call H) cs l) =
     lg_event_log l @ rows_written H (lg_service l) (lg_lastHash l) cs"
  by (induction cs arbitrary: l) (simp_all add: log_call_eq)

lemma rows_written_all_fail: "\<forall>c \<in> set cs. lc_fails c \<Longrightarrow> rows_written H service prev cs = []"
  by (induction cs arbitrary: prev) simp_all


section \<open>What an entry hash fixes\<close>

lemma length_inputs_hashed [simp]: "length (inputs_hashed H service prev cs) = length cs"
  by (induction cs arbitrary: prev) (simp_all add: Let_def)

lemma inputs_hashed_nth:
  "n < length cs \<Longrightarrow> inputs_hashed H service prev cs ! n =
     call_input service (if n = 0 then prev else H (inputs_hashed H service prev cs ! (n - 1))) (cs ! n)"
proof (induction cs arbitrary: prev n)
  case (Cons c cs)
  show ?case
  proof (cases n)
    case (Suc k)
    then show ?thesis using Cons.IH [of k "H (call_input service prev c)"] Cons.prems by (cases k) (simp_all add: Let_def)
  qed (simp add: Let_def)
qed simp

lemma written_row:
  "r \<in> set (rows_written H service prev cs) \<Longrightarrow> \<exists>n < length cs. \<not> lc_fails (cs ! n)
     \<and> r = logged_row H service (if n = 0 then prev else H (inputs_hashed H service prev cs ! (n - 1))) (cs ! n)"
proof (induction cs arbitrary: prev)
  case (Cons c cs)
  let ?h = "H (call_input service prev c)"
  from Cons.prems consider "\<not> lc_fails c" "r = logged_row H service prev c" | "r \<in> set (rows_written H service ?h cs)"
    by (auto split: if_splits)
  then show ?case
  proof cases
    case 1
    then show ?thesis by (intro exI [of _ 0]) simp
  next
    case 2
    from Cons.IH [OF this] obtain n where "n < length cs" "\<not> lc_fails (cs ! n)"
      "r = logged_row H service (if n = 0 then ?h else H (inputs_hashed H service ?h cs ! (n - 1))) (cs ! n)" by blast
    then show ?thesis by (intro exI [of _ "Suc n"]) (cases n; simp add: Let_def)
  qed
qed simp

lemma call_inputD:
  assumes "call_input s prev c = call_input t prev' d"
  shows "s = t" "prev = prev'" "lc_id c = lc_id d" "lc_now c = lc_now d" "lc_event_type c = lc_event_type d"
    "lc_trace_id c = lc_trace_id d" "lc_payload c = lc_payload d"
  using assms by (simp_all add: call_input_def)

definition same_call :: "LogCall \<Rightarrow> LogCall \<Rightarrow> bool" where
  "same_call c d \<longleftrightarrow> lc_id c = lc_id d \<and> lc_now c = lc_now d \<and> lc_event_type c = lc_event_type d
     \<and> lc_trace_id c = lc_trace_id d \<and> lc_payload c = lc_payload d"

text \<open>Equal hashes at two positions of two runs: the positions are the same and so is everything before.\<close>

lemma hash_fixes_run:
  fixes cs ds :: "LogCall list" and H :: "HashInput \<Rightarrow> string" and s t :: string
  defines "I \<equiv> inputs_hashed H s ''genesis'' cs" and "J \<equiv> inputs_hashed H t ''genesis'' ds"
  assumes inj: "inj_on H (set I \<union> set J)" and fresh: "''genesis'' \<notin> H ` (set I \<union> set J)"
    and "n < length cs" "m < length ds" "H (I ! n) = H (J ! m)"
  shows "n = m \<and> s = t \<and> (\<forall>i \<le> n. same_call (cs ! i) (ds ! i)) \<and> (\<forall>i \<le> n. I ! i = J ! i)"
  using assms(5-7)
proof (induction n arbitrary: m)
  case (0 m)
  have "I ! 0 \<in> set I" "J ! m \<in> set J" using 0 by (simp_all add: I_def J_def)
  then have "I ! 0 = J ! m" using 0 inj by (auto dest: inj_onD)
  note eq = this
  have i: "I ! 0 = call_input s ''genesis'' (cs ! 0)" unfolding I_def using 0 inputs_hashed_nth [of 0 cs] by simp
  have j: "J ! m = call_input t (if m = 0 then ''genesis'' else H (J ! (m - 1))) (ds ! m)" unfolding J_def using 0 by (intro inputs_hashed_nth)
  note f = call_inputD [OF eq [unfolded i j]]
  have "m = 0"
  proof (rule ccontr)
    assume "m \<noteq> 0"
    then have "J ! (m - 1) \<in> set J" "''genesis'' = H (J ! (m - 1))" using f(2) 0 by (simp_all add: J_def)
    then show False using fresh by blast
  qed
  then show ?case using f eq by (simp add: same_call_def)
next
  case (Suc n m)
  have "I ! Suc n \<in> set I" "J ! m \<in> set J" using Suc.prems by (simp_all add: I_def J_def)
  then have eq: "I ! Suc n = J ! m" using Suc.prems(3) inj by (auto dest: inj_onD)
  have i: "I ! Suc n = call_input s (H (I ! n)) (cs ! Suc n)" unfolding I_def using Suc.prems inputs_hashed_nth [of "Suc n" cs] by simp
  have j: "J ! m = call_input t (if m = 0 then ''genesis'' else H (J ! (m - 1))) (ds ! m)" unfolding J_def using Suc.prems by (intro inputs_hashed_nth)
  note f = call_inputD [OF eq [unfolded i j]]
  have "m \<noteq> 0"
  proof
    assume "m = 0"
    then have "I ! n \<in> set I" "''genesis'' = H (I ! n)" using f(2) Suc.prems(1) by (simp_all add: I_def)
    then show False using fresh by blast
  qed
  then obtain k where k: "m = Suc k" by (cases m) simp_all
  have "n = k \<and> s = t \<and> (\<forall>i \<le> n. same_call (cs ! i) (ds ! i)) \<and> (\<forall>i \<le> n. I ! i = J ! i)"
    using Suc.prems f(2) k by (intro Suc.IH) simp_all
  then show ?case using f eq k by (simp add: same_call_def le_Suc_eq)
qed

text \<open>
  C26: The hash of a stored row fixes the history of its logger. Take two runs of loggers from their start, each any
  sequence of calls of \<^verbatim>\<open>Log\<close> whose writes may fail, where the inputs hashed in the two runs do not collide and none
  hashes to \<^verbatim>\<open>genesis\<close>. If a row stored by the one and a row stored by the other have the same entry hash, then the
  loggers are of the same service, the rows were written by the n-th call of each, and the calls up to it agree one by one in
  id, time to the nanosecond, event type, trace id and payload, those whose write failed included: no row of the table
  can be exchanged, dropped, added or reordered before it without changing its hash. The two rows agree in every column
  but the severity, which is not hashed.
\<close>

theorem entry_hash_commits:
  assumes "r \<in> set (lg_event_log (fold (log_call H) cs (NewLogger s)))" "q \<in> set (lg_event_log (fold (log_call H) ds (NewLogger t)))"
    and "ar_entry_hash r = ar_entry_hash q"
    and "inj_on H (set (inputs_hashed H s ''genesis'' cs) \<union> set (inputs_hashed H t ''genesis'' ds))"
    and "''genesis'' \<notin> H ` (set (inputs_hashed H s ''genesis'' cs) \<union> set (inputs_hashed H t ''genesis'' ds))"
  shows "s = t \<and> (\<exists>n. n < length cs \<and> n < length ds \<and> ar_id r = lc_id (cs ! n)
      \<and> (\<forall>i \<le> n. lc_id (cs ! i) = lc_id (ds ! i) \<and> lc_now (cs ! i) = lc_now (ds ! i) \<and> lc_event_type (cs ! i) = lc_event_type (ds ! i)
           \<and> lc_trace_id (cs ! i) = lc_trace_id (ds ! i) \<and> lc_payload (cs ! i) = lc_payload (ds ! i)))
    \<and> r\<lparr>ar_severity := []\<rparr> = q\<lparr>ar_severity := []\<rparr>"
proof -
  let ?I = "inputs_hashed H s ''genesis'' cs" and ?J = "inputs_hashed H t ''genesis'' ds"
  have rows: "r \<in> set (rows_written H s ''genesis'' cs)" "q \<in> set (rows_written H t ''genesis'' ds)"
    using assms(1,2) by (simp_all add: event_log_run NewLogger_def)
  obtain n where n: "n < length cs" and r: "r = logged_row H s (if n = 0 then ''genesis'' else H (?I ! (n - 1))) (cs ! n)"
    using written_row [OF rows(1)] by blast
  obtain m where m: "m < length ds" and q: "q = logged_row H t (if m = 0 then ''genesis'' else H (?J ! (m - 1))) (ds ! m)"
    using written_row [OF rows(2)] by blast
  have "H (?I ! n) = H (?J ! m)"
    using assms(3) unfolding r q inputs_hashed_nth [OF n] inputs_hashed_nth [OF m] by (simp add: logged_row_def)
  from hash_fixes_run [OF assms(4,5) n m this]
  have same: "n = m" "s = t" "\<forall>i \<le> n. same_call (cs ! i) (ds ! i)" "\<forall>i \<le> n. ?I ! i = ?J ! i" by blast+
  have prev: "(if n = 0 then ''genesis'' else H (?I ! (n - 1))) = (if n = 0 then ''genesis'' else H (?J ! (n - 1)))" using same(4) by simp
  have "same_call (cs ! n) (ds ! n)" using same(3) by blast
  then have "r\<lparr>ar_severity := []\<rparr> = q\<lparr>ar_severity := []\<rparr>"
    unfolding r q same(1) [symmetric] same(2) [symmetric] prev by (simp add: logged_row_def same_call_def call_input_def)
  moreover have "ar_id r = lc_id (cs ! n)" by (simp add: r logged_row_def)
  ultimately show ?thesis using same n m unfolding same_call_def by blast
qed

definition sample_call :: "bool \<Rightarrow> uuid \<Rightarrow> string \<Rightarrow> LogCall" where
  "sample_call fails i sev = \<lparr>lc_fails = fails, lc_id = i, lc_now = 1700000000123456789, lc_event_type = ''fill_recorded'',
     lc_trace_id = ''t'', lc_severity = sev, lc_payload = [(''quantity'', JInt 4)]\<rparr>"

text \<open>A sample hash that chains: the id followed by the previous hash.\<close>

definition sample_hash :: "HashInput \<Rightarrow> string" where
  "sample_hash i = hi_ID i @ ''-'' @ hi_PreviousHash i"

theorem entry_hash_commits_witness:
  "\<exists>r q. r \<in> set (lg_event_log (fold (log_call sample_hash) [sample_call True ''a'' ''info'', sample_call False ''b'' ''warn''] (NewLogger ''watchdog'')))
     \<and> q \<in> set (lg_event_log (fold (log_call sample_hash) [sample_call False ''a'' ''info'', sample_call False ''b'' ''info'', sample_call False ''c'' ''info''] (NewLogger ''watchdog'')))
     \<and> ar_entry_hash r = ''b-a-genesis'' \<and> ar_timestamp r = 1700000000123456000 \<and> r \<noteq> q
     \<and> r\<lparr>ar_severity := []\<rparr> = q\<lparr>ar_severity := []\<rparr>"
proof -
  let ?cs = "[sample_call True ''a'' ''info'', sample_call False ''b'' ''warn'']"
    and ?ds = "[sample_call False ''a'' ''info'', sample_call False ''b'' ''info'', sample_call False ''c'' ''info'']"
  define r where "r = logged_row sample_hash ''watchdog'' ''a-genesis'' (sample_call False ''b'' ''warn'')"
  define q where "q = logged_row sample_hash ''watchdog'' ''a-genesis'' (sample_call False ''b'' ''info'')"
  have r: "r \<in> set (lg_event_log (fold (log_call sample_hash) ?cs (NewLogger ''watchdog'')))"
    and q: "q \<in> set (lg_event_log (fold (log_call sample_hash) ?ds (NewLogger ''watchdog'')))"
    unfolding event_log_run NewLogger_def r_def q_def by (simp_all add: sample_call_def call_input_def sample_hash_def)
  have I: "inputs_hashed sample_hash ''watchdog'' ''genesis'' ?cs = [call_input ''watchdog'' ''genesis'' (sample_call True ''a'' ''info''),
      call_input ''watchdog'' ''a-genesis'' (sample_call False ''b'' ''warn'')]"
    and J: "inputs_hashed sample_hash ''watchdog'' ''genesis'' ?ds = [call_input ''watchdog'' ''genesis'' (sample_call True ''a'' ''info''),
      call_input ''watchdog'' ''a-genesis'' (sample_call False ''b'' ''warn''), call_input ''watchdog'' ''b-a-genesis'' (sample_call False ''c'' ''info'')]"
    by (simp_all add: Let_def call_input_def sample_call_def sample_hash_def)
  have hash: "ar_entry_hash r = ''b-a-genesis''" "ar_entry_hash q = ''b-a-genesis''"
    by (simp_all add: r_def q_def logged_row_def sample_call_def call_input_def sample_hash_def)
  have "r\<lparr>ar_severity := []\<rparr> = q\<lparr>ar_severity := []\<rparr>"
  proof -
    have inj: "inj_on sample_hash (set (inputs_hashed sample_hash ''watchdog'' ''genesis'' ?cs) \<union> set (inputs_hashed sample_hash ''watchdog'' ''genesis'' ?ds))"
      unfolding I J by (rule inj_onI) (auto simp: call_input_def sample_hash_def sample_call_def)
    have fresh: "''genesis'' \<notin> sample_hash ` (set (inputs_hashed sample_hash ''watchdog'' ''genesis'' ?cs) \<union> set (inputs_hashed sample_hash ''watchdog'' ''genesis'' ?ds))"
      unfolding I J by (simp add: call_input_def sample_hash_def sample_call_def)
    have "ar_entry_hash r = ar_entry_hash q" by (simp only: hash)
    from entry_hash_commits [OF r q this inj fresh] show ?thesis by (elim conjE) assumption
  qed
  moreover have "ar_severity r \<noteq> ar_severity q" "ar_timestamp r = 1700000000123456000"
    by (simp_all add: r_def q_def logged_row_def sample_call_def timestamptz_def)
  ultimately show ?thesis using r q hash(1) by (intro exI [of _ r] exI [of _ q]) auto
qed

text \<open>The severity is not hashed.\<close>

lemma severity_not_covered: "hash_input (e\<lparr>en_Severity := sev\<rparr>) = hash_input e"
  by (simp add: hash_input_def)

text \<open>
  Nor can the hash of a stored row be computed again from its columns: entries with different hash inputs leave the same
  columns, for the nanoseconds of the time and the order of the payload's keys are lost.
\<close>

lemma stored_row_not_rehashable:
  assumes "en_Timestamp e = 1700000000123456789" "en_Payload e = [(''side'', JString ''buy''), (''qty'', JInt 4)]"
  shows "hash_input (e\<lparr>en_Timestamp := 1700000000123456000\<rparr>) \<noteq> hash_input e"
    "audit_row (e\<lparr>en_Timestamp := 1700000000123456000\<rparr>) = audit_row e"
    "hash_input (e\<lparr>en_Payload := [(''qty'', JInt 4), (''side'', JString ''buy'')]\<rparr>) \<noteq> hash_input e"
    "audit_row (e\<lparr>en_Payload := [(''qty'', JInt 4), (''side'', JString ''buy'')]\<rparr>) = audit_row e"
  using assms by (simp_all add: hash_input_def audit_row_def timestamptz_def jsonb_payload_def jsonb_object_def jsonb_key_less_def)


section \<open>Gaps\<close>

text \<open>
  What is left to a reader of the table is to follow the links from row to row; the failed calls break them unless they
  come after every successful one.
\<close>

fun linked :: "string \<Rightarrow> AuditRow list \<Rightarrow> bool" where
  "linked prev [] = True"
| "linked prev (r # rs) \<longleftrightarrow> ar_previous_hash r = prev \<and> linked (ar_entry_hash r) rs"

fun failures_last :: "LogCall list \<Rightarrow> bool" where
  "failures_last [] = True"
| "failures_last (c # cs) \<longleftrightarrow> (lc_fails c \<longrightarrow> (\<forall>d \<in> set cs. lc_fails d)) \<and> failures_last cs"

lemma inputs_hashed_ids: "map hi_ID (inputs_hashed H service prev cs) = map lc_id cs"
  by (induction cs arbitrary: prev) (simp_all add: Let_def call_input_def)

lemma rows_written_prev:
  "r \<in> set (rows_written H service prev cs) \<Longrightarrow>
     ar_previous_hash r \<in> insert prev (H ` set (inputs_hashed H service prev cs))"
proof (induction cs arbitrary: prev)
  case (Cons c cs)
  then show ?case by (auto simp: Let_def logged_row_def split: if_splits dest: Cons.IH)
qed simp

lemma rows_written_Nil: "rows_written H service prev cs = [] \<longleftrightarrow> (\<forall>c \<in> set cs. lc_fails c)"
  by (induction cs arbitrary: prev) auto

lemma linked_iff_failures_last:
  assumes "inj_on H (set (inputs_hashed H service prev cs))"
    and "distinct (map lc_id cs)"
    and "prev \<notin> H ` set (inputs_hashed H service prev cs)"
  shows "linked prev (rows_written H service prev cs) \<longleftrightarrow> failures_last cs"
  using assms
proof (induction cs arbitrary: prev)
  case Nil
  then show ?case by simp
next
  case (Cons c cs)
  define i where "i = call_input service prev c"
  have ids: "lc_id c \<notin> set (map lc_id cs)" using Cons.prems(2) by simp
  have new: "i \<notin> set (inputs_hashed H service (H i) cs)"
  proof
    assume "i \<in> set (inputs_hashed H service (H i) cs)"
    then have "hi_ID i \<in> set (map hi_ID (inputs_hashed H service (H i) cs))"
      by (simp only: set_map) (rule imageI)
    with ids show False by (simp add: inputs_hashed_ids i_def call_input_def)
  qed
  have fresh: "H i \<notin> H ` set (inputs_hashed H service (H i) cs)"
    using Cons.prems(1) new by (auto simp: Let_def i_def [symmetric] inj_on_def)
  have IH: "linked (H i) (rows_written H service (H i) cs) \<longleftrightarrow> failures_last cs"
    using Cons.prems fresh by (intro Cons.IH) (auto simp: Let_def i_def [symmetric] inj_on_def)
  show ?case
  proof (cases "lc_fails c")
    case False
    then show ?thesis
      using IH by (simp add: i_def [symmetric]) (simp add: logged_row_def i_def)
  next
    case True
    show ?thesis
    proof (cases "\<forall>d \<in> set cs. lc_fails d")
      case all: True
      then have "rows_written H service (H i) cs = []" by (simp add: rows_written_Nil)
      moreover from this IH have "failures_last cs" by simp
      ultimately show ?thesis using True all by (simp add: i_def [symmetric])
    next
      case False
      then obtain r rs where rs: "rows_written H service (H i) cs = r # rs"
        using rows_written_Nil [of H service "H i" cs] by (auto simp: neq_Nil_conv)
      then have "ar_previous_hash r \<in> insert (H i) (H ` set (inputs_hashed H service (H i) cs))"
        by (intro rows_written_prev) simp
      with Cons.prems(3) have "ar_previous_hash r \<noteq> prev"
        by (auto simp: Let_def i_def [symmetric])
      with rs False True show ?thesis by (simp add: i_def [symmetric])
    qed
  qed
qed

text \<open>
  Over any run of a fresh logger with distinct ids and without collisions, the links of its rows are intact exactly when
  every failed write came after all successful ones.
\<close>

lemma audit_gap_detectable:
  assumes "inj_on H (set (inputs_hashed H service ''genesis'' calls))"
    and "distinct (map lc_id calls)"
    and "''genesis'' \<notin> H ` set (inputs_hashed H service ''genesis'' calls)"
  shows "linked ''genesis'' (lg_event_log (fold (log_call H) calls (NewLogger service))) \<longleftrightarrow> failures_last calls"
  using linked_iff_failures_last [OF assms] by (simp add: event_log_run NewLogger_def)

end
