(* ===== verification/Convert.thy ===== *)
theory Convert
  imports Models
begin

text \<open>
  The conversions of \<^verbatim>\<open>internal/convert/convert.go\<close> between the model types and the protobuf
  messages. A message is the record of the fields the code sets, an absent submessage is
  \<open>None\<close>, and an open proto3 enum has a constructor for the numbers the schema does not name.
  The lemmas show which values survive the trip over the wire: everything, except venues,
  sides, statuses and levels that the enums do not name.
\<close>

section \<open>Messages\<close>

record Timestamp =
  ts_Seconds :: int
  ts_Nanos :: int

definition timestamppb_New :: "time \<Rightarrow> Timestamp" where
  "timestamppb_New t = \<lparr>ts_Seconds = t div 1000000000, ts_Nanos = t mod 1000000000\<rparr>"

definition AsTime :: "Timestamp \<Rightarrow> time" where
  "AsTime ts = ts_Seconds ts * 1000000000 + ts_Nanos ts"

lemma AsTime_New [simp]: "AsTime (timestamppb_New t) = t"
  by (simp add: AsTime_def timestamppb_New_def)

datatype pb_Side = SIDE_UNSPECIFIED | SIDE_BUY | SIDE_SELL | SIDE_OTHER int
datatype pb_Venue = VENUE_UNSPECIFIED | VENUE_KALSHI | VENUE_POLYMARKET | VENUE_MOCK | VENUE_OTHER int
datatype pb_OrderType = ORDER_TYPE_UNSPECIFIED | ORDER_TYPE_LIMIT | ORDER_TYPE_OTHER int
datatype pb_OrderStatus =
    ORDER_STATUS_UNSPECIFIED | ORDER_STATUS_PENDING | ORDER_STATUS_OPEN | ORDER_STATUS_PARTIALLY_FILLED
  | ORDER_STATUS_FILLED | ORDER_STATUS_CANCELLED | ORDER_STATUS_REJECTED | ORDER_STATUS_EXPIRED
  | ORDER_STATUS_FAILED | ORDER_STATUS_OTHER int
datatype pb_KillSwitchLevel =
    KILL_LEVEL_UNSPECIFIED | KILL_LEVEL_SOFT_PAUSE | KILL_LEVEL_CANCEL_ONLY | KILL_LEVEL_FULL_STOP
  | KILL_LEVEL_OTHER int

record pb_Market =
  pm_Venue :: pb_Venue
  pm_MarketId :: string

record pb_ProposedOrder =
  po_TraceId :: string
  po_StrategyId :: string
  po_Market :: "pb_Market option"
  po_Side :: pb_Side
  po_OrderType :: pb_OrderType
  po_Quantity :: int32
  po_PriceMicros :: int64
  po_NotionalMicros :: int64
  po_ProposedAt :: "Timestamp option"

record pb_OrderRecord =
  pr_TraceId :: string
  pr_InternalOrderId :: string
  pr_ExchangeOrderId :: string
  pr_Status :: pb_OrderStatus
  pr_FilledQuantity :: int32
  pr_AvgFillPriceMicros :: int64
  pr_CredentialId :: string
  pr_SigningKeyId :: string
  pr_Proposed :: pb_ProposedOrder
  pr_SubmittedAt :: "Timestamp option"


section \<open>Conversions\<close>

definition SideToProto :: "Side \<Rightarrow> pb_Side" where
  "SideToProto s = (if s = SideBuy then SIDE_BUY else if s = SideSell then SIDE_SELL else SIDE_UNSPECIFIED)"

definition SideFromProto :: "pb_Side \<Rightarrow> Side" where
  "SideFromProto s = (case s of SIDE_BUY \<Rightarrow> SideBuy | SIDE_SELL \<Rightarrow> SideSell | _ \<Rightarrow> [])"

definition VenueToProto :: "string \<Rightarrow> pb_Venue" where
  "VenueToProto v =
     (if v = ''kalshi'' then VENUE_KALSHI else if v = ''polymarket'' then VENUE_POLYMARKET
      else if v = ''mock'' then VENUE_MOCK else VENUE_UNSPECIFIED)"

definition VenueFromProto :: "pb_Venue \<Rightarrow> string" where
  "VenueFromProto v =
     (case v of VENUE_KALSHI \<Rightarrow> ''kalshi'' | VENUE_POLYMARKET \<Rightarrow> ''polymarket''
      | VENUE_MOCK \<Rightarrow> ''mock'' | _ \<Rightarrow> [])"

definition ProposedOrderToProto :: "ProposedOrder \<Rightarrow> pb_ProposedOrder" where
  "ProposedOrderToProto ord =
     \<lparr>po_TraceId = o_TraceID ord, po_StrategyId = o_StrategyID ord,
      po_Market = Some \<lparr>pm_Venue = VenueToProto (o_Venue ord), pm_MarketId = o_MarketID ord\<rparr>,
      po_Side = SideToProto (o_Side ord), po_OrderType = ORDER_TYPE_LIMIT,
      po_Quantity = o_Quantity ord, po_PriceMicros = o_PriceMicros ord,
      po_NotionalMicros = o_NotionalMicros ord, po_ProposedAt = Some (timestamppb_New (o_ProposedAt ord))\<rparr>"

definition ProposedOrderFromProto :: "pb_ProposedOrder \<Rightarrow> ProposedOrder" where
  "ProposedOrderFromProto p =
     (let (venue, marketID) = (case po_Market p of None \<Rightarrow> ([], [])
             | Some mkt \<Rightarrow> (VenueFromProto (pm_Venue mkt), pm_MarketId mkt));
          proposedAt = (case po_ProposedAt p of None \<Rightarrow> zero_time | Some ts \<Rightarrow> AsTime ts) in
      \<lparr>o_TraceID = po_TraceId p, o_StrategyID = po_StrategyId p, o_Venue = venue, o_MarketID = marketID,
       o_Side = SideFromProto (po_Side p), o_Quantity = po_Quantity p, o_PriceMicros = po_PriceMicros p,
       o_NotionalMicros = po_NotionalMicros p, o_ProposedAt = proposedAt\<rparr>)"

definition OrderStatusToProto :: "OrderStatus \<Rightarrow> pb_OrderStatus" where
  "OrderStatusToProto s =
     (if s = StatusPending then ORDER_STATUS_PENDING
      else if s = StatusOpen then ORDER_STATUS_OPEN
      else if s = StatusPartiallyFilled then ORDER_STATUS_PARTIALLY_FILLED
      else if s = StatusFilled then ORDER_STATUS_FILLED
      else if s = StatusCancelled then ORDER_STATUS_CANCELLED
      else if s = StatusRejected then ORDER_STATUS_REJECTED
      else if s = StatusExpired then ORDER_STATUS_EXPIRED
      else if s = StatusFailed then ORDER_STATUS_FAILED
      else ORDER_STATUS_UNSPECIFIED)"

definition OrderRecordToProto :: "OrderRecord \<Rightarrow> pb_OrderRecord" where
  "OrderRecordToProto r =
     \<lparr>pr_TraceId = r_TraceID r, pr_InternalOrderId = r_InternalOrderID r,
      pr_ExchangeOrderId = r_ExchangeOrderID r, pr_Status = OrderStatusToProto (r_Status r),
      pr_FilledQuantity = r_FilledQuantity r, pr_AvgFillPriceMicros = r_AvgFillPriceMicros r,
      pr_CredentialId = r_CredentialID r, pr_SigningKeyId = r_SigningKeyID r,
      pr_Proposed =
        \<lparr>po_TraceId = r_TraceID r, po_StrategyId = r_StrategyID r,
         po_Market = Some \<lparr>pm_Venue = VenueToProto (r_Venue r), pm_MarketId = r_MarketID r\<rparr>,
         po_Side = SideToProto (r_Side r), po_OrderType = ORDER_TYPE_LIMIT, po_Quantity = r_Quantity r,
         po_PriceMicros = r_PriceMicros r, po_NotionalMicros = r_NotionalMicros r,
         po_ProposedAt = Some (timestamppb_New (r_ProposedAt r))\<rparr>,
      pr_SubmittedAt = map_option timestamppb_New (r_SubmittedAt r)\<rparr>"

definition KillSwitchLevelFromProto :: "pb_KillSwitchLevel \<Rightarrow> string" where
  "KillSwitchLevelFromProto l =
     (case l of KILL_LEVEL_SOFT_PAUSE \<Rightarrow> ''soft_pause'' | KILL_LEVEL_CANCEL_ONLY \<Rightarrow> ''cancel_only''
      | KILL_LEVEL_FULL_STOP \<Rightarrow> ''full_stop'' | _ \<Rightarrow> [])"

definition KillSwitchLevelToProto :: "string \<Rightarrow> pb_KillSwitchLevel" where
  "KillSwitchLevelToProto l =
     (if l = ''soft_pause'' then KILL_LEVEL_SOFT_PAUSE else if l = ''cancel_only'' then KILL_LEVEL_CANCEL_ONLY
      else if l = ''full_stop'' then KILL_LEVEL_FULL_STOP else KILL_LEVEL_UNSPECIFIED)"


section \<open>Round trips\<close>

definition wire_venues :: "string list" where
  "wire_venues = [''kalshi'', ''polymarket'', ''mock'']"

text \<open>What an order looks like after the trip: an unnamed venue or side becomes the empty string.\<close>

definition wire_order :: "ProposedOrder \<Rightarrow> bool" where
  "wire_order ord \<longleftrightarrow> o_Venue ord \<in> set wire_venues \<union> {[]} \<and> o_Side ord \<in> {SideBuy, SideSell, []}"

lemma VenueFromTo: "VenueFromProto (VenueToProto v) = (if v \<in> set wire_venues then v else [])"
  by (simp add: VenueFromProto_def VenueToProto_def wire_venues_def)

lemma SideFromTo: "SideFromProto (SideToProto s) = (if s = SideBuy \<or> s = SideSell then s else [])"
  by (simp add: SideFromProto_def SideToProto_def)

lemma KillSwitchLevelFromTo:
  "KillSwitchLevelFromProto (KillSwitchLevelToProto l) =
     (if l \<in> {''soft_pause'', ''cancel_only'', ''full_stop''} then l else [])"
  by (simp add: KillSwitchLevelFromProto_def KillSwitchLevelToProto_def)

lemma OrderStatusToProto_inj:
  "s \<in> known_statuses \<Longrightarrow> t \<in> known_statuses \<Longrightarrow> OrderStatusToProto s = OrderStatusToProto t \<Longrightarrow> s = t"
  unfolding known_statuses_def OrderStatusToProto_def by (elim insertE emptyE; simp)

lemma order_over_the_wire:
  "ProposedOrderFromProto (ProposedOrderToProto ord) = ord \<longleftrightarrow> wire_order ord"
proof -
  have "ProposedOrderFromProto (ProposedOrderToProto ord) =
          ord\<lparr>o_Venue := VenueFromProto (VenueToProto (o_Venue ord)),
              o_Side := SideFromProto (SideToProto (o_Side ord))\<rparr>"
    by (cases ord) (simp add: ProposedOrderFromProto_def ProposedOrderToProto_def Let_def)
  then show ?thesis
    by (cases ord) (auto simp: VenueFromTo SideFromTo wire_order_def)
qed

end
