(* ===== verification/Risk_Engine.thy ===== *)
theory Risk_Engine
  imports Risk_Checks Audit_Log Convert
begin

text \<open>
  The risk engine of \<^verbatim>\<open>services/risk/engine.go\<close>, its gRPC conversions (\<^verbatim>\<open>grpc_server.go\<close>) and its
  event handlers (\<^verbatim>\<open>cmd/risk-engine/main.go\<close>). The engine record carries the in-memory state,
  the rows of its tables, the events it published and its audit logger. HMAC-SHA256, the audit
  hash and the YAML encoder are parameters, collected in \<open>Env\<close>. A handler is one step: \<open>wall\<close>
  is the clock the checks read, \<open>now\<close> the time of the decision.
\<close>

section \<open>Types\<close>

record Env =
  env_hmac :: "bytes \<Rightarrow> bytes \<Rightarrow> bytes"  \<comment> \<open>key, message\<close>
  env_hash :: "HashInput \<Rightarrow> string"
  env_yaml :: "Policy \<Rightarrow> bytes"

type_synonym Decision = string
abbreviation DecisionApproved :: Decision where "DecisionApproved \<equiv> ''approved''"
abbreviation DecisionDenied :: Decision where "DecisionDenied \<equiv> ''denied''"
abbreviation DecisionEscalated :: Decision where "DecisionEscalated \<equiv> ''escalated''"

record Approval =
  a_TraceID :: string
  a_Order :: ProposedOrder
  a_Decision :: Decision
  a_Checks :: "CheckResultDetail list"
  a_PolicyConfigHash :: string
  a_DecidedAt :: time
  a_HMACSignature :: bytes

record FillReport =
  fr_TraceID :: string
  fr_InternalOrderID :: string
  fr_StrategyID :: string
  fr_Venue :: string
  fr_MarketID :: string
  fr_Side :: Side
  fr_Quantity :: int32
  fr_PriceMicros :: int64

record PositionRow =
  pos_venue :: string
  pos_market_id :: string
  pos_strategy_id :: string
  pos_net_quantity :: int32
  pos_notional_micros :: int64
  pos_realized_pnl_micros :: int64
  pos_updated_at :: time

record DailyStatRow =
  ds_date :: int
  ds_scope :: string
  ds_pnl_micros :: int64
  ds_turnover_micros :: int64
  ds_order_count :: int32
  ds_fill_count :: int32
  ds_consecutive_losses :: int32

record PolicyDecisionRow =
  pd_trace_id :: string
  pd_strategy_id :: string
  pd_market_id :: string
  pd_decision :: Decision
  pd_checks_json :: json_value
  pd_policy_config_hash :: string
  pd_risk_state_snapshot :: json_value
  pd_decided_at :: time

record RiskEngine =
  re_state :: State
  re_policy :: Policy
  re_hmacKey :: bytes
  re_auditor :: Logger
  re_out :: outbox
  re_positions :: "PositionRow list"
  re_daily_stats :: "DailyStatRow list"
  re_decisions :: "PolicyDecisionRow list"

text \<open>The engine over the tables it finds.\<close>

definition NewEngine ::
  "Policy \<Rightarrow> bytes \<Rightarrow> PositionRow list \<Rightarrow> DailyStatRow list \<Rightarrow> PolicyDecisionRow list \<Rightarrow> RiskEngine" where
  "NewEngine policy hmacKey positions stats decisions =
     \<lparr>re_state = NewEmptyState, re_policy = policy, re_hmacKey = hmacKey,
      re_auditor = NewLogger ''risk-engine'', re_out = [], re_positions = positions,
      re_daily_stats = stats, re_decisions = decisions\<rparr>"


section \<open>Signing\<close>

definition approval_bytes :: "Approval \<Rightarrow> bytes" where
  "approval_bytes a =
     bytes_of (a_TraceID a) @ bytes_of (o_Venue (a_Order a)) @ bytes_of (o_MarketID (a_Order a))
     @ bytes_of (o_Side (a_Order a)) @ be32 (o_Quantity (a_Order a)) @ be64 (o_PriceMicros (a_Order a))
     @ be64 (o_NotionalMicros (a_Order a)) @ bytes_of (a_Decision a) @ be64 (time_UnixMicro (a_DecidedAt a))"

definition signApproval :: "(bytes \<Rightarrow> bytes \<Rightarrow> bytes) \<Rightarrow> bytes \<Rightarrow> Approval \<Rightarrow> bytes" where
  "signApproval hmac hmacKey a = hmac hmacKey (approval_bytes a)"

definition VerifyApproval :: "(bytes \<Rightarrow> bytes \<Rightarrow> bytes) \<Rightarrow> Approval \<Rightarrow> bytes \<Rightarrow> bool" where
  "VerifyApproval hmac a hmacKey \<longleftrightarrow> a_HMACSignature a = hmac hmacKey (approval_bytes a)"


section \<open>Evaluation\<close>

definition encodeChecks :: "CheckResultDetail list \<Rightarrow> json_value" where
  "encodeChecks checks = JArr (map (\<lambda>c. JObj ([(''name'', JString (c_Name c)), (''passed'', JBool (c_Passed c))]
     @ (if c_Detail c = [] then [] else [(''detail'', JString (c_Detail c))]))) checks)"

definition encodeState :: "State \<Rightarrow> json_value" where
  "encodeState st = JObj [(''daily_pnl'', JInt (sint (st_DailyPnL st))), (''system_mode'', JString (st_SystemMode st)),
     (''total_exposure'', JInt (sint (st_TotalExposure st)))]"

text \<open>The loop over the results: whether all passed, and the first failure.\<close>

definition note_result :: "bool \<times> string \<Rightarrow> CheckResultDetail \<Rightarrow> bool \<times> string" where
  "note_result acc r =
     (case acc of (allPassed, firstFailure) \<Rightarrow>
        if c_Passed r then (allPassed, firstFailure)
        else (False, if firstFailure = [] then c_Name r @ '': '' @ c_Detail r else firstFailure))"

definition failed_events :: "CheckResultDetail list \<Rightarrow> CheckResult list" where
  "failed_events results =
     map (\<lambda>r. \<lparr>cr_Name = c_Name r, cr_Result = ''fail'', cr_Detail = c_Detail r\<rparr>)
       (filter (\<lambda>r. \<not> c_Passed r) results)"

definition track_approval :: "time \<Rightarrow> ProposedOrder \<Rightarrow> State \<Rightarrow> State" where
  "track_approval now ord st =
     st\<lparr>st_RecentOrderTimes := (st_RecentOrderTimes st)(o_StrategyID ord \<mapsto>
           map_get (st_RecentOrderTimes st) (o_StrategyID ord) [] @ [now]),
        st_RecentOrderKeys := (st_RecentOrderKeys st)(IdempotencyKey ord \<mapsto> now),
        st_RecentNotionals := (st_RecentNotionals st)(o_StrategyID ord \<mapsto>
           map_get (st_RecentNotionals st) (o_StrategyID ord) [] @ [o_NotionalMicros ord])\<rparr>"

definition decide :: "Env \<Rightarrow> time \<Rightarrow> time \<Rightarrow> ProposedOrder \<Rightarrow> RiskEngine \<Rightarrow> Approval" where
  "decide env wall now ord e =
     (let results = RunAllChecks wall ord (re_state e) (re_policy e);
          (allPassed, firstFailure) = foldl note_result (True, []) results;
          approval = \<lparr>a_TraceID = o_TraceID ord, a_Order = ord,
             a_Decision = (if allPassed then DecisionApproved else DecisionDenied), a_Checks = results,
             a_PolicyConfigHash = ConfigHash (env_yaml env) (re_policy e), a_DecidedAt = now,
             a_HMACSignature = []\<rparr>
      in approval\<lparr>a_HMACSignature := signApproval (env_hmac env) (re_hmacKey e) approval\<rparr>)"

definition EvaluateOrder ::
  "Env \<Rightarrow> faults \<Rightarrow> time \<Rightarrow> time \<Rightarrow> uuid \<Rightarrow> ProposedOrder \<Rightarrow> RiskEngine
     \<Rightarrow> (order_error, Approval) result \<times> RiskEngine" where
  "EvaluateOrder env flt wall now aid ord e =
     (case ProposedOrder_Validate ord of Inl err \<Rightarrow> (Inl err, e)
      | Inr _ \<Rightarrow>
        let approval = decide env wall now ord e;
            results = a_Checks approval;
            firstFailure = snd (foldl note_result (True, []) results);
            row = \<lparr>pd_trace_id = o_TraceID ord, pd_strategy_id = o_StrategyID ord,
               pd_market_id = o_MarketID ord, pd_decision = a_Decision approval,
               pd_checks_json = encodeChecks results, pd_policy_config_hash = a_PolicyConfigHash approval,
               pd_risk_state_snapshot = encodeState (re_state e), pd_decided_at = now\<rparr>;
            e = (if flt (Db ''risk.policy_decisions'' (o_TraceID ord)) then e
                 else e\<lparr>re_decisions := re_decisions e @ [row]\<rparr>)
        in if a_Decision approval = DecisionApproved
           then (Inr approval,
             e\<lparr>re_out := publish flt (SubjectOrderApproved @ ''.'' @ o_StrategyID ord)
                  (EvOrderApproved \<lparr>oae_TraceID = o_TraceID ord,
                     oae_PolicyConfigHash = a_PolicyConfigHash approval, oae_Timestamp = now\<rparr>) (re_out e),
               re_auditor := LogInfo (env_hash env) flt aid now ''order.approved'' (o_TraceID ord)
                  [(''strategy_id'', JString (o_StrategyID ord)), (''market_id'', JString (o_MarketID ord)),
                   (''notional'', JInt (sint (o_NotionalMicros ord)))] (re_auditor e),
               re_state := track_approval now ord (re_state e)\<rparr>)
           else (Inr approval,
             e\<lparr>re_out := publish flt (SubjectOrderDenied @ ''.'' @ o_StrategyID ord)
                  (EvOrderDenied \<lparr>ode_TraceID = o_TraceID ord, ode_DenyReason = firstFailure,
                     ode_FailedChecks = failed_events results, ode_Timestamp = now\<rparr>) (re_out e),
               re_auditor := LogInfo (env_hash env) flt aid now ''order.denied'' (o_TraceID ord)
                  [(''strategy_id'', JString (o_StrategyID ord)), (''reason'', JString firstFailure)]
                  (re_auditor e)\<rparr>))"


section \<open>State updates\<close>

definition UpdateMarketData :: "MarketData \<Rightarrow> RiskEngine \<Rightarrow> RiskEngine" where
  "UpdateMarketData data e =
     e\<lparr>re_state := (re_state e)\<lparr>st_MarketData :=
        (st_MarketData (re_state e))(md_Venue data @ '':'' @ md_MarketID data \<mapsto> data)\<rparr>\<rparr>"

definition SetSystemMode :: "string \<Rightarrow> RiskEngine \<Rightarrow> RiskEngine" where
  "SetSystemMode mode e = e\<lparr>re_state := (re_state e)\<lparr>st_SystemMode := mode\<rparr>\<rparr>"

text \<open>The two NATS subscriptions of \<^verbatim>\<open>cmd/risk-engine/main.go\<close>.\<close>

definition on_market_data :: "MarketDataEvent \<Rightarrow> RiskEngine \<Rightarrow> RiskEngine" where
  "on_market_data mde =
     UpdateMarketData \<lparr>md_Venue = mde_Venue mde, md_MarketID = mde_MarketID mde, md_DisplayName = [],
       md_BidPriceMicros = mde_BidPriceMicros mde, md_AskPriceMicros = mde_AskPriceMicros mde,
       md_LastPriceMicros = mde_LastPriceMicros mde, md_BidDepth = mde_BidDepth mde,
       md_AskDepth = mde_AskDepth mde, md_Volume24h = Fin 0, md_UpdatedAt = mde_Timestamp mde\<rparr>"

definition on_kill_switch :: "KillSwitchEvent \<Rightarrow> RiskEngine \<Rightarrow> RiskEngine" where
  "on_kill_switch kse = SetSystemMode (kse_Level kse)"

definition fill_key :: "FillReport \<Rightarrow> string" where
  "fill_key fill = fr_Venue fill @ '':'' @ fr_MarketID fill @ '':'' @ fr_StrategyID fill"

definition fill_notional :: "FillReport \<Rightarrow> Money" where
  "fill_notional fill = scast (fr_Quantity fill) * fr_PriceMicros fill"

definition apply_fill :: "FillReport \<Rightarrow> MarketState \<Rightarrow> MarketState" where
  "apply_fill fill ms =
     (if fr_Side fill = SideBuy
      then ms\<lparr>ms_PositionContracts := ms_PositionContracts ms + fr_Quantity fill,
              ms_PositionNotional := ms_PositionNotional ms + fill_notional fill\<rparr>
      else ms\<lparr>ms_PositionContracts := ms_PositionContracts ms - fr_Quantity fill,
              ms_PositionNotional := ms_PositionNotional ms - fill_notional fill\<rparr>)"

definition utc_date :: "time \<Rightarrow> int" where
  "utc_date t = t div (86400 * 1000000000)"

text \<open>An addition that overflows its column fails the statement.\<close>

definition upsert_daily_stat :: "faults \<Rightarrow> int \<Rightarrow> int64 \<Rightarrow> string \<Rightarrow> DailyStatRow list \<Rightarrow> DailyStatRow list" where
  "upsert_daily_stat flt today turnover scope rows =
     (let p = (\<lambda>r. ds_date r = today \<and> ds_scope r = scope) in
      if flt (Db ''risk.daily_stats'' scope)
         \<or> list_ex (\<lambda>r. p r \<and> (2147483647 < sint (ds_fill_count r) + 1
              \<or> 9223372036854775807 < sint (ds_turnover_micros r) + sint turnover)) rows
      then rows
      else sql_upsert p
        (\<lambda>r. r\<lparr>ds_fill_count := ds_fill_count r + 1, ds_turnover_micros := ds_turnover_micros r + turnover\<rparr>)
        \<lparr>ds_date = today, ds_scope = scope, ds_pnl_micros = 0, ds_turnover_micros = turnover,
         ds_order_count = 0, ds_fill_count = 1, ds_consecutive_losses = 0\<rparr> rows)"

definition upsert_position :: "faults \<Rightarrow> time \<Rightarrow> FillReport \<Rightarrow> MarketState \<Rightarrow> PositionRow list \<Rightarrow> PositionRow list" where
  "upsert_position flt now fill ms rows =
     (if flt (Db ''risk.positions'' (fill_key fill)) then rows
      else sql_upsert (\<lambda>r. pos_venue r = fr_Venue fill \<and> pos_market_id r = fr_MarketID fill
                           \<and> pos_strategy_id r = fr_StrategyID fill)
        (\<lambda>r. r\<lparr>pos_net_quantity := ms_PositionContracts ms, pos_notional_micros := ms_PositionNotional ms,
               pos_updated_at := now\<rparr>)
        \<lparr>pos_venue = fr_Venue fill, pos_market_id = fr_MarketID fill, pos_strategy_id = fr_StrategyID fill,
         pos_net_quantity = ms_PositionContracts ms, pos_notional_micros = ms_PositionNotional ms,
         pos_realized_pnl_micros = 0, pos_updated_at = now\<rparr> rows)"

definition ReportFill :: "faults \<Rightarrow> time \<Rightarrow> FillReport \<Rightarrow> RiskEngine \<Rightarrow> RiskEngine" where
  "ReportFill flt now fill e =
     (let st = re_state e;
          ms = (case st_Markets st (fill_key fill) of Some ms \<Rightarrow> ms
                | None \<Rightarrow> \<lparr>ms_PositionContracts = 0, ms_PositionNotional = 0, ms_StrategyID = fr_StrategyID fill\<rparr>);
          ms = apply_fill fill ms;
          stats = foldl (\<lambda>rows scope. upsert_daily_stat flt (utc_date now) (Money_Abs (fill_notional fill)) scope rows)
                    (re_daily_stats e)
                    [''global'', ''venue:'' @ fr_Venue fill, ''strategy:'' @ fr_StrategyID fill]
      in e\<lparr>re_state := st\<lparr>st_Markets := (st_Markets st)(fill_key fill \<mapsto> ms)\<rparr>,
           re_daily_stats := stats,
           re_positions := upsert_position flt now fill ms (re_positions e)\<rparr>)"



section \<open>Startup\<close>

definition zero_strategy :: StrategyState where
  "zero_strategy = \<lparr>ss_DailyPnL = 0, ss_Exposure = 0, ss_DailyOrderCount = 0, ss_DailyTurnover = 0,
     ss_ConsecutiveLosses = 0, ss_Halted = False, ss_HaltReason = [], ss_OpenOrderCount = 0\<rparr>"

definition getOrCreateStrategy :: "string \<Rightarrow> State \<Rightarrow> StrategyState" where
  "getOrCreateStrategy strategyID st = map_get (st_Strategies st) strategyID zero_strategy"

definition load_position :: "State \<Rightarrow> PositionRow \<Rightarrow> State" where
  "load_position st r =
     st\<lparr>st_Markets := (st_Markets st)(pos_venue r @ '':'' @ pos_market_id r @ '':'' @ pos_strategy_id r \<mapsto>
          \<lparr>ms_PositionContracts = pos_net_quantity r, ms_PositionNotional = pos_notional_micros r,
           ms_StrategyID = pos_strategy_id r\<rparr>),
        st_TotalExposure := st_TotalExposure st + Money_Abs (pos_notional_micros r)\<rparr>"

definition load_stat :: "State \<Rightarrow> DailyStatRow \<Rightarrow> State" where
  "load_stat st r = (if ds_scope r = ''global'' then st\<lparr>st_DailyPnL := ds_pnl_micros r\<rparr> else st)"

text \<open>
  The mode query: the level of the most severe row that is not resumed, \<^verbatim>\<open>normal\<close> when there is
  none (the table admits only the three levels).
\<close>

definition load_mode :: "KillRow list \<Rightarrow> string" where
  "load_mode rows =
     (case sort_key (\<lambda>r. - int (severityRank (ks_level r))) (filter (\<lambda>r. \<not> ks_resumed r) rows) of
        [] \<Rightarrow> ''normal''
      | r # _ \<Rightarrow> if ks_level r \<in> set kill_levels then ks_level r else ''normal'')"

definition load_halt :: "State \<Rightarrow> KillRow \<Rightarrow> State" where
  "load_halt st r =
     (if 9 < length (ks_scope r)
      then let stratID = drop 9 (ks_scope r);
               ss = getOrCreateStrategy stratID st
           in st\<lparr>st_Strategies := (st_Strategies st)(stratID \<mapsto> ss\<lparr>ss_Halted := True, ss_HaltReason := ks_reason r\<rparr>)\<rparr>
      else st)"

definition strategy_halts :: "KillRow list \<Rightarrow> KillRow list" where
  "strategy_halts rows = filter (\<lambda>r. \<not> ks_resumed r \<and> take 9 (ks_scope r) = ''strategy:'') rows"

datatype load_error = LoadPositions | LoadDailyStats | LoadSystemMode

definition LoadState :: "faults \<Rightarrow> time \<Rightarrow> KillRow list \<Rightarrow> RiskEngine \<Rightarrow> (load_error, unit) result \<times> RiskEngine" where
  "LoadState flt now kills e =
     (if flt (Db ''risk.positions'' []) then (Inl LoadPositions, e)
      else let st = foldl load_position (re_state e) (filter (\<lambda>r. pos_net_quantity r \<noteq> 0) (re_positions e)) in
        if flt (Db ''risk.daily_stats'' []) then (Inl LoadDailyStats, e\<lparr>re_state := st\<rparr>)
        else let st = foldl load_stat st (filter (\<lambda>r. ds_date r = utc_date now) (re_daily_stats e)) in
          if flt (Db ''watchdog.kill_switch_events'' ''mode'') then (Inl LoadSystemMode, e\<lparr>re_state := st\<rparr>)
          else let st = st\<lparr>st_SystemMode := load_mode kills\<rparr>;
                   st = (if flt (Db ''watchdog.kill_switch_events'' ''strategies'') then st
                         else foldl load_halt st (strategy_halts kills))
               in (Inr (), e\<lparr>re_state := st\<rparr>))"


section \<open>The gRPC surface\<close>

datatype pb_CheckResult = CHECK_PASS | CHECK_FAIL | CHECK_OTHER int
datatype pb_ApprovalDecision =
    DECISION_UNSPECIFIED | DECISION_APPROVED | DECISION_DENIED | DECISION_ESCALATED | DECISION_OTHER int

record pb_PolicyCheckDetail =
  pc_CheckName :: string
  pc_Result :: pb_CheckResult
  pc_Detail :: string

record pb_SignedApproval =
  psa_TraceId :: string
  psa_Order :: pb_ProposedOrder
  psa_Decision :: pb_ApprovalDecision
  psa_Checks :: "pb_PolicyCheckDetail list"
  psa_PolicyConfigHash :: string
  psa_DecidedAt :: "Timestamp option"
  psa_HmacSignature :: bytes

record pb_ReportFillRequest =
  rf_TraceId :: string
  rf_InternalOrderId :: string
  rf_StrategyId :: string
  rf_Market :: "pb_Market option"
  rf_Side :: pb_Side
  rf_FilledQuantity :: int32
  rf_FillPriceMicros :: int64

definition approvalToProto :: "Approval \<Rightarrow> pb_SignedApproval" where
  "approvalToProto a =
     \<lparr>psa_TraceId = a_TraceID a, psa_Order = ProposedOrderToProto (a_Order a),
      psa_Decision = (if a_Decision a = DecisionApproved then DECISION_APPROVED
         else if a_Decision a = DecisionEscalated then DECISION_ESCALATED else DECISION_DENIED),
      psa_Checks = map (\<lambda>c. \<lparr>pc_CheckName = c_Name c, pc_Result = (if c_Passed c then CHECK_PASS else CHECK_FAIL),
         pc_Detail = c_Detail c\<rparr>) (a_Checks a),
      psa_PolicyConfigHash = a_PolicyConfigHash a, psa_DecidedAt = Some (timestamppb_New (a_DecidedAt a)),
      psa_HmacSignature = a_HMACSignature a\<rparr>"

definition approvalFromProto :: "pb_SignedApproval \<Rightarrow> Approval" where
  "approvalFromProto p =
     \<lparr>a_TraceID = psa_TraceId p, a_Order = ProposedOrderFromProto (psa_Order p),
      a_Decision = (case psa_Decision p of DECISION_APPROVED \<Rightarrow> DecisionApproved
         | DECISION_ESCALATED \<Rightarrow> DecisionEscalated | _ \<Rightarrow> DecisionDenied),
      a_Checks = map (\<lambda>c. \<lparr>c_Name = pc_CheckName c, c_Passed = (pc_Result c = CHECK_PASS),
         c_Detail = pc_Detail c\<rparr>) (psa_Checks p),
      a_PolicyConfigHash = psa_PolicyConfigHash p,
      a_DecidedAt = (case psa_DecidedAt p of None \<Rightarrow> zero_time | Some ts \<Rightarrow> AsTime ts),
      a_HMACSignature = psa_HmacSignature p\<rparr>"

definition fillReportFromProto :: "pb_ReportFillRequest \<Rightarrow> FillReport" where
  "fillReportFromProto p =
     (let (venue, marketID) = (case rf_Market p of None \<Rightarrow> ([], [])
             | Some mkt \<Rightarrow> (VenueFromProto (pm_Venue mkt), pm_MarketId mkt)) in
      \<lparr>fr_TraceID = rf_TraceId p, fr_InternalOrderID = rf_InternalOrderId p, fr_StrategyID = rf_StrategyId p,
       fr_Venue = venue, fr_MarketID = marketID, fr_Side = SideFromProto (rf_Side p),
       fr_Quantity = rf_FilledQuantity p, fr_PriceMicros = rf_FillPriceMicros p\<rparr>)"

definition fillReportToProto :: "FillReport \<Rightarrow> pb_ReportFillRequest" where
  "fillReportToProto f =
     \<lparr>rf_TraceId = fr_TraceID f, rf_InternalOrderId = fr_InternalOrderID f, rf_StrategyId = fr_StrategyID f,
      rf_Market = Some \<lparr>pm_Venue = VenueToProto (fr_Venue f), pm_MarketId = fr_MarketID f\<rparr>,
      rf_Side = SideToProto (fr_Side f), rf_FilledQuantity = fr_Quantity f, rf_FillPriceMicros = fr_PriceMicros f\<rparr>"

datatype grpc_error = InvalidArgument string | Internal string | Unimplemented string

definition GRPC_EvaluateOrder ::
  "Env \<Rightarrow> faults \<Rightarrow> time \<Rightarrow> time \<Rightarrow> uuid \<Rightarrow> pb_ProposedOrder option \<Rightarrow> RiskEngine
     \<Rightarrow> (grpc_error, pb_SignedApproval) result \<times> RiskEngine" where
  "GRPC_EvaluateOrder env flt wall now aid req e =
     (case req of None \<Rightarrow> (Inl (InvalidArgument ''order is required''), e)
      | Some p \<Rightarrow>
        (case EvaluateOrder env flt wall now aid (ProposedOrderFromProto p) e of
           (Inl err, e') \<Rightarrow> (Inl (Internal ''evaluate order''), e')
         | (Inr approval, e') \<Rightarrow> (Inr (approvalToProto approval), e')))"

definition GRPC_ReportFill ::
  "faults \<Rightarrow> time \<Rightarrow> pb_ReportFillRequest \<Rightarrow> RiskEngine \<Rightarrow> (grpc_error, bool) result \<times> RiskEngine" where
  "GRPC_ReportFill flt now req e = (Inr True, ReportFill flt now (fillReportFromProto req) e)"

text \<open>The state as \<^verbatim>\<open>GetRiskState\<close> reports it; the drawdown of the message is never filled in.\<close>

record pb_StrategyRiskState =
  psr_DailyPnl :: int64
  psr_Exposure :: int64
  psr_DailyOrderCount :: int32
  psr_ConsecutiveLosses :: int32
  psr_Halted :: bool
  psr_HaltReason :: string

record pb_VenueRiskState =
  pvr_DailyPnl :: int64
  pvr_Exposure :: int64
  pvr_Halted :: bool

record pb_RiskState =
  prs_TotalExposure :: int64
  prs_DailyPnl :: int64
  prs_PeakEquity :: int64
  prs_SystemMode :: string
  prs_Strategies :: "string \<rightharpoonup> pb_StrategyRiskState"
  prs_Venues :: "string \<rightharpoonup> pb_VenueRiskState"
  prs_Markets :: "string \<rightharpoonup> int32 \<times> int64"
  prs_AsOf :: Timestamp

definition riskStateToProto :: "time \<Rightarrow> State \<Rightarrow> pb_RiskState" where
  "riskStateToProto now s =
     \<lparr>prs_TotalExposure = st_TotalExposure s, prs_DailyPnl = st_DailyPnL s, prs_PeakEquity = st_PeakEquity s,
      prs_SystemMode = st_SystemMode s,
      prs_Strategies = (\<lambda>k. map_option (\<lambda>v. \<lparr>psr_DailyPnl = ss_DailyPnL v, psr_Exposure = ss_Exposure v,
         psr_DailyOrderCount = ss_DailyOrderCount v, psr_ConsecutiveLosses = ss_ConsecutiveLosses v, psr_Halted = ss_Halted v,
         psr_HaltReason = ss_HaltReason v\<rparr>) (st_Strategies s k)),
      prs_Venues = (\<lambda>k. map_option (\<lambda>v. \<lparr>pvr_DailyPnl = vs_DailyPnL v, pvr_Exposure = vs_Exposure v, pvr_Halted = vs_Halted v\<rparr>) (st_Venues s k)),
      prs_Markets = (\<lambda>k. map_option (\<lambda>v. (ms_PositionContracts v, ms_PositionNotional v)) (st_Markets s k)),
      prs_AsOf = timestamppb_New now\<rparr>"

definition GetState :: "RiskEngine \<Rightarrow> State" where
  "GetState e = re_state e"

definition GRPC_GetRiskState :: "time \<Rightarrow> RiskEngine \<Rightarrow> pb_RiskState" where
  "GRPC_GetRiskState now e = riskStateToProto now (GetState e)"

definition GRPC_UpdateLimit :: "RiskEngine \<Rightarrow> (grpc_error, unit) result \<times> RiskEngine" where
  "GRPC_UpdateLimit e = (Inl (Unimplemented ''UpdateLimit not implemented in this phase''), e)"


section \<open>Decisions\<close>

lemma note_result_fold:
  "foldl note_result (b, f) rs =
     (b \<and> (\<forall>r \<in> set rs. c_Passed r),
      if f \<noteq> [] then f else (case find (\<lambda>r. \<not> c_Passed r) rs of None \<Rightarrow> []
        | Some r \<Rightarrow> c_Name r @ '': '' @ c_Detail r))"
  by (induction rs arbitrary: b f) (auto simp: note_result_def)

lemma decide_fields [simp]:
  "a_TraceID (decide env wall now ord e) = o_TraceID ord" "a_Order (decide env wall now ord e) = ord"
  "a_Checks (decide env wall now ord e) = RunAllChecks wall ord (re_state e) (re_policy e)"
  "a_DecidedAt (decide env wall now ord e) = now"
  "a_PolicyConfigHash (decide env wall now ord e) = ConfigHash (env_yaml env) (re_policy e)"
  by (simp_all add: decide_def Let_def split_beta)

lemma decide_decision:
  "a_Decision (decide env wall now ord e) =
     (if \<forall>r \<in> set (RunAllChecks wall ord (re_state e) (re_policy e)). c_Passed r
      then DecisionApproved else DecisionDenied)"
  by (simp add: decide_def Let_def note_result_fold)

lemma decide_signature:
  "a_HMACSignature (decide env wall now ord e) =
     env_hmac env (re_hmacKey e) (approval_bytes (decide env wall now ord e))"
  by (simp add: decide_def Let_def split_beta signApproval_def approval_bytes_def)

lemma EvaluateOrder_result:
  "fst (EvaluateOrder env flt wall now aid ord e) =
     (case ProposedOrder_Validate ord of Inl err \<Rightarrow> Inl err | Inr _ \<Rightarrow> Inr (decide env wall now ord e))"
  by (simp add: EvaluateOrder_def Let_def split: sum.split)

lemma EvaluateOrder_Inr:
  assumes "EvaluateOrder env flt wall now aid ord e = (Inr a, e')"
  shows "ProposedOrder_Validate ord = Inr ()" and "a = decide env wall now ord e"
  using assms EvaluateOrder_result [of env flt wall now aid ord e]
  by (cases "ProposedOrder_Validate ord"; simp)+

lemma EvaluateOrder_state:
  "re_state (snd (EvaluateOrder env flt wall now aid ord e)) =
     (if ProposedOrder_Validate ord = Inr () \<and> a_Decision (decide env wall now ord e) = DecisionApproved
      then track_approval now ord (re_state e) else re_state e)"
  by (auto simp: EvaluateOrder_def Let_def split: sum.split)

lemma EvaluateOrder_keeps [simp]:
  "re_policy (snd (EvaluateOrder env flt wall now aid ord e)) = re_policy e"
  "re_hmacKey (snd (EvaluateOrder env flt wall now aid ord e)) = re_hmacKey e"
  "re_positions (snd (EvaluateOrder env flt wall now aid ord e)) = re_positions e"
  by (auto simp: EvaluateOrder_def Let_def split: sum.split)


text \<open>
  C4: Order evaluation decides exactly by the twenty checks. Assume that the figures the checks read
  are far enough from the ends of their ranges that no 64-bit sum wraps around
  (\<open>numbers_in_range\<close>). An order that fails validation is an error and
  leaves the engine untouched. Otherwise \<^verbatim>\<open>EvaluateOrder\<close> returns an approval for this very order
  with all twenty check results; it says approved exactly when the order satisfies the conditions of
  the twenty checks, stated in integers (\<open>order_permitted\<close>; the policy has limits that no check
  reads, see \<open>unchecked_limits\<close>), and denied otherwise; its signature verifies under the engine's
  key; and the risk state changes only when the order is approved. This holds whatever database
  writes, publications and audit writes fail.
\<close>

theorem evaluate_decides_exactly:
  assumes "numbers_in_range ord (re_state e) (re_policy e)"
  shows "(\<not> well_formed_order ord \<longrightarrow>
            (\<exists>err. EvaluateOrder env flt wall now aid ord e = (Inl err, e)))
    \<and> (well_formed_order ord \<longrightarrow>
        (\<exists>a. fst (EvaluateOrder env flt wall now aid ord e) = Inr a
          \<and> a_Order a = ord \<and> a_TraceID a = o_TraceID ord \<and> a_DecidedAt a = now
          \<and> map c_Name (a_Checks a) = map fst allChecks
          \<and> a_Decision a = (if order_permitted (State_Now wall (re_state e)) ord (re_state e) (re_policy e)
                            then DecisionApproved else DecisionDenied)
          \<and> VerifyApproval (env_hmac env) a (re_hmacKey e)
          \<and> (a_Decision a \<noteq> DecisionApproved \<longrightarrow>
               re_state (snd (EvaluateOrder env flt wall now aid ord e)) = re_state e)))"
proof (cases "well_formed_order ord")
  case False
  then have "ProposedOrder_Validate ord \<noteq> Inr ()" by (simp add: Validate_ok_iff)
  then obtain err where "ProposedOrder_Validate ord = Inl err" by (cases "ProposedOrder_Validate ord") auto
  with False show ?thesis by (simp add: EvaluateOrder_def)
next
  case True
  then have val: "ProposedOrder_Validate ord = Inr ()" by (simp add: Validate_ok_iff)
  show ?thesis
    using True all_passed_iff_permitted [OF True assms, of wall]
    by (simp add: EvaluateOrder_result EvaluateOrder_state val decide_decision RunAllChecks_names
        VerifyApproval_def decide_signature)
qed

definition sample_env :: Env where
  "sample_env = \<lparr>env_hmac = (\<lambda>k m. k @ m), env_hash = hi_ID, env_yaml = (\<lambda>_. [])\<rparr>"

definition sample_engine :: RiskEngine where
  "sample_engine = (NewEngine sample_policy [1, 2, 3] [] [] [])\<lparr>re_state := sample_state\<rparr>"

lemma sample_engine_in_range: "numbers_in_range sample_order (re_state sample_engine) (re_policy sample_engine)"
  using sample_in_range by (simp add: sample_engine_def NewEngine_def)

theorem evaluate_decides_exactly_witness:
  "\<exists>a. fst (EvaluateOrder sample_env no_faults 7000000000 7000000001 ''aid'' sample_order sample_engine) = Inr a
     \<and> a_Decision a = DecisionApproved \<and> VerifyApproval (env_hmac sample_env) a [1, 2, 3]"
proof -
  have "order_permitted 7000000000 sample_order sample_state sample_policy"
    unfolding order_permitted_def using sample_permitted by blast
  then show ?thesis
    using evaluate_decides_exactly [OF sample_engine_in_range, of sample_env no_faults 7000000000 7000000001 "''aid''"]
      sample_well_formed
    by (auto simp: sample_engine_def NewEngine_def State_Now_def sample_state_def NewEmptyState_def)
qed

text \<open>
  A denial names its cause. When a valid order is denied and the publication succeeds, the
  event on \<^verbatim>\<open>order.denied.<strategy>\<close> carries as reason the name and detail of the first check that
  failed, and lists every failed check in evaluation order; when it is approved, the event on
  \<^verbatim>\<open>order.approved.<strategy>\<close> is published. No other event is.
\<close>

theorem denial_names_cause:
  assumes "ProposedOrder_Validate ord = Inr ()"
    and "fst (EvaluateOrder env flt wall now aid ord e) = Inr a"
    and "\<not> flt (Pub (SubjectOrderDenied @ ''.'' @ o_StrategyID ord))"
    and "\<not> flt (Pub (SubjectOrderApproved @ ''.'' @ o_StrategyID ord))"
  shows "case find (\<lambda>r. \<not> c_Passed r) (a_Checks a) of
      None \<Rightarrow> re_out (snd (EvaluateOrder env flt wall now aid ord e)) = re_out e @
        [(SubjectOrderApproved @ ''.'' @ o_StrategyID ord, EvOrderApproved
           \<lparr>oae_TraceID = o_TraceID ord, oae_PolicyConfigHash = a_PolicyConfigHash a, oae_Timestamp = now\<rparr>)]
    | Some r \<Rightarrow> re_out (snd (EvaluateOrder env flt wall now aid ord e)) = re_out e @
        [(SubjectOrderDenied @ ''.'' @ o_StrategyID ord, EvOrderDenied
           \<lparr>ode_TraceID = o_TraceID ord, ode_DenyReason = c_Name r @ '': '' @ c_Detail r,
            ode_FailedChecks = failed_events (a_Checks a), ode_Timestamp = now\<rparr>)]"
proof -
  have a: "a = decide env wall now ord e" using assms(1,2) by (simp add: EvaluateOrder_result)
  let ?rs = "RunAllChecks wall ord (re_state e) (re_policy e)"
  show ?thesis
  proof (cases "find (\<lambda>r. \<not> c_Passed r) ?rs")
    case None
    then have "\<forall>r \<in> set ?rs. c_Passed r" by (auto simp: find_None_iff)
    then show ?thesis
      using assms(1,4) None by (simp add: a EvaluateOrder_def Let_def decide_decision publish_eq)
  next
    case (Some r)
    then have "\<not> (\<forall>r \<in> set ?rs. c_Passed r)" by (auto simp: find_Some_iff)
    then show ?thesis
      using assms(1,3) Some
      by (simp add: a EvaluateOrder_def Let_def decide_decision publish_eq note_result_fold)
  qed
qed

theorem denial_names_cause_witness:
  "re_out (snd (EvaluateOrder sample_env no_faults 7000000000 7000000001 ''aid'' sample_order
      (SetSystemMode LevelFullStop sample_engine))) =
   [(''order.denied.mm'', EvOrderDenied
      \<lparr>ode_TraceID = ''t1'', ode_DenyReason = ''system_mode: system in full_stop mode'',
       ode_FailedChecks = failed_events (RunAllChecks 7000000000 sample_order
          (re_state (SetSystemMode LevelFullStop sample_engine)) sample_policy), ode_Timestamp = 7000000001\<rparr>)]"
proof -
  let ?e = "SetSystemMode LevelFullStop sample_engine"
  let ?rs = "RunAllChecks 7000000000 sample_order (re_state ?e) sample_policy"
  have val: "ProposedOrder_Validate sample_order = Inr ()"
    using sample_well_formed by (simp add: Validate_ok_iff)
  have pol: "re_policy ?e = sample_policy" "re_out ?e = []"
    by (simp_all add: SetSystemMode_def sample_engine_def NewEngine_def)
  have first: "find (\<lambda>r. \<not> c_Passed r) ?rs =
      Some \<lparr>c_Name = ''system_mode'', c_Passed = False, c_Detail = ''system in full_stop mode''\<rparr>"
    by (simp add: RunAllChecks_def allChecks_def checkSystemMode_def SetSystemMode_def fail_def)
  have str: "o_StrategyID sample_order = ''mm''" "o_TraceID sample_order = ''t1''"
    by (simp_all add: sample_order_def)
  show ?thesis
    using denial_names_cause [OF val, of sample_env no_faults 7000000000 7000000001 "''aid''" ?e]
    by (simp add: EvaluateOrder_result val pol first str)
qed



section \<open>Signatures\<close>

definition decisions :: "Decision list" where
  "decisions = [DecisionApproved, DecisionDenied, DecisionEscalated]"

lemma approval_over_the_wire:
  assumes "wire_order (a_Order a)" and "a_Decision a \<in> set decisions"
  shows "approvalFromProto (approvalToProto a) = a"
proof -
  have "map ((\<lambda>c. \<lparr>c_Name = pc_CheckName c, c_Passed = (pc_Result c = CHECK_PASS), c_Detail = pc_Detail c\<rparr>) \<circ>
          (\<lambda>c. \<lparr>pc_CheckName = c_Name c, pc_Result = (if c_Passed c then CHECK_PASS else CHECK_FAIL),
               pc_Detail = c_Detail c\<rparr>)) cs = cs" for cs
    by (rule map_idI) (simp add: o_def)
  then show ?thesis
    using assms order_over_the_wire [of "a_Order a"]
    by (cases a) (auto simp: approvalFromProto_def approvalToProto_def decisions_def)
qed

text \<open>
  C29: A signed approval survives the wire. For an order on a venue the protocol names, the approval
  that \<^verbatim>\<open>EvaluateOrder\<close> returns, converted to protobuf by the risk engine's server and back by the
  receiver, is the same approval and still passes \<^verbatim>\<open>VerifyApproval\<close>; any other key whose MAC of
  the signed bytes differs rejects it.
\<close>

theorem approval_verifies_over_the_wire:
  assumes "GRPC_EvaluateOrder env flt wall now aid (Some (ProposedOrderToProto ord)) e = (Inr msg, e')"
    and "o_Venue ord \<in> set wire_venues"
  shows "\<exists>a. fst (EvaluateOrder env flt wall now aid ord e) = Inr a \<and> approvalFromProto msg = a
    \<and> VerifyApproval (env_hmac env) (approvalFromProto msg) (re_hmacKey e)
    \<and> (\<forall>k. env_hmac env k (approval_bytes a) \<noteq> env_hmac env (re_hmacKey e) (approval_bytes a) \<longrightarrow>
          \<not> VerifyApproval (env_hmac env) (approvalFromProto msg) k)"
proof -
  let ?ord = "ProposedOrderFromProto (ProposedOrderToProto ord)"
  let ?a = "decide env wall now ?ord e"
  have valid: "ProposedOrder_Validate ?ord = Inr ()" and msg: "msg = approvalToProto ?a"
    using assms(1) by (auto simp: GRPC_EvaluateOrder_def dest: EvaluateOrder_Inr split: prod.splits sum.splits)
  have "o_Side ?ord \<in> {SideBuy, SideSell}"
    using valid unfolding Validate_ok_iff well_formed_order_def by blast
  then have "o_Side ord \<in> {SideBuy, SideSell}"
    by (auto simp: ProposedOrderFromProto_def ProposedOrderToProto_def SideFromTo split: if_splits)
  then have w: "wire_order ord" using assms(2) by (auto simp: wire_order_def)
  then have same: "?ord = ord" by (simp add: order_over_the_wire)
  have "approvalFromProto (approvalToProto (decide env wall now ord e)) = decide env wall now ord e"
    using w by (intro approval_over_the_wire) (simp_all add: decide_decision decisions_def)
  then show ?thesis
    using valid msg unfolding same
    by (auto simp: EvaluateOrder_result VerifyApproval_def decide_signature)
qed


theorem approval_verifies_over_the_wire_witness:
  "\<exists>msg e'. GRPC_EvaluateOrder sample_env no_faults 7000000000 7000000001 ''aid''
       (Some (ProposedOrderToProto sample_order)) sample_engine = (Inr msg, e')
     \<and> VerifyApproval (env_hmac sample_env) (approvalFromProto msg) [1, 2, 3]"
proof -
  have same: "ProposedOrderFromProto (ProposedOrderToProto sample_order) = sample_order"
    by (simp add: order_over_the_wire wire_order_def wire_venues_def sample_order_def)
  obtain a e' where ev: "EvaluateOrder sample_env no_faults 7000000000 7000000001 ''aid'' sample_order sample_engine = (Inr a, e')"
    using EvaluateOrder_result [of sample_env no_faults 7000000000 7000000001 "''aid''" sample_order sample_engine]
      sample_well_formed by (cases "EvaluateOrder sample_env no_faults 7000000000 7000000001 ''aid'' sample_order sample_engine")
      (simp add: Validate_ok_iff [symmetric])
  then have g: "GRPC_EvaluateOrder sample_env no_faults 7000000000 7000000001 ''aid''
       (Some (ProposedOrderToProto sample_order)) sample_engine = (Inr (approvalToProto a), e')"
    by (simp add: GRPC_EvaluateOrder_def same)
  have "re_hmacKey sample_engine = [1, 2, 3]" by (simp add: sample_engine_def NewEngine_def)
  moreover have "o_Venue sample_order \<in> set wire_venues" by (simp add: sample_order_def wire_venues_def)
  ultimately show ?thesis
    using approval_verifies_over_the_wire [OF g] g by auto
qed

text \<open>The signed text of the two identifiers, the market and the side is their concatenation.\<close>

definition approval_ids :: "Approval \<Rightarrow> string" where
  "approval_ids a = a_TraceID a @ o_Venue (a_Order a) @ o_MarketID (a_Order a) @ o_Side (a_Order a)"

lemma approval_bytes_eq:
  "approval_bytes a = bytes_of (approval_ids a) @ be32 (o_Quantity (a_Order a)) @ be64 (o_PriceMicros (a_Order a))
     @ be64 (o_NotionalMicros (a_Order a)) @ bytes_of (a_Decision a) @ be64 (time_UnixMicro (a_DecidedAt a))"
  by (simp add: approval_bytes_def approval_ids_def)

lemma append_be_eq:
  "xs @ be64 v = ys @ be64 w \<longleftrightarrow> xs = ys \<and> v = w"
  "xs @ be32 q = ys @ be32 r \<longleftrightarrow> xs = ys \<and> q = r"
  by (simp_all add: append_eq_append_conv)

lemma decision_suffix:
  assumes "xs @ bytes_of d = ys @ bytes_of d'" and "d \<in> set decisions" and "d' \<in> set decisions"
  shows "d = d' \<and> xs = ys"
proof -
  have third: "rev (bytes_of d) ! 2 = rev (bytes_of d') ! 2"
  proof -
    have "rev (bytes_of d) @ rev xs = rev (bytes_of d') @ rev ys"
      using assms(1) by (metis rev_append)
    then have "(rev (bytes_of d) @ rev xs) ! 2 = (rev (bytes_of d') @ rev ys) ! 2" by simp
    then show ?thesis using assms(2,3) by (auto simp: decisions_def nth_append)
  qed
  have "d = d'"
    using third assms(2,3) by (auto simp: decisions_def bytes_of_def of_char_def)
  then show ?thesis using assms(1) by simp
qed

text \<open>
  Changing what a signature covers is detectable. If two approvals carry the same signature, both
  verify under the same key and the MAC does not collide on the two signed texts, then they agree
  on decision, quantity, price, notional, decision time (to the microsecond) and on the
  concatenation of trace id, venue, market and side. So a denied order cannot be passed off as
  approved, nor its size or price changed.
\<close>

theorem signature_binds_order:
  assumes "VerifyApproval hmac a key" and "VerifyApproval hmac b key"
    and "a_HMACSignature a = a_HMACSignature b"
    and "hmac key (approval_bytes a) = hmac key (approval_bytes b) \<longrightarrow> approval_bytes a = approval_bytes b"
    and "a_Decision a \<in> set decisions" and "a_Decision b \<in> set decisions"
  shows "a_Decision a = a_Decision b
    \<and> o_Quantity (a_Order a) = o_Quantity (a_Order b)
    \<and> o_PriceMicros (a_Order a) = o_PriceMicros (a_Order b)
    \<and> o_NotionalMicros (a_Order a) = o_NotionalMicros (a_Order b)
    \<and> time_UnixMicro (a_DecidedAt a) = time_UnixMicro (a_DecidedAt b)
    \<and> approval_ids a = approval_ids b"
proof -
  have eq: "approval_bytes a = approval_bytes b"
    using assms(1-4) by (simp add: VerifyApproval_def)
  define body where "body = (\<lambda>c. bytes_of (approval_ids c) @ be32 (o_Quantity (a_Order c))
     @ be64 (o_PriceMicros (a_Order c)) @ be64 (o_NotionalMicros (a_Order c)))"
  have "(body a @ bytes_of (a_Decision a)) @ be64 (time_UnixMicro (a_DecidedAt a)) =
        (body b @ bytes_of (a_Decision b)) @ be64 (time_UnixMicro (a_DecidedAt b))"
    using eq by (simp add: approval_bytes_eq body_def)
  then have t: "time_UnixMicro (a_DecidedAt a) = time_UnixMicro (a_DecidedAt b)"
    and d: "body a @ bytes_of (a_Decision a) = body b @ bytes_of (a_Decision b)"
    by (simp_all only: append_be_eq)
  from decision_suffix [OF d assms(5,6)] have dec: "a_Decision a = a_Decision b" and bd: "body a = body b"
    by simp_all
  have "((bytes_of (approval_ids a) @ be32 (o_Quantity (a_Order a))) @ be64 (o_PriceMicros (a_Order a)))
          @ be64 (o_NotionalMicros (a_Order a)) =
        ((bytes_of (approval_ids b) @ be32 (o_Quantity (a_Order b))) @ be64 (o_PriceMicros (a_Order b)))
          @ be64 (o_NotionalMicros (a_Order b))"
    using bd by (simp add: body_def)
  then show ?thesis using t dec by (simp only: append_be_eq bytes_of_inj simp_thms)
qed


definition other_strategy :: "Approval \<Rightarrow> Approval" where
  "other_strategy a = a\<lparr>a_Order := (a_Order a)\<lparr>o_StrategyID := ''other'', o_ProposedAt := 0\<rparr>,
     a_Checks := [], a_PolicyConfigHash := []\<rparr>"

theorem signature_binds_order_witness:
  "a_Decision (decide sample_env 7000000000 7000000001 sample_order sample_engine)
     = a_Decision (other_strategy (decide sample_env 7000000000 7000000001 sample_order sample_engine))"
proof -
  let ?a = "decide sample_env 7000000000 7000000001 sample_order sample_engine"
  have "a_Decision ?a \<in> set decisions" by (simp add: decide_decision decisions_def)
  moreover have b: "approval_bytes (other_strategy ?a) = approval_bytes ?a"
    by (simp add: approval_bytes_def other_strategy_def)
  moreover have "VerifyApproval (env_hmac sample_env) ?a [1, 2, 3]"
    by (simp add: VerifyApproval_def decide_signature sample_engine_def NewEngine_def)
  moreover from this b have "VerifyApproval (env_hmac sample_env) (other_strategy ?a) [1, 2, 3]"
    by (simp add: VerifyApproval_def other_strategy_def)
  ultimately show ?thesis
    using signature_binds_order [of "env_hmac sample_env" ?a "[1, 2, 3]" "other_strategy ?a"]
    by (simp add: other_strategy_def)
qed

text \<open>
  What the signature leaves open: the strategy, the proposal time, the check results and the
  policy hash are not covered, and text can move between trace id, venue, market and side.
\<close>

lemma signature_leaves_open:
  assumes "VerifyApproval hmac a key"
  shows "VerifyApproval hmac (a\<lparr>a_Order := (a_Order a)\<lparr>o_StrategyID := s, o_ProposedAt := t\<rparr>,
           a_Checks := cs, a_PolicyConfigHash := h\<rparr>) key"
    and "o_Venue (a_Order a) @ o_MarketID (a_Order a) = v @ mkt \<Longrightarrow>
         VerifyApproval hmac (a\<lparr>a_Order := (a_Order a)\<lparr>o_Venue := v, o_MarketID := mkt\<rparr>\<rparr>) key"
proof -
  show "VerifyApproval hmac (a\<lparr>a_Order := (a_Order a)\<lparr>o_StrategyID := s, o_ProposedAt := t\<rparr>,
           a_Checks := cs, a_PolicyConfigHash := h\<rparr>) key"
    using assms by (simp add: VerifyApproval_def approval_bytes_def)
  assume "o_Venue (a_Order a) @ o_MarketID (a_Order a) = v @ mkt"
  then have "bytes_of (o_Venue (a_Order a)) @ bytes_of (o_MarketID (a_Order a)) @ xs =
             bytes_of v @ bytes_of mkt @ xs" for xs
    by (metis append.assoc bytes_of_append)
  with assms show "VerifyApproval hmac (a\<lparr>a_Order := (a_Order a)\<lparr>o_Venue := v, o_MarketID := mkt\<rparr>\<rparr>) key"
    by (simp add: VerifyApproval_def approval_bytes_def)
qed

end
