(* ===== verification/Risk_Runs.thy ===== *)
theory Risk_Runs
  imports Risk_Engine
begin

text \<open>
  The risk engine over time: sequences of its handlers (\<open>risk_exec\<close>), the rate and duplicate
  limits over a whole run, and the positions it keeps in memory and in \<^verbatim>\<open>risk.positions\<close>.
\<close>

section \<open>Runs\<close>

datatype risk_op =
    OpEvaluate faults time time uuid ProposedOrder  \<comment> \<open>clock of the checks, decision time\<close>
  | OpMarketData MarketDataEvent
  | OpFill faults time FillReport
  | OpKillSwitch KillSwitchEvent

fun risk_exec :: "Env \<Rightarrow> risk_op \<Rightarrow> RiskEngine \<Rightarrow> Approval option \<times> RiskEngine" where
  "risk_exec env (OpEvaluate flt wall now aid ord) e =
     (case EvaluateOrder env flt wall now aid ord e of
        (Inl _, e') \<Rightarrow> (None, e') | (Inr a, e') \<Rightarrow> (Some a, e'))"
| "risk_exec env (OpMarketData mde) e = (None, on_market_data mde e)"
| "risk_exec env (OpFill flt now fill) e = (None, ReportFill flt now fill e)"
| "risk_exec env (OpKillSwitch kse) e = (None, on_kill_switch kse e)"

fun risk_run :: "Env \<Rightarrow> risk_op list \<Rightarrow> RiskEngine \<Rightarrow> Approval list \<times> RiskEngine" where
  "risk_run env [] e = ([], e)"
| "risk_run env (op # ops) e =
     (case risk_exec env op e of (a, e') \<Rightarrow>
        case risk_run env ops e' of (as, e'') \<Rightarrow> (case a of None \<Rightarrow> as | Some a \<Rightarrow> a # as, e''))"

definition approved :: "Approval list \<Rightarrow> Approval list" where
  "approved as = filter (\<lambda>a. a_Decision a = DecisionApproved) as"

text \<open>The clock never goes back: each check reads it before its decision, each decision before the next check.\<close>

fun clock_ok :: "time \<Rightarrow> risk_op list \<Rightarrow> bool" where
  "clock_ok t [] = True"
| "clock_ok t (OpEvaluate flt wall now aid ord # ops) \<longleftrightarrow> t \<le> wall \<and> wall \<le> now \<and> clock_ok now ops"
| "clock_ok t (_ # ops) \<longleftrightarrow> clock_ok t ops"

definition strategy_times :: "string \<Rightarrow> Approval list \<Rightarrow> time list" where
  "strategy_times s as = map a_DecidedAt (filter (\<lambda>a. o_StrategyID (a_Order a) = s) as)"

text \<open>The trackers of the state record the approved orders \<open>h\<close> of the run so far.\<close>

definition tracks :: "time \<Rightarrow> Approval list \<Rightarrow> State \<Rightarrow> bool" where
  "tracks t h st \<longleftrightarrow> st_NowFunc st = None
     \<and> (\<forall>s. st_RecentOrderTimes st s = (if strategy_times s h = [] then None else Some (strategy_times s h)))
     \<and> (\<forall>a \<in> set h. a_DecidedAt a \<le> t
          \<and> (\<exists>u. st_RecentOrderKeys st (IdempotencyKey (a_Order a)) = Some u \<and> a_DecidedAt a \<le> u))"

definition in_window :: "string \<Rightarrow> time \<Rightarrow> Approval list \<Rightarrow> nat" where
  "in_window s t h = length (filter (\<lambda>u. t - time_Minute < u \<and> u \<le> t) (strategy_times s h))"

definition rate_ok :: "int \<Rightarrow> Approval list \<Rightarrow> bool" where
  "rate_ok limit h \<longleftrightarrow> (\<forall>s t. int (in_window s t h) \<le> limit)"

definition no_duplicates :: "Approval list \<Rightarrow> bool" where
  "no_duplicates h \<longleftrightarrow> sorted_wrt (\<lambda>a b. IdempotencyKey (a_Order a) = IdempotencyKey (a_Order b) \<longrightarrow>
     30 * time_Second \<le> a_DecidedAt b - a_DecidedAt a) h"

lemma strategy_times_append [simp]: "strategy_times s (h @ h') = strategy_times s h @ strategy_times s h'"
  by (simp add: strategy_times_def)

lemma strategy_times_single:
  "strategy_times s [a] = (if o_StrategyID (a_Order a) = s then [a_DecidedAt a] else [])"
  by (simp add: strategy_times_def)

lemma length_strategy_times: "length (strategy_times s h) \<le> length h"
  by (simp add: strategy_times_def)

lemma tracks_approval:
  assumes "tracks t h st" and "t \<le> a_DecidedAt a"
  shows "tracks (a_DecidedAt a) (h @ [a]) (track_approval (a_DecidedAt a) (a_Order a) st)"
  using assms
  by (auto simp: tracks_def track_approval_def strategy_times_single map_get_def)

lemma tracks_later: "tracks t h st \<Longrightarrow> t \<le> t' \<Longrightarrow> tracks t' h st"
  by (auto simp: tracks_def dest: order_trans)

lemma tracks_cong:
  "st_NowFunc st' = st_NowFunc st \<Longrightarrow> st_RecentOrderTimes st' = st_RecentOrderTimes st \<Longrightarrow>
   st_RecentOrderKeys st' = st_RecentOrderKeys st \<Longrightarrow> tracks t h st' = tracks t h st"
  by (simp add: tracks_def)

lemma approved_rate_ok:
  assumes tr: "tracks t h st" and ok: "rate_ok limit h" and tw: "t \<le> wall" "wall \<le> a_DecidedAt a"
    and lim: "limit = max 1 (sint (ps_MaxOrdersPerMinute (p_PerStrategy pol)))"
    and len: "length h < 2147483648"
    and freq: "c_Passed (checkStrategyOrderFrequency wall (a_Order a) st pol)"
  shows "rate_ok limit (h @ [a])"
  unfolding rate_ok_def
proof (intro allI)
  fix s u
  let ?s = "o_StrategyID (a_Order a)" and ?n = "a_DecidedAt a"
  show "int (in_window s u (h @ [a])) \<le> limit"
  proof (cases "s = ?s \<and> ?n \<le> u \<and> u - time_Minute < ?n")
    case False
    then have "in_window s u (h @ [a]) = in_window s u h"
      by (auto simp: in_window_def strategy_times_single)
    then show ?thesis using ok by (simp add: rate_ok_def)
  next
    case True
    have "length (strategy_times ?s h) < 2147483648"
      using len length_strategy_times [of ?s h] by linarith
    then have "\<forall>ts. st_RecentOrderTimes st ?s = Some ts \<longrightarrow> length ts < 2147483648"
      using tr by (simp add: tracks_def)
    from freq [unfolded frequency_passes [OF this]]
    have "int (length (filter (\<lambda>v. wall - time_Minute < v) (strategy_times ?s h))) < limit"
      using tr lim by (cases "strategy_times ?s h = []") (simp_all add: tracks_def State_Now_def max_def)
    moreover have "length (filter (\<lambda>v. u - time_Minute < v \<and> v \<le> u) ts) \<le> length (filter (\<lambda>v. wall - time_Minute < v) ts)" for ts
      using True tw by (induction ts) auto
    ultimately have "int (in_window ?s u h) < limit"
      unfolding in_window_def by (meson of_nat_mono order_le_less_trans)
    then show ?thesis using True by (simp add: in_window_def strategy_times_single)
  qed
qed

lemma approved_no_duplicates:
  assumes tr: "tracks t h st" and nd: "no_duplicates h" and tw: "wall \<le> a_DecidedAt a"
    and dup: "c_Passed (checkDuplicateOrder wall (a_Order a) st pol)"
  shows "no_duplicates (h @ [a])"
proof -
  have "30 * time_Second \<le> a_DecidedAt a - a_DecidedAt b"
    if "b \<in> set h" "IdempotencyKey (a_Order b) = IdempotencyKey (a_Order a)" for b
  proof -
    have "\<exists>u. st_RecentOrderKeys st (IdempotencyKey (a_Order b)) = Some u \<and> a_DecidedAt b \<le> u"
      using tr that(1) by (simp add: tracks_def)
    then obtain u where "st_RecentOrderKeys st (IdempotencyKey (a_Order b)) = Some u" and "a_DecidedAt b \<le> u"
      by (elim exE conjE)
    then have u: "st_RecentOrderKeys st (IdempotencyKey (a_Order a)) = Some u" "a_DecidedAt b \<le> u"
      by (simp_all add: that(2))
    have "State_Now wall st = wall" using tr by (simp add: tracks_def State_Now_def)
    with u(1) have "30 * time_Second \<le> wall - u"
      using dup by (simp add: duplicate_passes)
    then show ?thesis using u tw by linarith
  qed
  then show ?thesis using nd by (simp add: no_duplicates_def sorted_wrt_append)
qed


text \<open>The other handlers leave the trackers alone.\<close>

lemma on_market_data_tracks [simp]: "tracks t h (re_state (on_market_data mde e)) = tracks t h (re_state e)"
  by (rule tracks_cong) (simp_all add: on_market_data_def UpdateMarketData_def)

lemma ReportFill_tracks [simp]: "tracks t h (re_state (ReportFill flt now fill e)) = tracks t h (re_state e)"
  by (rule tracks_cong) (simp_all add: ReportFill_def Let_def)

lemma on_kill_switch_tracks [simp]: "tracks t h (re_state (on_kill_switch kse e)) = tracks t h (re_state e)"
  by (rule tracks_cong) (simp_all add: on_kill_switch_def SetSystemMode_def)

lemma other_ops_policy [simp]:
  "re_policy (on_market_data mde e) = re_policy e" "re_policy (ReportFill flt now fill e) = re_policy e"
  "re_policy (on_kill_switch kse e) = re_policy e"
  by (simp_all add: on_market_data_def UpdateMarketData_def ReportFill_def on_kill_switch_def
      SetSystemMode_def Let_def)

definition run_inv :: "int \<Rightarrow> time \<Rightarrow> Approval list \<Rightarrow> RiskEngine \<Rightarrow> bool" where
  "run_inv limit t h e \<longleftrightarrow> tracks t h (re_state e) \<and> rate_ok limit h \<and> no_duplicates h
     \<and> limit = max 1 (sint (ps_MaxOrdersPerMinute (p_PerStrategy (re_policy e))))"

lemma other_ops_inv:
  "run_inv limit t h (on_market_data mde e) = run_inv limit t h e"
  "run_inv limit t h (ReportFill flt now fill e) = run_inv limit t h e"
  "run_inv limit t h (on_kill_switch kse e) = run_inv limit t h e"
  by (simp_all add: run_inv_def)

lemma decide_approved_checks:
  assumes "a_Decision (decide env wall now ord e) = DecisionApproved"
  shows "c_Passed (checkStrategyOrderFrequency wall ord (re_state e) (re_policy e))"
    and "c_Passed (checkDuplicateOrder wall ord (re_state e) (re_policy e))"
proof -
  have "\<forall>(name, f) \<in> set allChecks. c_Passed (f wall ord (re_state e) (re_policy e))"
    using assms by (simp add: decide_decision all_checks_passed_iff split: if_splits)
  then show "c_Passed (checkStrategyOrderFrequency wall ord (re_state e) (re_policy e))"
    and "c_Passed (checkDuplicateOrder wall ord (re_state e) (re_policy e))"
    by (simp_all add: allChecks_def)
qed

lemma evaluate_run_inv:
  assumes inv: "run_inv limit t h e" and tw: "t \<le> wall" "wall \<le> now"
    and len: "length h < 2147483648"
  shows "run_inv limit now
    (h @ (case fst (EvaluateOrder env flt wall now aid ord e) of Inl _ \<Rightarrow> [] | Inr a \<Rightarrow> approved [a]))
    (snd (EvaluateOrder env flt wall now aid ord e))"
proof (cases "ProposedOrder_Validate ord = Inr () \<and> a_Decision (decide env wall now ord e) = DecisionApproved")
  case False
  then have "re_state (snd (EvaluateOrder env flt wall now aid ord e)) = re_state e"
    and "(case fst (EvaluateOrder env flt wall now aid ord e) of Inl _ \<Rightarrow> [] | Inr a \<Rightarrow> approved [a]) = []"
    by (auto simp: EvaluateOrder_state EvaluateOrder_result approved_def split: sum.split)
  then show ?thesis using inv tw tracks_later [of t h "re_state e" now] by (auto simp: run_inv_def)
next
  case True
  let ?a = "decide env wall now ord e"
  have tr: "tracks t h (re_state e)" and ok: "rate_ok limit h" and nd: "no_duplicates h"
    and lim: "limit = max 1 (sint (ps_MaxOrdersPerMinute (p_PerStrategy (re_policy e))))"
    using inv unfolding run_inv_def by blast+
  note passed = decide_approved_checks [OF conjunct2 [OF True]]
  have "tracks now (h @ [?a]) (track_approval now ord (re_state e))"
    using tracks_approval [OF tr, of ?a] tw by simp
  moreover have "rate_ok limit (h @ [?a])"
    using approved_rate_ok [OF tr ok tw(1) _ lim len, of ?a] tw(2) passed(1) by simp
  moreover have "no_duplicates (h @ [?a])"
    using approved_no_duplicates [OF tr nd, of wall ?a] tw(2) passed(2) by simp
  ultimately show ?thesis
    using lim True by (simp add: run_inv_def EvaluateOrder_state EvaluateOrder_result approved_def)
qed

lemma risk_run_inv:
  assumes "run_inv limit t h e" and "clock_ok t ops" and "length h + length ops < 2147483648"
  shows "rate_ok limit (h @ approved (fst (risk_run env ops e))) \<and> no_duplicates (h @ approved (fst (risk_run env ops e)))"
  using assms
proof (induction ops arbitrary: t h e)
  case Nil
  then show ?case by (auto simp: run_inv_def approved_def)
next
  case (Cons op ops)
  show ?case
  proof (cases op)
    case (OpEvaluate flt wall now aid ord)
    let ?r = "EvaluateOrder env flt wall now aid ord e"
    let ?new = "case fst ?r of Inl _ \<Rightarrow> [] | Inr a \<Rightarrow> approved [a]"
    have "run_inv limit now (h @ ?new) (snd ?r)"
      using Cons.prems OpEvaluate by (intro evaluate_run_inv [where t = t]) auto
    moreover have "length ?new \<le> 1" by (simp add: approved_def split: sum.split)
    ultimately have "rate_ok limit ((h @ ?new) @ approved (fst (risk_run env ops (snd ?r))))
        \<and> no_duplicates ((h @ ?new) @ approved (fst (risk_run env ops (snd ?r))))"
      using Cons.prems OpEvaluate by (intro Cons.IH [where t = now]) auto
    moreover have "approved (fst (risk_run env (op # ops) e)) = ?new @ approved (fst (risk_run env ops (snd ?r)))"
      using OpEvaluate by (auto simp: approved_def split: prod.split sum.split)
    ultimately show ?thesis by simp
  next
    case (OpMarketData mde)
    with Cons.prems Cons.IH [of t h "on_market_data mde e"] show ?thesis
      by (simp add: other_ops_inv split: prod.split)
  next
    case (OpFill flt now fill)
    with Cons.prems Cons.IH [of t h "ReportFill flt now fill e"] show ?thesis
      by (simp add: other_ops_inv split: prod.split)
  next
    case (OpKillSwitch kse)
    with Cons.prems Cons.IH [of t h "on_kill_switch kse e"] show ?thesis
      by (simp add: other_ops_inv split: prod.split)
  qed
qed

text \<open>
  The first order of a strategy is let through whatever the limit is: the check looks at the limit
  only when the tracker has an entry for the strategy.
\<close>

lemma first_order_of_a_strategy_passes:
  "st_RecentOrderTimes st (o_StrategyID ord) = None \<Longrightarrow> c_Passed (checkStrategyOrderFrequency wall ord st pol)"
  by (simp add: checkStrategyOrderFrequency_def pass_def)

text \<open>
  C14: The rate and duplicate limits hold over every run. Start an engine with empty trackers (as
  every start of the service leaves them) and let it handle fewer than \<open>2\<^sup>3\<^sup>1\<close> evaluations, market
  data messages, fills and kill switch events in any order, with a clock that never goes back. Then
  for every strategy and every instant, the number of orders approved for it within the last minute
  is at most the larger of 1 and \<^verbatim>\<open>max_orders_per_minute\<close> (a limit of 0, which the policy's validation
  accepts, still lets the first order of a strategy through), and any two approved orders of the
  same strategy, venue, market, side and price are at least 30 seconds apart.
\<close>

theorem rate_limits_hold_over_runs:
  assumes "re_state e = NewEmptyState\<lparr>st_MarketData := md\<rparr>" and "clock_ok t ops"
    and "length ops < 2147483648"
  shows "(\<forall>s u. int (length (filter (\<lambda>a. o_StrategyID (a_Order a) = s \<and> u - time_Minute < a_DecidedAt a \<and> a_DecidedAt a \<le> u)
             (approved (fst (risk_run env ops e)))))
           \<le> max 1 (sint (ps_MaxOrdersPerMinute (p_PerStrategy (re_policy e)))))
    \<and> no_duplicates (approved (fst (risk_run env ops e)))"
proof -
  let ?limit = "max 1 (sint (ps_MaxOrdersPerMinute (p_PerStrategy (re_policy e))))"
  have "run_inv ?limit t [] e"
    using assms by (simp add: run_inv_def tracks_def strategy_times_def rate_ok_def in_window_def
        no_duplicates_def NewEmptyState_def)
  from risk_run_inv [OF this assms(2), of env] assms(3)
  have "rate_ok ?limit (approved (fst (risk_run env ops e)))" and nd: "no_duplicates (approved (fst (risk_run env ops e)))"
    by simp_all
  then show ?thesis
    by (simp add: rate_ok_def in_window_def strategy_times_def filter_map o_def conj_ac)
qed


theorem rate_limits_hold_over_runs_witness:
  "no_duplicates (approved (fst (risk_run sample_env
     [OpEvaluate no_faults 7000000000 7000000001 ''a1'' sample_order,
      OpKillSwitch \<lparr>kse_Level = LevelSoftPause, kse_Scope = ''global'', kse_Reason = [], kse_TriggeredBy = [],
         kse_Timestamp = 0\<rparr>,
      OpEvaluate no_faults 9000000000 9000000001 ''a2'' sample_order] sample_engine)))"
  by (rule rate_limits_hold_over_runs [where md = "[''mock:KX-1'' \<mapsto> sample_md]" and t = 0, THEN conjunct2])
     (simp_all add: sample_engine_def NewEngine_def sample_state_def sample_policy_def)


section \<open>Positions\<close>

text \<open>The signed size and notional of a fill; a fill whose side is not \<^verbatim>\<open>buy\<close> counts as a sale.\<close>

definition signed_quantity :: "FillReport \<Rightarrow> int32" where
  "signed_quantity f = (if fr_Side f = SideBuy then fr_Quantity f else - fr_Quantity f)"

definition signed_notional :: "FillReport \<Rightarrow> int64" where
  "signed_notional f = (if fr_Side f = SideBuy then fill_notional f else - fill_notional f)"

definition fills_on :: "string \<Rightarrow> FillReport list \<Rightarrow> FillReport list" where
  "fills_on k fs = filter (\<lambda>f. fill_key f = k) fs"

definition position_of :: "FillReport list \<Rightarrow> string \<rightharpoonup> MarketState" where
  "position_of fs k =
     (case fills_on k fs of [] \<Rightarrow> None
      | f # _ \<Rightarrow> Some \<lparr>ms_PositionContracts = (\<Sum>f\<leftarrow>fills_on k fs. signed_quantity f),
                        ms_PositionNotional = (\<Sum>f\<leftarrow>fills_on k fs. signed_notional f),
                        ms_StrategyID = fr_StrategyID f\<rparr>)"

definition fill_run :: "(faults \<times> time \<times> FillReport) list \<Rightarrow> RiskEngine \<Rightarrow> RiskEngine" where
  "fill_run rs e = foldl (\<lambda>e (flt, now, fill). ReportFill flt now fill e) e rs"

abbreviation fills :: "(faults \<times> time \<times> FillReport) list \<Rightarrow> FillReport list" where
  "fills rs \<equiv> map (\<lambda>(flt, now, fill). fill) rs"

lemma apply_fill_eq:
  "apply_fill f ms = ms\<lparr>ms_PositionContracts := ms_PositionContracts ms + signed_quantity f,
                        ms_PositionNotional := ms_PositionNotional ms + signed_notional f\<rparr>"
  by (simp add: apply_fill_def signed_quantity_def signed_notional_def)

lemma ReportFill_markets:
  "st_Markets (re_state (ReportFill flt now f e)) = (st_Markets (re_state e))(fill_key f \<mapsto>
     apply_fill f (map_get (st_Markets (re_state e)) (fill_key f)
       \<lparr>ms_PositionContracts = 0, ms_PositionNotional = 0, ms_StrategyID = fr_StrategyID f\<rparr>))"
  by (simp add: ReportFill_def Let_def map_get_def split: option.split)

lemma position_of_snoc:
  "position_of (fs @ [f]) = (position_of fs)(fill_key f \<mapsto>
     apply_fill f (map_get (position_of fs) (fill_key f)
       \<lparr>ms_PositionContracts = 0, ms_PositionNotional = 0, ms_StrategyID = fr_StrategyID f\<rparr>))"
proof
  fix k
  show "position_of (fs @ [f]) k = ((position_of fs)(fill_key f \<mapsto>
     apply_fill f (map_get (position_of fs) (fill_key f)
       \<lparr>ms_PositionContracts = 0, ms_PositionNotional = 0, ms_StrategyID = fr_StrategyID f\<rparr>))) k"
    by (cases "fills_on k fs")
       (auto simp: position_of_def fills_on_def map_get_def apply_fill_eq add_ac)
qed

lemma fill_run_state:
  "st_Markets (re_state (fill_run rs (NewEngine policy key positions stats decs))) = position_of (fills rs)
   \<and> st_TotalExposure (re_state (fill_run rs (NewEngine policy key positions stats decs))) = 0
   \<and> st_DailyPnL (re_state (fill_run rs (NewEngine policy key positions stats decs))) = 0
   \<and> st_CurrentEquity (re_state (fill_run rs (NewEngine policy key positions stats decs))) = 0
   \<and> st_Venues (re_state (fill_run rs (NewEngine policy key positions stats decs))) = Map.empty
   \<and> st_Strategies (re_state (fill_run rs (NewEngine policy key positions stats decs))) = Map.empty"
proof (induction rs rule: rev_induct)
  case Nil
  have "position_of [] = Map.empty" by (rule ext) (simp add: position_of_def fills_on_def)
  then show ?case by (simp add: fill_run_def NewEngine_def NewEmptyState_def)
next
  case (snoc r rs)
  obtain flt now f where r: "r = (flt, now, f)" by (cases r)
  have step: "fill_run (rs @ [r]) e = ReportFill flt now f (fill_run rs e)" for e
    by (simp add: fill_run_def r)
  show ?case
    unfolding step using snoc
    by (simp add: r ReportFill_markets position_of_snoc) (simp add: ReportFill_def Let_def)
qed

lemmas fill_run_positions = fill_run_state [THEN conjunct1]

text \<open>
  Positions are the signed sums of the reported fills. After any sequence of \<^verbatim>\<open>ReportFill\<close> calls on a
  fresh engine, whatever database writes fail, the position of every venue, market and strategy
  key is exactly the sum of its fills (buys positive, sales negative, in the 32- and 64-bit
  arithmetic of the code), and a key without fills has no entry. The exposure, profit and
  equity figures of the state, which the limits on exposure, daily loss and drawdown read, are
  unchanged.
\<close>

theorem positions_are_fill_sums:
  "st_Markets (re_state (fill_run rs (NewEngine policy key positions stats decs))) = position_of (fills rs)
   \<and> st_TotalExposure (re_state (fill_run rs (NewEngine policy key positions stats decs))) = 0
   \<and> st_DailyPnL (re_state (fill_run rs (NewEngine policy key positions stats decs))) = 0
   \<and> st_CurrentEquity (re_state (fill_run rs (NewEngine policy key positions stats decs))) = 0
   \<and> st_Venues (re_state (fill_run rs (NewEngine policy key positions stats decs))) = Map.empty
   \<and> st_Strategies (re_state (fill_run rs (NewEngine policy key positions stats decs))) = Map.empty"
  by (rule fill_run_state)


section \<open>Restart\<close>

text \<open>
  The in-memory key joins venue, market and strategy with colons; it identifies them when venue
  and market contain none.
\<close>

definition colon_free :: "string \<Rightarrow> bool" where
  "colon_free s \<longleftrightarrow> CHR '':'' \<notin> set s"

lemma split_at_colon:
  assumes "xs @ CHR '':'' # ys = xs' @ CHR '':'' # ys'" and "colon_free xs" and "colon_free xs'"
  shows "xs = xs' \<and> ys = ys'"
  using assms
proof (induction xs arbitrary: xs')
  case Nil
  then show ?case by (cases xs') (auto simp: colon_free_def)
next
  case (Cons x xs)
  then show ?case by (cases xs') (auto simp: colon_free_def)
qed

definition row_key :: "PositionRow \<Rightarrow> string" where
  "row_key r = pos_venue r @ '':'' @ pos_market_id r @ '':'' @ pos_strategy_id r"

definition row_state :: "PositionRow \<Rightarrow> MarketState" where
  "row_state r = \<lparr>ms_PositionContracts = pos_net_quantity r, ms_PositionNotional = pos_notional_micros r,
     ms_StrategyID = pos_strategy_id r\<rparr>"

lemma key_identifies:
  assumes "row_key r = fill_key f" and "colon_free (pos_venue r)" and "colon_free (pos_market_id r)"
    and "colon_free (fr_Venue f)" and "colon_free (fr_MarketID f)"
  shows "pos_venue r = fr_Venue f \<and> pos_market_id r = fr_MarketID f \<and> pos_strategy_id r = fr_StrategyID f"
proof -
  have "pos_venue r = fr_Venue f \<and> pos_market_id r @ '':'' @ pos_strategy_id r = fr_MarketID f @ '':'' @ fr_StrategyID f"
    using assms(1,2,4) by (intro split_at_colon) (simp_all add: row_key_def fill_key_def)
  then show ?thesis
    using split_at_colon [of "pos_market_id r" "pos_strategy_id r" "fr_MarketID f" "fr_StrategyID f"] assms(3,5)
    by simp
qed

text \<open>Memory and table agree: the table holds the same positions, one row per key.\<close>

definition table_map :: "PositionRow list \<Rightarrow> string \<rightharpoonup> MarketState" where
  "table_map rows = map_of (map (\<lambda>r. (row_key r, row_state r)) rows)"

definition positions_agree :: "RiskEngine \<Rightarrow> bool" where
  "positions_agree e \<longleftrightarrow> st_Markets (re_state e) = table_map (re_positions e)
     \<and> distinct (map row_key (re_positions e))
     \<and> (\<forall>r \<in> set (re_positions e). colon_free (pos_venue r) \<and> colon_free (pos_market_id r))"

lemma table_map_Cons: "table_map (r # rows) = (table_map rows)(row_key r \<mapsto> row_state r)"
  by (simp add: table_map_def)

lemma table_map_absent: "row_key r \<notin> row_key ` set rows \<Longrightarrow> table_map rows (row_key r) = None"
  by (auto simp: table_map_def map_of_eq_None_iff)

lemma table_map_snoc:
  "row_key r \<notin> row_key ` set rows \<Longrightarrow> table_map (rows @ [r]) = (table_map rows)(row_key r \<mapsto> row_state r)"
  by (induction rows) (auto simp: table_map_Cons fun_upd_twist)

lemma table_map_update:
  assumes "distinct (map row_key rows)" and "row \<in> set rows"
    and "\<And>r. r \<in> set rows \<Longrightarrow> p r \<longleftrightarrow> row_key r = k" and "row_key row = k"
    and "\<And>r. row_key (g r) = row_key r" and "row_state (g row) = v"
  shows "table_map (sql_update p g rows) = (table_map rows)(k \<mapsto> v)"
  using assms(1-3)
proof (induction rows)
  case (Cons r rows)
  show ?case
  proof (cases "row_key r = k")
    case True
    have "r = row"
      using Cons.prems(1,2) True assms(4) by (auto simp: rev_image_eqI)
    moreover have "sql_update p g rows = rows"
      using Cons.prems True by (intro sql_update_id) (auto simp: rev_image_eqI)
    ultimately show ?thesis
      using Cons.prems(3) [of r] True assms(5,6) by (simp add: table_map_def fun_eq_iff)
  next
    case False
    then have "r \<noteq> row" "\<not> p r" using assms(4) Cons.prems(3) [of r] by auto
    with Cons False show ?thesis by (auto simp: table_map_Cons fun_upd_twist)
  qed
qed simp

lemma ReportFill_agrees:
  assumes agree: "positions_agree e" and ok: "\<not> flt (Db ''risk.positions'' (fill_key f))"
    and cf: "colon_free (fr_Venue f)" "colon_free (fr_MarketID f)"
  shows "positions_agree (ReportFill flt now f e)"
proof -
  define k where "k = fill_key f"
  define ms where "ms = apply_fill f (map_get (st_Markets (re_state e)) k
      \<lparr>ms_PositionContracts = 0, ms_PositionNotional = 0, ms_StrategyID = fr_StrategyID f\<rparr>)"
  define p where "p = (\<lambda>r :: PositionRow. pos_venue r = fr_Venue f \<and> pos_market_id r = fr_MarketID f
      \<and> pos_strategy_id r = fr_StrategyID f)"
  define g where "g = (\<lambda>r :: PositionRow. r\<lparr>pos_net_quantity := ms_PositionContracts ms,
      pos_notional_micros := ms_PositionNotional ms, pos_updated_at := now\<rparr>)"
  let ?rows = "re_positions e"
  have pk: "p r \<longleftrightarrow> row_key r = k" if "r \<in> set ?rows" for r
    using key_identifies [of r f] agree cf that
    by (auto simp: positions_agree_def p_def k_def row_key_def fill_key_def)
  have gk: "row_key (g r) = row_key r" for r by (simp add: row_key_def g_def)
  have mk: "st_Markets (re_state (ReportFill flt now f e)) = (st_Markets (re_state e))(k \<mapsto> ms)"
    by (simp add: ReportFill_markets k_def ms_def)
  show ?thesis
  proof (cases "\<exists>r0 \<in> set ?rows. row_key r0 = k")
    case True
    then obtain r0 where r0: "r0 \<in> set ?rows" "row_key r0 = k" by blast
    have rows: "re_positions (ReportFill flt now f e) = sql_update p g ?rows"
      using ok r0 pk [OF r0(1)]
      by (auto simp: ReportFill_def Let_def upsert_position_def sql_upsert_def ms_def k_def p_def g_def map_get_def
          split: option.splits)
    have strat: "ms_StrategyID ms = pos_strategy_id r0"
    proof -
      have "st_Markets (re_state e) k = Some (row_state r0)"
        using agree r0 by (auto simp: positions_agree_def table_map_def o_def intro!: map_of_is_SomeI)
      then show ?thesis by (simp add: ms_def apply_fill_eq row_state_def map_get_def)
    qed
    have "table_map (sql_update p g ?rows) = (table_map ?rows)(k \<mapsto> ms)"
      using agree r0 pk gk strat
      by (intro table_map_update [where row = r0]) (auto simp: positions_agree_def row_state_def g_def)
    moreover have "map row_key (sql_update p g ?rows) = map row_key ?rows"
      by (rule sql_update_column) (rule gk)
    ultimately show ?thesis
      using agree unfolding positions_agree_def rows mk
      by (auto simp: in_sql_update g_def)
  next
    case False
    then have none: "\<forall>r \<in> set ?rows. \<not> p r" using pk by blast
    have "st_Markets (re_state e) k = None"
      using agree False by (auto simp: positions_agree_def table_map_def map_of_eq_None_iff)
    then have strat: "ms_StrategyID ms = fr_StrategyID f" by (simp add: ms_def apply_fill_eq map_get_def)
    define r1 where "r1 = \<lparr>pos_venue = fr_Venue f, pos_market_id = fr_MarketID f, pos_strategy_id = fr_StrategyID f,
         pos_net_quantity = ms_PositionContracts ms, pos_notional_micros = ms_PositionNotional ms,
         pos_realized_pnl_micros = 0, pos_updated_at = now\<rparr>"
    have "re_positions (ReportFill flt now f e) = ?rows @ [r1]"
      using ok none
      by (auto simp: ReportFill_def Let_def upsert_position_def sql_upsert_def ms_def k_def p_def r1_def map_get_def
          split: option.splits)
    moreover have k1: "row_key r1 = k" and "row_state r1 = ms" and "colon_free (pos_venue r1)" "colon_free (pos_market_id r1)"
      using strat cf by (simp_all add: r1_def row_key_def k_def fill_key_def row_state_def)
    moreover have fresh: "row_key r1 \<notin> row_key ` set ?rows" using False k1 by auto
    ultimately show ?thesis
      using agree unfolding positions_agree_def mk by (simp add: table_map_snoc)
  qed
qed


lemma fill_run_agrees:
  assumes "\<forall>(flt, now, f) \<in> set rs. \<not> flt (Db ''risk.positions'' (fill_key f))
             \<and> colon_free (fr_Venue f) \<and> colon_free (fr_MarketID f)"
    and "positions_agree e"
  shows "positions_agree (fill_run rs e)"
  using assms
  by (induction rs arbitrary: e) (auto simp: fill_run_def intro: ReportFill_agrees)

lemma load_positions_eq:
  assumes "distinct (map row_key rows)"
  shows "st_Markets (foldl load_position st rows) = st_Markets st ++ table_map rows"
  using assms
proof (induction rows arbitrary: st)
  case (Cons r rows)
  then have "st_Markets st ++ table_map (r # rows) = (st_Markets st)(row_key r \<mapsto> row_state r) ++ table_map rows"
    using table_map_absent [of r rows]
    by (simp add: fun_eq_iff table_map_Cons map_add_def split: option.splits)
  moreover have "st_Markets (load_position st r) = (st_Markets st)(row_key r \<mapsto> row_state r)"
    by (simp add: load_position_def row_key_def row_state_def)
  ultimately show ?case using Cons by simp
qed (simp add: table_map_def)

lemma load_rest_markets [simp]:
  "st_Markets (foldl load_stat st srows) = st_Markets st" "st_Markets (foldl load_halt st krows) = st_Markets st"
proof -
  show "st_Markets (foldl load_stat st srows) = st_Markets st"
    by (induction srows arbitrary: st) (simp_all add: load_stat_def)
  show "st_Markets (foldl load_halt st krows) = st_Markets st"
    by (induction krows arbitrary: st) (simp_all add: load_halt_def Let_def)
qed

lemma table_map_filter:
  assumes "distinct (map row_key rows)"
  shows "table_map (filter (\<lambda>r. pos_net_quantity r \<noteq> 0) rows) k =
    (case table_map rows k of Some ms \<Rightarrow> if ms_PositionContracts ms \<noteq> 0 then Some ms else None | None \<Rightarrow> None)"
  using assms
proof (induction rows)
  case (Cons r rows)
  have "table_map (filter (\<lambda>r. pos_net_quantity r \<noteq> 0) rows) (row_key r) = None"
    using Cons.prems by (auto simp: table_map_def map_of_eq_None_iff)
  then show ?case using Cons by (auto simp: table_map_def row_state_def)
qed (simp add: table_map_def)

text \<open>
  C30: A restart recovers the positions. Let an engine report any fills (venue and market ids without
  colons) with every write to \<^verbatim>\<open>risk.positions\<close> succeeding. A fresh engine over the same tables whose
  \<^verbatim>\<open>LoadState\<close> succeeds has exactly the same positions as the old one had in memory, except
  that those with zero contracts are absent.
\<close>

theorem restart_recovers_positions:
  assumes "\<forall>(flt, now, f) \<in> set rs. \<not> flt (Db ''risk.positions'' (fill_key f))
             \<and> colon_free (fr_Venue f) \<and> colon_free (fr_MarketID f)"
    and "e = fill_run rs (NewEngine policy key [] stats decs)"
    and "LoadState flt now kills (NewEngine policy key (re_positions e) (re_daily_stats e) decs) = (Inr (), e')"
  shows "st_Markets (re_state e') k =
    (case st_Markets (re_state e) k of
       Some ms \<Rightarrow> if ms_PositionContracts ms \<noteq> 0 then Some ms else None | None \<Rightarrow> None)"
proof -
  have "positions_agree (NewEngine policy key [] stats decs)"
    by (simp add: positions_agree_def NewEngine_def NewEmptyState_def table_map_def)
  with assms(1,2) have agree: "positions_agree e" by (simp add: fill_run_agrees)
  then have d: "distinct (map row_key (re_positions e))" by (simp add: positions_agree_def)
  have "st_Markets (re_state e') = table_map (filter (\<lambda>r. pos_net_quantity r \<noteq> 0) (re_positions e))"
    using assms(3) load_positions_eq [OF distinct_map_filter [OF d], of NewEmptyState]
    by (auto simp: LoadState_def Let_def NewEngine_def NewEmptyState_def split: if_splits)
  then show ?thesis using agree table_map_filter [OF d, of k] by (simp add: positions_agree_def)
qed

definition sample_fill :: "Side \<Rightarrow> int32 \<Rightarrow> FillReport" where
  "sample_fill side qty = \<lparr>fr_TraceID = ''t'', fr_InternalOrderID = ''o'', fr_StrategyID = ''mm'', fr_Venue = ''mock'',
     fr_MarketID = ''KX-1'', fr_Side = side, fr_Quantity = qty, fr_PriceMicros = 400000\<rparr>"

theorem restart_recovers_positions_witness:
  "\<exists>e'. LoadState no_faults 0 [] (NewEngine sample_policy []
        (re_positions (fill_run [(no_faults, 1, sample_fill SideBuy 10), (no_faults, 2, sample_fill SideSell 4)]
           (NewEngine sample_policy [] [] [] [])))
        (re_daily_stats (fill_run [(no_faults, 1, sample_fill SideBuy 10), (no_faults, 2, sample_fill SideSell 4)]
           (NewEngine sample_policy [] [] [] []))) []) = (Inr (), e')
     \<and> st_Markets (re_state e') ''mock:KX-1:mm'' =
         Some \<lparr>ms_PositionContracts = 6, ms_PositionNotional = 2400000, ms_StrategyID = ''mm''\<rparr>"
proof -
  let ?rs = "[(no_faults, 1, sample_fill SideBuy 10), (no_faults, 2, sample_fill SideSell 4)]"
  let ?e = "fill_run ?rs (NewEngine sample_policy [] [] [] [])"
  obtain e' where l: "LoadState no_faults 0 [] (NewEngine sample_policy [] (re_positions ?e) (re_daily_stats ?e) []) = (Inr (), e')"
    by (simp add: LoadState_def Let_def)
  have "st_Markets (re_state ?e) ''mock:KX-1:mm'' =
         Some \<lparr>ms_PositionContracts = 6, ms_PositionNotional = 2400000, ms_StrategyID = ''mm''\<rparr>"
    by (simp add: fill_run_def ReportFill_markets apply_fill_def fill_key_def sample_fill_def fill_notional_def
        NewEngine_def NewEmptyState_def map_get_def)
  moreover have "st_Markets (re_state e') ''mock:KX-1:mm'' =
    (case st_Markets (re_state ?e) ''mock:KX-1:mm'' of
       Some ms \<Rightarrow> if ms_PositionContracts ms \<noteq> 0 then Some ms else None | None \<Rightarrow> None)"
    by (rule restart_recovers_positions [OF _ refl l]) (simp add: sample_fill_def colon_free_def)
  ultimately show ?thesis using l by auto
qed

end
