(* ===== verification/Watchdog.thy ===== *)
theory Watchdog
  imports Events Audit_Log Convert
begin

text \<open>
  The watchdog: the kill switch manager (\<^verbatim>\<open>services/watchdog/killswitch.go\<close>), the dead man's switch
  (\<^verbatim>\<open>heartbeat.go\<close>) and the gRPC handlers (\<^verbatim>\<open>grpc_server.go\<close>). The manager's record carries the map
  of active halts, the mode, the rows of \<^verbatim>\<open>watchdog.kill_switch_events\<close>, the events published, the
  audit logger, and the states of the two services it controls, of any type: what it can do to
  them is the record \<open>ExecutionControl\<close> or \<open>RiskControl\<close>. All five collaborators are wired, as in
  \<^verbatim>\<open>cmd/watchdog/main.go\<close>; the nil checks of the tests are not modelled. Where the code ranges over
  the map of halts, \<open>visit\<close> chooses the order.
\<close>

section \<open>State\<close>

record ActiveHalt =
  ah_Level :: string
  ah_Scope :: string
  ah_Reason :: string
  ah_TriggeredBy :: string
  ah_TriggeredAt :: time
  ah_Acknowledged :: bool
  ah_AckedBy :: string
  ah_AckedAt :: "time option"
  ah_RootCause :: string
  ah_Resumed :: bool

datatype control_error = ControlUnavailable

record 'x ExecutionControl =
  ec_CancelAll :: "string \<Rightarrow> string \<Rightarrow> 'x \<Rightarrow> (control_error, int) result \<times> 'x"
  ec_SetSystemMode :: "string \<Rightarrow> 'x \<Rightarrow> 'x"

record 'r RiskControl =
  rk_SetSystemMode :: "string \<Rightarrow> 'r \<Rightarrow> 'r"

type_synonym halts = "string \<rightharpoonup> ActiveHalt"

record ('x, 'r) KillSwitchManager =
  km_exec :: 'x
  km_risk :: 'r
  km_activeHalts :: halts
  km_currentMode :: string
  km_rows :: "KillRow list"
  km_out :: outbox
  km_auditor :: Logger

definition NewKillSwitchManager :: "'x \<Rightarrow> 'r \<Rightarrow> KillRow list \<Rightarrow> ('x, 'r) KillSwitchManager" where
  "NewKillSwitchManager exec risk rows =
     \<lparr>km_exec = exec, km_risk = risk, km_activeHalts = Map.empty, km_currentMode = ''normal'', km_rows = rows,
      km_out = [], km_auditor = NewLogger ''watchdog''\<rparr>"


section \<open>The mode\<close>

fun recalc :: "halts \<Rightarrow> string list \<Rightarrow> string \<Rightarrow> string" where
  "recalc hs [] mode = mode"
| "recalc hs (k # ks) mode =
     (case hs k of None \<Rightarrow> recalc hs ks mode
      | Some halt \<Rightarrow>
          if ah_Level halt = LevelFullStop then ''full_stop''
          else if ah_Level halt = LevelCancelOnly then recalc hs ks (if mode \<noteq> ''full_stop'' then ''cancel_only'' else mode)
          else if ah_Level halt = LevelSoftPause then recalc hs ks (if mode = ''normal'' then ''soft_pause'' else mode)
          else recalc hs ks mode)"

definition recalcMode :: "(halts \<Rightarrow> string list) \<Rightarrow> ('x, 'r) KillSwitchManager \<Rightarrow> ('x, 'r) KillSwitchManager" where
  "recalcMode visit w = w\<lparr>km_currentMode := recalc (km_activeHalts w) (visit (km_activeHalts w)) ''normal''\<rparr>"


section \<open>Startup\<close>

definition halt_of_row :: "KillRow \<Rightarrow> ActiveHalt" where
  "halt_of_row r =
     \<lparr>ah_Level = ks_level r, ah_Scope = ks_scope r, ah_Reason = ks_reason r, ah_TriggeredBy = ks_triggered_by r,
      ah_TriggeredAt = ks_triggered_at r, ah_Acknowledged = ks_acknowledged r,
      ah_AckedBy = (case ks_acknowledged_by r of None \<Rightarrow> [] | Some b \<Rightarrow> b), ah_AckedAt = ks_acknowledged_at r,
      ah_RootCause = (case ks_root_cause r of None \<Rightarrow> [] | Some c \<Rightarrow> c), ah_Resumed = False\<rparr>"

datatype halt_error = LoadHalts | NoActiveHalt string | AlreadyAcknowledged string | NotAcknowledged string

text \<open>The query has no ORDER BY: \<open>order\<close> is the order in which PostgreSQL returns the rows of the table.\<close>

definition LoadActiveHalts ::
  "faults \<Rightarrow> (halts \<Rightarrow> string list) \<Rightarrow> (KillRow list \<Rightarrow> KillRow list) \<Rightarrow> ('x, 'r) KillSwitchManager
     \<Rightarrow> (halt_error, unit) result \<times> ('x, 'r) KillSwitchManager" where
  "LoadActiveHalts flt visit order w =
     (if flt (Db ''watchdog.kill_switch_events.select'' []) then (Inl LoadHalts, w)
      else (Inr (), recalcMode visit
        (w\<lparr>km_activeHalts := foldl (\<lambda>hs r. hs(ks_scope r \<mapsto> halt_of_row r)) (km_activeHalts w)
             (filter (\<lambda>r. \<not> ks_resumed r) (order (km_rows w)))\<rparr>)))"


section \<open>Trigger, acknowledge, resume\<close>

definition new_halt :: "time \<Rightarrow> string \<Rightarrow> string \<Rightarrow> string \<Rightarrow> string \<Rightarrow> ActiveHalt" where
  "new_halt now level scope reason triggeredBy =
     \<lparr>ah_Level = level, ah_Scope = scope, ah_Reason = reason, ah_TriggeredBy = triggeredBy, ah_TriggeredAt = now,
      ah_Acknowledged = False, ah_AckedBy = [], ah_AckedAt = None, ah_RootCause = [], ah_Resumed = False\<rparr>"

definition kill_row :: "ActiveHalt \<Rightarrow> KillRow" where
  "kill_row h =
     \<lparr>ks_level = ah_Level h, ks_scope = ah_Scope h, ks_reason = ah_Reason h, ks_triggered_by = ah_TriggeredBy h,
      ks_acknowledged = False, ks_acknowledged_by = None, ks_acknowledged_at = None, ks_root_cause = None,
      ks_resumed = False, ks_resumed_by = None, ks_resumed_at = None, ks_triggered_at = ah_TriggeredAt h\<rparr>"

definition insert_kill_row :: "faults \<Rightarrow> KillRow \<Rightarrow> KillRow list \<Rightarrow> KillRow list" where
  "insert_kill_row flt r rows =
     (if flt (Db ''watchdog.kill_switch_events.insert'' (ks_scope r)) \<or> ks_level r \<notin> set kill_levels then rows else rows @ [r])"

text \<open>The actions of a trigger, after the halt is in the map: database, cancel-all, modes, event, audit.\<close>

definition trigger_actions ::
  "(HashInput \<Rightarrow> string) \<Rightarrow> 'x ExecutionControl \<Rightarrow> 'r RiskControl \<Rightarrow> faults \<Rightarrow> time \<Rightarrow> uuid \<Rightarrow> ActiveHalt
     \<Rightarrow> ('x, 'r) KillSwitchManager \<Rightarrow> ('x, 'r) KillSwitchManager" where
  "trigger_actions H ec rk flt now aid halt w =
     (let level = ah_Level halt; scope = ah_Scope halt; mode = km_currentMode w;
          exec = (if level = LevelFullStop \<or> level = LevelCancelOnly
                  then snd (ec_CancelAll ec (''kill_switch:'' @ ah_Reason halt) (ah_TriggeredBy halt) (km_exec w)) else km_exec w) in
      w\<lparr>km_rows := insert_kill_row flt (kill_row halt) (km_rows w),
        km_exec := ec_SetSystemMode ec mode exec, km_risk := rk_SetSystemMode rk mode (km_risk w),
        km_out := publish flt (SubjectKillActivated @ ''.'' @ scope)
          (EvKillSwitch \<lparr>kse_Level = level, kse_Scope = scope, kse_Reason = ah_Reason halt,
             kse_TriggeredBy = ah_TriggeredBy halt, kse_Timestamp = ah_TriggeredAt halt\<rparr>) (km_out w),
        km_auditor := LogCritical H flt aid now ''kill_switch.activated'' []
          [(''level'', JString level), (''scope'', JString scope), (''reason'', JString (ah_Reason halt)),
           (''triggered_by'', JString (ah_TriggeredBy halt))] (km_auditor w)\<rparr>)"

definition Trigger ::
  "(HashInput \<Rightarrow> string) \<Rightarrow> 'x ExecutionControl \<Rightarrow> 'r RiskControl \<Rightarrow> faults \<Rightarrow> (halts \<Rightarrow> string list) \<Rightarrow> time \<Rightarrow> uuid
     \<Rightarrow> string \<Rightarrow> string \<Rightarrow> string \<Rightarrow> string \<Rightarrow> ('x, 'r) KillSwitchManager \<Rightarrow> ('x, 'r) KillSwitchManager" where
  "Trigger H ec rk flt visit now aid level scope reason triggeredBy w =
     (let halt = new_halt now level scope reason triggeredBy;
          go = trigger_actions H ec rk flt now aid halt
                 (recalcMode visit (w\<lparr>km_activeHalts := (km_activeHalts w)(scope \<mapsto> halt)\<rparr>)) in
      case km_activeHalts w scope of
        Some existing \<Rightarrow> if severityRank level \<le> severityRank (ah_Level existing) then w else go
      | None \<Rightarrow> go)"

definition Acknowledge ::
  "(HashInput \<Rightarrow> string) \<Rightarrow> faults \<Rightarrow> time \<Rightarrow> uuid \<Rightarrow> string \<Rightarrow> string \<Rightarrow> string \<Rightarrow> ('x, 'r) KillSwitchManager
     \<Rightarrow> (halt_error, unit) result \<times> ('x, 'r) KillSwitchManager" where
  "Acknowledge H flt now aid scope ackedBy rootCause w =
     (case km_activeHalts w scope of
        None \<Rightarrow> (Inl (NoActiveHalt scope), w)
      | Some halt \<Rightarrow>
          if ah_Acknowledged halt then (Inl (AlreadyAcknowledged scope), w)
          else let halt = halt\<lparr>ah_Acknowledged := True, ah_AckedBy := ackedBy, ah_AckedAt := Some now, ah_RootCause := rootCause\<rparr> in
            (Inr (), w\<lparr>km_activeHalts := (km_activeHalts w)(scope \<mapsto> halt),
               km_rows := (if flt (Db ''watchdog.kill_switch_events.ack'' scope) then km_rows w
                  else sql_update (\<lambda>r. ks_scope r = scope \<and> \<not> ks_resumed r \<and> \<not> ks_acknowledged r)
                    (\<lambda>r. r\<lparr>ks_acknowledged := True, ks_acknowledged_by := Some ackedBy, ks_acknowledged_at := Some now,
                           ks_root_cause := Some rootCause\<rparr>) (km_rows w)),
               km_auditor := LogInfo H flt aid now ''kill_switch.acknowledged'' []
                 [(''scope'', JString scope), (''acked_by'', JString ackedBy), (''root_cause'', JString rootCause)] (km_auditor w)\<rparr>))"

definition Resume ::
  "(HashInput \<Rightarrow> string) \<Rightarrow> 'x ExecutionControl \<Rightarrow> 'r RiskControl \<Rightarrow> faults \<Rightarrow> (halts \<Rightarrow> string list) \<Rightarrow> time \<Rightarrow> uuid
     \<Rightarrow> string \<Rightarrow> string \<Rightarrow> ('x, 'r) KillSwitchManager \<Rightarrow> (halt_error, unit) result \<times> ('x, 'r) KillSwitchManager" where
  "Resume H ec rk flt visit now aid scope resumedBy w =
     (case km_activeHalts w scope of
        None \<Rightarrow> (Inl (NoActiveHalt scope), w)
      | Some halt \<Rightarrow>
          if \<not> ah_Acknowledged halt then (Inl (NotAcknowledged scope), w)
          else let w = recalcMode visit (w\<lparr>km_activeHalts := (km_activeHalts w)(scope := None)\<rparr>); mode = km_currentMode w in
            (Inr (), w\<lparr>km_rows := (if flt (Db ''watchdog.kill_switch_events.resume'' scope) then km_rows w
                  else sql_update (\<lambda>r. ks_scope r = scope \<and> \<not> ks_resumed r)
                    (\<lambda>r. r\<lparr>ks_resumed := True, ks_resumed_by := Some resumedBy, ks_resumed_at := Some now\<rparr>) (km_rows w)),
               km_exec := ec_SetSystemMode ec mode (km_exec w), km_risk := rk_SetSystemMode rk mode (km_risk w),
               km_auditor := LogInfo H flt aid now ''kill_switch.resumed'' []
                 [(''scope'', JString scope), (''resumed_by'', JString resumedBy), (''new_mode'', JString mode)] (km_auditor w)\<rparr>))"

definition GetCurrentMode :: "('x, 'r) KillSwitchManager \<Rightarrow> string" where
  "GetCurrentMode w = km_currentMode w"

definition GetActiveHalts :: "(halts \<Rightarrow> string list) \<Rightarrow> ('x, 'r) KillSwitchManager \<Rightarrow> ActiveHalt list" where
  "GetActiveHalts visit w = List.map_filter (km_activeHalts w) (visit (km_activeHalts w))"


section \<open>The dead man's switch\<close>

record HeartbeatRow =
  hb_service_name :: string
  hb_last_heartbeat_at :: time
  hb_status :: string
  hb_detail :: string

record DeadMansSwitch =
  dm_interval :: duration
  dm_graceMultiple :: int
  dm_lastBeat :: "string \<rightharpoonup> time"
  dm_rows :: "HeartbeatRow list"

definition NewDeadMansSwitch :: "HeartbeatRow list \<Rightarrow> duration \<Rightarrow> int \<Rightarrow> DeadMansSwitch" where
  "NewDeadMansSwitch rows interval graceMultiple =
     \<lparr>dm_interval = interval, dm_graceMultiple = graceMultiple, dm_lastBeat = Map.empty, dm_rows = rows\<rparr>"

definition RecordHeartbeat :: "faults \<Rightarrow> time \<Rightarrow> string \<Rightarrow> string \<Rightarrow> string \<Rightarrow> DeadMansSwitch \<Rightarrow> DeadMansSwitch" where
  "RecordHeartbeat flt now service status detail d =
     (let d = d\<lparr>dm_lastBeat := (dm_lastBeat d)(service \<mapsto> now)\<rparr> in
      if flt (Db ''watchdog.heartbeats'' service) then d
      else d\<lparr>dm_rows := sql_upsert (\<lambda>r. hb_service_name r = service)
               (\<lambda>r. r\<lparr>hb_last_heartbeat_at := now, hb_status := status, hb_detail := detail\<rparr>)
               \<lparr>hb_service_name = service, hb_last_heartbeat_at = now, hb_status = status, hb_detail = detail\<rparr> (dm_rows d)\<rparr>)"

definition criticalServices :: "string list" where
  "criticalServices = [''execution-engine'', ''risk-engine'']"

text \<open>The product of two 64-bit durations.\<close>

definition beat_deadline :: "DeadMansSwitch \<Rightarrow> duration" where
  "beat_deadline d = sint (word_of_int (dm_graceMultiple d) * word_of_int (dm_interval d) :: int64)"

definition beat_missed :: "time \<Rightarrow> DeadMansSwitch \<Rightarrow> string \<Rightarrow> bool" where
  "beat_missed now d svc =
     (case dm_lastBeat d svc of None \<Rightarrow> True | Some lst \<Rightarrow> beat_deadline d < time_Sub now lst)"

text \<open>One tick of \<^verbatim>\<open>Monitor\<close>: \<open>aids\<close> are the ids of the audit entries.\<close>

definition check_service ::
  "(HashInput \<Rightarrow> string) \<Rightarrow> 'x ExecutionControl \<Rightarrow> 'r RiskControl \<Rightarrow> faults \<Rightarrow> (halts \<Rightarrow> string list) \<Rightarrow> time \<Rightarrow> (string \<Rightarrow> uuid)
     \<Rightarrow> DeadMansSwitch \<Rightarrow> ('x, 'r) KillSwitchManager \<Rightarrow> string \<Rightarrow> ('x, 'r) KillSwitchManager" where
  "check_service H ec rk flt visit now aids d w svc =
     (if beat_missed now d svc
      then Trigger H ec rk flt visit now (aids svc) LevelCancelOnly ''global''
             (''dead_mans_switch: '' @ svc @ '' heartbeat missed'') ''watchdog'' w
      else w)"

definition Monitor_tick ::
  "(HashInput \<Rightarrow> string) \<Rightarrow> 'x ExecutionControl \<Rightarrow> 'r RiskControl \<Rightarrow> faults \<Rightarrow> (halts \<Rightarrow> string list) \<Rightarrow> time \<Rightarrow> (string \<Rightarrow> uuid)
     \<Rightarrow> DeadMansSwitch \<Rightarrow> ('x, 'r) KillSwitchManager \<Rightarrow> ('x, 'r) KillSwitchManager" where
  "Monitor_tick H ec rk flt visit now aids d w = foldl (check_service H ec rk flt visit now aids d) w criticalServices"

record ServiceHealth =
  sh_ServiceName :: string
  sh_Healthy :: bool
  sh_LastHeartbeat :: time

definition GetServiceHealth :: "time \<Rightarrow> DeadMansSwitch \<Rightarrow> string \<rightharpoonup> ServiceHealth" where
  "GetServiceHealth now d svc =
     (case dm_lastBeat d svc of None \<Rightarrow> None
      | Some lst \<Rightarrow> Some \<lparr>sh_ServiceName = svc, sh_Healthy = (time_Sub now lst < beat_deadline d), sh_LastHeartbeat = lst\<rparr>)"


section \<open>The gRPC surface\<close>

datatype watchdog_error = InvalidKillLevel

record KillSwitchResponse =
  kr_Executed :: bool
  kr_Detail :: "halt_error option"

definition GRPC_TriggerKillSwitch ::
  "(HashInput \<Rightarrow> string) \<Rightarrow> 'x ExecutionControl \<Rightarrow> 'r RiskControl \<Rightarrow> faults \<Rightarrow> (halts \<Rightarrow> string list) \<Rightarrow> time \<Rightarrow> uuid
     \<Rightarrow> pb_KillSwitchLevel \<Rightarrow> string \<Rightarrow> string \<Rightarrow> string \<Rightarrow> ('x, 'r) KillSwitchManager
     \<Rightarrow> (watchdog_error, KillSwitchResponse) result \<times> ('x, 'r) KillSwitchManager" where
  "GRPC_TriggerKillSwitch H ec rk flt visit now aid l scope reason triggeredBy w =
     (let level = KillSwitchLevelFromProto l in
      if level = [] then (Inl InvalidKillLevel, w)
      else (Inr \<lparr>kr_Executed = True, kr_Detail = None\<rparr>, Trigger H ec rk flt visit now aid level scope reason triggeredBy w))"

definition reply :: "(halt_error, unit) result \<times> 'w \<Rightarrow> (bool \<times> halt_error option) \<times> 'w" where
  "reply r = (case r of (Inl err, w) \<Rightarrow> ((False, Some err), w) | (Inr _, w) \<Rightarrow> ((True, None), w))"

definition GRPC_AcknowledgeHalt ::
  "(HashInput \<Rightarrow> string) \<Rightarrow> faults \<Rightarrow> time \<Rightarrow> uuid \<Rightarrow> string \<Rightarrow> string \<Rightarrow> string \<Rightarrow> ('x, 'r) KillSwitchManager
     \<Rightarrow> (bool \<times> halt_error option) \<times> ('x, 'r) KillSwitchManager" where
  "GRPC_AcknowledgeHalt H flt now aid scope ackedBy rootCause w = reply (Acknowledge H flt now aid scope ackedBy rootCause w)"

definition GRPC_ResumeTrading ::
  "(HashInput \<Rightarrow> string) \<Rightarrow> 'x ExecutionControl \<Rightarrow> 'r RiskControl \<Rightarrow> faults \<Rightarrow> (halts \<Rightarrow> string list) \<Rightarrow> time \<Rightarrow> uuid
     \<Rightarrow> string \<Rightarrow> string \<Rightarrow> ('x, 'r) KillSwitchManager \<Rightarrow> (bool \<times> halt_error option) \<times> ('x, 'r) KillSwitchManager" where
  "GRPC_ResumeTrading H ec rk flt visit now aid scope resumedBy w = reply (Resume H ec rk flt visit now aid scope resumedBy w)"

text \<open>The reply: acknowledged, and the mode the service is to adopt.\<close>

definition GRPC_Heartbeat ::
  "faults \<Rightarrow> time \<Rightarrow> string \<Rightarrow> string \<Rightarrow> string \<Rightarrow> ('x, 'r) KillSwitchManager \<Rightarrow> DeadMansSwitch \<Rightarrow> (bool \<times> string) \<times> DeadMansSwitch" where
  "GRPC_Heartbeat flt now service status detail w d =
     ((True, GetCurrentMode w), RecordHeartbeat flt now service status detail d)"

record pb_ActiveHalt =
  ph_Level :: pb_KillSwitchLevel
  ph_Scope :: string
  ph_Reason :: string
  ph_TriggeredBy :: string
  ph_TriggeredAt :: Timestamp
  ph_Acknowledged :: bool
  ph_AcknowledgedBy :: string
  ph_AcknowledgedAt :: "Timestamp option"

definition activeHaltToProto :: "ActiveHalt \<Rightarrow> pb_ActiveHalt" where
  "activeHaltToProto h =
     \<lparr>ph_Level = KillSwitchLevelToProto (ah_Level h), ph_Scope = ah_Scope h, ph_Reason = ah_Reason h,
      ph_TriggeredBy = ah_TriggeredBy h, ph_TriggeredAt = timestamppb_New (ah_TriggeredAt h), ph_Acknowledged = ah_Acknowledged h,
      ph_AcknowledgedBy = ah_AckedBy h, ph_AcknowledgedAt = map_option timestamppb_New (ah_AckedAt h)\<rparr>"

record pb_ServiceHealth =
  psh_ServiceName :: string
  psh_Healthy :: bool
  psh_LastHeartbeat :: Timestamp

definition serviceHealthToProto :: "ServiceHealth \<Rightarrow> pb_ServiceHealth" where
  "serviceHealthToProto h =
     \<lparr>psh_ServiceName = sh_ServiceName h, psh_Healthy = sh_Healthy h, psh_LastHeartbeat = timestamppb_New (sh_LastHeartbeat h)\<rparr>"

record SystemStatus =
  sy_CurrentMode :: string
  sy_ActiveHalts :: "pb_ActiveHalt list"
  sy_ServiceHealth :: "string \<rightharpoonup> pb_ServiceHealth"
  sy_AsOf :: Timestamp

definition GetSystemStatus ::
  "(halts \<Rightarrow> string list) \<Rightarrow> time \<Rightarrow> ('x, 'r) KillSwitchManager \<Rightarrow> DeadMansSwitch \<Rightarrow> SystemStatus" where
  "GetSystemStatus visit now w d =
     \<lparr>sy_CurrentMode = GetCurrentMode w, sy_ActiveHalts = map activeHaltToProto (GetActiveHalts visit w),
      sy_ServiceHealth = (\<lambda>k. map_option serviceHealthToProto (GetServiceHealth now d k)), sy_AsOf = timestamppb_New now\<rparr>"

end
