(* ===== verification/Watchdog_Runs.thy ===== *)
theory Watchdog_Runs
  imports Watchdog "HOL-Library.Char_ord" "HOL-Library.List_Lexorder"
begin

text \<open>
  What the watchdog guarantees: the mode is the highest severity among the active halts, whatever order
  Go visits them in; a halt holds, at its severity or a higher one, until it was acknowledged and
  resumed; the table of kill switch events determines the halts, so a restart recovers them; a
  silent critical service halts trading.
\<close>

section \<open>The mode as a maximum\<close>

definition mode_of_rank :: "nat \<Rightarrow> string" where
  "mode_of_rank n = (if n = 0 then ''normal'' else if n = 1 then ''soft_pause'' else if n = 2 then ''cancel_only'' else ''full_stop'')"

definition halt_rank :: "halts \<Rightarrow> string \<Rightarrow> nat" where
  "halt_rank hs k = (case hs k of None \<Rightarrow> 0 | Some h \<Rightarrow> severityRank (ah_Level h))"

lemma severityRank_le: "severityRank l \<le> 3"
  by (simp add: severityRank_def)

lemma severityRank_mode [simp]: "n \<le> 3 \<Longrightarrow> severityRank (mode_of_rank n) = n"
  by (auto simp: severityRank_def mode_of_rank_def)

lemma mode_of_level: "l \<in> set kill_levels \<Longrightarrow> mode_of_rank (severityRank l) = l"
  by (auto simp: kill_levels_def mode_of_rank_def severityRank_def)

lemma halt_rank_le: "halt_rank hs k \<le> 3"
  by (simp add: halt_rank_def severityRank_le split: option.split)

lemma fold_max_ge: "(n::nat) \<le> fold (\<lambda>k. max (f k)) ks n"
  by (induction ks arbitrary: n) (simp_all, meson max.cobounded2 order_trans)

lemma fold_max_le: "(n::nat) \<le> b \<Longrightarrow> (\<And>k. f k \<le> b) \<Longrightarrow> fold (\<lambda>k. max (f k)) ks n \<le> b"
  by (induction ks arbitrary: n) simp_all

lemma recalc_eq: "n \<le> 3 \<Longrightarrow> recalc hs ks (mode_of_rank n) = mode_of_rank (fold (\<lambda>k. max (halt_rank hs k)) ks n)"
proof (induction ks arbitrary: n)
  case (Cons k ks)
  show ?case
  proof (cases "hs k")
    case None
    then show ?thesis using Cons by (simp add: halt_rank_def)
  next
    case (Some h)
    let ?l = "ah_Level h"
    have r: "halt_rank hs k = severityRank ?l" using Some by (simp add: halt_rank_def)
    consider "?l = LevelFullStop" | "?l = LevelCancelOnly" | "?l = LevelSoftPause" | "severityRank ?l = 0"
      "?l \<noteq> LevelFullStop" "?l \<noteq> LevelCancelOnly" "?l \<noteq> LevelSoftPause"
      by (auto simp: severityRank_def)
    then show ?thesis
    proof cases
      case 1
      have "fold (\<lambda>k. max (halt_rank hs k)) ks 3 = 3"
        using fold_max_ge [of 3 "halt_rank hs" ks] fold_max_le [of 3 3 "halt_rank hs" ks] halt_rank_le by (simp add: order_antisym)
      moreover have "max (halt_rank hs k) n = 3" using Cons.prems 1 r by (simp add: severityRank_def)
      ultimately show ?thesis using 1 Some by (simp add: mode_of_rank_def)
    next
      case 2
      have "(if mode_of_rank n \<noteq> ''full_stop'' then ''cancel_only'' else mode_of_rank n) = mode_of_rank (max (halt_rank hs k) n)"
        using 2 r by (simp add: severityRank_def mode_of_rank_def max_def)
      moreover have "max (halt_rank hs k) n \<le> 3" using Cons.prems halt_rank_le by simp
      ultimately show ?thesis using 2 Some Cons.IH by simp
    next
      case 3
      have "(if mode_of_rank n = ''normal'' then ''soft_pause'' else mode_of_rank n) = mode_of_rank (max (halt_rank hs k) n)"
        using 3 r by (simp add: severityRank_def mode_of_rank_def max_def)
      moreover have "max (halt_rank hs k) n \<le> 3" using Cons.prems halt_rank_le by simp
      ultimately show ?thesis using 3 Some Cons.IH by simp
    next
      case 4
      then show ?thesis using Some Cons r by simp
    qed
  qed
qed simp

definition peak :: "halts \<Rightarrow> nat" where
  "peak hs = Max (insert 0 ((\<lambda>h. severityRank (ah_Level h)) ` ran hs))"

lemma fold_max_Max: "fold (\<lambda>k. max (f k)) ks (n::nat) = Max (insert n (f ` set ks))"
proof (induction ks arbitrary: n)
  case (Cons k ks)
  then show ?case by (cases "ks = []") (simp_all add: max.left_commute max.assoc)
qed simp

lemma recalc_peak:
  assumes "enumerates ks hs"
  shows "recalc hs ks ''normal'' = mode_of_rank (peak hs)"
proof -
  have "halt_rank hs ` set ks = (\<lambda>h. severityRank (ah_Level h)) ` ran hs"
    using assms by (force simp: enumerates_def halt_rank_def ran_def image_iff dom_def)
  then show ?thesis
    using recalc_eq [of 0 hs ks] by (simp add: mode_of_rank_def fold_max_Max peak_def)
qed

lemma peak_ge: "finite (dom hs) \<Longrightarrow> hs k = Some h \<Longrightarrow> severityRank (ah_Level h) \<le> peak hs"
  unfolding peak_def by (intro Max_ge) (auto intro: ranI finite_ran)

lemma peak_le: "finite (dom hs) \<Longrightarrow> peak hs \<le> 3"
  unfolding peak_def using severityRank_le by (auto simp: finite_ran)

text \<open>
  The mode is the highest severity. Whatever order Go's map iteration takes, \<^verbatim>\<open>recalcMode\<close> computes the
  mode of the most severe active halt: full stop above cancel only above soft pause above normal.
\<close>

theorem mode_is_max_severity:
  assumes "enumerates (visit (km_activeHalts w)) (km_activeHalts w)"
  shows "km_currentMode (recalcMode visit w) =
    mode_of_rank (Max (insert 0 ((\<lambda>h. severityRank (ah_Level h)) ` ran (km_activeHalts w))))"
  using recalc_peak [OF assms] by (simp add: recalcMode_def peak_def)

theorem mode_is_max_severity_witness:
  "km_currentMode (recalcMode (\<lambda>_. [''a'', ''b'']) ((NewKillSwitchManager () () [])\<lparr>km_activeHalts :=
     [''a'' \<mapsto> new_halt 1 LevelSoftPause ''a'' [] [], ''b'' \<mapsto> new_halt 2 LevelCancelOnly ''b'' [] []]\<rparr>)) = ''cancel_only''"
proof -
  let ?w = "(NewKillSwitchManager () () [])\<lparr>km_activeHalts :=
     [''a'' \<mapsto> new_halt 1 LevelSoftPause ''a'' [] [], ''b'' \<mapsto> new_halt 2 LevelCancelOnly ''b'' [] []]\<rparr>"
  have "enumerates [''a'', ''b''] (km_activeHalts ?w)" by (simp add: enumerates_def insert_commute)
  note mode_is_max_severity [of "\<lambda>_. [''a'', ''b'']" ?w, OF this]
  moreover have "ran (km_activeHalts ?w) = {new_halt 1 LevelSoftPause ''a'' [] [], new_halt 2 LevelCancelOnly ''b'' [] []}"
    by (simp add: ran_map_upd insert_commute)
  ultimately show ?thesis by (simp add: new_halt_def severityRank_def mode_of_rank_def)
qed


section \<open>Runs\<close>

text \<open>What the operations do to the halts, the mode and the table.\<close>

lemma trigger_actions_keeps [simp]:
  "km_activeHalts (trigger_actions H ec rk flt now aid halt w) = km_activeHalts w"
  "km_currentMode (trigger_actions H ec rk flt now aid halt w) = km_currentMode w"
  "km_rows (trigger_actions H ec rk flt now aid halt w) = insert_kill_row flt (kill_row halt) (km_rows w)"
  by (simp_all add: trigger_actions_def Let_def)

lemma recalcMode_keeps [simp]:
  "km_activeHalts (recalcMode visit w) = km_activeHalts w" "km_rows (recalcMode visit w) = km_rows w"
  "km_exec (recalcMode visit w) = km_exec w" "km_risk (recalcMode visit w) = km_risk w"
  "km_currentMode (recalcMode visit w) = recalc (km_activeHalts w) (visit (km_activeHalts w)) ''normal''"
  by (simp_all add: recalcMode_def)

definition blocked :: "string \<Rightarrow> string \<Rightarrow> ('x, 'r) KillSwitchManager \<Rightarrow> bool" where
  "blocked level scope w = (case km_activeHalts w scope of None \<Rightarrow> False | Some h \<Rightarrow> severityRank level \<le> severityRank (ah_Level h))"

lemma Trigger_cases:
  "blocked level scope w \<Longrightarrow> Trigger H ec rk flt visit now aid level scope reason triggeredBy w = w"
  "\<not> blocked level scope w \<Longrightarrow> Trigger H ec rk flt visit now aid level scope reason triggeredBy w =
     trigger_actions H ec rk flt now aid (new_halt now level scope reason triggeredBy)
       (recalcMode visit (w\<lparr>km_activeHalts := (km_activeHalts w)(scope \<mapsto> new_halt now level scope reason triggeredBy)\<rparr>))"
  by (simp_all add: Trigger_def blocked_def Let_def split: option.splits)

text \<open>
  The steps of the watchdog: triggers (from the API or the monitor), acknowledgments and resumes, restricted by
  \<open>flt_ok\<close>, \<open>ack_ok\<close> and \<open>res_ok\<close> to the failures and scopes considered.
\<close>

inductive wd_step ::
  "(HashInput \<Rightarrow> string) \<Rightarrow> 'x ExecutionControl \<Rightarrow> 'r RiskControl \<Rightarrow> (halts \<Rightarrow> string list) \<Rightarrow> (faults \<Rightarrow> bool) \<Rightarrow> (string \<Rightarrow> bool)
     \<Rightarrow> (string \<Rightarrow> bool) \<Rightarrow> ('x, 'r) KillSwitchManager \<Rightarrow> ('x, 'r) KillSwitchManager \<Rightarrow> bool"
  for H ec rk visit flt_ok ack_ok res_ok where
  ws_trigger: "flt_ok flt \<Longrightarrow> level \<in> set kill_levels \<Longrightarrow>
     wd_step H ec rk visit flt_ok ack_ok res_ok w (Trigger H ec rk flt visit now aid level scope reason triggeredBy w)"
| ws_ack: "flt_ok flt \<Longrightarrow> ack_ok scope \<Longrightarrow>
     wd_step H ec rk visit flt_ok ack_ok res_ok w (snd (Acknowledge H flt now aid scope ackedBy rootCause w))"
| ws_resume: "flt_ok flt \<Longrightarrow> res_ok scope \<Longrightarrow>
     wd_step H ec rk visit flt_ok ack_ok res_ok w (snd (Resume H ec rk flt visit now aid scope resumedBy w))"
| ws_tick: "flt_ok flt \<Longrightarrow> wd_step H ec rk visit flt_ok ack_ok res_ok w (Monitor_tick H ec rk flt visit now aids d w)"

definition any_faults :: "faults \<Rightarrow> bool" where "any_faults flt = True"
definition no_faults_only :: "faults \<Rightarrow> bool" where "no_faults_only flt \<longleftrightarrow> flt = no_faults"
definition any_scope :: "string \<Rightarrow> bool" where "any_scope s = True"

inductive_cases wd_stepE: "wd_step H ec rk visit flt_ok ack_ok res_ok w w'"

text \<open>The monitor only triggers, so an invariant of triggers is one of the tick.\<close>

lemma tick_induct:
  assumes "\<And>w aid reason. P w \<Longrightarrow> P (Trigger H ec rk flt visit now aid LevelCancelOnly ''global'' reason ''watchdog'' w)" and "P w"
  shows "P (Monitor_tick H ec rk flt visit now aids d w)"
  using assms by (simp add: Monitor_tick_def criticalServices_def check_service_def)

text \<open>Each step either leaves halts, mode and table alone or recomputes the mode from the new halts.\<close>

definition mode_ok :: "('x, 'r) KillSwitchManager \<Rightarrow> bool" where
  "mode_ok w \<longleftrightarrow> finite (dom (km_activeHalts w)) \<and> km_currentMode w = mode_of_rank (peak (km_activeHalts w))"

definition visits_all :: "(halts \<Rightarrow> string list) \<Rightarrow> bool" where
  "visits_all visit \<longleftrightarrow> (\<forall>hs. finite (dom hs) \<longrightarrow> enumerates (visit hs) hs)"

lemma recalcMode_ok: "visits_all visit \<Longrightarrow> finite (dom (km_activeHalts w)) \<Longrightarrow> mode_ok (recalcMode visit w)"
  by (simp add: mode_ok_def visits_all_def recalc_peak)

lemma mode_ok_cong: "mode_ok w \<Longrightarrow> km_activeHalts w' = km_activeHalts w \<Longrightarrow> km_currentMode w' = km_currentMode w \<Longrightarrow> mode_ok w'"
  by (simp add: mode_ok_def)

lemma Trigger_mode_ok:
  assumes "visits_all visit" "mode_ok w"
  shows "mode_ok (Trigger H ec rk flt visit now aid level scope reason triggeredBy w)"
proof (cases "blocked level scope w")
  case False
  let ?u = "recalcMode visit (w\<lparr>km_activeHalts := (km_activeHalts w)(scope \<mapsto> new_halt now level scope reason triggeredBy)\<rparr>)"
  have "mode_ok ?u" using assms by (intro recalcMode_ok) (simp_all add: mode_ok_def)
  then show ?thesis unfolding Trigger_cases(2) [OF False] by (rule mode_ok_cong) (simp_all only: trigger_actions_keeps)
qed (simp add: Trigger_cases assms)

lemma peak_cong:
  assumes "finite (dom hs)" "hs k = Some h" "ah_Level h' = ah_Level h"
  shows "peak (hs(k \<mapsto> h')) = peak hs"
proof -
  have "(\<lambda>h. severityRank (ah_Level h)) ` ran (hs(k \<mapsto> h')) = (\<lambda>h. severityRank (ah_Level h)) ` ran hs"
  proof -
    have "(\<lambda>h. severityRank (ah_Level h)) ` ran m = (\<lambda>k. halt_rank m k) ` dom m" for m
      by (force simp: ran_def dom_def halt_rank_def image_iff)
    moreover have "dom (hs(k \<mapsto> h')) = dom hs" using assms(2) by auto
    moreover have "halt_rank (hs(k \<mapsto> h')) j = halt_rank hs j" for j using assms(2,3) by (simp add: halt_rank_def)
    ultimately show ?thesis by (simp only:)
  qed
  then show ?thesis by (simp add: peak_def)
qed

lemma Acknowledge_cases:
  obtains "snd (Acknowledge H flt now aid scope ackedBy rootCause w) = w"
  | h h' where "km_activeHalts w scope = Some h" "\<not> ah_Acknowledged h"
      "h' = h\<lparr>ah_Acknowledged := True, ah_AckedBy := ackedBy, ah_AckedAt := Some now, ah_RootCause := rootCause\<rparr>"
      "km_activeHalts (snd (Acknowledge H flt now aid scope ackedBy rootCause w)) = (km_activeHalts w)(scope \<mapsto> h')"
      "km_currentMode (snd (Acknowledge H flt now aid scope ackedBy rootCause w)) = km_currentMode w"
proof (cases "km_activeHalts w scope")
  case None
  then show ?thesis using that(1) by (simp add: Acknowledge_def)
next
  case (Some h)
  then show ?thesis using that by (cases "ah_Acknowledged h") (simp_all add: Acknowledge_def Let_def)
qed

lemma Acknowledge_mode_ok: "mode_ok w \<Longrightarrow> mode_ok (snd (Acknowledge H flt now aid scope ackedBy rootCause w))"
proof (cases rule: Acknowledge_cases [of H flt now aid scope ackedBy rootCause w])
  case (2 h h')
  assume ok: "mode_ok w"
  have "peak ((km_activeHalts w)(scope \<mapsto> h')) = peak (km_activeHalts w)"
    using ok 2(1,3) by (intro peak_cong) (simp_all add: mode_ok_def)
  then show ?thesis using ok 2(4,5) by (simp add: mode_ok_def)
qed simp

lemma Resume_cases:
  obtains e where "km_activeHalts w scope = None \<or> (\<exists>h. km_activeHalts w scope = Some h \<and> \<not> ah_Acknowledged h)"
      "Resume H ec rk flt visit now aid scope resumedBy w = (Inl e, w)"
  | h where "km_activeHalts w scope = Some h" "ah_Acknowledged h"
      "fst (Resume H ec rk flt visit now aid scope resumedBy w) = Inr ()"
      "km_activeHalts (snd (Resume H ec rk flt visit now aid scope resumedBy w)) = (km_activeHalts w)(scope := None)"
      "km_currentMode (snd (Resume H ec rk flt visit now aid scope resumedBy w)) =
         km_currentMode (recalcMode visit (w\<lparr>km_activeHalts := (km_activeHalts w)(scope := None)\<rparr>))"
proof (cases "km_activeHalts w scope")
  case None
  then show ?thesis using that(1) by (simp add: Resume_def)
next
  case (Some h)
  then show ?thesis using that by (cases "ah_Acknowledged h") (simp_all add: Resume_def Let_def)
qed

lemma Resume_mode_ok:
  assumes "visits_all visit" "mode_ok w"
  shows "mode_ok (snd (Resume H ec rk flt visit now aid scope resumedBy w))"
proof (cases rule: Resume_cases [of w scope H ec rk flt visit now aid resumedBy])
  case (2 h)
  have "mode_ok (recalcMode visit (w\<lparr>km_activeHalts := (km_activeHalts w)(scope := None)\<rparr>))"
    using assms by (intro recalcMode_ok) (simp_all add: mode_ok_def)
  then show ?thesis by (rule mode_ok_cong) (simp_all add: 2(4,5))
qed (use assms in simp)

lemma wd_step_mode_ok:
  assumes "visits_all visit" "wd_step H ec rk visit flt_ok ack_ok res_ok w w'" "mode_ok w"
  shows "mode_ok w'"
  using assms(2)
  by cases (auto intro: Trigger_mode_ok Acknowledge_mode_ok Resume_mode_ok tick_induct [where P = mode_ok] assms(1,3))

interpretation wd_mode: step_invariant
  "\<lambda>w w'. visits_all visit \<and> wd_step H ec rk visit flt_ok ack_ok res_ok w w'" mode_ok for visit H ec rk flt_ok ack_ok res_ok
  by unfold_locales (blast intro: wd_step_mode_ok)

lemma mode_ok_new: "mode_ok (NewKillSwitchManager x r rows)"
  by (simp add: mode_ok_def NewKillSwitchManager_def peak_def mode_of_rank_def)


section \<open>A halt holds until it is acknowledged and resumed\<close>

definition held :: "string \<Rightarrow> nat \<Rightarrow> bool \<Rightarrow> ('x, 'r) KillSwitchManager \<Rightarrow> bool" where
  "held s n unacked w \<longleftrightarrow> (\<exists>h. km_activeHalts w s = Some h \<and> n \<le> severityRank (ah_Level h) \<and> (unacked \<longrightarrow> \<not> ah_Acknowledged h))"

lemma Trigger_held:
  assumes "held s n u w" shows "held s n u (Trigger H ec rk flt visit now aid level scope reason triggeredBy w)"
proof (cases "blocked level scope w")
  case False
  obtain h where h: "km_activeHalts w s = Some h" "n \<le> severityRank (ah_Level h)" "u \<longrightarrow> \<not> ah_Acknowledged h"
    using assms by (auto simp: held_def)
  show ?thesis
  proof (cases "scope = s")
    case True
    then have "n \<le> severityRank level" using False h by (simp add: blocked_def)
    then show ?thesis unfolding Trigger_cases(2) [OF False] using True by (simp add: held_def new_halt_def)
  qed (use h in \<open>simp add: Trigger_cases(2) [OF False] held_def\<close>)
qed (simp add: Trigger_cases assms)

lemma Acknowledge_held:
  assumes "held s n u w" "u \<longrightarrow> scope \<noteq> s"
  shows "held s n u (snd (Acknowledge H flt now aid scope ackedBy rootCause w))"
proof (cases rule: Acknowledge_cases [of H flt now aid scope ackedBy rootCause w])
  case (2 h h')
  then show ?thesis using assms by (cases "scope = s") (auto simp: held_def)
qed (simp add: assms)

lemma Resume_held:
  assumes "held s n u w" "u \<or> scope \<noteq> s"
  shows "held s n u (snd (Resume H ec rk flt visit now aid scope resumedBy w))"
proof (cases rule: Resume_cases [of w scope H ec rk flt visit now aid resumedBy])
  case (2 h)
  then show ?thesis using assms by (cases "scope = s") (auto simp: held_def)
qed (simp add: assms)

lemma wd_step_held:
  assumes "wd_step H ec rk visit flt_ok ack_ok res_ok w w'" "held s n u w" "if u then \<not> ack_ok s else \<not> res_ok s"
  shows "held s n u w'"
  using assms(1)
proof cases
  case (ws_ack flt scope now aid ackedBy rootCause)
  then show ?thesis using assms(2,3) by (auto intro!: Acknowledge_held split: if_splits)
next
  case (ws_resume flt scope now aid resumedBy)
  then show ?thesis using assms(2,3) by (auto intro!: Resume_held split: if_splits)
qed (auto intro: Trigger_held tick_induct [where P = "held s n u"] assms(2))

interpretation wd_held: step_invariant
  "\<lambda>w w'. (if u then \<not> ack_ok s else \<not> res_ok s) \<and> wd_step H ec rk visit flt_ok ack_ok res_ok w w'" "held s n u"
  for u ack_ok res_ok s n H ec rk visit flt_ok
  by unfold_locales (blast intro: wd_step_held)

lemma held_mode: "mode_ok w \<Longrightarrow> held s n u w \<Longrightarrow> n \<le> severityRank (km_currentMode w)"
  by (auto simp: mode_ok_def held_def peak_le intro: order_trans peak_ge)

lemma steps_with: "P \<Longrightarrow> R\<^sup>*\<^sup>* x y \<Longrightarrow> (\<lambda>x y. P \<and> R x y)\<^sup>*\<^sup>* x y"
  by simp

text \<open>
  C9: A halt holds. Take any state with a halt on a scope whose mode agrees with its halts, and any sequence
  of triggers, monitor ticks, acknowledgments and resumes, with any database failures. If it contains no resume of that scope (or if the
  halt was not acknowledged and it contains no acknowledgment of that scope, however often it is resumed), then the scope is
  still halted at the severity it had or a higher one, and the mode is at least that severe.
\<close>

theorem halt_holds:
  assumes "visits_all visit" "mode_ok w" "km_activeHalts w s = Some h"
    and "\<not> res_ok s \<or> (\<not> ack_ok s \<and> \<not> ah_Acknowledged h)"
    and "(wd_step H ec rk visit any_faults ack_ok res_ok)\<^sup>*\<^sup>* w w'"
  shows "(\<exists>h'. km_activeHalts w' s = Some h' \<and> severityRank (ah_Level h) \<le> severityRank (ah_Level h'))
    \<and> severityRank (ah_Level h) \<le> severityRank (km_currentMode w')"
proof -
  have "\<exists>u. held s (severityRank (ah_Level h)) u w \<and> (if u then \<not> ack_ok s else \<not> res_ok s)"
    using assms(3,4) by (auto simp: held_def)
  then obtain u where u: "held s (severityRank (ah_Level h)) u w" "if u then \<not> ack_ok s else \<not> res_ok s" by blast
  have held': "held s (severityRank (ah_Level h)) u w'"
    using wd_held.reachable_inv [OF steps_with [OF u(2) assms(5)] u(1)] .
  moreover have "mode_ok w'" using wd_mode.reachable_inv [OF steps_with [OF assms(1,5)] assms(2)] .
  ultimately have "severityRank (ah_Level h) \<le> severityRank (km_currentMode w')" by (intro held_mode)
  then show ?thesis using held' by (auto simp: held_def)
qed

text \<open>One order of visiting a map: by the keys.\<close>

definition sorted_visit :: "halts \<Rightarrow> string list" where
  "sorted_visit hs = sorted_list_of_set (dom hs)"

lemma visits_all_sorted: "visits_all sorted_visit"
  by (simp add: visits_all_def enumerates_def sorted_visit_def)

definition null_exec :: "unit ExecutionControl" where
  "null_exec = \<lparr>ec_CancelAll = (\<lambda>reason by1 x. (Inr 0, x)), ec_SetSystemMode = (\<lambda>mode x. x)\<rparr>"

definition null_risk :: "unit RiskControl" where
  "null_risk = \<lparr>rk_SetSystemMode = (\<lambda>mode x. x)\<rparr>"

definition sample_halted :: "(unit, unit) KillSwitchManager" where
  "sample_halted = Trigger (\<lambda>_. []) null_exec null_risk no_faults sorted_visit 1 ''a1'' LevelFullStop ''global'' ''drawdown'' ''risk''
     (NewKillSwitchManager () () [])"

lemma sample_halted_facts:
  "mode_ok sample_halted" "km_activeHalts sample_halted = [''global'' \<mapsto> new_halt 1 LevelFullStop ''global'' ''drawdown'' ''risk'']"
proof -
  have nb: "\<not> blocked LevelFullStop ''global'' (NewKillSwitchManager () () [])"
    by (simp add: blocked_def NewKillSwitchManager_def)
  show "mode_ok sample_halted" unfolding sample_halted_def by (intro Trigger_mode_ok visits_all_sorted mode_ok_new)
  show "km_activeHalts sample_halted = [''global'' \<mapsto> new_halt 1 LevelFullStop ''global'' ''drawdown'' ''risk'']"
    unfolding sample_halted_def Trigger_cases(2) [OF nb] by (simp add: NewKillSwitchManager_def)
qed

theorem halt_holds_witness:
  "3 \<le> severityRank (km_currentMode (Trigger (\<lambda>_. []) null_exec null_risk no_faults sorted_visit 2 ''a2'' LevelSoftPause ''x'' [] [] sample_halted))"
proof -
  have "wd_step (\<lambda>_. []) null_exec null_risk sorted_visit any_faults any_scope (\<lambda>s. s \<noteq> ''global'') sample_halted
      (Trigger (\<lambda>_. []) null_exec null_risk no_faults sorted_visit 2 ''a2'' LevelSoftPause ''x'' [] [] sample_halted)"
    by (rule ws_trigger) (simp_all add: any_faults_def kill_levels_def)
  from halt_holds [OF visits_all_sorted sample_halted_facts(1) _ _ r_into_rtranclp [of "wd_step (\<lambda>_. []) null_exec null_risk sorted_visit any_faults any_scope (\<lambda>s. s \<noteq> ''global'')", OF this],
      of "''global''" "new_halt 1 LevelFullStop ''global'' ''drawdown'' ''risk''"]
  show ?thesis by (simp add: sample_halted_facts new_halt_def severityRank_def)
qed

text \<open>
  C32: Resuming takes an acknowledgment. \<^verbatim>\<open>Resume\<close> succeeds exactly when the scope is halted and the halt was acknowledged; otherwise
  it changes nothing. When it succeeds the scope is no longer halted, the other scopes are as before, and the mode is recomputed.
  A trigger at a higher level replaces the halt by one that is not acknowledged.
\<close>

theorem resume_exact:
  assumes "visits_all visit" "finite (dom (km_activeHalts w))"
    and "Resume H ec rk flt visit now aid scope resumedBy w = (res, w')"
  shows "(res = Inr () \<longleftrightarrow> (\<exists>h. km_activeHalts w scope = Some h \<and> ah_Acknowledged h))
    \<and> (res \<noteq> Inr () \<longrightarrow> w' = w)
    \<and> (res = Inr () \<longrightarrow> km_activeHalts w' = (km_activeHalts w)(scope := None)
         \<and> km_currentMode w' = mode_of_rank (peak ((km_activeHalts w)(scope := None))))
    \<and> (\<forall>level. \<not> blocked level scope w \<longrightarrow>
         (\<exists>h. km_activeHalts (Trigger H ec rk flt visit now aid level scope reason by1 w) scope = Some h
            \<and> ah_Level h = level \<and> \<not> ah_Acknowledged h))"
proof -
  have trig: "\<forall>level. \<not> blocked level scope w \<longrightarrow>
         (\<exists>h. km_activeHalts (Trigger H ec rk flt visit now aid level scope reason by1 w) scope = Some h
            \<and> ah_Level h = level \<and> \<not> ah_Acknowledged h)"
    by (simp add: Trigger_cases(2) new_halt_def)
  have "enumerates (visit ((km_activeHalts w)(scope := None))) ((km_activeHalts w)(scope := None))"
    using assms(1,2) by (simp add: visits_all_def)
  note peak = recalc_peak [OF this]
  show ?thesis
  proof (cases rule: Resume_cases [of w scope H ec rk flt visit now aid resumedBy])
    case (1 e)
    then show ?thesis using assms(3) trig by auto
  next
    case (2 h)
    then show ?thesis using assms(3) trig peak by simp
  qed
qed

theorem resume_exact_witness:
  "snd (Resume (\<lambda>_. []) null_exec null_risk no_faults sorted_visit 2 ''a2'' ''global'' ''ops'' sample_halted) = sample_halted"
proof -
  obtain res w' where r: "Resume (\<lambda>_. []) null_exec null_risk no_faults sorted_visit 2 ''a2'' ''global'' ''ops'' sample_halted = (res, w')"
    by (cases "Resume (\<lambda>_. []) null_exec null_risk no_faults sorted_visit 2 ''a2'' ''global'' ''ops'' sample_halted")
  have "finite (dom (km_activeHalts sample_halted))" using sample_halted_facts(1) by (simp add: mode_ok_def)
  from resume_exact [OF visits_all_sorted this r] show ?thesis
    by (simp add: r sample_halted_facts(2) new_halt_def)
qed


section \<open>The table determines the halts\<close>

definition halts_of :: "KillRow list \<Rightarrow> halts" where
  "halts_of rows = foldl (\<lambda>hs r. hs(ks_scope r \<mapsto> halt_of_row r)) Map.empty (filter (\<lambda>r. \<not> ks_resumed r) rows)"

lemma halts_of_Nil [simp]: "halts_of [] = Map.empty"
  by (simp add: halts_of_def)

lemma halts_of_snoc [simp]:
  "halts_of (rows @ [r]) = (if ks_resumed r then halts_of rows else (halts_of rows)(ks_scope r \<mapsto> halt_of_row r))"
  by (simp add: halts_of_def)

lemma halt_of_kill_row: "halt_of_row (kill_row (new_halt now level scope reason by1)) = new_halt now level scope reason by1"
  by (simp add: halt_of_row_def kill_row_def new_halt_def)

lemma halts_of_ack:
  "halts_of (sql_update (\<lambda>r. ks_scope r = scope \<and> \<not> ks_resumed r \<and> \<not> ks_acknowledged r)
      (\<lambda>r. r\<lparr>ks_acknowledged := True, ks_acknowledged_by := Some b, ks_acknowledged_at := Some now, ks_root_cause := Some c\<rparr>) rows) =
   (halts_of rows)(scope := map_option (\<lambda>h. if ah_Acknowledged h then h
      else h\<lparr>ah_Acknowledged := True, ah_AckedBy := b, ah_AckedAt := Some now, ah_RootCause := c\<rparr>) (halts_of rows scope))"
proof (induction rows rule: rev_induct)
  case (snoc r rows)
  then show ?case by (auto simp: fun_eq_iff halt_of_row_def)
qed (simp add: fun_eq_iff)

lemma halts_of_resume:
  "halts_of (sql_update (\<lambda>r. ks_scope r = scope \<and> \<not> ks_resumed r)
      (\<lambda>r. r\<lparr>ks_resumed := True, ks_resumed_by := Some b, ks_resumed_at := Some now\<rparr>) rows) = (halts_of rows)(scope := None)"
proof (induction rows rule: rev_induct)
  case (snoc r rows)
  then show ?case by (auto simp: fun_eq_iff)
qed (simp add: fun_eq_iff)

text \<open>Rows a later trigger superseded are no more severe than the halt of their scope.\<close>

definition table_ok :: "('x, 'r) KillSwitchManager \<Rightarrow> bool" where
  "table_ok w \<longleftrightarrow> km_activeHalts w = halts_of (km_rows w)
     \<and> (\<forall>r \<in> set (km_rows w). ks_level r \<in> set kill_levels
          \<and> (\<not> ks_resumed r \<longrightarrow> severityRank (ks_level r) \<le> halt_rank (km_activeHalts w) (ks_scope r)))"

lemma Trigger_table_ok:
  assumes "table_ok w" "level \<in> set kill_levels"
  shows "table_ok (Trigger H ec rk no_faults visit now aid level scope reason triggeredBy w)"
proof (cases "blocked level scope w")
  case False
  let ?h = "new_halt now level scope reason triggeredBy"
  have lev: "ks_level (kill_row ?h) = level" "ks_scope (kill_row ?h) = scope" "\<not> ks_resumed (kill_row ?h)"
    by (simp_all add: kill_row_def new_halt_def)
  have rows: "km_rows (Trigger H ec rk no_faults visit now aid level scope reason triggeredBy w) = km_rows w @ [kill_row ?h]"
    unfolding Trigger_cases(2) [OF False] using assms(2) lev by (simp add: insert_kill_row_def)
  have hs: "km_activeHalts (Trigger H ec rk no_faults visit now aid level scope reason triggeredBy w) = (km_activeHalts w)(scope \<mapsto> ?h)"
    unfolding Trigger_cases(2) [OF False] by simp
  have up: "halt_rank (km_activeHalts w) j \<le> halt_rank ((km_activeHalts w)(scope \<mapsto> ?h)) j" for j
    using False by (auto simp: halt_rank_def blocked_def new_halt_def split: option.splits)
  have "severityRank level \<le> halt_rank ((km_activeHalts w)(scope \<mapsto> ?h)) scope" by (simp add: halt_rank_def new_halt_def)
  then show ?thesis
    unfolding table_ok_def rows hs using assms lev up order_trans by (fastforce simp: table_ok_def halt_of_kill_row)
qed (simp add: Trigger_cases assms)


lemma Acknowledge_table_ok:
  assumes "table_ok w" shows "table_ok (snd (Acknowledge H no_faults now aid scope ackedBy rootCause w))"
proof (cases rule: Acknowledge_cases [of H no_faults now aid scope ackedBy rootCause w])
  case (2 h h')
  have rows: "km_rows (snd (Acknowledge H no_faults now aid scope ackedBy rootCause w)) =
      sql_update (\<lambda>r. ks_scope r = scope \<and> \<not> ks_resumed r \<and> \<not> ks_acknowledged r)
        (\<lambda>r. r\<lparr>ks_acknowledged := True, ks_acknowledged_by := Some ackedBy, ks_acknowledged_at := Some now, ks_root_cause := Some rootCause\<rparr>) (km_rows w)"
    using 2(1,2) by (simp add: Acknowledge_def Let_def)
  have hs: "km_activeHalts w = halts_of (km_rows w)" using assms by (simp add: table_ok_def)
  have "halt_rank ((km_activeHalts w)(scope \<mapsto> h')) j = halt_rank (km_activeHalts w) j" for j
    using 2(1,3) by (simp add: halt_rank_def)
  then show ?thesis
    using assms 2(1,2) unfolding table_ok_def 2(4) rows halts_of_ack hs [symmetric]
    by (auto simp: in_sql_update 2(3))
qed (simp add: assms)

lemma Resume_table_ok:
  assumes "table_ok w" shows "table_ok (snd (Resume H ec rk no_faults visit now aid scope resumedBy w))"
proof (cases rule: Resume_cases [of w scope H ec rk no_faults visit now aid resumedBy])
  case (2 h)
  have rows: "km_rows (snd (Resume H ec rk no_faults visit now aid scope resumedBy w)) =
      sql_update (\<lambda>r. ks_scope r = scope \<and> \<not> ks_resumed r)
        (\<lambda>r. r\<lparr>ks_resumed := True, ks_resumed_by := Some resumedBy, ks_resumed_at := Some now\<rparr>) (km_rows w)"
    using 2(1,2) by (simp add: Resume_def Let_def)
  have hs: "km_activeHalts w = halts_of (km_rows w)" using assms by (simp add: table_ok_def)
  have "halt_rank ((km_activeHalts w)(scope := None)) j = halt_rank (km_activeHalts w) j" if "j \<noteq> scope" for j
    using that by (simp add: halt_rank_def)
  then show ?thesis
    using assms unfolding table_ok_def 2(4) rows halts_of_resume hs [symmetric] by (auto simp: in_sql_update)
qed (simp add: assms)

lemma wd_step_table_ok:
  assumes "wd_step H ec rk visit no_faults_only ack_ok res_ok w w'" "table_ok w"
  shows "table_ok w'"
  using assms(1)
proof cases
  case (ws_tick flt now aids d)
  have "table_ok (Monitor_tick H ec rk no_faults visit now aids d w)"
    by (rule tick_induct [where P = table_ok]) (simp_all add: Trigger_table_ok kill_levels_def assms(2))
  then show ?thesis using ws_tick by (simp add: no_faults_only_def)
qed (use assms(2) in \<open>auto simp: no_faults_only_def intro: Trigger_table_ok Acknowledge_table_ok Resume_table_ok\<close>)

interpretation wd_table: step_invariant "wd_step H ec rk visit no_faults_only ack_ok res_ok" table_ok
  for H ec rk visit ack_ok res_ok
  by unfold_locales (rule wd_step_table_ok)

lemma table_ok_new: "table_ok (NewKillSwitchManager x r [])"
  by (simp add: table_ok_def NewKillSwitchManager_def)

lemma reachable_table_mode:
  assumes "visits_all visit" "(wd_step H ec rk visit no_faults_only any_scope any_scope)\<^sup>*\<^sup>* (NewKillSwitchManager x r []) w"
  shows "table_ok w" "mode_ok w"
  using wd_table.reachable_inv [OF assms(2) table_ok_new]
    wd_mode.reachable_inv [OF steps_with [OF assms] mode_ok_new] by blast+

text \<open>
  A restart recovers the halts. After any run of the watchdog without database failures, a new manager over the
  same table that reads the rows in the order they were inserted has exactly the same active halts, with
  their acknowledgments, and the same mode.
\<close>

theorem restart_recovers_halts:
  assumes "visits_all visit"
    and "(wd_step H ec rk visit no_faults_only any_scope any_scope)\<^sup>*\<^sup>* (NewKillSwitchManager x r []) w"
    and "LoadActiveHalts no_faults visit (\<lambda>rows. rows) (NewKillSwitchManager x' r' (km_rows w)) = (res, w')"
  shows "res = Inr () \<and> km_activeHalts w' = km_activeHalts w \<and> km_currentMode w' = km_currentMode w"
proof -
  note ok = reachable_table_mode [OF assms(1,2)]
  have hs: "km_activeHalts w = halts_of (km_rows w)" using ok(1) by (simp add: table_ok_def)
  have w': "res = Inr ()" "w' = recalcMode visit ((NewKillSwitchManager x' r' (km_rows w))\<lparr>km_activeHalts := km_activeHalts w\<rparr>)"
    using assms(3) by (auto simp: LoadActiveHalts_def hs halts_of_def NewKillSwitchManager_def)
  have "mode_ok w'" unfolding w'(2) using ok(2) by (intro recalcMode_ok assms(1)) (simp add: mode_ok_def)
  then show ?thesis using ok(2) w' by (simp add: mode_ok_def)
qed

theorem restart_recovers_halts_witness:
  "km_activeHalts (snd (LoadActiveHalts no_faults sorted_visit (\<lambda>rows. rows) (NewKillSwitchManager () () (km_rows sample_halted)))) ''global'' =
     Some (new_halt 1 LevelFullStop ''global'' ''drawdown'' ''risk'')"
proof -
  have "wd_step (\<lambda>_. []) null_exec null_risk sorted_visit no_faults_only any_scope any_scope (NewKillSwitchManager () () []) sample_halted"
    unfolding sample_halted_def by (rule ws_trigger) (simp_all add: no_faults_only_def kill_levels_def)
  note run = r_into_rtranclp [of "wd_step (\<lambda>_. []) null_exec null_risk sorted_visit no_faults_only any_scope any_scope", OF this]
  obtain res w' where "LoadActiveHalts no_faults sorted_visit (\<lambda>rows. rows) (NewKillSwitchManager () () (km_rows sample_halted)) = (res, w')"
    by (cases "LoadActiveHalts no_faults sorted_visit (\<lambda>rows. rows) (NewKillSwitchManager () () (km_rows sample_halted))")
  from restart_recovers_halts [OF visits_all_sorted run this] this show ?thesis by (simp add: sample_halted_facts)
qed

text \<open>
  An escalated scope has two rows that are not resumed. The query has no ORDER BY, and if PostgreSQL returns
  the newer row first the restarted watchdog comes up with the older, weaker level.
\<close>

lemma restart_order_matters:
  assumes "visits_all visit"
  shows "\<exists>w. (wd_step H ec rk visit no_faults_only any_scope any_scope)\<^sup>*\<^sup>* (NewKillSwitchManager x r []) w
    \<and> km_currentMode w = ''full_stop''
    \<and> km_currentMode (snd (LoadActiveHalts no_faults visit rev (NewKillSwitchManager x r (km_rows w)))) = ''soft_pause''"
proof -
  define w0 where "w0 = NewKillSwitchManager x r []"
  define w1 where "w1 = Trigger H ec rk no_faults visit 1 [] LevelSoftPause ''g'' [] [] w0"
  define w2 where "w2 = Trigger H ec rk no_faults visit 2 [] LevelFullStop ''g'' [] [] w1"
  let ?h1 = "new_halt 1 LevelSoftPause ''g'' [] []" and ?h2 = "new_halt 2 LevelFullStop ''g'' [] []"
  have nb: "\<not> blocked LevelSoftPause ''g'' w0" by (simp add: blocked_def w0_def NewKillSwitchManager_def)
  have w1: "km_activeHalts w1 = [''g'' \<mapsto> ?h1]" "km_rows w1 = [kill_row ?h1]"
    unfolding w1_def Trigger_cases(2) [OF nb]
    by (simp_all add: w0_def NewKillSwitchManager_def insert_kill_row_def kill_row_def new_halt_def kill_levels_def)
  have nb2: "\<not> blocked LevelFullStop ''g'' w1" by (simp add: blocked_def w1 severityRank_def new_halt_def)
  have w2: "km_activeHalts w2 = [''g'' \<mapsto> ?h2]" "km_rows w2 = [kill_row ?h1, kill_row ?h2]"
    unfolding w2_def Trigger_cases(2) [OF nb2]
    by (simp_all add: w1 insert_kill_row_def) (simp add: kill_row_def new_halt_def kill_levels_def)
  have "wd_step H ec rk visit no_faults_only any_scope any_scope w0 w1" "wd_step H ec rk visit no_faults_only any_scope any_scope w1 w2"
    unfolding w1_def w2_def by (rule ws_trigger; simp add: no_faults_only_def kill_levels_def)+
  note steps = this
  have run: "(wd_step H ec rk visit no_faults_only any_scope any_scope)\<^sup>*\<^sup>* (NewKillSwitchManager x r []) w2"
    unfolding w0_def [symmetric] by (rule rtranclp.rtrancl_into_rtrancl, rule r_into_rtranclp, rule steps(1), rule steps(2))
  have "km_currentMode w2 = ''full_stop''"
    using reachable_table_mode(2) [OF assms run] by (simp add: mode_ok_def w2 peak_def new_halt_def severityRank_def mode_of_rank_def)
  moreover have "km_currentMode (snd (LoadActiveHalts no_faults visit rev (NewKillSwitchManager x r (km_rows w2)))) = ''soft_pause''"
  proof -
    have "enumerates (visit [''g'' \<mapsto> ?h1]) [''g'' \<mapsto> ?h1]" using assms by (simp add: visits_all_def)
    from recalc_peak [OF this] have "recalc [''g'' \<mapsto> ?h1] (visit [''g'' \<mapsto> ?h1]) ''normal'' = ''soft_pause''"
      by (simp add: peak_def new_halt_def severityRank_def mode_of_rank_def)
    then show ?thesis
      by (simp add: LoadActiveHalts_def w2 halt_of_kill_row, simp add: kill_row_def new_halt_def NewKillSwitchManager_def halt_of_row_def)
  qed
  ultimately show ?thesis using run by blast
qed


section \<open>The dead man's switch\<close>

lemma Trigger_reaches:
  assumes "visits_all visit" "mode_ok w"
  shows "held scope (severityRank level) False (Trigger H ec rk flt visit now aid level scope reason triggeredBy w)"
proof (cases "blocked level scope w")
  case True
  then show ?thesis by (auto simp: Trigger_cases(1) [OF True] held_def blocked_def split: option.splits)
next
  case False
  then show ?thesis by (simp add: Trigger_cases(2) [OF False] held_def new_halt_def)
qed

lemma check_service_held: "held s n u w \<Longrightarrow> held s n u (check_service H ec rk flt visit now aids d w svc)"
  by (simp add: check_service_def Trigger_held)

lemma check_service_mode_ok: "visits_all visit \<Longrightarrow> mode_ok w \<Longrightarrow> mode_ok (check_service H ec rk flt visit now aids d w svc)"
  by (simp add: check_service_def Trigger_mode_ok)

text \<open>
  C22: A silent service halts trading. At a tick of the monitor at which a critical service has no heartbeat within
  the deadline (or none at all), the global scope is halted at cancel only or above afterwards and the mode is at
  least that severe; at a tick at which every critical service is in time nothing happens. With an interval and a grace
  multiple whose product fits 64 bits, a service is late exactly when its last heartbeat is more than that
  many nanoseconds ago.
\<close>

theorem silent_service_halts:
  assumes "visits_all visit" "mode_ok w" and w': "w' = Monitor_tick H ec rk flt visit now aids d w"
  shows "((\<exists>svc \<in> {''execution-engine'', ''risk-engine''}. beat_missed now d svc) \<longrightarrow>
        (\<exists>h. km_activeHalts w' ''global'' = Some h \<and> severityRank LevelCancelOnly \<le> severityRank (ah_Level h))
        \<and> severityRank LevelCancelOnly \<le> severityRank (km_currentMode w'))
    \<and> ((\<forall>svc \<in> {''execution-engine'', ''risk-engine''}. \<not> beat_missed now d svc) \<longrightarrow> w' = w)
    \<and> (0 \<le> dm_graceMultiple d * dm_interval d \<and> dm_graceMultiple d * dm_interval d < 9223372036854775807 \<longrightarrow>
        (beat_missed now d svc \<longleftrightarrow> (case dm_lastBeat d svc of None \<Rightarrow> True | Some t \<Rightarrow> dm_graceMultiple d * dm_interval d < now - t)))"
proof -
  let ?c = "check_service H ec rk flt visit now aids d"
  have tick: "w' = ?c (?c w ''execution-engine'') ''risk-engine''" by (simp add: w' Monitor_tick_def criticalServices_def)
  have ok: "mode_ok (?c w ''execution-engine'')" "mode_ok w'"
    unfolding tick by (intro check_service_mode_ok assms)+
  have "held ''global'' (severityRank LevelCancelOnly) False w'" if "\<exists>svc \<in> {''execution-engine'', ''risk-engine''}. beat_missed now d svc"
  proof (cases "beat_missed now d ''risk-engine''")
    case True
    then show ?thesis unfolding tick check_service_def [of _ _ _ _ _ _ _ _ _ "''risk-engine''"] by (simp add: Trigger_reaches [OF assms(1) ok(1)])
  next
    case False
    then have "beat_missed now d ''execution-engine''" using that by simp
    then have "held ''global'' (severityRank LevelCancelOnly) False (?c w ''execution-engine'')"
      unfolding check_service_def by (simp add: Trigger_reaches [OF assms(1,2)])
    then show ?thesis unfolding tick by (rule check_service_held)
  qed
  then have "(\<exists>svc \<in> {''execution-engine'', ''risk-engine''}. beat_missed now d svc) \<longrightarrow>
        (\<exists>h. km_activeHalts w' ''global'' = Some h \<and> severityRank LevelCancelOnly \<le> severityRank (ah_Level h))
        \<and> severityRank LevelCancelOnly \<le> severityRank (km_currentMode w')"
    using held_mode [OF ok(2)] unfolding held_def by blast
  moreover have "(\<forall>svc \<in> {''execution-engine'', ''risk-engine''}. \<not> beat_missed now d svc) \<longrightarrow> w' = w"
    unfolding tick by (simp add: check_service_def)
  moreover have "beat_missed now d svc \<longleftrightarrow> (case dm_lastBeat d svc of None \<Rightarrow> True | Some t \<Rightarrow> dm_graceMultiple d * dm_interval d < now - t)"
    if "0 \<le> dm_graceMultiple d * dm_interval d" "dm_graceMultiple d * dm_interval d < 9223372036854775807"
  proof -
    have "beat_deadline d = dm_graceMultiple d * dm_interval d"
      using that unfolding beat_deadline_def wi_hom_mult by (intro sint_word_of_int_exact) simp_all
    then show ?thesis using that by (simp add: beat_missed_def time_Sub_greater_iff split: option.split)
  qed
  ultimately show ?thesis by blast
qed

theorem silent_service_halts_witness:
  "severityRank (km_currentMode (Monitor_tick (\<lambda>_. []) null_exec null_risk no_faults sorted_visit 5 (\<lambda>_. []) (NewDeadMansSwitch [] 10 3)
     (NewKillSwitchManager () () []))) \<ge> 2"
proof -
  have "beat_missed 5 (NewDeadMansSwitch [] 10 3) ''risk-engine''" by (simp add: beat_missed_def NewDeadMansSwitch_def)
  then have missed: "\<exists>svc \<in> {''execution-engine'', ''risk-engine''}. beat_missed 5 (NewDeadMansSwitch [] 10 3) svc" by blast
  have two: "severityRank LevelCancelOnly = 2" by (simp add: severityRank_def)
  show ?thesis
    by (rule silent_service_halts [OF visits_all_sorted mode_ok_new refl, THEN conjunct1, THEN mp, OF missed, THEN conjunct2, unfolded two])
qed

end
