(* ===== verification/Grpc_Auth.thy ===== *)
theory Grpc_Auth
  imports Prelude
begin

text \<open>
  Caller authentication of \<^verbatim>\<open>internal/grpcauth/caller_check.go\<close> and the tables of allowed callers in the
  \<^verbatim>\<open>main\<close> functions of the three servers. gRPC metadata is a map from (lower case) header names to
  the list of their values; a handler is a function on the server's state.
\<close>

type_synonym metadata = "string \<rightharpoonup> string list"
type_synonym AllowedCallers = "(string \<times> string list) list"

abbreviation CallerHeader :: string where "CallerHeader \<equiv> ''x-caller-service''"

datatype 'e rpc_error = PermissionDenied string | HandlerError 'e

definition callerFromContext :: "metadata option \<Rightarrow> string" where
  "callerFromContext ctx =
     (case ctx of None \<Rightarrow> []
      | Some md \<Rightarrow> (case md CallerHeader of None \<Rightarrow> [] | Some vals \<Rightarrow> if vals = [] then [] else vals ! 0))"

definition run_handler :: "('s \<Rightarrow> ('e, 'a) result \<times> 's) \<Rightarrow> 's \<Rightarrow> ('e rpc_error, 'a) result \<times> 's" where
  "run_handler handler s = (case handler s of (Inl e, s') \<Rightarrow> (Inl (HandlerError e), s') | (Inr a, s') \<Rightarrow> (Inr a, s'))"

definition UnaryCallerInterceptor ::
  "AllowedCallers \<Rightarrow> metadata option \<Rightarrow> string \<Rightarrow> ('s \<Rightarrow> ('e, 'a) result \<times> 's) \<Rightarrow> 's \<Rightarrow> ('e rpc_error, 'a) result \<times> 's" where
  "UnaryCallerInterceptor ac ctx fullMethod handler s =
     (case map_of ac fullMethod of
        None \<Rightarrow> run_handler handler s
      | Some allowed \<Rightarrow>
          if ''*'' \<in> set allowed then run_handler handler s
          else let caller = callerFromContext ctx in
            if caller = [] then (Inl (PermissionDenied (''missing '' @ CallerHeader @ '' metadata'')), s)
            else if caller \<notin> set allowed
              then (Inl (PermissionDenied (''caller '' @ caller @ '' not allowed for '' @ fullMethod)), s)
            else run_handler handler s)"

text \<open>The client side: the header is appended to the outgoing metadata.\<close>

definition AppendToOutgoingContext :: "string \<Rightarrow> string \<Rightarrow> metadata option \<Rightarrow> metadata option" where
  "AppendToOutgoingContext k v ctx =
     (let md = (case ctx of None \<Rightarrow> Map.empty | Some md \<Rightarrow> md)
      in Some (md(k \<mapsto> (case md k of None \<Rightarrow> [v] | Some vals \<Rightarrow> vals @ [v]))))"

definition CallerIdentityInterceptor :: "string \<Rightarrow> metadata option \<Rightarrow> metadata option" where
  "CallerIdentityInterceptor serviceName ctx = AppendToOutgoingContext CallerHeader serviceName ctx"


section \<open>The tables of the servers\<close>

definition execution_callers :: AllowedCallers where
  "execution_callers =
     [(''/execution.ExecutionEngine/SubmitOrder'', [''strategy-engine'']),
      (''/execution.ExecutionEngine/CancelOrder'', [''watchdog'', ''trade-ctl'']),
      (''/execution.ExecutionEngine/CancelAll'', [''watchdog'', ''trade-ctl'']),
      (''/execution.ExecutionEngine/GetOrders'', [''*'']),
      (''/execution.ExecutionEngine/GetOrderSummary'', [''*''])]"

definition risk_callers :: AllowedCallers where
  "risk_callers =
     [(''/risk.RiskEngine/EvaluateOrder'', [''strategy-engine'']),
      (''/risk.RiskEngine/ReportFill'', [''execution-engine'']),
      (''/risk.RiskEngine/GetRiskState'', [''*'']),
      (''/risk.RiskEngine/UpdateLimit'', [''trade-ctl''])]"

definition watchdog_callers :: AllowedCallers where
  "watchdog_callers =
     [(''/watchdog.Watchdog/TriggerKillSwitch'', [''risk-engine'', ''trade-ctl'']),
      (''/watchdog.Watchdog/Heartbeat'', [''execution-engine'', ''risk-engine'', ''strategy-engine'']),
      (''/watchdog.Watchdog/GetSystemStatus'', [''*'']),
      (''/watchdog.Watchdog/AcknowledgeHalt'', [''trade-ctl'']),
      (''/watchdog.Watchdog/ResumeTrading'', [''trade-ctl''])]"


section \<open>Who is served\<close>

definition permitted :: "AllowedCallers \<Rightarrow> string \<Rightarrow> string \<Rightarrow> bool" where
  "permitted ac fullMethod caller =
     (case map_of ac fullMethod of None \<Rightarrow> True
      | Some allowed \<Rightarrow> ''*'' \<in> set allowed \<or> (caller \<noteq> [] \<and> caller \<in> set allowed))"

lemma interceptor_cases:
  "permitted ac fullMethod (callerFromContext ctx) \<Longrightarrow> UnaryCallerInterceptor ac ctx fullMethod handler s = run_handler handler s"
  "\<not> permitted ac fullMethod (callerFromContext ctx) \<Longrightarrow> \<exists>d. UnaryCallerInterceptor ac ctx fullMethod handler s = (Inl (PermissionDenied d), s)"
  by (auto simp: permitted_def UnaryCallerInterceptor_def Let_def split: option.splits)

lemma caller_of_identity:
  "callerFromContext (CallerIdentityInterceptor name None) = name"
  by (simp add: callerFromContext_def CallerIdentityInterceptor_def AppendToOutgoingContext_def Let_def)

text \<open>
  The caller check is exact. A call runs the handler when the method is open, or open to all, or the first value of
  the caller header is one of the listed services; otherwise it is refused as
  \<^verbatim>\<open>PermissionDenied\<close> and the server's state is unchanged. A client dialled with
  \<^verbatim>\<open>CallerIdentityInterceptor(name)\<close> is checked as \<open>name\<close>; but a header already in the outgoing
  context wins over it.
\<close>

theorem caller_check_exact:
  "UnaryCallerInterceptor ac ctx fullMethod handler s =
     (if permitted ac fullMethod (callerFromContext ctx) then run_handler handler s
      else (Inl (PermissionDenied
        (if callerFromContext ctx = [] then ''missing x-caller-service metadata''
         else ''caller '' @ callerFromContext ctx @ '' not allowed for '' @ fullMethod)), s))
   \<and> callerFromContext (CallerIdentityInterceptor name None) = name
   \<and> callerFromContext (CallerIdentityInterceptor name (Some [CallerHeader \<mapsto> [v]])) = v"
proof (intro conjI caller_of_identity)
  show "callerFromContext (CallerIdentityInterceptor name (Some [CallerHeader \<mapsto> [v]])) = v"
    by (simp add: callerFromContext_def CallerIdentityInterceptor_def AppendToOutgoingContext_def Let_def)
qed (simp add: permitted_def UnaryCallerInterceptor_def Let_def split: option.splits)

lemma table_rows:
  "permitted execution_callers ''/execution.ExecutionEngine/SubmitOrder'' c \<longleftrightarrow> c = ''strategy-engine''"
  "permitted execution_callers ''/execution.ExecutionEngine/CancelAll'' c \<longleftrightarrow> c = ''watchdog'' \<or> c = ''trade-ctl''"
  "permitted risk_callers ''/risk.RiskEngine/EvaluateOrder'' c \<longleftrightarrow> c = ''strategy-engine''"
  "permitted risk_callers ''/risk.RiskEngine/ReportFill'' c \<longleftrightarrow> c = ''execution-engine''"
  "permitted watchdog_callers ''/watchdog.Watchdog/TriggerKillSwitch'' c \<longleftrightarrow> c = ''risk-engine'' \<or> c = ''trade-ctl''"
  "permitted watchdog_callers ''/watchdog.Watchdog/Heartbeat'' c \<longleftrightarrow> c = ''execution-engine'' \<or> c = ''risk-engine'' \<or> c = ''strategy-engine''"
  "permitted watchdog_callers ''/watchdog.Watchdog/AcknowledgeHalt'' c \<longleftrightarrow> c = ''trade-ctl''"
  "permitted watchdog_callers ''/watchdog.Watchdog/ResumeTrading'' c \<longleftrightarrow> c = ''trade-ctl''"
  by (auto simp: permitted_def execution_callers_def risk_callers_def watchdog_callers_def)

text \<open>
  The periodic reconciliation runs inside the execution engine and triggers the kill switch through the
  watchdog's gRPC interface, as \<^verbatim>\<open>execution-engine\<close>: the watchdog refuses it.
\<close>

lemma recon_kill_refused:
  "\<exists>d. UnaryCallerInterceptor watchdog_callers (CallerIdentityInterceptor ''execution-engine'' None)
     ''/watchdog.Watchdog/TriggerKillSwitch'' handler s = (Inl (PermissionDenied d), s)"
  by (rule interceptor_cases(2)) (simp add: caller_of_identity table_rows)

end
