(* ===== verification/Ledger.thy ===== *)
theory Ledger
  imports Events "HOL-Library.Multiset"
begin

text \<open>
  The order intent ledger of \<^verbatim>\<open>internal/ledger\<close>: intents and their validation (\<^verbatim>\<open>intent.go\<close>), the
  exposure state derived from the outstanding ones (\<^verbatim>\<open>exposure.go\<close>), and the PostgreSQL-backed
  ledger (\<^verbatim>\<open>ledger.go\<close>) over the table \<^verbatim>\<open>execution.order_intents\<close> of migration 002, kept as the
  list of its rows with the constraints the migration declares. The abstract picture of the
  ledger is the integer sum of the outstanding notionals per market and side; the theorems
  show that the code's two ways of computing exposure agree with it and with each other, and
  that no sequence of operations leaves the approved envelope.
\<close>

section \<open>Intents\<close>

type_synonym IntentStatus = string
abbreviation IntentPending :: IntentStatus where "IntentPending \<equiv> ''pending''"
abbreviation IntentOpen :: IntentStatus where "IntentOpen \<equiv> ''open''"
abbreviation IntentFilled :: IntentStatus where "IntentFilled \<equiv> ''filled''"
abbreviation IntentCancelled :: IntentStatus where "IntentCancelled \<equiv> ''cancelled''"
abbreviation IntentRejected :: IntentStatus where "IntentRejected \<equiv> ''rejected''"
abbreviation IntentExpired :: IntentStatus where "IntentExpired \<equiv> ''expired''"

definition IntentStatus_IsTerminal :: "IntentStatus \<Rightarrow> bool" where
  "IntentStatus_IsTerminal s \<longleftrightarrow> s \<in> {IntentFilled, IntentCancelled, IntentRejected, IntentExpired}"

definition IsOutstanding :: "IntentStatus \<Rightarrow> bool" where
  "IsOutstanding s \<longleftrightarrow> s = IntentPending \<or> s = IntentOpen"

lemma outstanding_not_terminal: "IsOutstanding s \<Longrightarrow> \<not> IntentStatus_IsTerminal s"
  by (auto simp: IsOutstanding_def IntentStatus_IsTerminal_def)

record OrderIntent =
  i_IntentID :: uuid
  i_Version :: int64
  i_TraceID :: string
  i_ApprovalHMAC :: bytes
  i_StrategyID :: string
  i_Venue :: string
  i_MarketID :: string
  i_Side :: Side
  i_Quantity :: int32
  i_PriceMicros :: int64
  i_NotionalMicros :: int64
  i_Status :: IntentStatus
  i_CreatedAt :: time
  i_UpdatedAt :: time

datatype intent_error =
    IntentTraceIdRequired | ApprovalHmacRequired | IntentStrategyIdRequired | IntentMarketIdRequired
  | IntentInvalidSide Side | IntentQuantityNotPositive int32 | IntentPriceOutOfRange int64
  | IntentNotionalNotPositive int64

definition OrderIntent_Validate :: "OrderIntent \<Rightarrow> (intent_error, unit) result" where
  "OrderIntent_Validate i =
     (if i_TraceID i = [] then Inl IntentTraceIdRequired
      else if length (i_ApprovalHMAC i) = 0 then Inl ApprovalHmacRequired
      else if i_StrategyID i = [] then Inl IntentStrategyIdRequired
      else if i_MarketID i = [] then Inl IntentMarketIdRequired
      else if i_Side i \<noteq> SideBuy \<and> i_Side i \<noteq> SideSell then Inl (IntentInvalidSide (i_Side i))
      else if sint (i_Quantity i) \<le> 0 then Inl (IntentQuantityNotPositive (i_Quantity i))
      else if sint (i_PriceMicros i) \<le> 0 \<or> 1000000 \<le> sint (i_PriceMicros i)
        then Inl (IntentPriceOutOfRange (i_PriceMicros i))
      else if sint (i_NotionalMicros i) \<le> 0 then Inl (IntentNotionalNotPositive (i_NotionalMicros i))
      else Inr ())"

text \<open>The fields the code leaves unset have Go's zero values.\<close>

definition NewIntentFromApproval :: "ProposedOrder \<Rightarrow> bytes \<Rightarrow> OrderIntent" where
  "NewIntentFromApproval ord approvalHMAC =
     \<lparr>i_IntentID = ''00000000-0000-0000-0000-000000000000'', i_Version = 0,
      i_TraceID = o_TraceID ord, i_ApprovalHMAC = approvalHMAC, i_StrategyID = o_StrategyID ord,
      i_Venue = o_Venue ord, i_MarketID = o_MarketID ord, i_Side = o_Side ord,
      i_Quantity = o_Quantity ord, i_PriceMicros = o_PriceMicros ord,
      i_NotionalMicros = o_NotionalMicros ord, i_Status = IntentPending,
      i_CreatedAt = zero_time, i_UpdatedAt = zero_time\<rparr>"


section \<open>Exposure\<close>

record MarketSideKey =
  k_MarketID :: string
  k_Side :: Side

record ExposureEntry =
  x_Quantity :: int32
  x_NotionalMicros :: int64

record ExposureState =
  es_Outstanding :: "MarketSideKey \<rightharpoonup> ExposureEntry"
  es_TotalNotionalMicros :: int64

record ExposureLimits =
  el_MaxPositionNotionalMicros :: int64
  el_MaxTotalExposureMicros :: int64

definition zero_entry :: ExposureEntry where
  "zero_entry = \<lparr>x_Quantity = 0, x_NotionalMicros = 0\<rparr>"

definition NewExposureState :: ExposureState where
  "NewExposureState = \<lparr>es_Outstanding = Map.empty, es_TotalNotionalMicros = 0\<rparr>"

definition intent_key :: "OrderIntent \<Rightarrow> MarketSideKey" where
  "intent_key i = \<lparr>k_MarketID = i_MarketID i, k_Side = i_Side i\<rparr>"

definition MarketExposure :: "ExposureState \<Rightarrow> string \<Rightarrow> Side \<Rightarrow> ExposureEntry" where
  "MarketExposure e marketID side =
     map_get (es_Outstanding e) \<lparr>k_MarketID = marketID, k_Side = side\<rparr> zero_entry"

datatype exposure_error = MarketExposureExceeds int64 int64 | TotalExposureExceeds int64 int64

definition CheckInvariant ::
  "ExposureState \<Rightarrow> OrderIntent \<Rightarrow> ExposureLimits \<Rightarrow> (exposure_error, unit) result" where
  "CheckInvariant e i limits =
     (let current = map_get (es_Outstanding e) (intent_key i) zero_entry;
          newNotional = x_NotionalMicros current + i_NotionalMicros i;
          newTotal = es_TotalNotionalMicros e + i_NotionalMicros i in
      if 0 < sint (el_MaxPositionNotionalMicros limits)
         \<and> sint (el_MaxPositionNotionalMicros limits) < sint newNotional
      then Inl (MarketExposureExceeds newNotional (el_MaxPositionNotionalMicros limits))
      else if 0 < sint (el_MaxTotalExposureMicros limits)
         \<and> sint (el_MaxTotalExposureMicros limits) < sint newTotal
      then Inl (TotalExposureExceeds newTotal (el_MaxTotalExposureMicros limits))
      else Inr ())"

definition ApplyIntent :: "ExposureState \<Rightarrow> OrderIntent \<Rightarrow> ExposureState" where
  "ApplyIntent e i =
     (if \<not> IsOutstanding (i_Status i) then e
      else let entry = map_get (es_Outstanding e) (intent_key i) zero_entry;
               entry = \<lparr>x_Quantity = x_Quantity entry + i_Quantity i,
                        x_NotionalMicros = x_NotionalMicros entry + i_NotionalMicros i\<rparr>
           in \<lparr>es_Outstanding = (es_Outstanding e)(intent_key i \<mapsto> entry),
               es_TotalNotionalMicros = es_TotalNotionalMicros e + i_NotionalMicros i\<rparr>)"

definition RemoveIntent :: "ExposureState \<Rightarrow> OrderIntent \<Rightarrow> ExposureState" where
  "RemoveIntent e i =
     (case es_Outstanding e (intent_key i) of
        None \<Rightarrow> e
      | Some entry \<Rightarrow>
          let entry = \<lparr>x_Quantity = x_Quantity entry - i_Quantity i,
                       x_NotionalMicros = x_NotionalMicros entry - i_NotionalMicros i\<rparr>
          in \<lparr>es_Outstanding =
                (if sint (x_Quantity entry) \<le> 0 then (es_Outstanding e)(intent_key i := None)
                 else (es_Outstanding e)(intent_key i \<mapsto> entry)),
              es_TotalNotionalMicros = es_TotalNotionalMicros e - i_NotionalMicros i\<rparr>)"

definition ReplayFromIntents :: "OrderIntent list \<Rightarrow> ExposureState" where
  "ReplayFromIntents intents = foldl ApplyIntent NewExposureState intents"


section \<open>The ledger\<close>

text \<open>
  The table with its \<^verbatim>\<open>BIGSERIAL\<close> sequence. The constraints of the migration are checked on
  INSERT and UPDATE: unique \<^verbatim>\<open>intent_id\<close> and \<^verbatim>\<open>trace_id\<close>, a known side and status, positive
  quantity and notional, a price inside the open unit interval.
\<close>

record Ledger =
  ld_rows :: "OrderIntent list"
  ld_next :: int

definition NewLedger :: Ledger where
  "NewLedger = \<lparr>ld_rows = [], ld_next = 1\<rparr>"

datatype ledger_error =
    InvalidIntent intent_error | IdempotencyCheck | ComputeExposureFailed
  | ExposureInvariantViolated exposure_error | InsertIntent | QueryFailed
  | UpdateIntentStatus | NotFoundOrTerminal uuid

definition intent_statuses :: "IntentStatus list" where
  "intent_statuses = [IntentPending, IntentOpen, IntentFilled, IntentCancelled, IntentRejected, IntentExpired]"

definition row_constraints :: "OrderIntent \<Rightarrow> bool" where
  "row_constraints r \<longleftrightarrow> i_Side r \<in> {SideBuy, SideSell} \<and> 0 < sint (i_Quantity r)
     \<and> 0 < sint (i_PriceMicros r) \<and> sint (i_PriceMicros r) < 1000000
     \<and> 0 < sint (i_NotionalMicros r) \<and> i_Status r \<in> set intent_statuses"

definition unique_constraints :: "OrderIntent \<Rightarrow> OrderIntent list \<Rightarrow> bool" where
  "unique_constraints r rows \<longleftrightarrow>
     i_IntentID r \<notin> set (map i_IntentID rows) \<and> i_TraceID r \<notin> set (map i_TraceID rows)"

definition GetByTraceID ::
  "faults \<Rightarrow> string \<Rightarrow> Ledger \<Rightarrow> (ledger_error, OrderIntent option) result" where
  "GetByTraceID flt traceID l =
     (if flt (Db ''order_intents.by_trace'' traceID) then Inl QueryFailed
      else Inr (find (\<lambda>r. i_TraceID r = traceID) (ld_rows l)))"

definition GetByID ::
  "faults \<Rightarrow> uuid \<Rightarrow> Ledger \<Rightarrow> (ledger_error, OrderIntent option) result" where
  "GetByID flt intentID l =
     (if flt (Db ''order_intents.by_id'' intentID) then Inl QueryFailed
      else Inr (find (\<lambda>r. i_IntentID r = intentID) (ld_rows l)))"

definition ReplayAll :: "faults \<Rightarrow> Ledger \<Rightarrow> (ledger_error, OrderIntent list) result" where
  "ReplayAll flt l =
     (if flt (Db ''order_intents.replay'' []) then Inl QueryFailed
      else Inr (sort_key (\<lambda>r. sint (i_Version r)) (ld_rows l)))"

text \<open>
  \<^verbatim>\<open>GROUP BY market_id, side\<close> over the outstanding rows. The order of the groups is
  immaterial (each has its own key, and the total is a commutative sum); a sum that does not
  fit the \<^verbatim>\<open>int64\<close> it is scanned into is a scan error.
\<close>

definition outstanding :: "OrderIntent list \<Rightarrow> OrderIntent list" where
  "outstanding rows = filter (\<lambda>r. IsOutstanding (i_Status r)) rows"

definition on_key :: "MarketSideKey \<Rightarrow> OrderIntent list \<Rightarrow> OrderIntent list" where
  "on_key k rows = filter (\<lambda>r. intent_key r = k) (outstanding rows)"

definition fits_int64 :: "int \<Rightarrow> bool" where
  "fits_int64 n \<longleftrightarrow> - 9223372036854775808 \<le> n \<and> n < 9223372036854775808"

fun scan_groups ::
  "OrderIntent list \<Rightarrow> ExposureState \<Rightarrow> MarketSideKey list \<Rightarrow> (ledger_error, ExposureState) result" where
  "scan_groups rows st [] = Inr st"
| "scan_groups rows st (k # ks) =
     (let qty = (\<Sum>r\<leftarrow>on_key k rows. sint (i_Quantity r));
          notional = (\<Sum>r\<leftarrow>on_key k rows. sint (i_NotionalMicros r)) in
      if \<not> (fits_int64 qty \<and> fits_int64 notional) then Inl QueryFailed
      else scan_groups rows
        \<lparr>es_Outstanding = (es_Outstanding st)(k \<mapsto>
           \<lparr>x_Quantity = ucast (word_of_int qty :: int64), x_NotionalMicros = word_of_int notional\<rparr>),
         es_TotalNotionalMicros = es_TotalNotionalMicros st + word_of_int notional\<rparr> ks)"

definition ComputeExposure :: "faults \<Rightarrow> Ledger \<Rightarrow> (ledger_error, ExposureState) result" where
  "ComputeExposure flt l =
     (if flt (Db ''order_intents.exposure'' []) then Inl QueryFailed
      else scan_groups (ld_rows l) NewExposureState
             (remdups (map intent_key (outstanding (ld_rows l)))))"

text \<open>
  \<^verbatim>\<open>Append\<close> reads (validation, idempotency, exposure check) and then inserts, without a
  transaction around the two. The halves are separate definitions so that their interleaving
  can be stated; \<open>Append\<close> is their composition. \<open>Inr (Some e)\<close> of the first half is the
  existing record.
\<close>

definition append_check ::
  "faults \<Rightarrow> OrderIntent \<Rightarrow> ExposureLimits \<Rightarrow> Ledger \<Rightarrow> (ledger_error, OrderIntent option) result" where
  "append_check flt i limits l =
     (case OrderIntent_Validate i of Inl e \<Rightarrow> Inl (InvalidIntent e)
      | Inr _ \<Rightarrow>
        (case GetByTraceID flt (i_TraceID i) l of Inl _ \<Rightarrow> Inl IdempotencyCheck
         | Inr (Some existing) \<Rightarrow> Inr (Some existing)
         | Inr None \<Rightarrow>
           (case ComputeExposure flt l of Inl _ \<Rightarrow> Inl ComputeExposureFailed
            | Inr exposure \<Rightarrow>
              (case CheckInvariant exposure i limits of Inl e \<Rightarrow> Inl (ExposureInvariantViolated e)
               | Inr _ \<Rightarrow> Inr None))))"

definition append_insert ::
  "faults \<Rightarrow> uuid \<Rightarrow> time \<Rightarrow> OrderIntent \<Rightarrow> Ledger \<Rightarrow> (ledger_error, OrderIntent) result \<times> Ledger" where
  "append_insert flt newID now i l =
     (let row = i\<lparr>i_IntentID := newID, i_Version := word_of_int (ld_next l),
                  i_Status := IntentPending, i_CreatedAt := now, i_UpdatedAt := now\<rparr> in
      if flt (Db ''order_intents.insert'' (i_TraceID i)) \<or> 9223372036854775807 < ld_next l
      then (Inl InsertIntent, l)
      else if row_constraints row \<and> unique_constraints row (ld_rows l)
      then (Inr row, l\<lparr>ld_rows := ld_rows l @ [row], ld_next := ld_next l + 1\<rparr>)
      else (Inl InsertIntent, l\<lparr>ld_next := ld_next l + 1\<rparr>))"

definition Append ::
  "faults \<Rightarrow> uuid \<Rightarrow> time \<Rightarrow> OrderIntent \<Rightarrow> ExposureLimits \<Rightarrow> Ledger
     \<Rightarrow> (ledger_error, OrderIntent) result \<times> Ledger" where
  "Append flt newID now i limits l =
     (case append_check flt i limits l of
        Inl e \<Rightarrow> (Inl e, l)
      | Inr (Some existing) \<Rightarrow> (Inr existing, l)
      | Inr None \<Rightarrow> append_insert flt newID now i l)"

definition UpdateStatus ::
  "faults \<Rightarrow> time \<Rightarrow> uuid \<Rightarrow> IntentStatus \<Rightarrow> Ledger \<Rightarrow> (ledger_error, unit) result \<times> Ledger" where
  "UpdateStatus flt now intentID newStatus l =
     (let p = (\<lambda>r. i_IntentID r = intentID \<and> \<not> IntentStatus_IsTerminal (i_Status r)) in
      if flt (Db ''order_intents.update'' intentID) then (Inl UpdateIntentStatus, l)
      else if rows_affected p (ld_rows l) = 0 then (Inl (NotFoundOrTerminal intentID), l)
      else if newStatus \<notin> set intent_statuses then (Inl UpdateIntentStatus, l)
      else (Inr (), l\<lparr>ld_rows := sql_update p (\<lambda>r. r\<lparr>i_Status := newStatus, i_UpdatedAt := now\<rparr>)
                                 (ld_rows l)\<rparr>))"


section \<open>Exposure as integer sums\<close>

definition notional_on :: "MarketSideKey \<Rightarrow> OrderIntent list \<Rightarrow> int" where
  "notional_on k rows = (\<Sum>r\<leftarrow>on_key k rows. sint (i_NotionalMicros r))"

definition notional_total :: "OrderIntent list \<Rightarrow> int" where
  "notional_total rows = (\<Sum>r\<leftarrow>outstanding rows. sint (i_NotionalMicros r))"

lemma of_int_sum_sint: "word_of_int (\<Sum>r\<leftarrow>rs. sint (f r)) = (\<Sum>r\<leftarrow>rs. (f r :: 'a::len word))"
  by (induction rs) (simp_all add: wi_hom_add [symmetric])

lemma ucast_word_of_int: "ucast (word_of_int n :: int64) = (word_of_int n :: int32)"
  by (rule bit_word_eqI) (auto simp: bit_simps)

lemma outstanding_append [simp]: "outstanding (xs @ ys) = outstanding xs @ outstanding ys"
  by (simp add: outstanding_def)

lemma on_key_append [simp]: "on_key k (xs @ ys) = on_key k xs @ on_key k ys"
  by (simp add: on_key_def)

lemma on_key_single:
  "on_key k [r] = (if IsOutstanding (i_Status r) \<and> intent_key r = k then [r] else [])"
  by (simp add: on_key_def outstanding_def)

lemma on_key_Nil_iff: "on_key k rows = [] \<longleftrightarrow> k \<notin> set (map intent_key (outstanding rows))"
  by (auto simp: on_key_def filter_empty_conv)

text \<open>The exposure state of a list of intents, field by field, as both computations reach it.\<close>

definition exposure_entry :: "OrderIntent list \<Rightarrow> MarketSideKey \<Rightarrow> ExposureEntry option" where
  "exposure_entry rows k =
     (if on_key k rows = [] then None
      else Some \<lparr>x_Quantity = (\<Sum>r\<leftarrow>on_key k rows. i_Quantity r),
                 x_NotionalMicros = (\<Sum>r\<leftarrow>on_key k rows. i_NotionalMicros r)\<rparr>)"

definition exposure_of :: "OrderIntent list \<Rightarrow> ExposureState" where
  "exposure_of rows =
     \<lparr>es_Outstanding = exposure_entry rows,
      es_TotalNotionalMicros = (\<Sum>r\<leftarrow>outstanding rows. i_NotionalMicros r)\<rparr>"

lemma ApplyIntent_exposure_of: "ApplyIntent (exposure_of rows) i = exposure_of (rows @ [i])"
proof (cases "IsOutstanding (i_Status i)")
  case True
  have "(exposure_entry rows)(intent_key i \<mapsto>
          \<lparr>x_Quantity = x_Quantity (map_get (exposure_entry rows) (intent_key i) zero_entry) + i_Quantity i,
           x_NotionalMicros =
             x_NotionalMicros (map_get (exposure_entry rows) (intent_key i) zero_entry) + i_NotionalMicros i\<rparr>)
        = exposure_entry (rows @ [i])"
    using True by (auto simp: fun_eq_iff exposure_entry_def on_key_single map_get_def zero_entry_def)
  with True show ?thesis
    by (simp add: ApplyIntent_def exposure_of_def Let_def outstanding_def)
next
  case False
  then have "exposure_entry (rows @ [i]) = exposure_entry rows"
    by (simp add: fun_eq_iff exposure_entry_def on_key_single)
  with False show ?thesis by (simp add: ApplyIntent_def exposure_of_def outstanding_def)
qed

lemma exposure_of_Nil: "exposure_of [] = NewExposureState"
  by (simp add: exposure_of_def NewExposureState_def exposure_entry_def on_key_def outstanding_def fun_eq_iff)

lemma ReplayFromIntents_eq: "ReplayFromIntents rows = exposure_of rows"
proof (induction rows rule: rev_induct)
  case Nil
  then show ?case by (simp add: ReplayFromIntents_def exposure_of_Nil)
next
  case (snoc i rows)
  then show ?case by (simp add: ReplayFromIntents_def ApplyIntent_exposure_of)
qed

lemma scan_groups_spec:
  assumes "scan_groups rows st ks = Inr st'" and "distinct ks"
  shows "es_Outstanding st' = (\<lambda>k. if k \<in> set ks
           then Some \<lparr>x_Quantity = (\<Sum>r\<leftarrow>on_key k rows. i_Quantity r),
                      x_NotionalMicros = (\<Sum>r\<leftarrow>on_key k rows. i_NotionalMicros r)\<rparr>
           else es_Outstanding st k)"
    and "es_TotalNotionalMicros st' =
           es_TotalNotionalMicros st + (\<Sum>k\<leftarrow>ks. \<Sum>r\<leftarrow>on_key k rows. i_NotionalMicros r)"
    and "\<forall>k \<in> set ks. fits_int64 (notional_on k rows)"
  using assms
proof (induction ks arbitrary: st)
  case (Cons k ks)
  {
    case 1
    then show ?case
      by (auto simp: Let_def Cons.IH(1) ucast_word_of_int of_int_sum_sint fun_eq_iff split: if_splits)
  next
    case 2
    then show ?case
      by (auto simp: Let_def Cons.IH(2) of_int_sum_sint split: if_splits)
  next
    case 3
    then show ?case
      using Cons.IH(3) by (auto simp: Let_def notional_on_def split: if_splits)
  }
qed simp_all

lemma sum_over_keys:
  fixes f :: "OrderIntent \<Rightarrow> 'a::comm_monoid_add"
  shows "(\<Sum>k\<leftarrow>remdups (map intent_key (outstanding rows)). \<Sum>r\<leftarrow>on_key k rows. f r)
           = (\<Sum>r\<leftarrow>outstanding rows. f r)"
proof -
  have "(\<Sum>k\<in>set ks. \<Sum>r\<leftarrow>filter (\<lambda>r. intent_key r = k) rs. f r) = (\<Sum>r\<leftarrow>rs. f r)"
    if "set (map intent_key rs) \<subseteq> set ks" for ks rs
    using that
  proof (induction rs)
    case (Cons r rs)
    have "(\<Sum>k\<in>set ks. \<Sum>r\<leftarrow>filter (\<lambda>r. intent_key r = k) (r # rs). f r)
        = (\<Sum>k\<in>set ks. (if k = intent_key r then f r else 0)
             + (\<Sum>r\<leftarrow>filter (\<lambda>r. intent_key r = k) rs. f r))"
      by (intro sum.cong) auto
    also have "\<dots> = f r + (\<Sum>r\<leftarrow>rs. f r)"
      using Cons by (simp add: sum.distrib sum.delta)
    finally show ?case by simp
  qed simp
  from this [of "outstanding rows" "remdups (map intent_key (outstanding rows))"]
  show ?thesis by (simp add: on_key_def sum_list_distinct_conv_sum_set)
qed

lemma ComputeExposure_spec:
  assumes "ComputeExposure flt l = Inr st"
  shows "st = exposure_of (ld_rows l)" and "fits_int64 (notional_on k (ld_rows l))"
proof -
  let ?ks = "remdups (map intent_key (outstanding (ld_rows l)))"
  have sc: "scan_groups (ld_rows l) NewExposureState ?ks = Inr st"
    using assms by (simp add: ComputeExposure_def split: if_splits)
  note spec = scan_groups_spec [OF sc distinct_remdups]
  have "es_Outstanding st = exposure_entry (ld_rows l)"
    unfolding spec(1)
    by (rule ext) (simp add: exposure_entry_def on_key_Nil_iff NewExposureState_def)
  moreover have "es_TotalNotionalMicros st = (\<Sum>r\<leftarrow>outstanding (ld_rows l). i_NotionalMicros r)"
    unfolding spec(2) by (simp add: sum_over_keys NewExposureState_def del: set_remdups)
  ultimately show "st = exposure_of (ld_rows l)" by (simp add: exposure_of_def)
  show "fits_int64 (notional_on k (ld_rows l))"
  proof (cases "on_key k (ld_rows l) = []")
    case True
    then show ?thesis by (simp add: notional_on_def fits_int64_def)
  next
    case False
    then show ?thesis using spec(3) by (auto simp: on_key_Nil_iff)
  qed
qed


lemma exposure_of_perm:
  assumes "mset rows = mset rows'"
  shows "exposure_of rows = exposure_of rows'"
proof -
  have out: "mset (outstanding rows) = mset (outstanding rows')"
    using assms by (simp add: outstanding_def)
  then have on: "mset (on_key k rows) = mset (on_key k rows')" for k
    by (simp add: on_key_def)
  have sums: "(\<Sum>r\<leftarrow>xs. f r) = (\<Sum>r\<leftarrow>ys. f r)"
    if "mset xs = mset ys" for xs ys and f :: "OrderIntent \<Rightarrow> 'a::comm_monoid_add"
    using that by (metis mset_map sum_mset_sum_list)
  have "on_key k rows = [] \<longleftrightarrow> on_key k rows' = []" for k
    using on [of k] by (metis mset_zero_iff_right mset.simps(1) mset_zero_iff)
  then have "exposure_entry rows = exposure_entry rows'"
    by (simp add: fun_eq_iff exposure_entry_def sums [OF on])
  then show ?thesis by (simp add: exposure_of_def sums [OF out])
qed

text \<open>
  C27: Replay and the exposure query agree. Whenever \<^verbatim>\<open>ComputeExposure\<close> (the GROUP BY query, whose
  64-bit sums are truncated to 32 bits for the quantity) returns a state, replaying the whole
  ledger through \<^verbatim>\<open>ReplayFromIntents\<close> (32- and 64-bit additions that wrap around, one intent at
  a time, in version order) returns the same state: every entry, and the total.
\<close>

theorem replay_agrees_with_query:
  assumes "ComputeExposure flt l = Inr st" and "ReplayAll flt' l = Inr intents"
  shows "ReplayFromIntents intents = st"
proof -
  have "mset intents = mset (ld_rows l)"
    using assms(2) by (auto simp: ReplayAll_def split: if_splits)
  then have "exposure_of intents = exposure_of (ld_rows l)" by (rule exposure_of_perm)
  then show ?thesis using ComputeExposure_spec(1) [OF assms(1)] by (simp add: ReplayFromIntents_eq)
qed

definition sample_intent :: "string \<Rightarrow> int64 \<Rightarrow> OrderIntent" where
  "sample_intent trace notional =
     \<lparr>i_IntentID = trace, i_Version = 1, i_TraceID = trace, i_ApprovalHMAC = [1],
      i_StrategyID = ''s'', i_Venue = ''mock'', i_MarketID = ''m'', i_Side = SideBuy,
      i_Quantity = 10, i_PriceMicros = 400000, i_NotionalMicros = notional,
      i_Status = IntentPending, i_CreatedAt = 0, i_UpdatedAt = 0\<rparr>"

definition sample_ledger :: Ledger where
  "sample_ledger = \<lparr>ld_rows = [sample_intent ''t1'' 4000000, (sample_intent ''t2'' 4000000)\<lparr>i_Version := 2\<rparr>], ld_next = 3\<rparr>"

lemmas sample_ledger_simps = sample_ledger_def sample_intent_def outstanding_def on_key_def
  IsOutstanding_def intent_key_def fits_int64_def

theorem replay_agrees_with_query_witness:
  "ReplayFromIntents [sample_intent ''t1'' 4000000, (sample_intent ''t2'' 4000000)\<lparr>i_Version := 2\<rparr>]
     = \<lparr>es_Outstanding = [\<lparr>k_MarketID = ''m'', k_Side = SideBuy\<rparr> \<mapsto> \<lparr>x_Quantity = 20, x_NotionalMicros = 8000000\<rparr>],
        es_TotalNotionalMicros = 8000000\<rparr>"
  by (rule replay_agrees_with_query [of no_faults sample_ledger _ no_faults])
     (simp_all add: ComputeExposure_def ReplayAll_def NewExposureState_def sample_ledger_simps)

text \<open>
  Removing an intent undoes applying it. If the entry of its market and side is absent or has a
  positive quantity, \<^verbatim>\<open>RemoveIntent\<close> after \<^verbatim>\<open>ApplyIntent\<close> of an outstanding intent with positive
  quantity gives back the state exactly: quantities, notionals, the total, and which keys are
  present. This holds even when the addition wrapped around in between.
\<close>

theorem apply_remove_roundtrip:
  assumes "IsOutstanding (i_Status i)" and "0 < sint (i_Quantity i)"
    and "\<forall>entry. es_Outstanding e (intent_key i) = Some entry \<longrightarrow> 0 < sint (x_Quantity entry)"
  shows "RemoveIntent (ApplyIntent e i) i = e"
proof (cases "es_Outstanding e (intent_key i)")
  case None
  then have "(es_Outstanding e)(intent_key i := None) = es_Outstanding e" by (auto simp: fun_eq_iff)
  with None assms(1) show ?thesis
    by (simp add: RemoveIntent_def ApplyIntent_def map_get_def zero_entry_def Let_def)
next
  case (Some entry)
  then have "(es_Outstanding e)(intent_key i \<mapsto> entry) = es_Outstanding e" by (auto simp: fun_eq_iff)
  with Some assms(1,3) show ?thesis
    by (cases entry) (simp add: RemoveIntent_def ApplyIntent_def map_get_def Let_def)
qed

theorem apply_remove_roundtrip_witness:
  "RemoveIntent (ApplyIntent (exposure_of [sample_intent ''t1'' 4000000]) (sample_intent ''t2'' 1000))
     (sample_intent ''t2'' 1000) = exposure_of [sample_intent ''t1'' 4000000]"
  by (rule apply_remove_roundtrip)
     (simp_all add: sample_ledger_simps exposure_of_def exposure_entry_def)


section \<open>The exposure envelope\<close>

text \<open>
  The envelope in integers: a limit that is set (positive) bounds the outstanding notional of
  every market and side, and the total. The limits must leave room for one more order below
  \<open>2 ^ 63\<close>; an order is at most \<open>2 ^ 31\<close> contracts under one dollar.
\<close>

definition within_envelope :: "ExposureLimits \<Rightarrow> OrderIntent list \<Rightarrow> bool" where
  "within_envelope limits rows \<longleftrightarrow>
     (0 < sint (el_MaxPositionNotionalMicros limits) \<longrightarrow>
        (\<forall>k. notional_on k rows \<le> sint (el_MaxPositionNotionalMicros limits)))
     \<and> (0 < sint (el_MaxTotalExposureMicros limits) \<longrightarrow>
        notional_total rows \<le> sint (el_MaxTotalExposureMicros limits))"

definition limits_sane :: "ExposureLimits \<Rightarrow> bool" where
  "limits_sane limits \<longleftrightarrow>
     sint (el_MaxPositionNotionalMicros limits) < 9223372036854775808 - 2147483648000000
     \<and> sint (el_MaxTotalExposureMicros limits) < 9223372036854775808 - 2147483648000000"

definition rows_ok :: "OrderIntent list \<Rightarrow> bool" where
  "rows_ok rows \<longleftrightarrow> (\<forall>r \<in> set rows. row_constraints r)
     \<and> distinct (map i_IntentID rows) \<and> distinct (map i_TraceID rows)"

definition versions_ok :: "Ledger \<Rightarrow> bool" where
  "versions_ok l \<longleftrightarrow> sorted_wrt (<) (map (\<lambda>r. sint (i_Version r)) (ld_rows l))
     \<and> (\<forall>r \<in> set (ld_rows l). sint (i_Version r) < ld_next l) \<and> 1 \<le> ld_next l"

definition ledger_inv :: "ExposureLimits \<Rightarrow> Ledger \<Rightarrow> bool" where
  "ledger_inv limits l \<longleftrightarrow> rows_ok (ld_rows l) \<and> versions_ok l \<and> within_envelope limits (ld_rows l)"

lemma notional_nonneg:
  assumes "rows_ok rows"
  shows "0 \<le> notional_on k rows" and "0 \<le> notional_total rows"
proof -
  have "0 \<le> sint (i_NotionalMicros r)" if "r \<in> set rows" for r
    using assms that by (auto simp: rows_ok_def row_constraints_def)
  then show "0 \<le> notional_on k rows" and "0 \<le> notional_total rows"
    unfolding notional_on_def notional_total_def
    by (auto intro!: sum_list_nonneg simp: on_key_def outstanding_def)
qed

lemma sint_exact_sum:
  assumes "0 \<le> s" and "s \<le> bnd" and "bnd < 9223372036854775808 - 2147483648000000"
    and "0 < sint n" and "sint n < 2147483648000000"
  shows "sint (word_of_int s + n :: int64) = s + sint n"
  using assms by (simp add: sint64_add sint_word_of_int_exact)

lemma CheckInvariant_sound:
  assumes env: "within_envelope limits rows" and ok: "rows_ok rows" and lim: "limits_sane limits"
    and n: "0 < sint (i_NotionalMicros i)" "sint (i_NotionalMicros i) < 2147483648000000"
    and check: "CheckInvariant (exposure_of rows) i limits = Inr ()"
    and row: "intent_key row = intent_key i" "i_NotionalMicros row = i_NotionalMicros i"
  shows "within_envelope limits (rows @ [row])"
proof -
  let ?k = "intent_key i" and ?n = "i_NotionalMicros i"
  let ?pos = "sint (el_MaxPositionNotionalMicros limits)"
  let ?tot = "sint (el_MaxTotalExposureMicros limits)"
  have cur: "x_NotionalMicros (map_get (exposure_entry rows) ?k zero_entry) = word_of_int (notional_on ?k rows)"
    by (simp add: map_get_def exposure_entry_def zero_entry_def notional_on_def of_int_sum_sint)
  have tot: "(\<Sum>r\<leftarrow>outstanding rows. i_NotionalMicros r) = word_of_int (notional_total rows)"
    by (simp add: notional_total_def of_int_sum_sint)
  from check have c:
    "0 < ?pos \<Longrightarrow> sint (word_of_int (notional_on ?k rows) + ?n) \<le> ?pos"
    "0 < ?tot \<Longrightarrow> sint (word_of_int (notional_total rows) + ?n) \<le> ?tot"
    by (auto simp: CheckInvariant_def exposure_of_def cur tot Let_def split: if_splits)
  have "notional_on k (rows @ [row]) \<le> ?pos" if "0 < ?pos" for k
  proof -
    have le: "notional_on j rows \<le> ?pos" for j using env that by (simp add: within_envelope_def)
    have "sint (word_of_int (notional_on ?k rows) + ?n) = notional_on ?k rows + sint ?n"
      using lim notional_nonneg [OF ok] n le
      by (intro sint_exact_sum [where bnd = ?pos]) (auto simp: limits_sane_def)
    with c(1) that have new: "notional_on ?k rows + sint ?n \<le> ?pos" by simp
    have "notional_on k (rows @ [row]) = notional_on k rows + (if on_key k [row] = [] then 0 else sint ?n)"
      using row by (simp add: notional_on_def on_key_single)
    then show ?thesis using le [of k] new row by (auto simp: on_key_single split: if_splits)
  qed
  moreover have "notional_total (rows @ [row]) \<le> ?tot" if "0 < ?tot"
  proof -
    have le: "notional_total rows \<le> ?tot" using env that by (simp add: within_envelope_def)
    have "sint (word_of_int (notional_total rows) + ?n) = notional_total rows + sint ?n"
      using lim notional_nonneg [OF ok] n le
      by (intro sint_exact_sum [where bnd = ?tot]) (auto simp: limits_sane_def)
    with c(2) that have "notional_total rows + sint ?n \<le> ?tot" by simp
    then show ?thesis using le row(2) by (simp add: notional_total_def outstanding_def)
  qed
  ultimately show ?thesis by (simp add: within_envelope_def)
qed

lemma append_insert_cases:
  obtains (same) "snd (append_insert flt newID now i l) = l" "\<exists>e. fst (append_insert flt newID now i l) = Inl e"
  | (consumed) "snd (append_insert flt newID now i l) = l\<lparr>ld_next := ld_next l + 1\<rparr>"
      "\<exists>e. fst (append_insert flt newID now i l) = Inl e"
  | (inserted) row where
      "row = i\<lparr>i_IntentID := newID, i_Version := word_of_int (ld_next l),
               i_Status := IntentPending, i_CreatedAt := now, i_UpdatedAt := now\<rparr>"
      "ld_next l \<le> 9223372036854775807" "row_constraints row" "unique_constraints row (ld_rows l)"
      "append_insert flt newID now i l = (Inr row, l\<lparr>ld_rows := ld_rows l @ [row], ld_next := ld_next l + 1\<rparr>)"
  unfolding append_insert_def Let_def by (fastforce split: if_splits)

lemma append_check_None:
  assumes "append_check flt i limits l = Inr None"
  shows "OrderIntent_Validate i = Inr ()"
    and "CheckInvariant (exposure_of (ld_rows l)) i limits = Inr ()"
    and "find (\<lambda>r. i_TraceID r = i_TraceID i) (ld_rows l) = None"
  using assms ComputeExposure_spec(1) [of flt l]
  by (auto simp: append_check_def GetByTraceID_def split: sum.splits option.splits if_splits)


lemma versions_ok_insert:
  assumes "versions_ok l" and "ld_next l \<le> 9223372036854775807" and "i_Version row = word_of_int (ld_next l)"
  shows "versions_ok (l\<lparr>ld_rows := ld_rows l @ [row], ld_next := ld_next l + 1\<rparr>)"
proof -
  have "sint (i_Version row) = ld_next l"
    using assms by (simp add: versions_ok_def sint_word_of_int_exact)
  then show ?thesis using assms(1) by (auto simp: versions_ok_def sorted_wrt_append)
qed

lemma rows_ok_insert:
  "rows_ok rows \<Longrightarrow> row_constraints row \<Longrightarrow> unique_constraints row rows \<Longrightarrow> rows_ok (rows @ [row])"
  by (auto simp: rows_ok_def unique_constraints_def)

lemma Append_keeps_inv:
  assumes inv: "ledger_inv limits l" and lim: "limits_sane limits"
    and n: "sint (i_NotionalMicros i) = sint (i_Quantity i) * sint (i_PriceMicros i)"
  shows "ledger_inv limits (snd (Append flt newID now i limits l))"
proof (cases "append_check flt i limits l = Inr None")
  case False
  then show ?thesis using inv by (auto simp: Append_def split: sum.splits option.splits)
next
  case True
  note chk = append_check_None [OF True]
  have small: "0 < sint (i_NotionalMicros i)" "sint (i_NotionalMicros i) < 2147483648000000"
    using chk(1) n notional_exact [of "i_Quantity i" "i_PriceMicros i"]
    by (auto simp: OrderIntent_Validate_def split: if_splits)
  have eq: "Append flt newID now i limits l = append_insert flt newID now i l"
    using True by (simp add: Append_def)
  show ?thesis
  proof (cases rule: append_insert_cases [of flt newID now i l])
    case same
    then show ?thesis using inv eq by simp
  next
    case consumed
    then show ?thesis using inv eq by (auto simp: ledger_inv_def versions_ok_def)
  next
    case (inserted row)
    have "within_envelope limits (ld_rows l @ [row])"
      by (rule CheckInvariant_sound [OF _ _ lim small chk(2)])
         (use inv inserted(1) in \<open>simp_all add: ledger_inv_def intent_key_def\<close>)
    moreover have "versions_ok (l\<lparr>ld_rows := ld_rows l @ [row], ld_next := ld_next l + 1\<rparr>)"
      using inv inserted(1,2) by (intro versions_ok_insert) (simp_all add: ledger_inv_def)
    ultimately show ?thesis
      using inv inserted eq by (simp add: ledger_inv_def rows_ok_insert)
  qed
qed

lemma notional_sql_update_le:
  assumes "\<forall>r \<in> set rows. 0 \<le> sint (i_NotionalMicros r) \<and> (p r \<longrightarrow> IsOutstanding (i_Status r))"
    and "\<And>r. intent_key (f r) = intent_key r \<and> i_NotionalMicros (f r) = i_NotionalMicros r"
  shows "notional_on k (sql_update p f rows) \<le> notional_on k rows"
    and "notional_total (sql_update p f rows) \<le> notional_total rows"
proof -
  show "notional_on k (sql_update p f rows) \<le> notional_on k rows"
    using assms(1) assms(2)
    by (induction rows) (auto simp: notional_on_def on_key_def outstanding_def)
  show "notional_total (sql_update p f rows) \<le> notional_total rows"
    using assms(1) assms(2)
    by (induction rows) (auto simp: notional_total_def outstanding_def)
qed

lemma UpdateStatus_keeps_inv:
  assumes "ledger_inv limits l"
  shows "ledger_inv limits (snd (UpdateStatus flt now intentID newStatus l))"
proof (cases "fst (UpdateStatus flt now intentID newStatus l)")
  case (Inl e)
  then show ?thesis using assms by (auto simp: UpdateStatus_def Let_def split: if_splits)
next
  case (Inr u)
  define p where "p = (\<lambda>r :: OrderIntent. i_IntentID r = intentID \<and> \<not> IntentStatus_IsTerminal (i_Status r))"
  define f where "f = (\<lambda>r :: OrderIntent. r\<lparr>i_Status := newStatus, i_UpdatedAt := now\<rparr>)"
  have eq: "snd (UpdateStatus flt now intentID newStatus l) = l\<lparr>ld_rows := sql_update p f (ld_rows l)\<rparr>"
    and st: "newStatus \<in> set intent_statuses"
    using Inr by (auto simp: UpdateStatus_def Let_def p_def f_def split: if_splits)
  have ok: "rows_ok (ld_rows l)" using assms by (simp add: ledger_inv_def)
  have cols: "map i_IntentID (sql_update p f (ld_rows l)) = map i_IntentID (ld_rows l)"
    "map i_TraceID (sql_update p f (ld_rows l)) = map i_TraceID (ld_rows l)"
    "map (\<lambda>r. sint (i_Version r)) (sql_update p f (ld_rows l)) = map (\<lambda>r. sint (i_Version r)) (ld_rows l)"
    by (simp_all add: sql_update_column f_def)
  have "row_constraints (f r)" if "row_constraints r" for r
    using that st by (simp add: row_constraints_def f_def)
  then have "rows_ok (sql_update p f (ld_rows l))"
    using ok unfolding rows_ok_def cols by (auto simp: in_sql_update)
  moreover have "versions_ok (l\<lparr>ld_rows := sql_update p f (ld_rows l)\<rparr>)"
  proof -
    have "i_Version (f r) = i_Version r" for r by (simp add: f_def)
    then show ?thesis
      using assms unfolding ledger_inv_def versions_ok_def by (auto simp: cols in_sql_update)
  qed
  moreover have "within_envelope limits (sql_update p f (ld_rows l))"
  proof -
    have "\<forall>r \<in> set (ld_rows l). 0 \<le> sint (i_NotionalMicros r) \<and> (p r \<longrightarrow> IsOutstanding (i_Status r))"
      using ok by (auto simp: rows_ok_def row_constraints_def p_def intent_statuses_def
          IntentStatus_IsTerminal_def IsOutstanding_def)
    from notional_sql_update_le [OF this, of f]
    have "notional_on k (sql_update p f (ld_rows l)) \<le> notional_on k (ld_rows l)"
      "notional_total (sql_update p f (ld_rows l)) \<le> notional_total (ld_rows l)" for k
      by (simp_all add: f_def intent_key_def)
    then show ?thesis
      using assms by (auto simp: ledger_inv_def within_envelope_def intro: order_trans)
  qed
  ultimately show ?thesis by (simp add: eq ledger_inv_def)
qed


section \<open>The ledger as a transition system\<close>

text \<open>
  A step is one whole operation, with any outcome of its database calls. The intents appended
  are those of validated orders: the notional is quantity times price.
\<close>

inductive ledger_step :: "ExposureLimits \<Rightarrow> Ledger \<Rightarrow> Ledger \<Rightarrow> bool" for limits where
  step_append: "sint (i_NotionalMicros i) = sint (i_Quantity i) * sint (i_PriceMicros i) \<Longrightarrow>
     ledger_step limits l (snd (Append flt newID now i limits l))"
| step_update: "ledger_step limits l (snd (UpdateStatus flt now intentID newStatus l))"

inductive_cases ledger_stepE: "ledger_step limits l l'"

lemma ledger_step_keeps_inv:
  assumes "limits_sane limits" and "ledger_step limits l l'" and "ledger_inv limits l"
  shows "ledger_inv limits l'"
  using assms(2)
proof cases
  case (step_append i flt newID now)
  then show ?thesis using Append_keeps_inv assms(1,3) by simp
next
  case (step_update flt now intentID newStatus)
  then show ?thesis using UpdateStatus_keeps_inv assms(3) by simp
qed

interpretation envelope: step_invariant
  "\<lambda>l l'. limits_sane limits \<and> ledger_step limits l l'" "ledger_inv limits" for limits
  by unfold_locales (auto intro: ledger_step_keeps_inv)

lemma ledger_inv_new: "ledger_inv limits NewLedger"
  by (simp add: ledger_inv_def NewLedger_def rows_ok_def versions_ok_def within_envelope_def
      notional_on_def notional_total_def on_key_def outstanding_def)

lemma reachable_with_limits:
  "limits_sane limits \<Longrightarrow> (ledger_step limits)\<^sup>*\<^sup>* l l' \<Longrightarrow>
     (\<lambda>l l'. limits_sane limits \<and> ledger_step limits l l')\<^sup>*\<^sup>* l l'"
  by (simp add: rtranclp_mono [THEN predicate2D])

text \<open>
  C6: The ledger never leaves the approved exposure envelope. From the empty table, any sequence
  of \<^verbatim>\<open>Append\<close> and \<^verbatim>\<open>UpdateStatus\<close> calls run one after the other, with any database failures,
  where every appended intent's notional is its quantity times its price (which \<^verbatim>\<open>Append\<close> does not
  check itself, see \<open>unchecked_notional_wraps\<close>; its callers build intents from validated orders)
  and the limits are far enough from \<open>2\<^sup>6\<^sup>3\<close> (\<open>limits_sane\<close>), leads to a table in which the outstanding notional of every market and side and the total are
  within the limits that are set, computed in integers: no wrap-around hides an excess. Moreover
  every intent and trace id occurs once and versions grow strictly in insertion order.
\<close>

theorem ledger_envelope_invariant:
  assumes "limits_sane limits" and "(ledger_step limits)\<^sup>*\<^sup>* NewLedger l"
  shows "within_envelope limits (ld_rows l)
    \<and> distinct (map i_IntentID (ld_rows l)) \<and> distinct (map i_TraceID (ld_rows l))
    \<and> sorted_wrt (<) (map (\<lambda>r. sint (i_Version r)) (ld_rows l))"
proof -
  have "ledger_inv limits l"
    using reachable_with_limits [OF assms] ledger_inv_new by (rule envelope.reachable_inv)
  then show ?thesis by (simp add: ledger_inv_def rows_ok_def versions_ok_def)
qed

definition sample_limits :: ExposureLimits where
  "sample_limits = \<lparr>el_MaxPositionNotionalMicros = 5000000, el_MaxTotalExposureMicros = 20000000\<rparr>"

lemma sample_append:
  "Append no_faults ''id1'' 7 (sample_intent ''t1'' 4000000) sample_limits NewLedger =
     (Inr ((sample_intent ''t1'' 4000000)\<lparr>i_IntentID := ''id1'', i_CreatedAt := 7, i_UpdatedAt := 7\<rparr>),
      \<lparr>ld_rows = [(sample_intent ''t1'' 4000000)\<lparr>i_IntentID := ''id1'', i_CreatedAt := 7, i_UpdatedAt := 7\<rparr>],
       ld_next = 2\<rparr>)"
  by (simp add: Append_def append_check_def OrderIntent_Validate_def GetByTraceID_def
      ComputeExposure_def CheckInvariant_def append_insert_def row_constraints_def
      unique_constraints_def NewLedger_def NewExposureState_def sample_limits_def intent_statuses_def
      map_get_def zero_entry_def Let_def sample_ledger_simps)

theorem ledger_envelope_invariant_witness:
  "within_envelope sample_limits
     [(sample_intent ''t1'' 4000000)\<lparr>i_IntentID := ''id1'', i_CreatedAt := 7, i_UpdatedAt := 7\<rparr>]"
proof -
  have "ledger_step sample_limits NewLedger
          (snd (Append no_faults ''id1'' 7 (sample_intent ''t1'' 4000000) sample_limits NewLedger))"
    by (rule step_append) (simp add: sample_intent_def)
  then have "(ledger_step sample_limits)\<^sup>*\<^sup>* NewLedger
     \<lparr>ld_rows = [(sample_intent ''t1'' 4000000)\<lparr>i_IntentID := ''id1'', i_CreatedAt := 7, i_UpdatedAt := 7\<rparr>],
      ld_next = 2\<rparr>"
    unfolding sample_append snd_conv by (rule r_into_rtranclp)
  from ledger_envelope_invariant [OF _ this] show ?thesis
    by (simp add: limits_sane_def sample_limits_def)
qed

lemma find_snoc: "find p xs = None \<Longrightarrow> find p (xs @ [x]) = (if p x then Some x else None)"
  by (induction xs) (auto split: if_splits)

text \<open>
  \<^verbatim>\<open>Append\<close> is idempotent on the trace id. Once an \<^verbatim>\<open>Append\<close> has returned a record, every later
  \<^verbatim>\<open>Append\<close> of a valid intent with that trace id, whatever else it carries, under whatever
  limits and at whatever time, either fails on its idempotency query or returns that same
  record; in both cases the table is unchanged.
\<close>

theorem append_idempotent:
  assumes "Append flt newID now i limits l = (Inr rec, l')"
    and "OrderIntent_Validate j = Inr ()" and "i_TraceID j = i_TraceID i"
  shows "Append flt' newID' now' j limits' l' \<in> {(Inl IdempotencyCheck, l'), (Inr rec, l')}"
proof -
  have "find (\<lambda>r. i_TraceID r = i_TraceID i) (ld_rows l') = Some rec"
  proof (cases "append_check flt i limits l = Inr None")
    case True
    then have "append_insert flt newID now i l = (Inr rec, l')"
      using assms(1) by (simp add: Append_def)
    then have "ld_rows l' = ld_rows l @ [rec] \<and> i_TraceID rec = i_TraceID i"
      by (auto simp: append_insert_def Let_def split: if_splits)
    then show ?thesis
      using append_check_None(3) [OF True] by (simp add: find_snoc)
  next
    case False
    then have "append_check flt i limits l = Inr (Some rec)" and "l' = l"
      using assms(1) by (auto simp: Append_def split: sum.splits option.splits)
    then show ?thesis
      by (auto simp: append_check_def GetByTraceID_def split: sum.splits option.splits if_splits)
  qed
  then show ?thesis using assms(2,3) by (auto simp: Append_def append_check_def GetByTraceID_def)
qed


theorem append_idempotent_witness:
  "Append no_faults ''id2'' 9 (sample_intent ''t1'' 1) sample_limits
     \<lparr>ld_rows = [(sample_intent ''t1'' 4000000)\<lparr>i_IntentID := ''id1'', i_CreatedAt := 7, i_UpdatedAt := 7\<rparr>],
      ld_next = 2\<rparr> \<in>
   {(Inl IdempotencyCheck,
     \<lparr>ld_rows = [(sample_intent ''t1'' 4000000)\<lparr>i_IntentID := ''id1'', i_CreatedAt := 7, i_UpdatedAt := 7\<rparr>],
      ld_next = 2\<rparr>),
    (Inr ((sample_intent ''t1'' 4000000)\<lparr>i_IntentID := ''id1'', i_CreatedAt := 7, i_UpdatedAt := 7\<rparr>),
     \<lparr>ld_rows = [(sample_intent ''t1'' 4000000)\<lparr>i_IntentID := ''id1'', i_CreatedAt := 7, i_UpdatedAt := 7\<rparr>],
      ld_next = 2\<rparr>)}"
  by (rule append_idempotent [OF sample_append])
     (simp_all add: OrderIntent_Validate_def sample_intent_def)

text \<open>A terminal intent is never changed again: neither by an update nor by an append.\<close>

lemma terminal_row_kept:
  assumes "ledger_step limits l l'" and "r \<in> set (ld_rows l)" and "IntentStatus_IsTerminal (i_Status r)"
  shows "r \<in> set (ld_rows l')"
  using assms(1)
proof cases
  case (step_append i flt newID now)
  have "r \<in> set (ld_rows (snd (append_insert flt newID now i l)))"
    using assms(2) by (auto simp: append_insert_def Let_def)
  then show ?thesis
    using assms(2) step_append by (auto simp: Append_def split: sum.splits option.splits)
next
  case (step_update flt now intentID newStatus)
  then show ?thesis
    using assms(2,3) by (auto simp: UpdateStatus_def Let_def in_sql_update)
qed

interpretation settled: step_invariant
  "ledger_step limits" "\<lambda>l. r \<in> set (ld_rows l) \<and> IntentStatus_IsTerminal (i_Status r)" for limits r
  by unfold_locales (auto intro: terminal_row_kept)

text \<open>
  C28: A settled intent is final. Once a row is in a terminal status, the row (every column of it)
  is still in the table after any sequence of ledger operations, and \<^verbatim>\<open>UpdateStatus\<close> on its id
  fails without touching the table.
\<close>

theorem settled_intent_final:
  assumes "(ledger_step limits)\<^sup>*\<^sup>* NewLedger l" and "limits_sane limits"
    and "r \<in> set (ld_rows l)" and "IntentStatus_IsTerminal (i_Status r)"
    and "(ledger_step limits)\<^sup>*\<^sup>* l l'"
  shows "r \<in> set (ld_rows l')
    \<and> snd (UpdateStatus flt now (i_IntentID r) newStatus l') = l'
    \<and> fst (UpdateStatus flt now (i_IntentID r) newStatus l') \<noteq> Inr ()"
proof -
  have r: "r \<in> set (ld_rows l')" using assms(3-5) settled.reachable_inv [OF assms(5)] by blast
  have "ledger_inv limits l'"
    using reachable_with_limits [OF assms(2) rtranclp_trans [OF assms(1,5)]] ledger_inv_new
    by (rule envelope.reachable_inv)
  then have "distinct (map i_IntentID (ld_rows l'))" by (simp add: ledger_inv_def rows_ok_def)
  then have "\<forall>r' \<in> set (ld_rows l'). i_IntentID r' = i_IntentID r \<longrightarrow> r' = r"
    using r by (auto simp: distinct_map inj_on_def)
  then have "rows_affected (\<lambda>r'. i_IntentID r' = i_IntentID r \<and> \<not> IntentStatus_IsTerminal (i_Status r'))
               (ld_rows l') = 0"
    using assms(4) by auto
  then show ?thesis using r by (simp add: UpdateStatus_def Let_def del: rows_affected_eq_0)
qed

definition settled_ledger :: Ledger where
  "settled_ledger = snd (UpdateStatus no_faults 8 ''id1'' IntentFilled
     (snd (Append no_faults ''id1'' 7 (sample_intent ''t1'' 4000000) sample_limits NewLedger)))"

lemma settled_ledger_eq:
  "settled_ledger = \<lparr>ld_rows = [(sample_intent ''t1'' 4000000)\<lparr>i_IntentID := ''id1'', i_CreatedAt := 7,
     i_UpdatedAt := 8, i_Status := IntentFilled\<rparr>], ld_next = 2\<rparr>"
  unfolding settled_ledger_def sample_append snd_conv
  by (simp add: UpdateStatus_def Let_def sample_intent_def IntentStatus_IsTerminal_def
      intent_statuses_def)

lemma settled_ledger_reachable: "(ledger_step sample_limits)\<^sup>*\<^sup>* NewLedger settled_ledger"
proof -
  have "(ledger_step sample_limits)\<^sup>*\<^sup>* NewLedger
          (snd (Append no_faults ''id1'' 7 (sample_intent ''t1'' 4000000) sample_limits NewLedger))"
    by (intro r_into_rtranclp step_append) (simp add: sample_intent_def)
  then show ?thesis
    unfolding settled_ledger_def by (rule rtranclp.rtrancl_into_rtrancl) (rule step_update)
qed

theorem settled_intent_final_witness:
  "snd (UpdateStatus no_faults 9 ''id1'' IntentPending settled_ledger) = settled_ledger"
  using settled_intent_final [OF settled_ledger_reachable _ _ _ rtranclp.rtrancl_refl,
      of "hd (ld_rows settled_ledger)" no_faults 9 IntentPending]
  by (simp add: settled_ledger_eq sample_intent_def limits_sane_def sample_limits_def
      IntentStatus_IsTerminal_def)

section \<open>Where the contract ends\<close>

text \<open>
  The check and the insert of \<^verbatim>\<open>Append\<close> are separate statements. Two concurrent calls that both
  read before either writes each pass the check, and together they leave the envelope.
\<close>

lemma concurrent_appends_break_envelope:
  fixes i j limits
  defines "i \<equiv> sample_intent ''t1'' 4000000" and "j \<equiv> sample_intent ''t2'' 4000000"
  shows "append_check no_faults i sample_limits NewLedger = Inr None
    \<and> append_check no_faults j sample_limits NewLedger = Inr None
    \<and> \<not> within_envelope sample_limits (ld_rows (snd (append_insert no_faults ''b'' 8 j
          (snd (append_insert no_faults ''a'' 7 i NewLedger)))))"
proof (intro conjI)
  let ?l = "snd (append_insert no_faults ''b'' 8 j (snd (append_insert no_faults ''a'' 7 i NewLedger)))"
  have "notional_on \<lparr>k_MarketID = ''m'', k_Side = SideBuy\<rparr> (ld_rows ?l) = 8000000"
    by (simp add: i_def j_def append_insert_def row_constraints_def unique_constraints_def NewLedger_def
        intent_statuses_def Let_def notional_on_def sample_ledger_simps)
  then show "\<not> within_envelope sample_limits (ld_rows ?l)"
    by (auto simp: within_envelope_def sample_limits_def
        intro!: exI [of _ "\<lparr>k_MarketID = ''m'', k_Side = SideBuy\<rparr>"])
qed (simp_all add: i_def j_def append_check_def OrderIntent_Validate_def GetByTraceID_def
      ComputeExposure_def CheckInvariant_def NewLedger_def NewExposureState_def sample_limits_def
      map_get_def zero_entry_def Let_def sample_ledger_simps)

text \<open>
  \<^verbatim>\<open>Validate\<close> does not tie the notional to quantity and price, so an intent built by hand can
  carry a notional whose 64-bit addition wraps around and passes the check.
\<close>

lemma unchecked_notional_wraps:
  "OrderIntent_Validate (sample_intent ''t'' 9223372036854775807) = Inr ()
   \<and> CheckInvariant (exposure_of [sample_intent ''t1'' 4000000])
       (sample_intent ''t'' 9223372036854775807) sample_limits = Inr ()"
  by (simp add: OrderIntent_Validate_def CheckInvariant_def exposure_of_def exposure_entry_def
      sample_limits_def Let_def map_get_def sample_ledger_simps)

text \<open>
  The comment on \<^verbatim>\<open>UpdateStatus\<close> allows only pending to open among the outstanding statuses; the
  statement also takes an open intent back to pending.
\<close>

lemma open_back_to_pending:
  "map i_Status (ld_rows (snd (UpdateStatus no_faults 9 ''t1'' IntentPending
     \<lparr>ld_rows = [(sample_intent ''t1'' 4000000)\<lparr>i_Status := IntentOpen\<rparr>], ld_next = 2\<rparr>))) = [IntentPending]"
  by (simp add: UpdateStatus_def Let_def sample_intent_def IntentStatus_IsTerminal_def intent_statuses_def)

end
