(* ===== verification/Mock_Exchange.thy ===== *)
theory Mock_Exchange
  imports Models "HOL-Library.Multiset"
begin

text \<open>
  The simulated exchange of \<^verbatim>\<open>services/mockexchange/server.go\<close>. The random number generator is
  the stream of its draws and how many were taken; a goroutine started by
  \<^verbatim>\<open>go s.simulateFillProcess(id)\<close> is an entry of \<open>mx_pending\<close> that some later step runs. Every
  operation holds the server's mutex, so steps interleave whole. The theorems show what the exchange
  conserves under every interleaving and every draw.
\<close>

section \<open>State\<close>

record MockConfig =
  mc_FillDelayMs :: int
  mc_FillProbability :: float64
  mc_PartialFillProb :: float64
  mc_RejectionRate :: float64
  mc_InitialBalanceMicros :: int64
  mc_SimulateStaleData :: bool

definition DefaultConfig :: MockConfig where
  "DefaultConfig = \<lparr>mc_FillDelayMs = 100, mc_FillProbability = f_lit (1 / 2), mc_PartialFillProb = f_lit (1 / 5),
     mc_RejectionRate = f_lit 0, mc_InitialBalanceMicros = 100000000000, mc_SimulateStaleData = False\<rparr>"

record MockOrder =
  mo_ExchangeID :: string
  mo_ClientID :: string
  mo_MarketID :: string
  mo_Side :: string
  mo_Quantity :: int32
  mo_PriceMicros :: int64
  mo_FilledQty :: int32
  mo_Status :: string
  mo_CreatedAt :: time

record MockFill =
  mf_FillID :: string
  mf_ExchangeID :: string
  mf_ClientID :: string
  mf_MarketID :: string
  mf_Side :: string
  mf_Quantity :: int32
  mf_PriceMicros :: int64
  mf_FeeMicros :: int64
  mf_FilledAt :: time

record MockServer =
  mx_cfg :: MockConfig
  mx_rng :: "nat \<Rightarrow> float64"
  mx_draws :: nat
  mx_orders :: "string \<rightharpoonup> MockOrder"
  mx_fills :: "MockFill list"
  mx_positions :: "string \<rightharpoonup> int32"
  mx_balance :: int64
  mx_nextID :: nat
  mx_pending :: "string list"  \<comment> \<open>scheduled \<^verbatim>\<open>simulateFillProcess\<close> goroutines\<close>

definition NewServer :: "MockConfig \<Rightarrow> (nat \<Rightarrow> float64) \<Rightarrow> MockServer" where
  "NewServer cfg rng =
     \<lparr>mx_cfg = cfg, mx_rng = rng, mx_draws = 0, mx_orders = Map.empty, mx_fills = [],
      mx_positions = Map.empty, mx_balance = mc_InitialBalanceMicros cfg, mx_nextID = 0, mx_pending = []\<rparr>"

definition rng_Float64 :: "MockServer \<Rightarrow> float64 \<times> MockServer" where
  "rng_Float64 s = (mx_rng s (mx_draws s), s\<lparr>mx_draws := mx_draws s + 1\<rparr>)"

definition numbered :: "string \<Rightarrow> nat \<Rightarrow> string" where
  "numbered prefix n = prefix @ pad_left 6 (show_nat n)"


section \<open>Operations\<close>

definition Mock_SubmitOrder ::
  "time \<Rightarrow> string \<Rightarrow> string \<Rightarrow> string \<Rightarrow> int32 \<Rightarrow> int64 \<Rightarrow> MockServer \<Rightarrow> MockOrder \<times> MockServer" where
  "Mock_SubmitOrder now clientID marketID side qty priceMicros s =
     (let s = s\<lparr>mx_nextID := mx_nextID s + 1\<rparr>;
          exchID = numbered ''MOCK-'' (mx_nextID s);
          order = \<lparr>mo_ExchangeID = exchID, mo_ClientID = clientID, mo_MarketID = marketID, mo_Side = side,
                   mo_Quantity = qty, mo_PriceMicros = priceMicros, mo_FilledQty = 0, mo_Status = ''open'',
                   mo_CreatedAt = now\<rparr>;
          (rejected, s) = (if f_less (Fin 0) (mc_RejectionRate (mx_cfg s))
             then let (u, s) = rng_Float64 s in (f_less u (mc_RejectionRate (mx_cfg s)), s) else (False, s))
      in if rejected
         then let order = order\<lparr>mo_Status := ''rejected''\<rparr>
              in (order, s\<lparr>mx_orders := (mx_orders s)(exchID \<mapsto> order)\<rparr>)
         else (order, s\<lparr>mx_orders := (mx_orders s)(exchID \<mapsto> order), mx_pending := mx_pending s @ [exchID]\<rparr>))"

text \<open>The quantity of a fill: all that remains, or 10 to 90 percent of it, at least one contract.\<close>

definition partial_quantity :: "int32 \<Rightarrow> float64 \<Rightarrow> int32" where
  "partial_quantity remaining u =
     (let pct = f_add (f_lit (1 / 10)) (f_mul u (f_lit (8 / 10)));
          fillQty = word_of_int (f_trunc (f_mul (f_of_int (sint remaining)) pct)) :: int32
      in if sint fillQty < 1 then 1 else fillQty)"

definition fill_quantity :: "int32 \<Rightarrow> MockServer \<Rightarrow> int32 \<times> MockServer" where
  "fill_quantity remaining s =
     (let (u, s) = rng_Float64 s in
      if f_less u (mc_PartialFillProb (mx_cfg s)) \<and> 1 < sint remaining
      then let (v, s) = rng_Float64 s in (partial_quantity remaining v, s)
      else (remaining, s))"

definition record_fill :: "time \<Rightarrow> string \<Rightarrow> MockOrder \<Rightarrow> int32 \<Rightarrow> MockServer \<Rightarrow> MockServer" where
  "record_fill now exchID order fillQty s =
     (let fill = \<lparr>mf_FillID = numbered ''FILL-'' (length (mx_fills s) + 1), mf_ExchangeID = exchID,
                  mf_ClientID = mo_ClientID order, mf_MarketID = mo_MarketID order, mf_Side = mo_Side order,
                  mf_Quantity = fillQty, mf_PriceMicros = mo_PriceMicros order, mf_FeeMicros = 0, mf_FilledAt = now\<rparr>;
          order = order\<lparr>mo_FilledQty := mo_FilledQty order + fillQty\<rparr>;
          filled = (sint (mo_Quantity order) \<le> sint (mo_FilledQty order));
          order = order\<lparr>mo_Status := (if filled then ''filled'' else ''partially_filled'')\<rparr>;
          cost = scast fillQty * mo_PriceMicros order;
          position = map_get (mx_positions s) (mo_MarketID order) 0
      in s\<lparr>mx_fills := mx_fills s @ [fill], mx_orders := (mx_orders s)(exchID \<mapsto> order),
           mx_pending := mx_pending s @ (if filled then [] else [exchID]),
           mx_positions := (mx_positions s)(mo_MarketID order \<mapsto>
              (if mo_Side order = ''buy'' then position + fillQty else position - fillQty)),
           mx_balance := (if mo_Side order = ''buy'' then mx_balance s - cost else mx_balance s + cost)\<rparr>)"

definition simulateFillProcess :: "time \<Rightarrow> string \<Rightarrow> MockServer \<Rightarrow> MockServer" where
  "simulateFillProcess now exchID s =
     (case mx_orders s exchID of
        None \<Rightarrow> s
      | Some order \<Rightarrow>
          if mo_Status order = ''cancelled'' then s
          else let (u, s) = rng_Float64 s in
            if f_less (mc_FillProbability (mx_cfg s)) u then s
            else let (fillQty, s) = fill_quantity (mo_Quantity order - mo_FilledQty order) s
                 in record_fill now exchID order fillQty s)"

datatype mock_error = OrderNotFound string | OrderAlreadyFilled string

definition Mock_CancelOrder :: "string \<Rightarrow> MockServer \<Rightarrow> (mock_error, unit) result \<times> MockServer" where
  "Mock_CancelOrder exchID s =
     (case mx_orders s exchID of
        None \<Rightarrow> (Inl (OrderNotFound exchID), s)
      | Some order \<Rightarrow>
          if mo_Status order = ''filled'' then (Inl (OrderAlreadyFilled exchID), s)
          else (Inr (), s\<lparr>mx_orders := (mx_orders s)(exchID \<mapsto> order\<lparr>mo_Status := ''cancelled''\<rparr>)\<rparr>))"

definition cancel_one :: "int \<times> (string \<rightharpoonup> MockOrder) \<Rightarrow> string \<Rightarrow> int \<times> (string \<rightharpoonup> MockOrder)" where
  "cancel_one acc k =
     (case acc of (n, orders) \<Rightarrow>
        (case orders k of None \<Rightarrow> (n, orders)
         | Some order \<Rightarrow>
             if mo_Status order = ''open'' \<or> mo_Status order = ''partially_filled''
             then (n + 1, orders(k \<mapsto> order\<lparr>mo_Status := ''cancelled''\<rparr>)) else (n, orders)))"

text \<open>\<open>ks\<close> is the order in which Go visits the map.\<close>

definition Mock_CancelAll :: "string list \<Rightarrow> MockServer \<Rightarrow> int \<times> MockServer" where
  "Mock_CancelAll ks s =
     (let (n, orders) = foldl cancel_one (0, mx_orders s) ks in (n, s\<lparr>mx_orders := orders\<rparr>))"

definition Mock_PollFills :: "time \<Rightarrow> MockServer \<Rightarrow> MockFill list" where
  "Mock_PollFills since s = filter (\<lambda>f. since < mf_FilledAt f) (mx_fills s)"

definition GetPositions :: "MockServer \<Rightarrow> string \<rightharpoonup> int32" where
  "GetPositions s = mx_positions s"

definition GetBalance :: "MockServer \<Rightarrow> int64" where
  "GetBalance s = mx_balance s"

definition GetOrder :: "string \<Rightarrow> MockServer \<Rightarrow> MockOrder option" where
  "GetOrder exchID s = mx_orders s exchID"



section \<open>Identifiers\<close>

definition dec_value :: "string \<Rightarrow> nat" where
  "dec_value s = foldl (\<lambda>a c. 10 * a + (of_char c - 48)) 0 s"

lemma of_char_digit: "d < 10 \<Longrightarrow> (of_char (digit d) :: nat) = 48 + d"
  unfolding digit_def by (elim less_SucE [where m = d, unfolded Suc_eq_plus1] | simp add: numeral_eq_Suc less_Suc_eq)+ auto

lemma dec_value_snoc: "dec_value (s @ [c]) = 10 * dec_value s + (of_char c - 48)"
  by (simp add: dec_value_def)

lemma dec_value_show_nat: "dec_value (show_nat n) = n"
proof (induction n rule: show_nat.induct)
  case (1 n)
  show ?case
  proof (cases "n < 10")
    case True
    then show ?thesis by (subst show_nat.simps) (simp add: dec_value_def of_char_digit)
  next
    case False
    then show ?thesis
      using 1 by (subst show_nat.simps) (simp add: dec_value_snoc of_char_digit)
  qed
qed

lemma dec_value_zeros: "dec_value (replicate k CHR ''0'' @ s) = dec_value s"
proof -
  have "foldl (\<lambda>a c. 10 * a + (of_char c - 48)) 0 (replicate k CHR ''0'') = (0 :: nat)"
    by (induction k) (simp_all add: of_char_def)
  then show ?thesis by (simp add: dec_value_def)
qed

lemma numbered_inj [simp]: "numbered p m = numbered p n \<longleftrightarrow> m = n"
proof
  assume "numbered p m = numbered p n"
  then have "dec_value (pad_left 6 (show_nat m)) = dec_value (pad_left 6 (show_nat n))"
    by (simp add: numbered_def)
  then show "m = n" by (simp add: pad_left_def dec_value_zeros dec_value_show_nat)
qed simp



section \<open>Fill quantities\<close>

definition unit_draw :: "float64 \<Rightarrow> bool" where
  "unit_draw u \<longleftrightarrow> (\<exists>x. u = Fin x \<and> 0 \<le> x \<and> x < 1)"

lemma partial_quantity_bounds:
  assumes "unit_draw u" and "1 < sint remaining"
  shows "1 \<le> sint (partial_quantity remaining u)" and "sint (partial_quantity remaining u) \<le> sint remaining"
proof -
  obtain x where u: "u = Fin x" "0 \<le> x" "x < 1" using assms(1) by (auto simp: unit_draw_def)
  define r where "r = sint remaining"
  have r: "1 < r" "r < 2147483648" using assms(2) by (simp_all add: r_def)
  define pct where "pct = rnd (rnd (1 / 10) + rnd (x * rnd (8 / 10)))"
  have eight: "0 \<le> rnd (8 / 10)" "rnd (8 / 10) \<le> rnd (1 - 1 / 8)"
    by (auto intro!: rnd_nonneg rnd_mono)
  have r78: "rnd (1 - 1 / 8) = 1 - 1 / 8" "rnd (1 / 8) = 1 / 8"
  proof -
    have e: "rnd (of_int m * 2 powi (- 3)) = of_int m * 2 powi (- 3)" if "\<bar>m\<bar> \<le> 2 ^ 53" for m
      by (rule rnd_exact) (use that in \<open>unfold representable_def, blast\<close>)
    show "rnd (1 - 1 / 8) = 1 - 1 / 8" "rnd (1 / 8) = 1 / 8"
      using e [of 7] e [of 1] by (simp_all add: power_int_minus)
  qed
  have "x * rnd (8 / 10) \<le> 1 * (1 - 1 / 8)"
    using u eight r78 by (intro mult_mono) auto
  then have "rnd (x * rnd (8 / 10)) \<le> rnd (1 - 1 / 8)" by (intro rnd_mono) simp
  moreover have "rnd (1 / 10) \<le> rnd (1 / 8)" by (intro rnd_mono) simp
  ultimately have "pct \<le> rnd 1" unfolding pct_def using r78 by (intro rnd_mono) linarith
  moreover have "0 \<le> pct" unfolding pct_def using u eight by (intro rnd_nonneg add_nonneg_nonneg mult_nonneg_nonneg) auto
  ultimately have pct: "0 \<le> pct" "pct \<le> 1" by simp_all
  have big: "\<bar>r\<bar> \<le> 2 ^ 53" using r by simp
  have prod: "0 \<le> rnd (of_int r * pct)" "rnd (of_int r * pct) \<le> of_int r"
  proof -
    show "0 \<le> rnd (of_int r * pct)" using r pct by (intro rnd_nonneg mult_nonneg_nonneg) auto
    have "of_int r * pct \<le> of_int r * 1" using r pct by (intro mult_left_mono) auto
    then have "rnd (of_int r * pct) \<le> rnd (of_int r)" by (intro rnd_mono) simp
    then show "rnd (of_int r * pct) \<le> of_int r" using big by simp
  qed
  define q where "q = \<lfloor>rnd (of_int r * pct)\<rfloor>"
  have q: "0 \<le> q" "q \<le> r" using prod by (simp_all add: q_def floor_le_iff le_floor_iff)
  then have sq: "sint (word_of_int q :: int32) = q"
    using r by (simp add: sint_sbintrunc' signed_take_bit_int_eq_self)
  have "f_trunc (f_mul (f_of_int r) (f_add (f_lit (1 / 10)) (f_mul u (f_lit (8 / 10))))) = q"
    using big prod(1) u by (simp add: f_of_int_def f_lit_def pct_def q_def)
  then have "partial_quantity remaining u = (if q < 1 then 1 else word_of_int q)"
    by (simp add: partial_quantity_def Let_def sq r_def)
  then show "1 \<le> sint (partial_quantity remaining u)" and "sint (partial_quantity remaining u) \<le> sint remaining"
    using r sq q by (simp_all flip: r_def)
qed

lemma fill_quantity_bounds:
  assumes "\<forall>n. unit_draw (mx_rng s n)" and "0 < sint remaining" and "fill_quantity remaining s = (q, s')"
  shows "0 < sint q" and "sint q \<le> sint remaining" and "\<exists>d. s' = s\<lparr>mx_draws := d\<rparr>"
proof -
  have "0 < sint q \<and> sint q \<le> sint remaining \<and> (\<exists>d. s' = s\<lparr>mx_draws := d\<rparr>)"
  proof (cases "f_less (mx_rng s (mx_draws s)) (mc_PartialFillProb (mx_cfg s)) \<and> 1 < sint remaining")
    case True
    then have "q = partial_quantity remaining (mx_rng s (mx_draws s + 1))" "s' = s\<lparr>mx_draws := mx_draws s + 2\<rparr>"
      using assms(3) by (auto simp: fill_quantity_def rng_Float64_def)
    moreover have "unit_draw (mx_rng s (mx_draws s + 1))" using assms(1) by simp
    ultimately show ?thesis
      using partial_quantity_bounds [of "mx_rng s (mx_draws s + 1)" remaining] True by force
  next
    case False
    then have "q = remaining" "s' = s\<lparr>mx_draws := mx_draws s + 1\<rparr>"
      using assms(3) by (auto simp: fill_quantity_def rng_Float64_def)
    then show ?thesis using assms(2) by blast
  qed
  then show "0 < sint q" and "sint q \<le> sint remaining" and "\<exists>d. s' = s\<lparr>mx_draws := d\<rparr>" by blast+
qed



section \<open>Cancel-all\<close>

definition working :: "MockOrder \<Rightarrow> bool" where
  "working o1 \<longleftrightarrow> mo_Status o1 = ''open'' \<or> mo_Status o1 = ''partially_filled''"

definition cancelled :: "MockOrder \<Rightarrow> MockOrder" where
  "cancelled o1 = (if working o1 then o1\<lparr>mo_Status := ''cancelled''\<rparr> else o1)"

lemma not_working_cancelled: "\<not> working (cancelled o1)"
  by (simp add: cancelled_def working_def)

lemma foldl_cancel_one:
  assumes "distinct ks"
  shows "foldl cancel_one (n, orders) ks =
    (n + int (length (filter (\<lambda>k. \<exists>o1. orders k = Some o1 \<and> working o1) ks)),
     \<lambda>k. if k \<in> set ks then map_option cancelled (orders k) else orders k)"
  using assms
proof (induction ks arbitrary: n orders)
  case (Cons k ks)
  let ?orders = "orders(k := map_option cancelled (orders k))"
  have one: "cancel_one (n, orders) k = (n + (if \<exists>o1. orders k = Some o1 \<and> working o1 then 1 else 0), ?orders)"
    by (cases "orders k") (auto simp: cancel_one_def cancelled_def working_def fun_eq_iff)
  have "filter (\<lambda>k. \<exists>o1. ?orders k = Some o1 \<and> working o1) ks = filter (\<lambda>k. \<exists>o1. orders k = Some o1 \<and> working o1) ks"
    using Cons.prems by (intro filter_cong) auto
  with Cons show ?case by (simp add: one fun_eq_iff del: fun_upd_apply) (auto simp: fun_upd_apply)
qed simp

text \<open>
  Cancel-all reaches every working order, whatever order Go's map iteration takes: after it no order
  is open or partially filled, every such order has become cancelled and nothing else changed,
  and the count returned is the number of orders cancelled. In particular the result does not depend on
  the iteration order.
\<close>

theorem cancel_all_complete:
  assumes "enumerates ks (mx_orders s)"
  shows "Mock_CancelAll ks s =
     (int (card {k. \<exists>o1. mx_orders s k = Some o1 \<and> working o1}),
      s\<lparr>mx_orders := (\<lambda>k. map_option cancelled (mx_orders s k))\<rparr>)
    \<and> (\<forall>k o1. mx_orders (snd (Mock_CancelAll ks s)) k = Some o1 \<longrightarrow> \<not> working o1)"
proof -
  have d: "distinct ks" and ks: "set ks = dom (mx_orders s)" using assms by (simp_all add: enumerates_def)
  let ?p = "\<lambda>k. \<exists>o1. mx_orders s k = Some o1 \<and> working o1"
  have "set (filter ?p ks) = Collect ?p" using ks by auto
  then have "card (Collect ?p) = length (filter ?p ks)"
    using distinct_card [OF distinct_filter [OF d], of ?p] by simp
  moreover have "(\<lambda>k. if k \<in> set ks then map_option cancelled (mx_orders s k) else mx_orders s k) =
      (\<lambda>k. map_option cancelled (mx_orders s k))"
    using ks by (auto simp: fun_eq_iff domIff)
  ultimately have "Mock_CancelAll ks s = (int (card (Collect ?p)), s\<lparr>mx_orders := (\<lambda>k. map_option cancelled (mx_orders s k))\<rparr>)"
    by (simp add: Mock_CancelAll_def foldl_cancel_one [OF d])
  then show ?thesis using not_working_cancelled by (simp add: map_option_eq_Some) blast
qed

definition sample_mock :: MockServer where
  "sample_mock = snd (Mock_SubmitOrder 5 ''c1'' ''m'' ''buy'' 10 400000 (NewServer DefaultConfig (\<lambda>_. Fin (1 / 4))))"

lemma sample_mock_orders:
  "mx_orders sample_mock = [numbered ''MOCK-'' 1 \<mapsto>
     \<lparr>mo_ExchangeID = numbered ''MOCK-'' 1, mo_ClientID = ''c1'', mo_MarketID = ''m'', mo_Side = ''buy'', mo_Quantity = 10,
      mo_PriceMicros = 400000, mo_FilledQty = 0, mo_Status = ''open'', mo_CreatedAt = 5\<rparr>]"
  by (simp add: sample_mock_def Mock_SubmitOrder_def NewServer_def DefaultConfig_def f_lit_def Let_def)

theorem cancel_all_complete_witness:
  "fst (Mock_CancelAll [numbered ''MOCK-'' 1] sample_mock) = 1"
proof -
  have "enumerates [numbered ''MOCK-'' 1] (mx_orders sample_mock)"
    by (simp add: enumerates_def sample_mock_orders)
  note all = cancel_all_complete [OF this, THEN conjunct1]
  have "{k. \<exists>o1. mx_orders sample_mock k = Some o1 \<and> working o1} = {numbered ''MOCK-'' 1}"
    by (simp add: sample_mock_orders working_def set_eq_iff)
  then show ?thesis unfolding all by simp
qed


section \<open>What the exchange conserves\<close>

definition fills_of :: "string \<Rightarrow> MockFill list \<Rightarrow> MockFill list" where
  "fills_of k fs = filter (\<lambda>f. mf_ExchangeID f = k) fs"

definition signed_fill :: "MockFill \<Rightarrow> int32" where
  "signed_fill f = (if mf_Side f = ''buy'' then mf_Quantity f else - mf_Quantity f)"

definition fill_cost :: "MockFill \<Rightarrow> int64" where
  "fill_cost f = (let c = scast (mf_Quantity f) * mf_PriceMicros f in if mf_Side f = ''buy'' then c else - c)"

definition order_ok :: "MockFill list \<Rightarrow> string \<Rightarrow> MockOrder \<Rightarrow> bool" where
  "order_ok fs k o1 \<longleftrightarrow> 0 < sint (mo_Quantity o1) \<and> 0 \<le> sint (mo_FilledQty o1)
     \<and> sint (mo_FilledQty o1) \<le> sint (mo_Quantity o1)
     \<and> (mo_Status o1 = ''filled'' \<longleftrightarrow> mo_FilledQty o1 = mo_Quantity o1)
     \<and> mo_FilledQty o1 = (\<Sum>f\<leftarrow>fills_of k fs. mf_Quantity f)
     \<and> (\<forall>f \<in> set (fills_of k fs). 0 < sint (mf_Quantity f) \<and> mf_MarketID f = mo_MarketID o1
          \<and> mf_Side f = mo_Side o1 \<and> mf_PriceMicros f = mo_PriceMicros o1)"

definition books_ok :: "MockServer \<Rightarrow> bool" where
  "books_ok s \<longleftrightarrow>
     (\<forall>mkt. map_get (mx_positions s) mkt 0 = (\<Sum>f\<leftarrow>filter (\<lambda>f. mf_MarketID f = mkt) (mx_fills s). signed_fill f))
     \<and> mx_balance s = mc_InitialBalanceMicros (mx_cfg s) - (\<Sum>f\<leftarrow>mx_fills s. fill_cost f)"

definition ids_ok :: "MockServer \<Rightarrow> bool" where
  "ids_ok s \<longleftrightarrow> dom (mx_orders s) \<subseteq> numbered ''MOCK-'' ` {1..mx_nextID s}
     \<and> (\<forall>f \<in> set (mx_fills s). mf_ExchangeID f \<in> dom (mx_orders s))
     \<and> distinct (mx_pending s)
     \<and> (\<forall>k \<in> set (mx_pending s). \<exists>o1. mx_orders s k = Some o1 \<and> mo_FilledQty o1 \<noteq> mo_Quantity o1)"

definition mock_inv :: "MockServer \<Rightarrow> bool" where
  "mock_inv s \<longleftrightarrow> (\<forall>n. unit_draw (mx_rng s n)) \<and> (\<forall>k o1. mx_orders s k = Some o1 \<longrightarrow> order_ok (mx_fills s) k o1)
     \<and> books_ok s \<and> ids_ok s"

text \<open>One step: an order of positive quantity is submitted, a scheduled goroutine runs, an order or all orders are cancelled.\<close>

inductive mock_step :: "MockServer \<Rightarrow> MockServer \<Rightarrow> bool" where
  step_submit: "0 < sint qty \<Longrightarrow> mock_step s (snd (Mock_SubmitOrder now clientID marketID side qty price s))"
| step_fill: "k \<in> set (mx_pending s) \<Longrightarrow>
     mock_step s (simulateFillProcess now k (s\<lparr>mx_pending := remove1 k (mx_pending s)\<rparr>))"
| step_cancel: "mock_step s (snd (Mock_CancelOrder k s))"
| step_cancel_all: "enumerates ks (mx_orders s) \<Longrightarrow> mock_step s (snd (Mock_CancelAll ks s))"


lemma order_ok_draws: "mock_inv (s\<lparr>mx_draws := d\<rparr>) = mock_inv s"
  by (simp add: mock_inv_def books_ok_def ids_ok_def)

lemma fresh_id: "ids_ok s \<Longrightarrow> numbered ''MOCK-'' (Suc (mx_nextID s)) \<notin> dom (mx_orders s)"
  by (auto simp: ids_ok_def dest!: subsetD)

lemma insert_order_inv:
  assumes inv: "mock_inv s" and new: "k = numbered ''MOCK-'' (Suc (mx_nextID s))"
    and o1: "mo_FilledQty o1 = 0" "mo_Status o1 \<noteq> ''filled''" "0 < sint (mo_Quantity o1)"
    and p: "pend = [] \<or> pend = [k]"
  shows "mock_inv (s\<lparr>mx_nextID := Suc (mx_nextID s), mx_orders := (mx_orders s)(k \<mapsto> o1), mx_pending := mx_pending s @ pend\<rparr>)"
proof -
  have k: "k \<notin> dom (mx_orders s)" using inv new fresh_id by (simp add: mock_inv_def)
  then have nf: "fills_of k (mx_fills s) = []" and np: "k \<notin> set (mx_pending s)"
    using inv by (auto simp: mock_inv_def ids_ok_def fills_of_def filter_empty_conv)
  have q: "mo_Quantity o1 \<noteq> 0" using o1(3) by auto
  have "ids_ok (s\<lparr>mx_nextID := Suc (mx_nextID s), mx_orders := (mx_orders s)(k \<mapsto> o1), mx_pending := mx_pending s @ pend\<rparr>)"
  proof -
    have "dom (mx_orders s) \<subseteq> numbered ''MOCK-'' ` {1..Suc (mx_nextID s)}"
      using inv unfolding mock_inv_def ids_ok_def by (meson atLeastAtMost_iff image_mono le_SucI subset_iff)
    moreover have "k \<in> numbered ''MOCK-'' ` {1..Suc (mx_nextID s)}" using new by simp
    ultimately show ?thesis
      using inv k np o1(1) q p unfolding mock_inv_def ids_ok_def by auto
  qed
  moreover have "order_ok (mx_fills s) k o1"
    using o1 q nf by (auto simp: order_ok_def)
  ultimately show ?thesis using inv unfolding mock_inv_def books_ok_def by simp
qed

lemma submit_inv:
  assumes "mock_inv s" and "0 < sint qty"
  shows "mock_inv (snd (Mock_SubmitOrder now clientID marketID side qty price s))"
proof -
  define k where "k = numbered ''MOCK-'' (Suc (mx_nextID s))"
  obtain d st pend where "snd (Mock_SubmitOrder now clientID marketID side qty price s) =
      (s\<lparr>mx_draws := d\<rparr>)\<lparr>mx_nextID := Suc (mx_nextID s),
         mx_orders := (mx_orders s)(k \<mapsto> \<lparr>mo_ExchangeID = k, mo_ClientID = clientID, mo_MarketID = marketID, mo_Side = side,
            mo_Quantity = qty, mo_PriceMicros = price, mo_FilledQty = 0, mo_Status = st, mo_CreatedAt = now\<rparr>),
         mx_pending := mx_pending s @ pend\<rparr>" and st: "st \<noteq> ''filled''" and pend: "pend = [] \<or> pend = [k]"
  proof (cases "f_less (Fin 0) (mc_RejectionRate (mx_cfg s)) \<and> f_less (mx_rng s (mx_draws s)) (mc_RejectionRate (mx_cfg s))")
    case True
    then show ?thesis
      by (intro that [where d = "mx_draws s + 1" and st = "''rejected''" and pend = "[]"])
         (simp_all add: Mock_SubmitOrder_def rng_Float64_def k_def Let_def)
  next
    case False
    then show ?thesis
      by (intro that [where d = "if f_less (Fin 0) (mc_RejectionRate (mx_cfg s)) then mx_draws s + 1 else mx_draws s"
            and st = "''open''" and pend = "[k]"])
         (auto simp: Mock_SubmitOrder_def rng_Float64_def k_def Let_def)
  qed
  moreover have "mock_inv (s\<lparr>mx_draws := d\<rparr>)" using assms(1) by (simp add: order_ok_draws)
  ultimately show ?thesis
    using insert_order_inv [of "s\<lparr>mx_draws := d\<rparr>" k _ pend] assms(2) st pend by (simp add: k_def)
qed

lemma order_ok_cong:
  assumes "mo_Quantity y = mo_Quantity x" and "mo_FilledQty y = mo_FilledQty x" and "mo_MarketID y = mo_MarketID x"
    and "mo_Side y = mo_Side x" and "mo_PriceMicros y = mo_PriceMicros x"
    and "mo_Status y = ''filled'' \<longleftrightarrow> mo_Status x = ''filled''"
  shows "order_ok fs k y = order_ok fs k x"
  unfolding order_ok_def assms by (rule refl)

lemma order_ok_fills: "fills_of k fs = fills_of k fs' \<Longrightarrow> order_ok fs k x = order_ok fs' k x"
  by (simp only: order_ok_def)

lemma order_ok_bounds:
  "order_ok fs k x \<Longrightarrow> 0 < sint (mo_Quantity x) \<and> 0 \<le> sint (mo_FilledQty x)
     \<and> sint (mo_FilledQty x) \<le> sint (mo_Quantity x)"
  unfolding order_ok_def by (elim conjE) (intro conjI; assumption)

lemma cancel_inv:
  assumes inv: "mock_inv s"
    and same: "\<And>k. map_option (\<lambda>x. x\<lparr>mo_Status := ''s''\<rparr>) (orders k) = map_option (\<lambda>x. x\<lparr>mo_Status := ''s''\<rparr>) (mx_orders s k)"
    and st: "\<And>k x y. mx_orders s k = Some x \<Longrightarrow> orders k = Some y \<Longrightarrow>
        mo_Status y = mo_Status x \<or> (mo_Status x \<noteq> ''filled'' \<and> mo_Status y = ''cancelled'')"
  shows "mock_inv (s\<lparr>mx_orders := orders\<rparr>)"
proof -
  have "orders k = None \<longleftrightarrow> mx_orders s k = None" for k
    using same [of k] by (cases "orders k"; cases "mx_orders s k") simp_all
  then have dom: "dom orders = dom (mx_orders s)" by (simp add: dom_def)
  have pnd: "\<forall>k \<in> set (mx_pending s). \<exists>x. mx_orders s k = Some x \<and> mo_FilledQty x \<noteq> mo_Quantity x"
    using inv by (simp add: mock_inv_def ids_ok_def)
  have fields: "mo_Quantity y = mo_Quantity x \<and> mo_FilledQty y = mo_FilledQty x \<and> mo_MarketID y = mo_MarketID x
      \<and> mo_Side y = mo_Side x \<and> mo_PriceMicros y = mo_PriceMicros x"
    if "mx_orders s k = Some x" "orders k = Some y" for k x y
    using same [of k] that by (cases x; cases y) simp
  have "order_ok (mx_fills s) k y" if "orders k = Some y" for k y
  proof -
    from that dom obtain x where x: "mx_orders s k = Some x" by (metis domD domI)
    then have "order_ok (mx_fills s) k x" using inv by (simp add: mock_inv_def)
    moreover have "mo_Status y = ''filled'' \<longleftrightarrow> mo_Status x = ''filled''"
      using st [OF x that] by (elim disjE conjE) simp_all
    ultimately show ?thesis using fields [OF x that] order_ok_cong [of y x "mx_fills s" k] by blast
  qed
  moreover have "ids_ok (s\<lparr>mx_orders := orders\<rparr>)"
  proof -
    have "\<exists>y. orders k = Some y \<and> mo_FilledQty y \<noteq> mo_Quantity y" if "k \<in> set (mx_pending s)" for k
    proof -
      from bspec [OF pnd that] obtain x where x: "mx_orders s k = Some x" "mo_FilledQty x \<noteq> mo_Quantity x"
        by (elim exE conjE)
      then obtain y where "orders k = Some y" using dom by (metis domD domI)
      with x(2) fields [OF x(1) this] show ?thesis by simp
    qed
    then show ?thesis using inv by (simp add: mock_inv_def ids_ok_def dom)
  qed
  ultimately show ?thesis using inv by (simp add: mock_inv_def books_ok_def)
qed


lemma record_fill_inv:
  assumes inv: "mock_inv s" and o1: "mx_orders s k = Some o1" and st: "mo_Status o1 \<noteq> ''filled''"
    and np: "k \<notin> set (mx_pending s)" and q: "0 < sint q" "sint q \<le> sint (mo_Quantity o1 - mo_FilledQty o1)"
  shows "mock_inv (record_fill now k o1 q s)"
proof -
  define f where "f = \<lparr>mf_FillID = numbered ''FILL-'' (length (mx_fills s) + 1), mf_ExchangeID = k,
      mf_ClientID = mo_ClientID o1, mf_MarketID = mo_MarketID o1, mf_Side = mo_Side o1, mf_Quantity = q,
      mf_PriceMicros = mo_PriceMicros o1, mf_FeeMicros = 0, mf_FilledAt = now\<rparr>"
  define full where "full \<longleftrightarrow> sint (mo_Quantity o1) \<le> sint (mo_FilledQty o1 + q)"
  define o2 where "o2 = o1\<lparr>mo_FilledQty := mo_FilledQty o1 + q,
      mo_Status := (if full then ''filled'' else ''partially_filled'')\<rparr>"
  let ?s = "record_fill now k o1 q s"
  have s': "mx_fills ?s = mx_fills s @ [f]" "mx_orders ?s = (mx_orders s)(k \<mapsto> o2)"
    "mx_pending ?s = mx_pending s @ (if full then [] else [k])" "mx_rng ?s = mx_rng s" "mx_cfg ?s = mx_cfg s"
    "mx_nextID ?s = mx_nextID s" "mx_balance ?s = mx_balance s - fill_cost f"
    "mx_positions ?s = (mx_positions s)(mf_MarketID f \<mapsto> map_get (mx_positions s) (mf_MarketID f) 0 + signed_fill f)"
    by (simp_all add: record_fill_def Let_def f_def o2_def full_def fill_cost_def signed_fill_def)
  have ok: "order_ok (mx_fills s) k o1" using inv o1 by (simp add: mock_inv_def)
  have b: "0 < sint (mo_Quantity o1)" "0 \<le> sint (mo_FilledQty o1)" "sint (mo_FilledQty o1) \<le> sint (mo_Quantity o1)"
    "sint (mo_Quantity o1) < 2147483648"
    using order_ok_bounds [OF ok] by simp_all
  have rem: "sint (mo_Quantity o1 - mo_FilledQty o1) = sint (mo_Quantity o1) - sint (mo_FilledQty o1)"
    by (rule sint32_sub) (use b in linarith)+
  then have sum: "sint (mo_FilledQty o1 + q) = sint (mo_FilledQty o1) + sint q"
    by (intro sint32_add) (use b q in linarith)+
  have full_iff: "full \<longleftrightarrow> mo_FilledQty o1 + q = mo_Quantity o1"
    unfolding full_def sint_eq_iff [symmetric] sum using q rem by auto
  have of_k: "fills_of k (mx_fills s @ [f]) = fills_of k (mx_fills s) @ [f]"
    and of_other: "j \<noteq> k \<Longrightarrow> fills_of j (mx_fills s @ [f]) = fills_of j (mx_fills s)" for j
    by (simp_all add: fills_of_def f_def)
  have o2: "order_ok (mx_fills s @ [f]) k o2"
    unfolding order_ok_def of_k
  proof (intro conjI)
    show "sint (mo_FilledQty o2) \<le> sint (mo_Quantity o2)" "0 \<le> sint (mo_FilledQty o2)"
      using sum q rem b by (simp_all add: o2_def)
    show "(mo_Status o2 = ''filled'') = (mo_FilledQty o2 = mo_Quantity o2)"
      using full_iff by (simp add: o2_def)
  qed (use ok q in \<open>auto simp: order_ok_def o2_def f_def\<close>)
  have "\<forall>j x. mx_orders ?s j = Some x \<longrightarrow> order_ok (mx_fills ?s) j x"
    using inv o2 order_ok_fills [OF of_other] unfolding s' mock_inv_def by (simp split: if_splits)
  moreover have "books_ok ?s"
    using inv unfolding books_ok_def mock_inv_def s' by (simp add: f_def)
  moreover have "ids_ok ?s"
  proof -
    have "mo_FilledQty o2 \<noteq> mo_Quantity o2" if "\<not> full" using that full_iff by (simp add: o2_def)
    moreover have "insert k (dom (mx_orders s)) = dom (mx_orders s)" using o1 by auto
    ultimately show ?thesis
      using inv np unfolding ids_ok_def mock_inv_def s' by (auto simp: f_def)
  qed
  ultimately show ?thesis using inv by (simp add: mock_inv_def s')
qed


lemma fill_inv:
  assumes inv: "mock_inv s" and k: "k \<in> set (mx_pending s)"
  shows "mock_inv (simulateFillProcess now k (s\<lparr>mx_pending := remove1 k (mx_pending s)\<rparr>))"
proof -
  let ?s = "s\<lparr>mx_pending := remove1 k (mx_pending s)\<rparr>"
  have ids: "ids_ok s" using inv by (simp add: mock_inv_def)
  then have np: "k \<notin> set (mx_pending ?s)" by (simp add: ids_ok_def)
  have inv': "mock_inv ?s"
    using inv ids by (simp add: mock_inv_def books_ok_def ids_ok_def distinct_remove1 notin_set_remove1)
  from ids k obtain o1 where o1: "mx_orders s k = Some o1" "mo_FilledQty o1 \<noteq> mo_Quantity o1"
    unfolding ids_ok_def by meson
  have ok: "order_ok (mx_fills s) k o1" using inv o1(1) by (simp add: mock_inv_def)
  then have st: "mo_Status o1 \<noteq> ''filled''" using o1(2) by (simp only: order_ok_def) simp
  show ?thesis
  proof (cases "mo_Status o1 = ''cancelled'' \<or> f_less (mc_FillProbability (mx_cfg s)) (mx_rng s (mx_draws s))")
    case True
    then have "simulateFillProcess now k ?s = ?s \<or> simulateFillProcess now k ?s = ?s\<lparr>mx_draws := mx_draws s + 1\<rparr>"
      using o1(1) by (auto simp: simulateFillProcess_def rng_Float64_def)
    then show ?thesis using inv' by (auto simp only: order_ok_draws)
  next
    case False
    let ?s1 = "?s\<lparr>mx_draws := mx_draws s + 1\<rparr>" and ?rem = "mo_Quantity o1 - mo_FilledQty o1"
    obtain q s2 where q: "fill_quantity ?rem ?s1 = (q, s2)" by fastforce
    have rem: "sint ?rem = sint (mo_Quantity o1) - sint (mo_FilledQty o1)"
      by (rule sint32_sub) (use order_ok_bounds [OF ok] sint32_less [of "mo_Quantity o1"] in linarith)+
    have "sint (mo_FilledQty o1) \<noteq> sint (mo_Quantity o1)" using o1(2) by (simp add: sint_eq_iff)
    then have pos: "0 < sint ?rem" using order_ok_bounds [OF ok] rem by linarith
    have "\<forall>n. unit_draw (mx_rng ?s1 n)" using inv by (simp add: mock_inv_def)
    note qb = fill_quantity_bounds [OF this pos q]
    then obtain d where s2: "s2 = ?s\<lparr>mx_draws := d\<rparr>" by auto
    have "mock_inv (record_fill now k o1 q s2)"
      unfolding s2
      by (rule record_fill_inv) (use inv' o1 st np qb in \<open>simp_all add: order_ok_draws\<close>)
    moreover have "simulateFillProcess now k ?s = record_fill now k o1 q s2"
      using False o1(1) q by (simp add: simulateFillProcess_def rng_Float64_def)
    ultimately show ?thesis by simp
  qed
qed

lemma mock_step_inv:
  assumes "mock_step s s'" and "mock_inv s"
  shows "mock_inv s'"
  using assms(1)
proof cases
  case (step_submit qty now clientID marketID side price)
  then show ?thesis using submit_inv assms(2) by simp
next
  case (step_fill k now)
  then show ?thesis using fill_inv assms(2) by simp
next
  case (step_cancel k)
  show ?thesis
  proof (cases "snd (Mock_CancelOrder k s) = s")
    case True
    then show ?thesis using step_cancel assms(2) by simp
  next
    case False
    then obtain o1 where o1: "mx_orders s k = Some o1" "mo_Status o1 \<noteq> ''filled''"
      and s': "s' = s\<lparr>mx_orders := (mx_orders s)(k \<mapsto> o1\<lparr>mo_Status := ''cancelled''\<rparr>)\<rparr>"
      using step_cancel by (auto simp: Mock_CancelOrder_def split: option.splits if_splits)
    show ?thesis
      unfolding s' by (rule cancel_inv [OF assms(2)]) (use o1 in \<open>auto split: if_splits\<close>)
  qed
next
  case (step_cancel_all ks)
  then have d: "distinct ks" and ks: "set ks = dom (mx_orders s)" by (simp_all add: enumerates_def)
  have "s' = s\<lparr>mx_orders := (\<lambda>k. map_option cancelled (mx_orders s k))\<rparr>"
    using step_cancel_all(1) ks by (simp add: Mock_CancelAll_def foldl_cancel_one [OF d]) (simp add: fun_eq_iff domIff)
  moreover have "mock_inv (s\<lparr>mx_orders := (\<lambda>k. map_option cancelled (mx_orders s k))\<rparr>)"
  proof (rule cancel_inv [OF assms(2)])
    have "(cancelled x)\<lparr>mo_Status := ''s''\<rparr> = x\<lparr>mo_Status := ''s''\<rparr>" for x by (simp add: cancelled_def)
    then show "map_option (\<lambda>x. x\<lparr>mo_Status := ''s''\<rparr>) (map_option cancelled (mx_orders s k)) =
        map_option (\<lambda>x. x\<lparr>mo_Status := ''s''\<rparr>) (mx_orders s k)" for k
      by (simp add: option.map_comp o_def)
  qed (auto simp: cancelled_def working_def)
  ultimately show ?thesis by simp
qed

interpretation exchange: step_invariant mock_step mock_inv
  by unfold_locales (rule mock_step_inv)


lemma NewServer_inv: "\<forall>n. unit_draw (rng n) \<Longrightarrow> mock_inv (NewServer cfg rng)"
  by (simp add: mock_inv_def NewServer_def books_ok_def ids_ok_def)

text \<open>
  C31: The simulated exchange never overfills and its books balance. From a new server, under every
  sequence of submissions (of positive quantity), scheduled fills, cancellations and cancel-alls
  and every sequence of random draws: an order's filled quantity lies between zero and its
  quantity, equals the sum of its fills, and its status is \<^verbatim>\<open>filled\<close> exactly when it is complete;
  every fill has a positive quantity and its order's market, side and price; the position of every
  market is the signed sum of its fills; and the balance is the initial balance less the cost
  of all fills (sales counting negative).
\<close>

theorem exchange_conserves:
  assumes "mock_step\<^sup>*\<^sup>* (NewServer cfg rng) s" and "\<forall>n. unit_draw (rng n)"
  shows "(\<forall>k o1. mx_orders s k = Some o1 \<longrightarrow> order_ok (mx_fills s) k o1)
    \<and> (\<forall>mkt. map_get (GetPositions s) mkt 0 = (\<Sum>f\<leftarrow>filter (\<lambda>f. mf_MarketID f = mkt) (mx_fills s). signed_fill f))
    \<and> GetBalance s = mc_InitialBalanceMicros (mx_cfg s) - (\<Sum>f\<leftarrow>mx_fills s. fill_cost f)"
proof -
  have "mock_inv s" using exchange.reachable_inv [OF assms(1)] NewServer_inv assms(2) by simp
  then show ?thesis by (simp add: mock_inv_def books_ok_def GetPositions_def GetBalance_def)
qed

theorem exchange_conserves_witness:
  "mock_step\<^sup>*\<^sup>* (NewServer DefaultConfig (\<lambda>_. Fin (1 / 4))) sample_mock \<and> GetBalance sample_mock = 100000000000"
proof -
  have r: "mock_step\<^sup>*\<^sup>* (NewServer DefaultConfig (\<lambda>_. Fin (1 / 4))) sample_mock"
    unfolding sample_mock_def by (intro r_into_rtranclp step_submit) simp
  have "mx_fills sample_mock = []" "mx_cfg sample_mock = DefaultConfig"
    by (simp_all add: sample_mock_def Mock_SubmitOrder_def NewServer_def DefaultConfig_def f_lit_def Let_def)
  moreover have u: "\<forall>n :: nat. unit_draw (Fin (1 / 4))" by (simp add: unit_draw_def exI [of _ "1 / 4"])
  ultimately show ?thesis
    using r exchange_conserves [OF r u] by (simp add: DefaultConfig_def)
qed

text \<open>
  The package comment says invalid orders are rejected; \<^verbatim>\<open>SubmitOrder\<close> accepts any quantity and price.
\<close>

lemma invalid_order_accepted:
  "mo_Status (fst (Mock_SubmitOrder now c mkt ''buy'' (- 5) 0 (NewServer DefaultConfig rng))) = ''open''"
  by (simp add: Mock_SubmitOrder_def NewServer_def DefaultConfig_def f_lit_def Let_def)

end
