(* ===== verification/Execution_Engine.thy ===== *)
theory Execution_Engine
  imports Ledger Risk_Engine Mock_Exchange
begin

text \<open>
  The execution engine of \<^verbatim>\<open>services/execution/engine.go\<close> over an abstract venue, the paper adapter
  (\<^verbatim>\<open>paper_adapter.go\<close>) that implements the venue by the simulated exchange, and the gRPC handlers
  (\<^verbatim>\<open>grpc_server.go\<close>). The venue adapter is a record of operations on a venue state of any type;
  the engine record carries that state together with the maps of open orders, the intent ledger,
  the rows of \<^verbatim>\<open>execution.orders\<close> and \<^verbatim>\<open>execution.fills\<close>, the events published, the fill reports
  sent to the risk engine, and the audit logger. Each handler is one step and reads the clock
  once. Where the code ranges over a Go map the order is an argument.
\<close>

section \<open>The venue\<close>

record ExchangeAck =
  ak_ExchangeOrderID :: string
  ak_Status :: string
  ak_RejectReason :: string

record ExchangeFill =
  ef_FillID :: string
  ef_ExchangeOrderID :: string
  ef_ClientOrderID :: string
  ef_Quantity :: int32
  ef_PriceMicros :: int64
  ef_FeeMicros :: int64
  ef_FilledAt :: time

record ExchangeOrderStatus =
  eo_ExchangeOrderID :: string
  eo_Status :: string
  eo_FilledQuantity :: int32
  eo_RemainingQuantity :: int32

datatype venue_error = VenueUnavailable | VenueRefused mock_error

record 'v VenueAdapter =
  va_SubmitOrder :: "time \<Rightarrow> ProposedOrder \<Rightarrow> string \<Rightarrow> 'v \<Rightarrow> (venue_error, ExchangeAck) result \<times> 'v"
  va_CancelOrder :: "string \<Rightarrow> 'v \<Rightarrow> (venue_error, unit) result \<times> 'v"
  va_CancelAll :: "'v \<Rightarrow> int \<times> venue_error option \<times> 'v"
  va_PollFills :: "time \<Rightarrow> 'v \<Rightarrow> (venue_error, ExchangeFill list) result"
  va_GetOrderStatus :: "string \<Rightarrow> 'v \<Rightarrow> (venue_error, ExchangeOrderStatus option) result"

definition Paper_SubmitOrder ::
  "time \<Rightarrow> ProposedOrder \<Rightarrow> string \<Rightarrow> MockServer \<Rightarrow> (venue_error, ExchangeAck) result \<times> MockServer" where
  "Paper_SubmitOrder now ord internalID s =
     (let (exchOrder, s) = Mock_SubmitOrder now internalID (o_MarketID ord) (o_Side ord) (o_Quantity ord) (o_PriceMicros ord) s
      in (Inr \<lparr>ak_ExchangeOrderID = mo_ExchangeID exchOrder, ak_Status = mo_Status exchOrder,
               ak_RejectReason = (if mo_Status exchOrder = ''rejected'' then ''simulated_rejection'' else [])\<rparr>, s))"

definition Paper_CancelOrder :: "string \<Rightarrow> MockServer \<Rightarrow> (venue_error, unit) result \<times> MockServer" where
  "Paper_CancelOrder exchangeOrderID s =
     (case Mock_CancelOrder exchangeOrderID s of (Inl e, s) \<Rightarrow> (Inl (VenueRefused e), s) | (Inr _, s) \<Rightarrow> (Inr (), s))"

definition Paper_CancelAll :: "(MockServer \<Rightarrow> string list) \<Rightarrow> MockServer \<Rightarrow> int \<times> venue_error option \<times> MockServer" where
  "Paper_CancelAll visit s = (let (n, s') = Mock_CancelAll (visit s) s in (n, None, s'))"

definition Paper_PollFills :: "time \<Rightarrow> MockServer \<Rightarrow> (venue_error, ExchangeFill list) result" where
  "Paper_PollFills since s =
     Inr (map (\<lambda>f. \<lparr>ef_FillID = mf_FillID f, ef_ExchangeOrderID = mf_ExchangeID f, ef_ClientOrderID = mf_ClientID f,
                     ef_Quantity = mf_Quantity f, ef_PriceMicros = mf_PriceMicros f, ef_FeeMicros = mf_FeeMicros f,
                     ef_FilledAt = mf_FilledAt f\<rparr>) (Mock_PollFills since s))"

definition Paper_GetOrderStatus :: "string \<Rightarrow> MockServer \<Rightarrow> (venue_error, ExchangeOrderStatus option) result" where
  "Paper_GetOrderStatus exchangeOrderID s =
     (case GetOrder exchangeOrderID s of None \<Rightarrow> Inr None
      | Some order \<Rightarrow> Inr (Some \<lparr>eo_ExchangeOrderID = exchangeOrderID, eo_Status = mo_Status order,
          eo_FilledQuantity = mo_FilledQty order, eo_RemainingQuantity = mo_Quantity order - mo_FilledQty order\<rparr>))"

definition PaperAdapter :: "(MockServer \<Rightarrow> string list) \<Rightarrow> MockServer VenueAdapter" where
  "PaperAdapter visit =
     \<lparr>va_SubmitOrder = Paper_SubmitOrder, va_CancelOrder = Paper_CancelOrder, va_CancelAll = Paper_CancelAll visit,
      va_PollFills = Paper_PollFills, va_GetOrderStatus = Paper_GetOrderStatus\<rparr>"


section \<open>Engine state\<close>

record OrderRow =
  or_internal_order_id :: uuid
  or_trace_id :: string
  or_strategy_id :: string
  or_venue :: string
  or_market_id :: string
  or_side :: Side
  or_quantity :: int32
  or_price_micros :: int64
  or_notional_micros :: int64
  or_exchange_order_id :: "string option"
  or_status :: OrderStatus
  or_filled_quantity :: int32
  or_avg_fill_price_micros :: "int64 option"
  or_credential_id :: string
  or_approval_hmac :: bytes
  or_policy_config_hash :: string
  or_proposed_at :: time
  or_approved_at :: time
  or_submitted_at :: "time option"
  or_acknowledged_at :: "time option"
  or_last_fill_at :: "time option"
  or_completed_at :: "time option"
  or_idempotency_key :: string

record 'v ExecEngine =
  xe_venue :: 'v
  xe_hmacKey :: bytes
  xe_exposureLimits :: ExposureLimits
  xe_openOrders :: "string \<rightharpoonup> OrderRecord"
  xe_intentMap :: "string \<rightharpoonup> uuid"
  xe_systemMode :: string
  xe_reconciled :: bool
  xe_ledger :: Ledger
  xe_orders :: "OrderRow list"
  xe_fills :: "Fill list"
  xe_out :: outbox
  xe_reports :: "(bool \<times> FillReport) list"
  xe_auditor :: Logger

definition NewExecEngine :: "'v \<Rightarrow> bytes \<Rightarrow> Ledger \<Rightarrow> ExposureLimits \<Rightarrow> OrderRow list \<Rightarrow> Fill list \<Rightarrow> 'v ExecEngine" where
  "NewExecEngine venue hmacKey l limits orders fs =
     \<lparr>xe_venue = venue, xe_hmacKey = hmacKey, xe_exposureLimits = limits, xe_openOrders = Map.empty,
      xe_intentMap = Map.empty, xe_systemMode = ''normal'', xe_reconciled = False, xe_ledger = l,
      xe_orders = orders, xe_fills = fs, xe_out = [], xe_reports = [], xe_auditor = NewLogger ''execution-engine''\<rparr>"

definition Exec_SetSystemMode :: "string \<Rightarrow> 'v ExecEngine \<Rightarrow> 'v ExecEngine" where
  "Exec_SetSystemMode mode e = e\<lparr>xe_systemMode := mode\<rparr>"

definition SetReconciled :: "bool \<Rightarrow> 'v ExecEngine \<Rightarrow> 'v ExecEngine" where
  "SetReconciled v e = e\<lparr>xe_reconciled := v\<rparr>"

definition IsReconciled :: "'v ExecEngine \<Rightarrow> bool" where
  "IsReconciled e = xe_reconciled e"

definition OpenOrderCount :: "'v ExecEngine \<Rightarrow> nat" where
  "OpenOrderCount e = card (dom (xe_openOrders e))"


section \<open>Orders and their rows\<close>

text \<open>
  \<^verbatim>\<open>transitionOrder\<close> changes the record it is given (the caller keeps the pointer) and the row; an
  illegal transition changes neither. A failed UPDATE leaves the row behind the record.
\<close>

definition update_order_row :: "faults \<Rightarrow> OrderRecord \<Rightarrow> OrderRow list \<Rightarrow> OrderRow list" where
  "update_order_row flt rec rows =
     (if flt (Db ''execution.orders.update'' (r_InternalOrderID rec)) \<or> sint (r_FilledQuantity rec) < 0 then rows
      else sql_update (\<lambda>row. or_internal_order_id row = r_InternalOrderID rec)
        (\<lambda>row. row\<lparr>or_status := r_Status rec, or_filled_quantity := r_FilledQuantity rec,
           or_avg_fill_price_micros := Some (r_AvgFillPriceMicros rec),
           or_exchange_order_id := Some (r_ExchangeOrderID rec), or_submitted_at := r_SubmittedAt rec,
           or_last_fill_at := r_LastFillAt rec, or_completed_at := r_CompletedAt rec,
           or_acknowledged_at := r_AcknowledgedAt rec\<rparr>) rows)"

definition transition_record :: "time \<Rightarrow> OrderStatus \<Rightarrow> OrderRecord \<Rightarrow> OrderRecord" where
  "transition_record now newStatus rec =
     rec\<lparr>r_Status := newStatus,
         r_CompletedAt := (if OrderStatus_IsTerminal newStatus then Some now else r_CompletedAt rec)\<rparr>"

definition transitionOrder ::
  "faults \<Rightarrow> time \<Rightarrow> OrderStatus \<Rightarrow> OrderRecord \<Rightarrow> 'v ExecEngine \<Rightarrow> OrderRecord \<times> 'v ExecEngine" where
  "transitionOrder flt now newStatus rec e =
     (case ValidateTransition (r_Status rec) newStatus of
        Inl _ \<Rightarrow> (rec, e)
      | Inr _ \<Rightarrow> let rec = transition_record now newStatus rec
                  in (rec, e\<lparr>xe_orders := update_order_row flt rec (xe_orders e)\<rparr>))"

text \<open>A ledger update whose error the caller drops.\<close>

definition update_intent :: "faults \<Rightarrow> time \<Rightarrow> uuid \<Rightarrow> IntentStatus \<Rightarrow> 'v ExecEngine \<Rightarrow> 'v ExecEngine" where
  "update_intent flt now intentID status e =
     e\<lparr>xe_ledger := snd (UpdateStatus flt now intentID status (xe_ledger e))\<rparr>"

definition new_record :: "time \<Rightarrow> uuid \<Rightarrow> Approval \<Rightarrow> OrderRecord" where
  "new_record now internalID a =
     (let ord = a_Order a in
      \<lparr>r_InternalOrderID = internalID, r_TraceID = o_TraceID ord, r_StrategyID = o_StrategyID ord,
       r_Venue = o_Venue ord, r_MarketID = o_MarketID ord, r_Side = o_Side ord, r_Quantity = o_Quantity ord,
       r_PriceMicros = o_PriceMicros ord, r_NotionalMicros = o_NotionalMicros ord, r_ExchangeOrderID = [],
       r_Status = StatusPending, r_FilledQuantity = 0, r_AvgFillPriceMicros = 0, r_CredentialID = ''paper-mode'',
       r_SigningKeyID = [], r_ApprovalHMAC = a_HMACSignature a, r_PolicyConfigHash = a_PolicyConfigHash a,
       r_ProposedAt = o_ProposedAt ord, r_ApprovedAt = a_DecidedAt a, r_SubmittedAt = None, r_AcknowledgedAt = None,
       r_LastFillAt = None, r_CompletedAt = None, r_CreatedAt = now\<rparr>)"

definition order_idempotency_key :: "ProposedOrder \<Rightarrow> string" where
  "order_idempotency_key ord = o_TraceID ord @ '':'' @ IdempotencyKey ord"

definition new_row :: "uuid \<Rightarrow> Approval \<Rightarrow> OrderRow" where
  "new_row internalID a =
     (let ord = a_Order a in
      \<lparr>or_internal_order_id = internalID, or_trace_id = o_TraceID ord, or_strategy_id = o_StrategyID ord,
       or_venue = o_Venue ord, or_market_id = o_MarketID ord, or_side = o_Side ord, or_quantity = o_Quantity ord,
       or_price_micros = o_PriceMicros ord, or_notional_micros = o_NotionalMicros ord, or_exchange_order_id = None,
       or_status = StatusPending, or_filled_quantity = 0, or_avg_fill_price_micros = None,
       or_credential_id = ''paper-mode'', or_approval_hmac = a_HMACSignature a,
       or_policy_config_hash = a_PolicyConfigHash a, or_proposed_at = o_ProposedAt ord, or_approved_at = a_DecidedAt a,
       or_submitted_at = None, or_acknowledged_at = None, or_last_fill_at = None, or_completed_at = None,
       or_idempotency_key = order_idempotency_key ord\<rparr>)"

definition order_row_constraints :: "OrderRow \<Rightarrow> OrderRow list \<Rightarrow> bool" where
  "order_row_constraints row rows \<longleftrightarrow> or_side row \<in> {SideBuy, SideSell} \<and> 0 < sint (or_quantity row)
     \<and> 0 < sint (or_price_micros row) \<and> sint (or_price_micros row) < 1000000 \<and> 0 < sint (or_notional_micros row)
     \<and> or_internal_order_id row \<notin> set (map or_internal_order_id rows)
     \<and> or_idempotency_key row \<notin> set (map or_idempotency_key rows)"



section \<open>Submission\<close>

datatype submit_error =
    HMACVerificationFailed | NotApproved Decision | NotReconciled | SystemInMode string
  | RecordIntent ledger_error | PersistOrder | VenueSubmit venue_error

text \<open>Steps 1 to 3 of \<^verbatim>\<open>SubmitOrder\<close>.\<close>

definition submit_gate :: "(bytes \<Rightarrow> bytes \<Rightarrow> bytes) \<Rightarrow> Approval \<Rightarrow> 'v ExecEngine \<Rightarrow> (submit_error, unit) result" where
  "submit_gate hmac a e =
     (if \<not> VerifyApproval hmac a (xe_hmacKey e) then Inl HMACVerificationFailed
      else if a_Decision a \<noteq> DecisionApproved then Inl (NotApproved (a_Decision a))
      else if \<not> xe_reconciled e then Inl NotReconciled
      else if xe_systemMode e \<noteq> ''normal'' then Inl (SystemInMode (xe_systemMode e))
      else Inr ())"

text \<open>Step 6: the order goes to the venue and the acknowledgment is worked in.\<close>

definition submit_venue ::
  "Env \<Rightarrow> 'v VenueAdapter \<Rightarrow> faults \<Rightarrow> time \<Rightarrow> uuid \<Rightarrow> uuid \<Rightarrow> uuid \<Rightarrow> Approval \<Rightarrow> 'v ExecEngine
     \<Rightarrow> (submit_error, OrderRecord) result \<times> 'v ExecEngine" where
  "submit_venue env va flt now internalID intentID aid a e =
     (let ord = a_Order a; rec = new_record now internalID a;
          (r, v) = va_SubmitOrder va now ord internalID (xe_venue e);
          e = e\<lparr>xe_venue := v\<rparr> in
      case r of
        Inl err \<Rightarrow>
          let (rec, e) = transitionOrder flt now StatusFailed rec e
          in (Inl (VenueSubmit err), update_intent flt now intentID IntentRejected e)
      | Inr ack \<Rightarrow>
          let rec = rec\<lparr>r_ExchangeOrderID := ak_ExchangeOrderID ack, r_SubmittedAt := Some now\<rparr> in
          if ak_Status ack = ''rejected''
          then let (rec, e) = transitionOrder flt now StatusRejected rec e;
                   e = update_intent flt now intentID IntentRejected e
               in (Inr rec, e\<lparr>xe_auditor := LogWarn (env_hash env) flt aid now ''order.rejected'' (o_TraceID ord)
                     [(''reason'', JString (ak_RejectReason ack))] (xe_auditor e)\<rparr>)
          else let (rec, e) = transitionOrder flt now StatusOpen rec e;
                   e = update_intent flt now intentID IntentOpen e
               in (Inr rec,
                 e\<lparr>xe_openOrders := (xe_openOrders e)(internalID \<mapsto> rec),
                   xe_intentMap := (xe_intentMap e)(internalID \<mapsto> intentID),
                   xe_out := publish flt (SubjectOrderSubmitted @ ''.'' @ o_Venue ord)
                     (EvOrderSubmitted \<lparr>ose_TraceID = o_TraceID ord, ose_InternalOrderID = internalID,
                        ose_ExchangeOrderID = ak_ExchangeOrderID ack, ose_CredentialID = ''paper-mode'',
                        ose_Venue = o_Venue ord, ose_Timestamp = now\<rparr>) (xe_out e),
                   xe_auditor := LogInfo (env_hash env) flt aid now ''order.submitted'' (o_TraceID ord)
                     [(''internal_order_id'', JString internalID),
                      (''exchange_order_id'', JString (ak_ExchangeOrderID ack)),
                      (''venue'', JString (o_Venue ord)), (''market_id'', JString (o_MarketID ord))] (xe_auditor e)\<rparr>))"

definition Exec_SubmitOrder ::
  "Env \<Rightarrow> 'v VenueAdapter \<Rightarrow> faults \<Rightarrow> time \<Rightarrow> uuid \<Rightarrow> uuid \<Rightarrow> uuid \<Rightarrow> Approval \<Rightarrow> 'v ExecEngine
     \<Rightarrow> (submit_error, OrderRecord) result \<times> 'v ExecEngine" where
  "Exec_SubmitOrder env va flt now internalID newIntentID aid a e =
     (case submit_gate (env_hmac env) a e of Inl err \<Rightarrow> (Inl err, e)
      | Inr _ \<Rightarrow>
        (case Append flt newIntentID now (NewIntentFromApproval (a_Order a) (a_HMACSignature a))
                (xe_exposureLimits e) (xe_ledger e) of
           (Inl err, l) \<Rightarrow> (Inl (RecordIntent err), e\<lparr>xe_ledger := l\<rparr>)
         | (Inr intent, l) \<Rightarrow>
             let e = e\<lparr>xe_ledger := l\<rparr>; row = new_row internalID a in
             if flt (Db ''execution.orders.insert'' internalID) \<or> \<not> order_row_constraints row (xe_orders e)
             then (Inl PersistOrder, e)
             else submit_venue env va flt now internalID (i_IntentID intent) aid a (e\<lparr>xe_orders := xe_orders e @ [row]\<rparr>)))"


section \<open>Cancellation\<close>

datatype cancel_error = NotInOpenOrders string | VenueCancel venue_error

definition forget_order :: "string \<Rightarrow> 'v ExecEngine \<Rightarrow> 'v ExecEngine" where
  "forget_order k e = e\<lparr>xe_openOrders := (xe_openOrders e)(k := None), xe_intentMap := (xe_intentMap e)(k := None)\<rparr>"

definition settle_intent :: "faults \<Rightarrow> time \<Rightarrow> uuid option \<Rightarrow> IntentStatus \<Rightarrow> 'v ExecEngine \<Rightarrow> 'v ExecEngine" where
  "settle_intent flt now intentID status e =
     (case intentID of None \<Rightarrow> e | Some i \<Rightarrow> update_intent flt now i status e)"

definition Exec_CancelOrder ::
  "'v VenueAdapter \<Rightarrow> faults \<Rightarrow> time \<Rightarrow> string \<Rightarrow> string \<Rightarrow> string \<Rightarrow> 'v ExecEngine
     \<Rightarrow> (cancel_error, unit) result \<times> 'v ExecEngine" where
  "Exec_CancelOrder va flt now internalOrderID reason cancelledBy e =
     (case xe_openOrders e internalOrderID of
        None \<Rightarrow> (Inl (NotInOpenOrders internalOrderID), e)
      | Some rec \<Rightarrow>
          (case va_CancelOrder va (r_ExchangeOrderID rec) (xe_venue e) of
             (Inl err, v) \<Rightarrow> (Inl (VenueCancel err), e\<lparr>xe_venue := v\<rparr>)
           | (Inr _, v) \<Rightarrow>
               let (rec, e) = transitionOrder flt now StatusCancelled rec (e\<lparr>xe_venue := v\<rparr>);
                   intentID = xe_intentMap e internalOrderID;
                   e = settle_intent flt now intentID IntentCancelled (forget_order internalOrderID e)
               in (Inr (), e\<lparr>xe_out := publish flt (SubjectOrderCancelled @ ''.'' @ r_Venue rec)
                     (EvOrderCancelled \<lparr>oce_TraceID = r_TraceID rec, oce_InternalOrderID = internalOrderID,
                        oce_Reason = reason, oce_CancelledBy = cancelledBy, oce_Timestamp = now\<rparr>) (xe_out e)\<rparr>)))"

definition cancel_open :: "faults \<Rightarrow> time \<Rightarrow> 'v ExecEngine \<Rightarrow> string \<Rightarrow> 'v ExecEngine" where
  "cancel_open flt now e k =
     (case xe_openOrders e k of None \<Rightarrow> e
      | Some rec \<Rightarrow>
          let (rec, e) = transitionOrder flt now StatusCancelled rec e
          in forget_order k (settle_intent flt now (xe_intentMap e k) IntentCancelled e))"

definition Exec_CancelAll ::
  "Env \<Rightarrow> 'v VenueAdapter \<Rightarrow> faults \<Rightarrow> time \<Rightarrow> uuid \<Rightarrow> string list \<Rightarrow> string \<Rightarrow> string \<Rightarrow> 'v ExecEngine
     \<Rightarrow> (int \<times> venue_error option) \<times> 'v ExecEngine" where
  "Exec_CancelAll env va flt now aid ks reason cancelledBy e =
     (let (n, err, v) = va_CancelAll va (xe_venue e);
          e = foldl (cancel_open flt now) (e\<lparr>xe_venue := v\<rparr>) ks
      in ((n, err), e\<lparr>xe_auditor := LogCritical (env_hash env) flt aid now ''order.cancel_all'' []
            [(''reason'', JString reason), (''cancelled_by'', JString cancelledBy), (''count'', JInt n)] (xe_auditor e)\<rparr>))"


section \<open>Fills\<close>

definition find_by_exchange_id :: "string list \<Rightarrow> string \<Rightarrow> 'v ExecEngine \<Rightarrow> OrderRecord option" where
  "find_by_exchange_id ks exchangeOrderID e =
     (case find (\<lambda>k. case xe_openOrders e k of None \<Rightarrow> False | Some r \<Rightarrow> r_ExchangeOrderID r = exchangeOrderID) ks of
        None \<Rightarrow> None | Some k \<Rightarrow> xe_openOrders e k)"

definition fill_record :: "time \<Rightarrow> ExchangeFill \<Rightarrow> OrderRecord \<Rightarrow> OrderRecord" where
  "fill_record now f rec =
     rec\<lparr>r_FilledQuantity := r_FilledQuantity rec + ef_Quantity f, r_AvgFillPriceMicros := ef_PriceMicros f,
         r_LastFillAt := Some now\<rparr>"

definition fill_report :: "ExchangeFill \<Rightarrow> OrderRecord \<Rightarrow> FillReport" where
  "fill_report f rec =
     \<lparr>fr_TraceID = r_TraceID rec, fr_InternalOrderID = r_InternalOrderID rec, fr_StrategyID = r_StrategyID rec,
      fr_Venue = r_Venue rec, fr_MarketID = r_MarketID rec, fr_Side = r_Side rec, fr_Quantity = ef_Quantity f,
      fr_PriceMicros = ef_PriceMicros f\<rparr>"

definition settle_fill :: "faults \<Rightarrow> time \<Rightarrow> OrderRecord \<Rightarrow> 'v ExecEngine \<Rightarrow> OrderRecord \<times> 'v ExecEngine" where
  "settle_fill flt now rec e =
     (let k = r_InternalOrderID rec in
      if sint (r_Quantity rec) \<le> sint (r_FilledQuantity rec)
      then let (rec, e) = transitionOrder flt now StatusFilled rec e
           in (rec, settle_intent flt now (xe_intentMap e k) IntentFilled (forget_order k e))
      else let (rec, e) = transitionOrder flt now StatusPartiallyFilled rec e
           in (rec, e\<lparr>xe_openOrders := (xe_openOrders e)(k \<mapsto> rec)\<rparr>))"

text \<open>
  The callback of \<^verbatim>\<open>cmd/execution-engine\<close> calls the risk engine once. When the call fails it logs the error and returns it
  to \<open>processFill\<close>, which ignores it: the report is not made again. \<open>xe_reports\<close> holds the reports, each with whether its
  call succeeded.
\<close>

definition report_fill :: "faults \<Rightarrow> uuid \<Rightarrow> FillReport \<Rightarrow> bool \<times> FillReport" where
  "report_fill flt fillID r = (\<not> flt (Rpc ''RiskEngine.ReportFill'' fillID), r)"

text \<open>\<open>fillID\<close> is the new row's id.\<close>

definition processFill :: "faults \<Rightarrow> time \<Rightarrow> uuid \<Rightarrow> string list \<Rightarrow> ExchangeFill \<Rightarrow> 'v ExecEngine \<Rightarrow> 'v ExecEngine" where
  "processFill flt now fillID ks f e =
     (case find_by_exchange_id ks (ef_ExchangeOrderID f) e of
        None \<Rightarrow> e
      | Some rec \<Rightarrow>
          if flt (Db ''execution.fills'' fillID) \<or> sint (ef_Quantity f) \<le> 0 \<or> sint (ef_PriceMicros f) \<le> 0
             \<or> fillID \<in> set (map fl_FillID (xe_fills e))
             \<or> r_InternalOrderID rec \<notin> set (map or_internal_order_id (xe_orders e))
          then e
          else let row = \<lparr>fl_FillID = fillID, fl_InternalOrderID = r_InternalOrderID rec, fl_ExchangeFillID = ef_FillID f,
                          fl_Quantity = ef_Quantity f, fl_PriceMicros = ef_PriceMicros f, fl_FeeMicros = ef_FeeMicros f,
                          fl_FilledAt = ef_FilledAt f\<rparr>;
                   (rec, e) = settle_fill flt now (fill_record now f rec) (e\<lparr>xe_fills := xe_fills e @ [row]\<rparr>)
               in e\<lparr>xe_reports := xe_reports e @ [report_fill flt fillID (fill_report f rec)],
                    xe_out := publish flt (SubjectOrderFilled @ ''.'' @ r_Venue rec)
                      (EvOrderFilled \<lparr>ofe_TraceID = r_TraceID rec, ofe_InternalOrderID = r_InternalOrderID rec,
                         ofe_ExchangeOrderID = ef_ExchangeOrderID f, ofe_FilledQuantity = ef_Quantity f,
                         ofe_AveragePriceMicros = ef_PriceMicros f,
                         ofe_RemainingQuantity = r_Quantity rec - r_FilledQuantity rec,
                         ofe_Timestamp = ef_FilledAt f\<rparr>) (xe_out e)\<rparr>)"

text \<open>\<open>visit\<close> chooses the order in which the map of open orders is searched, \<open>ids\<close> names the new rows.\<close>

fun process_fills :: "faults \<Rightarrow> time \<Rightarrow> (nat \<Rightarrow> uuid) \<Rightarrow> ('v ExecEngine \<Rightarrow> string list) \<Rightarrow> ExchangeFill list \<Rightarrow> 'v ExecEngine \<Rightarrow> 'v ExecEngine" where
  "process_fills flt now ids visit [] e = e"
| "process_fills flt now ids visit (f # fs) e =
     process_fills flt now (\<lambda>n. ids (Suc n)) visit fs (processFill flt now (ids 0) (visit e) f e)"

definition Exec_PollFills ::
  "'v VenueAdapter \<Rightarrow> faults \<Rightarrow> time \<Rightarrow> time \<Rightarrow> (nat \<Rightarrow> uuid) \<Rightarrow> ('v ExecEngine \<Rightarrow> string list) \<Rightarrow> 'v ExecEngine
     \<Rightarrow> (venue_error, unit) result \<times> 'v ExecEngine" where
  "Exec_PollFills va flt now since ids visit e =
     (case va_PollFills va since (xe_venue e) of
        Inl err \<Rightarrow> (Inl err, e)
      | Inr fs \<Rightarrow> (Inr (), process_fills flt now ids visit fs e))"



section \<open>Recovery\<close>

text \<open>
  \<^verbatim>\<open>LoadOpenOrders\<close> scans the columns into a Go struct; \<^verbatim>\<open>exchange_order_id\<close> is scanned into a string, which
  fails on NULL. The fields the query does not select keep Go's zero values.
\<close>

definition scan_order :: "OrderRow \<Rightarrow> OrderRecord option" where
  "scan_order row =
     (case or_exchange_order_id row of None \<Rightarrow> None
      | Some exchangeID \<Rightarrow> Some
          \<lparr>r_InternalOrderID = or_internal_order_id row, r_TraceID = or_trace_id row, r_StrategyID = or_strategy_id row,
           r_Venue = or_venue row, r_MarketID = or_market_id row, r_Side = or_side row, r_Quantity = or_quantity row,
           r_PriceMicros = or_price_micros row, r_NotionalMicros = or_notional_micros row,
           r_ExchangeOrderID = exchangeID, r_Status = or_status row, r_FilledQuantity = or_filled_quantity row,
           r_AvgFillPriceMicros = 0, r_CredentialID = or_credential_id row, r_SigningKeyID = [],
           r_ApprovalHMAC = or_approval_hmac row, r_PolicyConfigHash = or_policy_config_hash row,
           r_ProposedAt = or_proposed_at row, r_ApprovedAt = or_approved_at row, r_SubmittedAt = None,
           r_AcknowledgedAt = None, r_LastFillAt = None, r_CompletedAt = None, r_CreatedAt = zero_time\<rparr>)"

datatype recover_error = LoadOpenOrdersQuery | ScanOrder uuid | ReplayLedger ledger_error

fun scan_orders :: "OrderRow list \<Rightarrow> 'v ExecEngine \<Rightarrow> (recover_error, unit) result \<times> 'v ExecEngine" where
  "scan_orders [] e = (Inr (), e)"
| "scan_orders (row # rows) e =
     (case scan_order row of None \<Rightarrow> (Inl (ScanOrder (or_internal_order_id row)), e)
      | Some rec \<Rightarrow> scan_orders rows (e\<lparr>xe_openOrders := (xe_openOrders e)(r_InternalOrderID rec \<mapsto> rec)\<rparr>))"

definition load_intent :: "faults \<Rightarrow> 'v ExecEngine \<Rightarrow> string \<Rightarrow> 'v ExecEngine" where
  "load_intent flt e k =
     (case xe_openOrders e k of None \<Rightarrow> e
      | Some rec \<Rightarrow>
          (case GetByTraceID flt (r_TraceID rec) (xe_ledger e) of
             Inr (Some intent) \<Rightarrow> e\<lparr>xe_intentMap := (xe_intentMap e)(r_InternalOrderID rec \<mapsto> i_IntentID intent)\<rparr>
           | _ \<Rightarrow> e))"

definition LoadOpenOrders :: "faults \<Rightarrow> ('v ExecEngine \<Rightarrow> string list) \<Rightarrow> 'v ExecEngine \<Rightarrow> (recover_error, unit) result \<times> 'v ExecEngine" where
  "LoadOpenOrders flt visit e =
     (if flt (Db ''execution.orders.select'' []) then (Inl LoadOpenOrdersQuery, e)
      else case scan_orders (filter (\<lambda>row. or_status row \<in> {StatusPending, StatusOpen, StatusPartiallyFilled}) (xe_orders e)) e of
        (Inl err, e) \<Rightarrow> (Inl err, e)
      | (Inr _, e) \<Rightarrow> (Inr (), foldl (load_intent flt) e (visit e)))"

definition ReplayIntentLedger :: "faults \<Rightarrow> 'v ExecEngine \<Rightarrow> (ledger_error, ExposureState) result" where
  "ReplayIntentLedger flt e =
     (case ReplayAll flt (xe_ledger e) of Inl err \<Rightarrow> Inl err | Inr intents \<Rightarrow> Inr (ReplayFromIntents intents))"

text \<open>The cross-check of \<^verbatim>\<open>RecoverFull\<close> only logs a warning.\<close>

definition RecoverFull :: "faults \<Rightarrow> ('v ExecEngine \<Rightarrow> string list) \<Rightarrow> 'v ExecEngine \<Rightarrow> (recover_error, unit) result \<times> 'v ExecEngine" where
  "RecoverFull flt visit e =
     (case LoadOpenOrders flt visit e of
        (Inl err, e) \<Rightarrow> (Inl err, e)
      | (Inr _, e) \<Rightarrow>
          (case ReplayIntentLedger flt e of Inl err \<Rightarrow> (Inl (ReplayLedger err), e) | Inr exposure \<Rightarrow> (Inr (), e)))"


section \<open>The gRPC surface and the loops of main\<close>

definition GRPC_SubmitOrder ::
  "Env \<Rightarrow> 'v VenueAdapter \<Rightarrow> faults \<Rightarrow> time \<Rightarrow> uuid \<Rightarrow> uuid \<Rightarrow> uuid \<Rightarrow> pb_SignedApproval option \<Rightarrow> 'v ExecEngine
     \<Rightarrow> (grpc_error, pb_OrderRecord) result \<times> 'v ExecEngine" where
  "GRPC_SubmitOrder env va flt now internalID newIntentID aid req e =
     (case req of None \<Rightarrow> (Inl (InvalidArgument ''signed approval is required''), e)
      | Some p \<Rightarrow>
          (case Exec_SubmitOrder env va flt now internalID newIntentID aid (approvalFromProto p) e of
             (Inl err, e) \<Rightarrow> (Inl (Internal ''submit order''), e)
           | (Inr rec, e) \<Rightarrow> (Inr (OrderRecordToProto rec), e)))"

definition GRPC_CancelOrder ::
  "'v VenueAdapter \<Rightarrow> faults \<Rightarrow> time \<Rightarrow> string \<Rightarrow> string \<Rightarrow> string \<Rightarrow> 'v ExecEngine \<Rightarrow> bool \<times> 'v ExecEngine" where
  "GRPC_CancelOrder va flt now internalOrderID reason cancelledBy e =
     (case Exec_CancelOrder va flt now internalOrderID reason cancelledBy e of
        (Inl _, e) \<Rightarrow> (False, e) | (Inr _, e) \<Rightarrow> (True, e))"

text \<open>The response: cancelled count (truncated to 32 bits) and failed count.\<close>

definition GRPC_CancelAll ::
  "Env \<Rightarrow> 'v VenueAdapter \<Rightarrow> faults \<Rightarrow> time \<Rightarrow> uuid \<Rightarrow> string list \<Rightarrow> string \<Rightarrow> string \<Rightarrow> 'v ExecEngine
     \<Rightarrow> (int32 \<times> int32) \<times> 'v ExecEngine" where
  "GRPC_CancelAll env va flt now aid ks reason cancelledBy e =
     (case Exec_CancelAll env va flt now aid ks reason cancelledBy e of
        ((n, err), e) \<Rightarrow> ((word_of_int n, if err = None then 0 else 1), e))"

definition row_to_proto :: "OrderRow \<Rightarrow> pb_OrderRecord option" where
  "row_to_proto row =
     (case (or_exchange_order_id row, or_avg_fill_price_micros row) of
        (Some exchangeID, Some avg) \<Rightarrow> Some
          \<lparr>pr_TraceId = or_trace_id row, pr_InternalOrderId = or_internal_order_id row, pr_ExchangeOrderId = exchangeID,
           pr_Status = OrderStatusToProto (or_status row), pr_FilledQuantity = or_filled_quantity row,
           pr_AvgFillPriceMicros = avg, pr_CredentialId = or_credential_id row, pr_SigningKeyId = [],
           pr_Proposed = \<lparr>po_TraceId = or_trace_id row, po_StrategyId = or_strategy_id row,
              po_Market = Some \<lparr>pm_Venue = VenueToProto (or_venue row), pm_MarketId = or_market_id row\<rparr>,
              po_Side = SideToProto (or_side row), po_OrderType = ORDER_TYPE_LIMIT, po_Quantity = or_quantity row,
              po_PriceMicros = or_price_micros row, po_NotionalMicros = or_notional_micros row,
              po_ProposedAt = Some (timestamppb_New (or_proposed_at row))\<rparr>,
           pr_SubmittedAt = map_option timestamppb_New (or_submitted_at row)\<rparr>
      | _ \<Rightarrow> None)"

text \<open>A NULL in a scanned column fails the whole call; the ties of \<^verbatim>\<open>ORDER BY\<close> are taken in table order.\<close>

definition GetOrders :: "faults \<Rightarrow> string list \<Rightarrow> string \<Rightarrow> int32 \<Rightarrow> 'v ExecEngine \<Rightarrow> (grpc_error, pb_OrderRecord list) result" where
  "GetOrders flt statuses strategyID limit e =
     (let lim = (if sint limit \<le> 0 then 100 else sint limit);
          rows = filter (\<lambda>row. (statuses = [] \<or> or_status row \<in> set statuses)
                   \<and> (strategyID = [] \<or> or_strategy_id row = strategyID)) (xe_orders e);
          rows = take (nat lim) (sort_key (\<lambda>row. - or_proposed_at row) rows);
          ps = map row_to_proto rows in
      if flt (Db ''execution.orders.select'' ''list'') then Inl (Internal ''query orders'')
      else if None \<in> set ps then Inl (Internal ''scan order'')
      else Inr (map the ps))"

record OrderSummary =
  os_Pending :: nat
  os_Open :: nat
  os_PartiallyFilled :: nat
  os_FilledToday :: nat
  os_CancelledToday :: nat
  os_RejectedToday :: nat

definition GetOrderSummary :: "faults \<Rightarrow> time \<Rightarrow> 'v ExecEngine \<Rightarrow> (grpc_error, OrderSummary) result" where
  "GetOrderSummary flt now e =
     (let status = (\<lambda>s. length (filter (\<lambda>row. or_status row = s) (xe_orders e)));
          today = (\<lambda>s. length (filter (\<lambda>row. or_status row = s \<and> utc_date (or_proposed_at row) = utc_date now) (xe_orders e))) in
      if flt (Db ''execution.orders.select'' ''summary'') then Inl (Internal ''query order summary'')
      else Inr \<lparr>os_Pending = status StatusPending, os_Open = status StatusOpen,
                os_PartiallyFilled = status StatusPartiallyFilled, os_FilledToday = today StatusFilled,
                os_CancelledToday = today StatusCancelled, os_RejectedToday = today StatusRejected\<rparr>)"

text \<open>One tick of \<^verbatim>\<open>runFillPoller\<close>: \<open>lastPoll\<close> moves to the start of the poll when it succeeded.\<close>

definition fill_poll_tick ::
  "'v VenueAdapter \<Rightarrow> faults \<Rightarrow> time \<Rightarrow> (nat \<Rightarrow> uuid) \<Rightarrow> ('v ExecEngine \<Rightarrow> string list) \<Rightarrow> time \<times> 'v ExecEngine \<Rightarrow> time \<times> 'v ExecEngine" where
  "fill_poll_tick va flt pollStart ids visit st =
     (case st of (lastPoll, e) \<Rightarrow>
        (case Exec_PollFills va flt pollStart lastPoll ids visit e of
           (Inl _, e) \<Rightarrow> (lastPoll, e) | (Inr _, e) \<Rightarrow> (pollStart, e)))"

text \<open>One tick of \<^verbatim>\<open>runHeartbeatLoop\<close>: the mode in the response (none when the call fails) is adopted.\<close>

definition heartbeat_tick :: "string option \<Rightarrow> 'v ExecEngine \<Rightarrow> 'v ExecEngine" where
  "heartbeat_tick response e =
     (case response of None \<Rightarrow> e | Some mode \<Rightarrow> if mode \<noteq> [] then Exec_SetSystemMode mode e else e)"

text \<open>The outcome of the startup reconciliation in \<^verbatim>\<open>cmd/execution-engine/main.go\<close>; an error exits.\<close>

definition startup_reconciled :: "bool \<Rightarrow> 'v ExecEngine \<Rightarrow> 'v ExecEngine" where
  "startup_reconciled consistent e = (if consistent then SetReconciled True e else SetReconciled True e)"

end
