(* ===== verification/Execution_Safety.thy ===== *)
theory Execution_Safety
  imports Execution_Engine
begin

text \<open>
  What the execution engine guarantees: nothing reaches the venue unless the gates of \<^verbatim>\<open>SubmitOrder\<close> are
  passed and the intent and the order are on record; an approval is executed once; every open order
  is covered by an outstanding intent of its own, so that the exposure envelope of the ledger bounds
  the open orders; cancel-all empties the books; and how fills and recovery work.
\<close>

section \<open>What the small operations leave alone\<close>

lemma transitionOrder_eq:
  "transitionOrder flt now st rec e =
     (if order_step (r_Status rec) st
      then (transition_record now st rec,
            e\<lparr>xe_orders := update_order_row flt (transition_record now st rec) (xe_orders e)\<rparr>)
      else (rec, e))"
  by (rule ValidateTransition_cases [of "r_Status rec" st]) (simp_all add: transitionOrder_def Let_def)

lemma update_order_row_ids [simp]:
  "map or_internal_order_id (update_order_row flt rec rows) = map or_internal_order_id rows"
  "map or_trace_id (update_order_row flt rec rows) = map or_trace_id rows"
  "map or_idempotency_key (update_order_row flt rec rows) = map or_idempotency_key rows"
  by (simp_all add: update_order_row_def sql_update_column)

lemma set_or_trace [simp]:
  "or_trace_id ` set (update_order_row flt rec rows) = or_trace_id ` set rows"
  "or_internal_order_id ` set (update_order_row flt rec rows) = or_internal_order_id ` set rows"
  "or_idempotency_key ` set (update_order_row flt rec rows) = or_idempotency_key ` set rows"
  using update_order_row_ids [of flt rec rows] by (metis list.set_map)+

text \<open>\<open>transitionOrder\<close>, \<open>update_intent\<close>, \<open>settle_intent\<close> and \<open>forget_order\<close>, field by field.\<close>

lemma transitionOrder_keeps [simp]:
  "xe_venue (snd (transitionOrder flt now st rec e)) = xe_venue e"
  "xe_ledger (snd (transitionOrder flt now st rec e)) = xe_ledger e"
  "xe_openOrders (snd (transitionOrder flt now st rec e)) = xe_openOrders e"
  "xe_intentMap (snd (transitionOrder flt now st rec e)) = xe_intentMap e"
  "xe_exposureLimits (snd (transitionOrder flt now st rec e)) = xe_exposureLimits e"
  "xe_out (snd (transitionOrder flt now st rec e)) = xe_out e"
  "xe_fills (snd (transitionOrder flt now st rec e)) = xe_fills e"
  "xe_reports (snd (transitionOrder flt now st rec e)) = xe_reports e"
  "xe_auditor (snd (transitionOrder flt now st rec e)) = xe_auditor e"
  "map or_internal_order_id (xe_orders (snd (transitionOrder flt now st rec e))) = map or_internal_order_id (xe_orders e)"
  "map or_trace_id (xe_orders (snd (transitionOrder flt now st rec e))) = map or_trace_id (xe_orders e)"
  "map or_idempotency_key (xe_orders (snd (transitionOrder flt now st rec e))) = map or_idempotency_key (xe_orders e)"
  by (simp_all add: transitionOrder_eq)

lemma transitionOrder_rec [simp]:
  "r_InternalOrderID (fst (transitionOrder flt now st rec e)) = r_InternalOrderID rec"
  "r_TraceID (fst (transitionOrder flt now st rec e)) = r_TraceID rec"
  "r_MarketID (fst (transitionOrder flt now st rec e)) = r_MarketID rec"
  "r_Side (fst (transitionOrder flt now st rec e)) = r_Side rec"
  "r_Quantity (fst (transitionOrder flt now st rec e)) = r_Quantity rec"
  "r_NotionalMicros (fst (transitionOrder flt now st rec e)) = r_NotionalMicros rec"
  "r_FilledQuantity (fst (transitionOrder flt now st rec e)) = r_FilledQuantity rec"
  by (simp_all add: transitionOrder_eq transition_record_def)

lemma settle_intent_keeps [simp]:
  "xe_venue (settle_intent flt now i st e) = xe_venue e" "xe_orders (settle_intent flt now i st e) = xe_orders e"
  "xe_openOrders (settle_intent flt now i st e) = xe_openOrders e" "xe_intentMap (settle_intent flt now i st e) = xe_intentMap e"
  "xe_exposureLimits (settle_intent flt now i st e) = xe_exposureLimits e"
  "xe_out (settle_intent flt now i st e) = xe_out e" "xe_fills (settle_intent flt now i st e) = xe_fills e"
  "xe_reports (settle_intent flt now i st e) = xe_reports e"
  by (simp_all add: settle_intent_def update_intent_def split: option.split)

lemma forget_order_keeps [simp]:
  "xe_venue (forget_order k e) = xe_venue e" "xe_orders (forget_order k e) = xe_orders e" "xe_ledger (forget_order k e) = xe_ledger e"
  "xe_exposureLimits (forget_order k e) = xe_exposureLimits e"
  "xe_openOrders (forget_order k e) = (xe_openOrders e)(k := None)"
  "xe_intentMap (forget_order k e) = (xe_intentMap e)(k := None)"
  "xe_fills (forget_order k e) = xe_fills e" "xe_reports (forget_order k e) = xe_reports e"
  by (simp_all add: forget_order_def)

lemma update_intent_as_settle: "update_intent flt now i st e = settle_intent flt now (Some i) st e"
  by (simp add: settle_intent_def)


section \<open>Gates\<close>

lemma submit_gate_ok:
  "submit_gate hmac a e = Inr () \<longleftrightarrow>
     VerifyApproval hmac a (xe_hmacKey e) \<and> a_Decision a = DecisionApproved \<and> xe_reconciled e \<and> xe_systemMode e = ''normal''"
  by (simp add: submit_gate_def)

lemma submit_venue_rows:
  "map or_internal_order_id (xe_orders (snd (submit_venue env va flt now internalID i aid a e))) = map or_internal_order_id (xe_orders e)"
  "map or_trace_id (xe_orders (snd (submit_venue env va flt now internalID i aid a e))) = map or_trace_id (xe_orders e)"
  "map or_idempotency_key (xe_orders (snd (submit_venue env va flt now internalID i aid a e))) = map or_idempotency_key (xe_orders e)"
  by (simp_all add: submit_venue_def Let_def split_beta update_intent_as_settle split: sum.split)

lemma submit_venue_result:
  "fst (submit_venue env va flt now internalID i aid a e) = Inl err \<Longrightarrow> \<exists>v. err = VenueSubmit v"
  by (auto simp: submit_venue_def Let_def split_beta split: sum.splits if_splits)

lemma ledger_of_settle:
  "map i_TraceID (ld_rows (xe_ledger (settle_intent flt now i st e))) = map i_TraceID (ld_rows (xe_ledger e))"
proof -
  have "map i_TraceID (ld_rows (snd (UpdateStatus flt now j st l))) = map i_TraceID (ld_rows l)" for j l
    by (simp add: UpdateStatus_def Let_def sql_update_column)
  then show ?thesis by (simp add: settle_intent_def update_intent_def split: option.split)
qed

lemma submit_venue_traces:
  "map i_TraceID (ld_rows (xe_ledger (snd (submit_venue env va flt now internalID i aid a e)))) = map i_TraceID (ld_rows (xe_ledger e))"
  by (simp add: submit_venue_def Let_def split_beta update_intent_as_settle ledger_of_settle split: sum.split)

lemma Append_result_recorded:
  assumes "Append flt newID now i limits l = (Inr rec, l')"
  shows "rec \<in> set (ld_rows l')" and "i_TraceID rec = i_TraceID i" and "set (ld_rows l) \<subseteq> set (ld_rows l')"
proof -
  show "rec \<in> set (ld_rows l')" and "i_TraceID rec = i_TraceID i" and "set (ld_rows l) \<subseteq> set (ld_rows l')"
    using assms
    by (auto simp: Append_def append_insert_def append_check_def GetByTraceID_def Let_def find_Some_iff
        split: sum.splits option.splits if_splits)
qed


text \<open>The three ways \<^verbatim>\<open>SubmitOrder\<close> can go: stopped before the ledger, after it, or handed to the venue.\<close>

lemma Exec_SubmitOrder_cases:
  obtains (gate) err where "submit_gate (env_hmac env) a e = Inl err"
      "Exec_SubmitOrder env va flt now internalID newIntentID aid a e = (Inl err, e)"
  | (recorded) err l where "submit_gate (env_hmac env) a e = Inr ()" "\<forall>v. err \<noteq> VenueSubmit v"
      "l = snd (Append flt newIntentID now (NewIntentFromApproval (a_Order a) (a_HMACSignature a)) (xe_exposureLimits e) (xe_ledger e))"
      "Exec_SubmitOrder env va flt now internalID newIntentID aid a e = (Inl err, e\<lparr>xe_ledger := l\<rparr>)"
  | (venue) intent l where "submit_gate (env_hmac env) a e = Inr ()"
      "Append flt newIntentID now (NewIntentFromApproval (a_Order a) (a_HMACSignature a)) (xe_exposureLimits e) (xe_ledger e) = (Inr intent, l)"
      "order_row_constraints (new_row internalID a) (xe_orders e)"
      "Exec_SubmitOrder env va flt now internalID newIntentID aid a e =
         submit_venue env va flt now internalID (i_IntentID intent) aid a
           (e\<lparr>xe_ledger := l, xe_orders := xe_orders e @ [new_row internalID a]\<rparr>)"
proof -
  let ?ap = "Append flt newIntentID now (NewIntentFromApproval (a_Order a) (a_HMACSignature a)) (xe_exposureLimits e) (xe_ledger e)"
  consider err where "submit_gate (env_hmac env) a e = Inl err"
    | err l where "submit_gate (env_hmac env) a e = Inr ()" "?ap = (Inl err, l)"
    | intent l where "submit_gate (env_hmac env) a e = Inr ()" "?ap = (Inr intent, l)"
    by (cases "submit_gate (env_hmac env) a e"; cases ?ap; cases "fst ?ap") auto
  then show thesis
  proof cases
    case (1 err)
    then show thesis by (intro gate) (simp_all add: Exec_SubmitOrder_def)
  next
    case (2 err l)
    then show thesis by (intro recorded [of "RecordIntent err" l]) (simp_all add: Exec_SubmitOrder_def)
  next
    case (3 intent l)
    show thesis
    proof (cases "flt (Db ''execution.orders.insert'' internalID) \<or> \<not> order_row_constraints (new_row internalID a) (xe_orders e)")
      case True
      then show thesis
        using 3 by (intro recorded [of PersistOrder l]) (auto simp: Exec_SubmitOrder_def)
    next
      case False
      then show thesis using 3 by (intro venue [of intent l]) (simp_all add: Exec_SubmitOrder_def)
    qed
  qed
qed

text \<open>
  C2: Nothing reaches the venue without approval and record. For every venue and every pattern of
  database failures, if \<^verbatim>\<open>SubmitOrder\<close> got as far as the venue (it returned an order, or the venue's
  error), then the approval's signature verified under the engine's key, its decision was
  approved, startup reconciliation was done and the system was in normal mode; and the intent (under
  the order's trace id) and the order row are on record afterwards. If it did not get that far, the
  venue's state is untouched; and if a gate stopped it, nothing at all changed.
\<close>

theorem submit_protects_venue:
  assumes run: "Exec_SubmitOrder env va flt now internalID newIntentID aid a e = (res, e')"
  shows "((\<exists>rec. res = Inr rec) \<or> (\<exists>v. res = Inl (VenueSubmit v)) \<longrightarrow>
            VerifyApproval (env_hmac env) a (xe_hmacKey e) \<and> a_Decision a = DecisionApproved
            \<and> xe_reconciled e \<and> xe_systemMode e = ''normal''
            \<and> o_TraceID (a_Order a) \<in> set (map i_TraceID (ld_rows (xe_ledger e')))
            \<and> internalID \<in> set (map or_internal_order_id (xe_orders e')))
    \<and> ((\<nexists>rec. res = Inr rec) \<and> (\<nexists>v. res = Inl (VenueSubmit v)) \<longrightarrow> xe_venue e' = xe_venue e \<and> xe_orders e' = xe_orders e)
    \<and> (submit_gate (env_hmac env) a e \<noteq> Inr () \<longrightarrow> e' = e)"
proof (cases rule: Exec_SubmitOrder_cases [of env a e va flt now internalID newIntentID aid])
  case (gate err)
  then have "\<forall>v. err \<noteq> VenueSubmit v" by (auto simp: submit_gate_def split: if_splits)
  with gate run show ?thesis by auto
next
  case (recorded err l)
  then show ?thesis using run by auto
next
  case (venue intent l)
  note sv = venue(4) [unfolded run, symmetric]
  have "set (map i_TraceID (ld_rows (xe_ledger e'))) = set (map i_TraceID (ld_rows l))"
    using submit_venue_traces [of env va flt now internalID "i_IntentID intent" aid a
        "e\<lparr>xe_ledger := l, xe_orders := xe_orders e @ [new_row internalID a]\<rparr>"] sv by simp
  moreover have "o_TraceID (a_Order a) \<in> set (map i_TraceID (ld_rows l))"
    using Append_result_recorded [OF venue(2)] by (auto simp: NewIntentFromApproval_def rev_image_eqI)
  moreover have "internalID \<in> set (map or_internal_order_id (xe_orders e'))"
  proof -
    have "map or_internal_order_id (xe_orders e') = map or_internal_order_id (xe_orders e @ [new_row internalID a])"
      using submit_venue_rows(1) [of env va flt now internalID "i_IntentID intent" aid a
        "e\<lparr>xe_ledger := l, xe_orders := xe_orders e @ [new_row internalID a]\<rparr>"] sv by simp
    then show ?thesis by (simp add: new_row_def Let_def)
  qed
  moreover have "(\<exists>rec. res = Inr rec) \<or> (\<exists>v. res = Inl (VenueSubmit v))"
    using submit_venue_result sv by (metis fst_conv sum.exhaust)
  moreover have gates: "VerifyApproval (env_hmac env) a (xe_hmacKey e) \<and> a_Decision a = DecisionApproved
      \<and> xe_reconciled e \<and> xe_systemMode e = ''normal''"
    using venue(1) by (simp only: submit_gate_ok)
  ultimately show ?thesis using venue(1) by (simp only: list.set_map) blast
qed


definition sample_exec :: "MockServer ExecEngine" where
  "sample_exec = (NewExecEngine (NewServer DefaultConfig (\<lambda>_. Fin (1 / 4))) [1, 2, 3] NewLedger sample_limits [] [])\<lparr>xe_reconciled := True\<rparr>"

definition sample_approval :: Approval where
  "sample_approval = decide sample_env 7000000000 7000000001 sample_order sample_engine"

lemma sample_approval_fields:
  "a_Order sample_approval = sample_order" "a_Decision sample_approval = DecisionApproved"
  "VerifyApproval (env_hmac sample_env) sample_approval [1, 2, 3]"
proof -
  have "order_permitted 7000000000 sample_order sample_state sample_policy"
    unfolding order_permitted_def using sample_permitted by blast
  then have "\<forall>r \<in> set (RunAllChecks 7000000000 sample_order sample_state sample_policy). c_Passed r"
    using all_passed_iff_permitted [OF sample_well_formed sample_in_range, of 7000000000]
    by (simp add: State_Now_def sample_state_def NewEmptyState_def)
  then show "a_Decision sample_approval = DecisionApproved"
    by (simp add: sample_approval_def decide_decision sample_engine_def NewEngine_def)
  show "a_Order sample_approval = sample_order" by (simp add: sample_approval_def)
  show "VerifyApproval (env_hmac sample_env) sample_approval [1, 2, 3]"
    by (simp add: sample_approval_def VerifyApproval_def decide_signature sample_engine_def NewEngine_def)
qed

lemma sample_signature: "a_HMACSignature sample_approval \<noteq> []"
  by (simp add: sample_approval_def decide_signature sample_engine_def NewEngine_def sample_env_def)

lemma sample_gate: "submit_gate (env_hmac sample_env) sample_approval sample_exec = Inr ()"
  unfolding submit_gate_ok by (simp add: sample_approval_fields sample_exec_def NewExecEngine_def)

lemma sample_exec_append:
  "Append no_faults ''i1'' 8 (NewIntentFromApproval sample_order (a_HMACSignature sample_approval)) sample_limits NewLedger =
     (Inr ((NewIntentFromApproval sample_order (a_HMACSignature sample_approval))\<lparr>i_IntentID := ''i1'', i_Version := 1,
         i_CreatedAt := 8, i_UpdatedAt := 8\<rparr>),
      \<lparr>ld_rows = [(NewIntentFromApproval sample_order (a_HMACSignature sample_approval))\<lparr>i_IntentID := ''i1'', i_Version := 1,
         i_CreatedAt := 8, i_UpdatedAt := 8\<rparr>], ld_next = 2\<rparr>)"
  using sample_signature
  by (simp add: Append_def append_check_def OrderIntent_Validate_def GetByTraceID_def NewIntentFromApproval_def
      ComputeExposure_def CheckInvariant_def append_insert_def row_constraints_def unique_constraints_def NewLedger_def
      NewExposureState_def sample_limits_def intent_statuses_def map_get_def zero_entry_def Let_def sample_order_def
      sample_ledger_simps)

lemma sample_exec_fields:
  "xe_ledger sample_exec = NewLedger" "xe_exposureLimits sample_exec = sample_limits" "xe_orders sample_exec = []"
  by (simp_all add: sample_exec_def NewExecEngine_def)

lemma sample_submit:
  "\<exists>rec. fst (Exec_SubmitOrder sample_env (PaperAdapter (\<lambda>_. [])) no_faults 8 ''o1'' ''i1'' ''a1'' sample_approval sample_exec) = Inr rec"
proof -
  have "order_row_constraints (new_row ''o1'' sample_approval) []"
    by (simp add: order_row_constraints_def new_row_def Let_def sample_approval_fields sample_order_def)
  then show ?thesis
    by (simp add: Exec_SubmitOrder_def sample_gate sample_approval_fields sample_exec_fields sample_exec_append
        submit_venue_def PaperAdapter_def Paper_SubmitOrder_def Let_def split_beta)
qed

theorem submit_protects_venue_witness:
  "xe_reconciled sample_exec \<and> o_TraceID sample_order \<in> set (map i_TraceID (ld_rows (xe_ledger
     (snd (Exec_SubmitOrder sample_env (PaperAdapter (\<lambda>_. [])) no_faults 8 ''o1'' ''i1'' ''a1'' sample_approval sample_exec)))))"
proof -
  let ?x = "Exec_SubmitOrder sample_env (PaperAdapter (\<lambda>_. [])) no_faults 8 ''o1'' ''i1'' ''a1'' sample_approval sample_exec"
  obtain res e' where x: "?x = (res, e')" by (cases ?x)
  then show ?thesis
    using submit_protects_venue [OF x] sample_submit by (simp add: sample_approval_fields)
qed


section \<open>An approval is executed once\<close>

lemma submitted_key_recorded:
  assumes "Exec_SubmitOrder env va flt now internalID newIntentID aid a e = (res, e')"
    and "(\<exists>rec. res = Inr rec) \<or> (\<exists>v. res = Inl (VenueSubmit v))"
  shows "order_idempotency_key (a_Order a) \<in> set (map or_idempotency_key (xe_orders e'))"
proof (cases rule: Exec_SubmitOrder_cases [of env a e va flt now internalID newIntentID aid])
  case (gate err)
  then have "\<forall>v. err \<noteq> VenueSubmit v" by (auto simp: submit_gate_def split: if_splits)
  with gate assms show ?thesis by auto
next
  case (recorded err l)
  with assms show ?thesis by auto
next
  case (venue intent l)
  have "map or_idempotency_key (xe_orders e') = map or_idempotency_key (xe_orders e @ [new_row internalID a])"
    using submit_venue_rows(3) [of env va flt now internalID "i_IntentID intent" aid a
        "e\<lparr>xe_ledger := l, xe_orders := xe_orders e @ [new_row internalID a]\<rparr>"]
      venue(4) [unfolded assms(1), symmetric] by simp
  then show ?thesis by (simp add: new_row_def Let_def)
qed

lemma known_key_refused:
  assumes "order_idempotency_key (a_Order a) \<in> set (map or_idempotency_key (xe_orders e))"
    and "Exec_SubmitOrder env va flt now internalID newIntentID aid a e = (res, e')"
  shows "xe_venue e' = xe_venue e \<and> xe_orders e' = xe_orders e \<and> xe_openOrders e' = xe_openOrders e
    \<and> (\<exists>err. res = Inl err \<and> (\<forall>v. err \<noteq> VenueSubmit v))"
proof (cases rule: Exec_SubmitOrder_cases [of env a e va flt now internalID newIntentID aid])
  case (gate err)
  then have "\<forall>v. err \<noteq> VenueSubmit v" by (auto simp: submit_gate_def split: if_splits)
  with gate assms(2) show ?thesis by auto
next
  case (recorded err l)
  with assms(2) show ?thesis by auto
next
  case (venue intent l)
  then have False using assms(1) by (simp add: order_row_constraints_def new_row_def Let_def)
  then show ?thesis ..
qed

text \<open>
  What the engine can do, submissions restricted by \<open>sub_ok\<close> and fills by \<open>fill_ok\<close> (assumptions on the
  environment; \<open>any_submission\<close> and \<open>any_fill\<close> are no restriction). The venue may change by itself at any time.
\<close>

inductive exec_step ::
  "Env \<Rightarrow> 'v VenueAdapter \<Rightarrow> (Approval \<Rightarrow> 'v ExecEngine \<Rightarrow> bool) \<Rightarrow> (string list \<Rightarrow> ExchangeFill \<Rightarrow> 'v ExecEngine \<Rightarrow> bool)
     \<Rightarrow> 'v ExecEngine \<Rightarrow> 'v ExecEngine \<Rightarrow> bool" for env va sub_ok fill_ok where
  xs_submit: "sub_ok a e \<Longrightarrow>
     exec_step env va sub_ok fill_ok e (snd (Exec_SubmitOrder env va flt now internalID newIntentID aid a e))"
| xs_cancel: "exec_step env va sub_ok fill_ok e (snd (Exec_CancelOrder va flt now k reason by1 e))"
| xs_cancel_all: "exec_step env va sub_ok fill_ok e (snd (Exec_CancelAll env va flt now aid ks reason by1 e))"
| xs_fill: "fill_ok ks f e \<Longrightarrow> exec_step env va sub_ok fill_ok e (processFill flt now fillID ks f e)"
| xs_mode: "exec_step env va sub_ok fill_ok e (Exec_SetSystemMode mode e)"
| xs_reconciled: "exec_step env va sub_ok fill_ok e (SetReconciled b e)"
| xs_venue: "exec_step env va sub_ok fill_ok e (e\<lparr>xe_venue := v\<rparr>)"

definition any_submission :: "Approval \<Rightarrow> 'v ExecEngine \<Rightarrow> bool" where
  "any_submission a e = True"

definition any_fill :: "string list \<Rightarrow> ExchangeFill \<Rightarrow> 'v ExecEngine \<Rightarrow> bool" where
  "any_fill ks f e = True"

inductive_cases exec_stepE: "exec_step env va sub_ok fill_ok e e'"

lemma cancel_open_keys [simp]:
  "map or_idempotency_key (xe_orders (cancel_open flt now e k)) = map or_idempotency_key (xe_orders e)"
  "map or_internal_order_id (xe_orders (cancel_open flt now e k)) = map or_internal_order_id (xe_orders e)"
  "map or_trace_id (xe_orders (cancel_open flt now e k)) = map or_trace_id (xe_orders e)"
  by (simp_all add: cancel_open_def Let_def split_beta split: option.split)

lemma foldl_cancel_open_keys [simp]:
  "map or_idempotency_key (xe_orders (foldl (cancel_open flt now) e ks)) = map or_idempotency_key (xe_orders e)"
  "map or_internal_order_id (xe_orders (foldl (cancel_open flt now) e ks)) = map or_internal_order_id (xe_orders e)"
  "map or_trace_id (xe_orders (foldl (cancel_open flt now) e ks)) = map or_trace_id (xe_orders e)"
  by (induction ks arbitrary: e) simp_all

lemma settle_fill_keys [simp]:
  "map or_idempotency_key (xe_orders (snd (settle_fill flt now rec e))) = map or_idempotency_key (xe_orders e)"
  "map or_internal_order_id (xe_orders (snd (settle_fill flt now rec e))) = map or_internal_order_id (xe_orders e)"
  "map or_trace_id (xe_orders (snd (settle_fill flt now rec e))) = map or_trace_id (xe_orders e)"
  by (simp_all add: settle_fill_def Let_def split_beta)

lemma processFill_keys [simp]:
  "map or_idempotency_key (xe_orders (processFill flt now fillID ks f e)) = map or_idempotency_key (xe_orders e)"
  "map or_internal_order_id (xe_orders (processFill flt now fillID ks f e)) = map or_internal_order_id (xe_orders e)"
  "map or_trace_id (xe_orders (processFill flt now fillID ks f e)) = map or_trace_id (xe_orders e)"
  by (simp_all add: processFill_def Let_def split_beta split: option.split)

lemma Exec_CancelOrder_keys [simp]:
  "map or_idempotency_key (xe_orders (snd (Exec_CancelOrder va flt now k reason by1 e))) = map or_idempotency_key (xe_orders e)"
  "map or_internal_order_id (xe_orders (snd (Exec_CancelOrder va flt now k reason by1 e))) = map or_internal_order_id (xe_orders e)"
  "map or_trace_id (xe_orders (snd (Exec_CancelOrder va flt now k reason by1 e))) = map or_trace_id (xe_orders e)"
  by (simp_all add: Exec_CancelOrder_def Let_def split_beta split: option.split prod.split sum.split)

lemma Exec_CancelAll_keys [simp]:
  "map or_idempotency_key (xe_orders (snd (Exec_CancelAll env va flt now aid ks reason by1 e))) = map or_idempotency_key (xe_orders e)"
  "map or_internal_order_id (xe_orders (snd (Exec_CancelAll env va flt now aid ks reason by1 e))) = map or_internal_order_id (xe_orders e)"
  "map or_trace_id (xe_orders (snd (Exec_CancelAll env va flt now aid ks reason by1 e))) = map or_trace_id (xe_orders e)"
  by (simp_all add: Exec_CancelAll_def Let_def split_beta)

lemma exec_step_keys_grow:
  assumes "exec_step env va sub_ok fill_ok e e'"
  shows "set (map or_idempotency_key (xe_orders e)) \<subseteq> set (map or_idempotency_key (xe_orders e'))"
  using assms
proof cases
  case (xs_submit a flt now internalID newIntentID aid)
  show ?thesis
  proof (cases rule: Exec_SubmitOrder_cases [of env a e va flt now internalID newIntentID aid])
    case (venue intent l)
    then have "map or_idempotency_key (xe_orders e') = map or_idempotency_key (xe_orders e @ [new_row internalID a])"
      using submit_venue_rows(3) [of env va flt now internalID "i_IntentID intent" aid a
        "e\<lparr>xe_ledger := l, xe_orders := xe_orders e @ [new_row internalID a]\<rparr>"] xs_submit by simp
    then have "set (map or_idempotency_key (xe_orders e')) = set (map or_idempotency_key (xe_orders e @ [new_row internalID a]))"
      by (rule arg_cong)
    then show ?thesis by auto
  qed (use xs_submit in simp_all)
qed (simp_all only: Exec_CancelOrder_keys Exec_CancelAll_keys processFill_keys, simp_all add: Exec_SetSystemMode_def SetReconciled_def)

interpretation keys_kept: step_invariant
  "exec_step env va sub_ok fill_ok" "\<lambda>e. key \<in> set (map or_idempotency_key (xe_orders e))" for env va sub_ok fill_ok key
  by unfold_locales (meson exec_step_keys_grow subsetD)


text \<open>
  C11: An approval is executed at most once. Once a submission has reached the venue, then after any sequence of
  engine operations (and any activity of the venue), submitting an approval for the same order again,
  whatever the clock and ids and failures, is an error that leaves the venue, the order rows and the open
  orders untouched.
\<close>

theorem approval_executed_once:
  assumes "Exec_SubmitOrder env va flt now internalID newIntentID aid a e = (res, e1)"
    and "(\<exists>rec. res = Inr rec) \<or> (\<exists>v. res = Inl (VenueSubmit v))"
    and "(exec_step env va any_submission any_fill)\<^sup>*\<^sup>* e1 e2"
    and "a_Order b = a_Order a"
    and "Exec_SubmitOrder env va flt' now' internalID' newIntentID' aid' b e2 = (res', e3)"
  shows "xe_venue e3 = xe_venue e2 \<and> xe_orders e3 = xe_orders e2 \<and> xe_openOrders e3 = xe_openOrders e2
    \<and> (\<exists>err. res' = Inl err \<and> (\<forall>v. err \<noteq> VenueSubmit v))"
proof -
  have "order_idempotency_key (a_Order b) \<in> set (map or_idempotency_key (xe_orders e2))"
    unfolding assms(4) using assms(3) submitted_key_recorded [OF assms(1,2)] by (rule keys_kept.reachable_inv)
  then show ?thesis using assms(5) by (rule known_key_refused)
qed

theorem approval_executed_once_witness:
  "\<exists>err. fst (Exec_SubmitOrder sample_env (PaperAdapter (\<lambda>_. [])) no_faults 9 ''o2'' ''i2'' ''a2'' sample_approval
     (snd (Exec_SubmitOrder sample_env (PaperAdapter (\<lambda>_. [])) no_faults 8 ''o1'' ''i1'' ''a1'' sample_approval sample_exec))) = Inl err"
proof -
  let ?x = "Exec_SubmitOrder sample_env (PaperAdapter (\<lambda>_. [])) no_faults 8 ''o1'' ''i1'' ''a1'' sample_approval sample_exec"
  let ?y = "Exec_SubmitOrder sample_env (PaperAdapter (\<lambda>_. [])) no_faults 9 ''o2'' ''i2'' ''a2'' sample_approval (snd ?x)"
  have "order_row_constraints (new_row ''o1'' sample_approval) []"
    by (simp add: order_row_constraints_def new_row_def Let_def sample_approval_fields sample_order_def)
  then have "\<exists>rec. fst ?x = Inr rec"
    by (simp add: Exec_SubmitOrder_def sample_gate sample_approval_fields sample_exec_fields sample_exec_append
        submit_venue_def PaperAdapter_def Paper_SubmitOrder_def Let_def split_beta)
  moreover obtain res e1 where x: "?x = (res, e1)" by (cases ?x)
  moreover obtain res' e3 where y: "?y = (res', e3)" by (cases ?y)
  ultimately show ?thesis
    using approval_executed_once [OF x _ rtranclp.rtrancl_refl refl, of no_faults 9 "''o2''" "''i2''" "''a2''" res' e3]
    by auto
qed

text \<open>
  The trace id alone does not identify the order: the strategy is not covered by the signature but is
  part of the idempotency key, so a copy of an executed approval with another strategy passes
  every check again and reaches the venue, under the intent of the first.
\<close>

lemma executed_twice_under_other_strategy:
  assumes "submit_gate hmac a e = Inr ()"
  shows "submit_gate hmac (a\<lparr>a_Order := (a_Order a)\<lparr>o_StrategyID := s\<rparr>\<rparr>) e = Inr ()"
    and "s \<noteq> o_StrategyID (a_Order a) \<Longrightarrow> CHR '':'' \<notin> set s \<Longrightarrow> CHR '':'' \<notin> set (o_StrategyID (a_Order a)) \<Longrightarrow>
      order_idempotency_key ((a_Order a)\<lparr>o_StrategyID := s\<rparr>) \<noteq> order_idempotency_key (a_Order a)"
proof -
  show "submit_gate hmac (a\<lparr>a_Order := (a_Order a)\<lparr>o_StrategyID := s\<rparr>\<rparr>) e = Inr ()"
    using assms unfolding submit_gate_ok by (simp add: VerifyApproval_def approval_bytes_def)
  assume ne: "s \<noteq> o_StrategyID (a_Order a)" and "CHR '':'' \<notin> set s" "CHR '':'' \<notin> set (o_StrategyID (a_Order a))"
  then have pre: "takeWhile (\<lambda>c. c \<noteq> CHR '':'') (s @ '':'' @ x) = s"
    "takeWhile (\<lambda>c. c \<noteq> CHR '':'') (o_StrategyID (a_Order a) @ '':'' @ x) = o_StrategyID (a_Order a)" for x
    by (auto simp: takeWhile_append2 takeWhile_tail)
  show "order_idempotency_key ((a_Order a)\<lparr>o_StrategyID := s\<rparr>) \<noteq> order_idempotency_key (a_Order a)"
  proof
    assume "order_idempotency_key ((a_Order a)\<lparr>o_StrategyID := s\<rparr>) = order_idempotency_key (a_Order a)"
    then have "\<exists>x. s @ '':'' @ x = o_StrategyID (a_Order a) @ '':'' @ x"
      by (auto simp: order_idempotency_key_def IdempotencyKey_def)
    then show False using pre ne by metis
  qed
qed


section \<open>Cancel-all\<close>

lemma sql_update_none: "rows_affected p rows = 0 \<Longrightarrow> sql_update p f rows = rows"
  by (simp add: sql_update_def) (rule map_idI, simp)

lemma UpdateStatus_rows:
  "ld_rows (snd (UpdateStatus flt now i st l)) =
     (if flt (Db ''order_intents.update'' i) \<or> st \<notin> set intent_statuses then ld_rows l
      else sql_update (\<lambda>r. i_IntentID r = i \<and> \<not> IntentStatus_IsTerminal (i_Status r))
             (\<lambda>r. r\<lparr>i_Status := st, i_UpdatedAt := now\<rparr>) (ld_rows l))"
  unfolding UpdateStatus_def Let_def by (simp del: rows_affected_eq_0) (simp del: rows_affected_eq_0 add: sql_update_none)

definition intent_settled :: "uuid \<Rightarrow> Ledger \<Rightarrow> bool" where
  "intent_settled i l \<longleftrightarrow> list_all (\<lambda>r. i_IntentID r = i \<longrightarrow> IntentStatus_IsTerminal (i_Status r)) (ld_rows l)"

definition row_has_status :: "OrderStatus \<Rightarrow> uuid \<Rightarrow> OrderRow list \<Rightarrow> bool" where
  "row_has_status st k rows \<longleftrightarrow> list_all (\<lambda>row. or_internal_order_id row = k \<longrightarrow> or_status row = st) rows"

lemma UpdateStatus_same_or_set:
  assumes "r \<in> set (ld_rows (snd (UpdateStatus flt now i st l)))"
  shows "r \<in> set (ld_rows l) \<and> (\<not> flt (Db ''order_intents.update'' i) \<and> st \<in> set intent_statuses \<longrightarrow>
            i_IntentID r \<noteq> i \<or> IntentStatus_IsTerminal (i_Status r))
    \<or> (\<exists>q \<in> set (ld_rows l). i_IntentID q = i \<and> \<not> IntentStatus_IsTerminal (i_Status q) \<and> r = q\<lparr>i_Status := st, i_UpdatedAt := now\<rparr>)"
  using assms unfolding UpdateStatus_rows by (simp add: in_sql_update split: if_splits) metis

lemma intent_settled_update:
  assumes "intent_settled i l" shows "intent_settled i (snd (UpdateStatus flt now j st l))"
  unfolding intent_settled_def list_all_iff
proof (intro ballI impI)
  fix r assume "r \<in> set (ld_rows (snd (UpdateStatus flt now j st l)))" and i: "i_IntentID r = i"
  from UpdateStatus_same_or_set [OF this(1)] show "IntentStatus_IsTerminal (i_Status r)"
    using assms i by (elim disjE bexE) (auto simp: intent_settled_def list_all_iff)
qed

lemma update_settles:
  assumes "\<not> flt (Db ''order_intents.update'' i) \<and> st \<in> set intent_statuses" and "IntentStatus_IsTerminal st"
  shows "intent_settled i (snd (UpdateStatus flt now i st l))"
  unfolding intent_settled_def list_all_iff
proof (intro ballI impI)
  fix r assume "r \<in> set (ld_rows (snd (UpdateStatus flt now i st l)))" and i: "i_IntentID r = i"
  from UpdateStatus_same_or_set [OF this(1)] show "IntentStatus_IsTerminal (i_Status r)"
    using assms i by (elim disjE bexE) simp_all
qed

lemma intent_settled_settle:
  "intent_settled i (xe_ledger e) \<Longrightarrow> intent_settled i (xe_ledger (settle_intent flt now j st e))"
  by (cases j) (simp_all add: settle_intent_def update_intent_def intent_settled_update)

lemma settle_settles:
  assumes "\<not> flt (Db ''order_intents.update'' i)" "st \<in> set intent_statuses" "IntentStatus_IsTerminal st"
  shows "intent_settled i (xe_ledger (settle_intent flt now (Some i) st e))"
  unfolding settle_intent_def update_intent_def option.case using assms by (simp add: update_settles)

lemma update_order_row_status:
  "row_has_status st k rows \<Longrightarrow> r_Status rec = st \<or> r_InternalOrderID rec \<noteq> k \<Longrightarrow> row_has_status st k (update_order_row flt rec rows)"
  by (auto simp: update_order_row_def row_has_status_def list_all_iff in_sql_update)

lemma update_order_row_sets:
  assumes "\<not> flt (Db ''execution.orders.update'' (r_InternalOrderID rec))" "0 \<le> sint (r_FilledQuantity rec)"
  shows "row_has_status (r_Status rec) (r_InternalOrderID rec) (update_order_row flt rec rows)"
  using assms by (auto simp: update_order_row_def row_has_status_def list_all_iff in_sql_update)

lemma transition_record_simps [simp]:
  "r_Status (transition_record now st rec) = st"
  "r_InternalOrderID (transition_record now st rec) = r_InternalOrderID rec"
  "r_FilledQuantity (transition_record now st rec) = r_FilledQuantity rec"
  by (simp_all add: transition_record_def)

lemma cancel_open_fields:
  "xe_openOrders (cancel_open flt now e k) = (xe_openOrders e)(k := None)"
  "j \<noteq> k \<Longrightarrow> xe_intentMap (cancel_open flt now e k) j = xe_intentMap e j"
  "k \<in> dom (xe_openOrders e) \<Longrightarrow> xe_intentMap (cancel_open flt now e k) k = None"
  by (auto simp: cancel_open_def Let_def split_beta fun_eq_iff split: option.splits)

lemma foldl_cancel_open_maps:
  "xe_openOrders (foldl (cancel_open flt now) e ks) = (xe_openOrders e) |` (- set ks)"
proof (induction ks arbitrary: e)
  case (Cons k ks)
  then show ?case by (auto simp: cancel_open_fields restrict_map_def fun_eq_iff)
qed (simp add: restrict_map_def)

lemma foldl_cancel_open_intents:
  "distinct ks \<Longrightarrow> set ks \<subseteq> dom (xe_openOrders e) \<Longrightarrow> k \<in> set ks \<Longrightarrow> xe_intentMap (foldl (cancel_open flt now) e ks) k = None"
proof (induction ks arbitrary: e)
  case (Cons j ks)
  have other: "xe_intentMap (foldl (cancel_open flt now) e js) k = None" if "k \<notin> set js" "xe_intentMap e k = None" for js and e :: "'a ExecEngine"
    using that by (induction js arbitrary: e) (simp_all add: cancel_open_fields)
  show ?case
  proof (cases "k \<in> set ks")
    case True
    have "set ks \<subseteq> dom (xe_openOrders (cancel_open flt now e j))"
      using Cons.prems by (auto simp: cancel_open_fields)
    then show ?thesis using True Cons.prems by (simp add: Cons.IH)
  next
    case False
    then have kj: "k = j" using Cons.prems by simp
    have "xe_intentMap (cancel_open flt now e j) k = None"
      unfolding kj using Cons.prems by (intro cancel_open_fields) simp
    then show ?thesis using False other [of ks "cancel_open flt now e j"] by simp
  qed
qed simp

lemma cancel_open_keeps_settled:
  "intent_settled i (xe_ledger e) \<Longrightarrow> intent_settled i (xe_ledger (foldl (cancel_open flt now) e ks))"
proof (induction ks arbitrary: e)
  case (Cons k ks)
  have "intent_settled i (xe_ledger (cancel_open flt now e k))"
    using Cons.prems by (auto simp: cancel_open_def Let_def split_beta intro!: intent_settled_settle split: option.split)
  then show ?case using Cons.IH by simp
qed simp

lemma cancel_open_keeps_cancelled:
  "row_has_status StatusCancelled i (xe_orders e) \<Longrightarrow> row_has_status StatusCancelled i (xe_orders (foldl (cancel_open flt now) e ks))"
proof (induction ks arbitrary: e)
  case (Cons k ks)
  have "row_has_status StatusCancelled i (xe_orders (cancel_open flt now e k))"
    using Cons.prems by (auto simp: cancel_open_def Let_def split_beta transitionOrder_eq intro!: update_order_row_status split: option.split)
  then show ?case using Cons.IH by simp
qed simp

lemma cancel_open_settles:
  assumes "xe_openOrders e k = Some rec"
  shows "xe_intentMap e k = Some i \<Longrightarrow> \<not> flt (Db ''order_intents.update'' i) \<Longrightarrow> intent_settled i (xe_ledger (cancel_open flt now e k))"
    and "order_step (r_Status rec) StatusCancelled \<Longrightarrow> \<not> flt (Db ''execution.orders.update'' (r_InternalOrderID rec)) \<Longrightarrow>
      0 \<le> sint (r_FilledQuantity rec) \<Longrightarrow> row_has_status StatusCancelled (r_InternalOrderID rec) (xe_orders (cancel_open flt now e k))"
proof -
  have st: "IntentCancelled \<in> set intent_statuses" "IntentStatus_IsTerminal IntentCancelled"
    by (simp_all add: intent_statuses_def IntentStatus_IsTerminal_def)
  show "intent_settled i (xe_ledger (cancel_open flt now e k))"
    if "xe_intentMap e k = Some i" "\<not> flt (Db ''order_intents.update'' i)"
    using assms that st by (simp add: cancel_open_def Let_def split_beta settle_settles)
  show "row_has_status StatusCancelled (r_InternalOrderID rec) (xe_orders (cancel_open flt now e k))"
    if "order_step (r_Status rec) StatusCancelled" "\<not> flt (Db ''execution.orders.update'' (r_InternalOrderID rec))"
      "0 \<le> sint (r_FilledQuantity rec)"
    using assms that update_order_row_sets [of flt "transition_record now StatusCancelled rec"]
    by (simp add: cancel_open_def Let_def split_beta transitionOrder_eq)
qed

text \<open>Whatever \<open>cancel_open\<close> establishes at one key and keeps at the others holds after the loop.\<close>

lemma foldl_cancel_open_establishes:
  assumes "\<And>e'. xe_openOrders e' k = xe_openOrders e k \<Longrightarrow> xe_intentMap e' k = xe_intentMap e k \<Longrightarrow> P (cancel_open flt now e' k)"
    and "\<And>e' js. P e' \<Longrightarrow> P (foldl (cancel_open flt now) e' js)" and "k \<in> set ks"
  shows "P (foldl (cancel_open flt now) e ks)"
proof -
  obtain as bs where ks: "ks = as @ k # bs" "k \<notin> set as" using assms(3) by (metis split_list_first)
  have "xe_intentMap (foldl (cancel_open flt now) e js) k = xe_intentMap e k" if "k \<notin> set js" for js and e :: "'a ExecEngine"
    using that by (induction js arbitrary: e) (simp_all add: cancel_open_fields)
  then have "P (cancel_open flt now (foldl (cancel_open flt now) e as) k)"
    using ks(2) by (intro assms(1)) (simp_all add: foldl_cancel_open_maps)
  then show ?thesis using assms(2) ks(1) by simp
qed

lemma cancel_all_books:
  assumes ks: "enumerates ks (xe_openOrders e)"
    and e': "e' = snd (Exec_CancelAll env va flt now aid ks reason by1 e)"
  shows "xe_openOrders e' = Map.empty"
    and "k \<in> dom (xe_openOrders e) \<Longrightarrow> xe_intentMap e' k = None"
    and "xe_openOrders e k = Some rec \<Longrightarrow> xe_intentMap e k = Some i \<Longrightarrow> \<not> flt (Db ''order_intents.update'' i) \<Longrightarrow>
      intent_settled i (xe_ledger e')"
    and "xe_openOrders e k = Some rec \<Longrightarrow> order_step (r_Status rec) StatusCancelled \<Longrightarrow> 0 \<le> sint (r_FilledQuantity rec) \<Longrightarrow>
      \<not> flt (Db ''execution.orders.update'' (r_InternalOrderID rec)) \<Longrightarrow>
      row_has_status StatusCancelled (r_InternalOrderID rec) (xe_orders e')"
proof -
  define f where "f = e\<lparr>xe_venue := snd (snd (va_CancelAll va (xe_venue e)))\<rparr>"
  define g where "g = foldl (cancel_open flt now) f ks"
  have f: "xe_openOrders f = xe_openOrders e" "xe_intentMap f = xe_intentMap e" by (simp_all add: f_def)
  have g: "xe_openOrders e' = xe_openOrders g" "xe_intentMap e' = xe_intentMap g" "xe_ledger e' = xe_ledger g"
    "xe_orders e' = xe_orders g"
    by (simp_all add: e' g_def f_def Exec_CancelAll_def Let_def split_beta)
  have ks': "distinct ks" "set ks = dom (xe_openOrders f)" using ks by (simp_all add: enumerates_def f)
  show "xe_openOrders e' = Map.empty"
    unfolding g g_def foldl_cancel_open_maps by (auto simp: ks' restrict_map_def fun_eq_iff domIff)
  show "xe_intentMap e' k = None" if "k \<in> dom (xe_openOrders e)"
    unfolding g g_def using that ks' f by (intro foldl_cancel_open_intents) simp_all
  show "intent_settled i (xe_ledger e')"
    if "xe_openOrders e k = Some rec" "xe_intentMap e k = Some i" "\<not> flt (Db ''order_intents.update'' i)"
    unfolding g g_def
    by (rule foldl_cancel_open_establishes [where k = k])
      (use that ks' f in \<open>auto intro: cancel_open_keeps_settled cancel_open_settles(1)\<close>)
  show "row_has_status StatusCancelled (r_InternalOrderID rec) (xe_orders e')"
    if "xe_openOrders e k = Some rec" "order_step (r_Status rec) StatusCancelled" "0 \<le> sint (r_FilledQuantity rec)"
      "\<not> flt (Db ''execution.orders.update'' (r_InternalOrderID rec))"
    unfolding g g_def
    by (rule foldl_cancel_open_establishes [where k = k])
      (use that ks' f in \<open>auto intro: cancel_open_keeps_cancelled cancel_open_settles(2)\<close>)
qed

text \<open>
  Cancel-all empties the books. Whatever the venue answers, and in whatever order Go visits the map of open
  orders, \<^verbatim>\<open>CancelAll\<close> leaves no open order and no intent of one; every intent of an open order whose
  database update did not fail is in a terminal state, so it no longer counts as exposure; and the
  row of every open order that may legally be cancelled, and whose update did not fail, says cancelled.
\<close>

theorem cancel_all_clears_books:
  assumes "enumerates ks (xe_openOrders e)"
    and "e' = snd (Exec_CancelAll env va flt now aid ks reason by1 e)"
  shows "xe_openOrders e' = Map.empty
    \<and> (\<forall>k rec. xe_openOrders e k = Some rec \<longrightarrow>
          xe_intentMap e' k = None
        \<and> (\<forall>i. xe_intentMap e k = Some i \<and> \<not> flt (Db ''order_intents.update'' i) \<longrightarrow> intent_settled i (xe_ledger e'))
        \<and> (order_step (r_Status rec) StatusCancelled \<and> 0 \<le> sint (r_FilledQuantity rec)
             \<and> \<not> flt (Db ''execution.orders.update'' (r_InternalOrderID rec)) \<longrightarrow>
           row_has_status StatusCancelled (r_InternalOrderID rec) (xe_orders e')))"
  using cancel_all_books [OF assms] by (intro conjI allI impI) (simp_all add: domI)

definition sample_open :: "MockServer ExecEngine" where
  "sample_open = sample_exec\<lparr>xe_openOrders := [''o1'' \<mapsto> (new_record 8 ''o1'' sample_approval)\<lparr>r_Status := StatusOpen\<rparr>],
     xe_intentMap := [''o1'' \<mapsto> ''i1''], xe_orders := [new_row ''o1'' sample_approval]\<rparr>"

theorem cancel_all_clears_books_witness:
  "xe_openOrders (snd (Exec_CancelAll sample_env (PaperAdapter (\<lambda>_. [])) no_faults 9 ''a1'' [''o1''] ''halt'' ''watchdog'' sample_open)) = Map.empty
   \<and> row_has_status StatusCancelled ''o1''
       (xe_orders (snd (Exec_CancelAll sample_env (PaperAdapter (\<lambda>_. [])) no_faults 9 ''a1'' [''o1''] ''halt'' ''watchdog'' sample_open)))"
proof -
  have en: "enumerates [''o1''] (xe_openOrders sample_open)" by (simp add: enumerates_def sample_open_def)
  have rec: "xe_openOrders sample_open ''o1'' = Some ((new_record 8 ''o1'' sample_approval)\<lparr>r_Status := StatusOpen\<rparr>)"
    by (simp add: sample_open_def)
  have "order_step StatusOpen StatusCancelled" by (simp add: order_step_iff)
  moreover note cancel_all_clears_books [OF en refl, of sample_env "PaperAdapter (\<lambda>_. [])" no_faults 9 "''a1''" "''halt''" "''watchdog''"]
  from conjunct1 [OF this] conjunct2 [OF this, THEN spec, THEN spec, THEN mp, OF rec]
  show ?thesis using calculation by (simp add: new_record_def Let_def no_faults_def)
qed

end
