(* ===== verification/Execution_Runs.thy ===== *)
theory Execution_Runs
  imports Execution_Safety
begin

text \<open>
  Invariants of the execution engine over any sequence of its operations: every open order is covered
  by an outstanding intent of its own, so that the limits of the ledger bound the orders open at the
  venue; and the fills recorded, the fills reported to the risk engine and the filled quantities of
  the open orders agree.
\<close>

section \<open>Every open order has its own outstanding intent\<close>

















lemma transition_open:
  "xe_openOrders (snd (transitionOrder flt now st rec e)) k = xe_openOrders e k"
  "xe_intentMap (snd (transitionOrder flt now st rec e)) k = xe_intentMap e k"
  by simp_all






lemma found_is_open:
  assumes "find_by_exchange_id ks x e = Some rec"
  shows "\<exists>k. xe_openOrders e k = Some rec \<and> r_ExchangeOrderID rec = x"
proof -
  let ?p = "\<lambda>k. case xe_openOrders e k of None \<Rightarrow> False | Some r \<Rightarrow> r_ExchangeOrderID r = x"
  obtain k where k: "find ?p ks = Some k" "xe_openOrders e k = Some rec"
    using assms by (auto simp: find_by_exchange_id_def split: option.splits)
  have "?p k" using k(1) by (auto simp only: find_Some_iff)
  then show ?thesis using k(2) by auto
qed

lemma fill_record_keeps [simp]:
  "r_InternalOrderID (fill_record now f rec) = r_InternalOrderID rec" "r_TraceID (fill_record now f rec) = r_TraceID rec"
  "r_MarketID (fill_record now f rec) = r_MarketID rec" "r_Side (fill_record now f rec) = r_Side rec"
  "r_Quantity (fill_record now f rec) = r_Quantity rec" "r_NotionalMicros (fill_record now f rec) = r_NotionalMicros rec"
  by (simp_all add: fill_record_def)





















definition sample_working :: "MockServer ExecEngine" where
  "sample_working = snd (Exec_SubmitOrder sample_env (PaperAdapter (\<lambda>_. [])) no_faults 8 ''o1'' ''i1'' ''a1'' sample_approval sample_exec)"

lemma sample_working_open:
  "\<exists>rec. xe_openOrders sample_working = [''o1'' \<mapsto> rec] \<and> r_NotionalMicros rec = 4000000 \<and> r_FilledQuantity rec = 0
     \<and> r_ExchangeOrderID rec = numbered ''MOCK-'' 1 \<and> r_InternalOrderID rec = ''o1'' \<and> map or_internal_order_id (xe_orders sample_working) = [''o1'']
     \<and> xe_fills sample_working = [] \<and> xe_reports sample_working = []"
proof -
  have "order_row_constraints (new_row ''o1'' sample_approval) []"
    by (simp add: order_row_constraints_def new_row_def Let_def sample_approval_fields sample_order_def)
  moreover have "xe_openOrders sample_exec = Map.empty" "xe_venue sample_exec = NewServer DefaultConfig (\<lambda>_. Fin (1 / 4))"
    by (simp_all add: sample_exec_def NewExecEngine_def)
  moreover have "r_NotionalMicros (new_record 8 ''o1'' sample_approval) = 4000000" "r_FilledQuantity (new_record 8 ''o1'' sample_approval) = 0"
    by (simp_all add: new_record_def Let_def sample_approval_fields sample_order_def)
  moreover have "r_ExchangeOrderID (fst (transitionOrder flt now st rec e)) = r_ExchangeOrderID rec" for flt now st rec and e :: "MockServer ExecEngine"
    by (simp add: transitionOrder_def transition_record_def Let_def split: sum.split)
  moreover have "r_InternalOrderID (new_record 8 ''o1'' sample_approval) = ''o1''" "or_internal_order_id (new_row ''o1'' sample_approval) = ''o1''"
    by (simp_all add: new_record_def new_row_def Let_def)
  moreover have "xe_fills sample_exec = []" "xe_reports sample_exec = []" by (simp_all add: sample_exec_def NewExecEngine_def)
  ultimately show ?thesis
    by (simp add: sample_working_def Exec_SubmitOrder_def sample_gate sample_approval_fields sample_exec_fields sample_exec_append
        submit_venue_def PaperAdapter_def Paper_SubmitOrder_def Let_def split_beta Mock_SubmitOrder_def NewServer_def DefaultConfig_def
        f_lit_def update_intent_def) (intro exI conjI, rule refl, simp_all)
qed

lemma sample_reachable:
  assumes "sub_ok sample_approval sample_exec"
  shows "(exec_step sample_env (PaperAdapter (\<lambda>_. [])) sub_ok fill_ok)\<^sup>*\<^sup>*
     (NewExecEngine (NewServer DefaultConfig (\<lambda>_. Fin (1 / 4))) [1, 2, 3] NewLedger sample_limits [] []) sample_working"
proof -
  have submit: "exec_step sample_env (PaperAdapter (\<lambda>_. [])) sub_ok fill_ok sample_exec sample_working"
    unfolding sample_working_def using assms by (rule xs_submit)
  have start: "exec_step sample_env (PaperAdapter (\<lambda>_. [])) sub_ok fill_ok
     (NewExecEngine (NewServer DefaultConfig (\<lambda>_. Fin (1 / 4))) [1, 2, 3] NewLedger sample_limits [] []) sample_exec"
    unfolding sample_exec_def by (rule xs_reconciled [of _ _ _ _ _ True, unfolded SetReconciled_def])
  show ?thesis by (rule rtranclp.rtrancl_into_rtrancl, rule r_into_rtranclp, rule start, rule submit)
qed




section \<open>Fills, reports and filled quantities agree\<close>

definition filled_of :: "string \<Rightarrow> Fill list \<Rightarrow> int" where
  "filled_of k fs = (\<Sum>f\<leftarrow>filter (\<lambda>f. fl_InternalOrderID f = k) fs. sint (fl_Quantity f))"

text \<open>The reports made for an order (\<open>ok\<close>: those whose call succeeded or failed).\<close>

definition reports_of :: "bool \<Rightarrow> string \<Rightarrow> (bool \<times> FillReport) list \<Rightarrow> int" where
  "reports_of ok k rs = (\<Sum>p\<leftarrow>filter (\<lambda>p. fst p = ok \<and> fr_InternalOrderID (snd p) = k) rs. sint (fr_Quantity (snd p)))"

abbreviation reported_of :: "string \<Rightarrow> (bool \<times> FillReport) list \<Rightarrow> int" where
  "reported_of \<equiv> reports_of True"

abbreviation unreported_of :: "string \<Rightarrow> (bool \<times> FillReport) list \<Rightarrow> int" where
  "unreported_of \<equiv> reports_of False"

lemma filled_of_simps [simp]:
  "filled_of k [] = 0" "filled_of k (fs @ [f]) = filled_of k fs + (if fl_InternalOrderID f = k then sint (fl_Quantity f) else 0)"
  "reports_of ok k [] = 0"
  "reports_of ok k (rs @ [p]) = reports_of ok k rs + (if fst p = ok \<and> fr_InternalOrderID (snd p) = k then sint (fr_Quantity (snd p)) else 0)"
  by (simp_all add: filled_of_def reports_of_def)

definition fill_fits :: "string list \<Rightarrow> ExchangeFill \<Rightarrow> 'v ExecEngine \<Rightarrow> bool" where
  "fill_fits ks f e = (case find_by_exchange_id ks (ef_ExchangeOrderID f) e of None \<Rightarrow> True
     | Some rec \<Rightarrow> sint (r_FilledQuantity rec) + sint (ef_Quantity f) < 2147483648)"

text \<open>The parts the invariant is about: open orders, ids of the order rows, fill rows and reports.\<close>

definition accounted :: "(string \<rightharpoonup> OrderRecord) \<Rightarrow> string set \<Rightarrow> Fill list \<Rightarrow> (bool \<times> FillReport) list \<Rightarrow> bool" where
  "accounted om ids fs rs \<longleftrightarrow>
     (\<forall>k rec. om k = Some rec \<longrightarrow> r_InternalOrderID rec = k \<and> k \<in> ids
        \<and> sint (r_FilledQuantity rec) = filled_of k fs \<and> filled_of k fs < sint (r_Quantity rec))
     \<and> (\<forall>f \<in> set fs. fl_InternalOrderID f \<in> ids \<and> 0 < sint (fl_Quantity f))
     \<and> (\<forall>k. reported_of k rs + unreported_of k rs = filled_of k fs) \<and> (\<forall>p \<in> set rs. 0 < sint (fr_Quantity (snd p)))"

definition accounted_inv :: "'v ExecEngine \<Rightarrow> bool" where
  "accounted_inv e \<longleftrightarrow> accounted (xe_openOrders e) (set (map or_internal_order_id (xe_orders e))) (xe_fills e) (xe_reports e)"

lemma accountedD:
  assumes "accounted om ids fs rs" "om k = Some rec"
  shows "r_InternalOrderID rec = k" "k \<in> ids" "sint (r_FilledQuantity rec) = filled_of k fs" "filled_of k fs < sint (r_Quantity rec)"
  using assms unfolding accounted_def by blast+

lemma accounted_smaller:
  "accounted om ids fs rs \<Longrightarrow> (\<And>k rec. om' k = Some rec \<Longrightarrow> om k = Some rec) \<Longrightarrow> accounted om' ids fs rs"
  unfolding accounted_def by blast

lemma filled_of_nonneg: "accounted om ids fs rs \<Longrightarrow> 0 \<le> filled_of k fs"
  unfolding accounted_def filled_of_def by (intro sum_list_nonneg) auto

lemma filled_of_new: "accounted om ids fs rs \<Longrightarrow> k \<notin> ids \<Longrightarrow> filled_of k fs = 0"
proof -
  assume "accounted om ids fs rs" "k \<notin> ids"
  then have "filter (\<lambda>f. fl_InternalOrderID f = k) fs = []" unfolding accounted_def filter_empty_conv by blast
  then show "filled_of k fs = 0" by (simp add: filled_of_def)
qed

lemma accounted_inv_cong:
  assumes "accounted_inv e" "xe_openOrders e' = xe_openOrders e" "xe_fills e' = xe_fills e" "xe_reports e' = xe_reports e"
    "map or_internal_order_id (xe_orders e') = map or_internal_order_id (xe_orders e)"
  shows "accounted_inv e'"
  using assms unfolding accounted_inv_def by metis

lemma accounted_inv_shrink:
  assumes "accounted_inv e" "\<And>k rec. xe_openOrders e' k = Some rec \<Longrightarrow> xe_openOrders e k = Some rec"
    "xe_fills e' = xe_fills e" "xe_reports e' = xe_reports e"
    "map or_internal_order_id (xe_orders e') = map or_internal_order_id (xe_orders e)"
  shows "accounted_inv e'"
  using assms accounted_smaller unfolding accounted_inv_def by metis

lemma foldl_cancel_open_fills [simp]:
  "xe_fills (foldl (cancel_open flt now) e ks) = xe_fills e" "xe_reports (foldl (cancel_open flt now) e ks) = xe_reports e"
  by (induction ks arbitrary: e) (simp_all add: cancel_open_def Let_def split_beta split: option.split)

lemma accounted_inv_CancelAll: "accounted_inv e \<Longrightarrow> accounted_inv (snd (Exec_CancelAll env va flt now aid ks reason by1 e))"
  by (erule accounted_inv_shrink)
    (auto simp: Exec_CancelAll_def Let_def split_beta foldl_cancel_open_maps restrict_map_def split: if_splits)

lemma CancelOrder_effect:
  "xe_openOrders (snd (Exec_CancelOrder va flt now k reason by1 e)) = xe_openOrders e
   \<or> xe_openOrders (snd (Exec_CancelOrder va flt now k reason by1 e)) = (xe_openOrders e)(k := None)"
  "xe_fills (snd (Exec_CancelOrder va flt now k reason by1 e)) = xe_fills e"
  "xe_reports (snd (Exec_CancelOrder va flt now k reason by1 e)) = xe_reports e"
  by (simp_all add: Exec_CancelOrder_def Let_def split_beta split: option.split prod.split sum.split)

lemma accounted_inv_CancelOrder: "accounted_inv e \<Longrightarrow> accounted_inv (snd (Exec_CancelOrder va flt now k reason by1 e))"
proof (erule accounted_inv_shrink)
  fix j rec assume "xe_openOrders (snd (Exec_CancelOrder va flt now k reason by1 e)) j = Some rec"
  then show "xe_openOrders e j = Some rec"
    using CancelOrder_effect(1) [of va flt now k reason by1 e] by (elim disjE) (simp_all split: if_splits)
qed (simp_all add: CancelOrder_effect)

text \<open>A new fill of an open order: either it completes the order, or the record is updated.\<close>

lemma accounted_fill:
  assumes acc: "accounted om ids fs rs" and k: "om k = Some rec"
    and f: "fl_InternalOrderID f = k" "0 < sint (fl_Quantity f)" and r: "fr_InternalOrderID (snd r) = k" "fr_Quantity (snd r) = fl_Quantity f"
    and om': "\<And>j. j \<noteq> k \<Longrightarrow> om' j = om j"
      "\<And>rec'. om' k = Some rec' \<Longrightarrow> r_InternalOrderID rec' = k \<and> r_Quantity rec' = r_Quantity rec
         \<and> sint (r_FilledQuantity rec') = sint (r_FilledQuantity rec) + sint (fl_Quantity f)
         \<and> sint (r_FilledQuantity rec') < sint (r_Quantity rec)"
  shows "accounted om' ids (fs @ [f]) (rs @ [r])"
  unfolding accounted_def
proof (intro conjI allI impI ballI)
  note c = accountedD [OF acc k]
  fix j q assume j: "om' j = Some q"
  have "r_InternalOrderID q = j \<and> j \<in> ids \<and> sint (r_FilledQuantity q) = filled_of j (fs @ [f]) \<and> filled_of j (fs @ [f]) < sint (r_Quantity q)"
  proof (cases "j = k")
    case True
    then show ?thesis using om'(2) [of q] j c f(1) by simp
  next
    case False
    then have "om j = Some q" using om'(1) j by simp
    from accountedD [OF acc this] show ?thesis using False f(1) by simp
  qed
  then show "r_InternalOrderID q = j" "j \<in> ids" "sint (r_FilledQuantity q) = filled_of j (fs @ [f])" "filled_of j (fs @ [f]) < sint (r_Quantity q)"
    by simp_all
next
  fix g assume "g \<in> set (fs @ [f])"
  then show "fl_InternalOrderID g \<in> ids" "0 < sint (fl_Quantity g)"
    using acc accountedD(2) [OF acc k] f by (auto simp: accounted_def)
next
  fix j show "reported_of j (rs @ [r]) + unreported_of j (rs @ [r]) = filled_of j (fs @ [f])" using acc f(1) r by (auto simp: accounted_def)
next
  fix p assume "p \<in> set (rs @ [r])"
  then show "0 < sint (fr_Quantity (snd p))" using acc f(2) r(2) by (auto simp: accounted_def)
qed


lemma settle_fill_effect:
  assumes "r_InternalOrderID rec = k"
  shows "xe_openOrders (snd (settle_fill flt now rec e)) =
      (if sint (r_Quantity rec) \<le> sint (r_FilledQuantity rec) then (xe_openOrders e)(k := None)
       else (xe_openOrders e)(k \<mapsto> fst (settle_fill flt now rec e)))"
    and "xe_fills (snd (settle_fill flt now rec e)) = xe_fills e" "xe_reports (snd (settle_fill flt now rec e)) = xe_reports e"
    and "r_InternalOrderID (fst (settle_fill flt now rec e)) = k" "r_Quantity (fst (settle_fill flt now rec e)) = r_Quantity rec"
    and "r_FilledQuantity (fst (settle_fill flt now rec e)) = r_FilledQuantity rec"
  using assms by (simp_all add: settle_fill_def Let_def split_beta)

lemma accounted_reported:
  assumes "accounted (xe_openOrders g) (set (map or_internal_order_id (xe_orders e))) fs (rs @ [r])"
    and "map or_internal_order_id (xe_orders g) = map or_internal_order_id (xe_orders e)" "xe_fills g = fs" "xe_reports g = rs"
  shows "accounted_inv (g\<lparr>xe_reports := xe_reports g @ [r], xe_out := out\<rparr>)"
proof -
  let ?g = "g\<lparr>xe_reports := xe_reports g @ [r], xe_out := out\<rparr>"
  have "xe_openOrders ?g = xe_openOrders g" "xe_orders ?g = xe_orders g" "xe_fills ?g = fs" "xe_reports ?g = rs @ [r]"
    using assms by simp_all
  then show ?thesis unfolding accounted_inv_def using assms(1,2) by (simp only:)
qed

lemma accounted_inv_fill:
  assumes inv: "accounted_inv e" and fits: "fill_fits ks f e"
  shows "accounted_inv (processFill flt now fillID ks f e)"
proof (cases "find_by_exchange_id ks (ef_ExchangeOrderID f) e")
  case None
  then show ?thesis using inv by (simp add: processFill_def)
next
  case (Some rec)
  obtain k where k: "xe_openOrders e k = Some rec" using found_is_open [OF Some] by blast
  have acc: "accounted (xe_openOrders e) (set (map or_internal_order_id (xe_orders e))) (xe_fills e) (xe_reports e)"
    using inv by (simp add: accounted_inv_def)
  note c = accountedD [OF acc k]
  let ?row = "\<lparr>fl_FillID = fillID, fl_InternalOrderID = r_InternalOrderID rec, fl_ExchangeFillID = ef_FillID f,
     fl_Quantity = ef_Quantity f, fl_PriceMicros = ef_PriceMicros f, fl_FeeMicros = ef_FeeMicros f, fl_FilledAt = ef_FilledAt f\<rparr>"
  let ?rec = "fill_record now f rec"
  let ?s = "settle_fill flt now ?rec (e\<lparr>xe_fills := xe_fills e @ [?row]\<rparr>)"
  have idk: "r_InternalOrderID ?rec = k" using c(1) by simp
  note eff = settle_fill_effect [OF idk, of flt now "e\<lparr>xe_fills := xe_fills e @ [?row]\<rparr>"]
  have main: "accounted_inv ((snd ?s)\<lparr>xe_reports := xe_reports (snd ?s) @ [report_fill flt fillID (fill_report f (fst ?s))], xe_out := out\<rparr>)"
    if pos: "0 < sint (ef_Quantity f)" for out
  proof -
    have sum: "sint (r_FilledQuantity ?rec) = sint (r_FilledQuantity rec) + sint (ef_Quantity f)"
      using pos fits Some filled_of_nonneg [OF acc, of k] c(3) by (simp add: fill_record_def fill_fits_def sint32_add)
    have "accounted (xe_openOrders (snd ?s)) (set (map or_internal_order_id (xe_orders e))) (xe_fills e @ [?row])
        (xe_reports e @ [report_fill flt fillID (fill_report f (fst ?s))])"
    proof (rule accounted_fill [OF acc k])
      show "fl_InternalOrderID ?row = k" "0 < sint (fl_Quantity ?row)" using c(1) pos by simp_all
      show "fr_InternalOrderID (snd (report_fill flt fillID (fill_report f (fst ?s)))) = k"
        "fr_Quantity (snd (report_fill flt fillID (fill_report f (fst ?s)))) = fl_Quantity ?row"
        by (simp_all add: report_fill_def fill_report_def eff(4))
      show "xe_openOrders (snd ?s) j = xe_openOrders e j" if "j \<noteq> k" for j using that by (simp add: eff(1))
    next
      fix q assume "xe_openOrders (snd ?s) k = Some q"
      then have q: "q = fst ?s \<and> sint (r_FilledQuantity ?rec) < sint (r_Quantity ?rec)"
        unfolding eff(1) by (cases "sint (r_Quantity ?rec) \<le> sint (r_FilledQuantity ?rec)") (simp_all only: if_True if_False fun_upd_same option.simps not_le)
      show "r_InternalOrderID q = k \<and> r_Quantity q = r_Quantity rec
          \<and> sint (r_FilledQuantity q) = sint (r_FilledQuantity rec) + sint (fl_Quantity ?row) \<and> sint (r_FilledQuantity q) < sint (r_Quantity rec)"
        using q unfolding conjunct1 [OF q] eff(4-6) sum by simp
    qed
    then show ?thesis by (rule accounted_reported) (simp_all add: eff(2,3))
  qed
  then show ?thesis using inv Some by (simp add: processFill_def Let_def split_beta)
qed

lemma submit_venue_open:
  assumes e': "e' = snd (submit_venue env va flt now internalID i aid a e)"
  shows "xe_openOrders e' = xe_openOrders e \<or> (\<exists>rec. xe_openOrders e' = (xe_openOrders e)(internalID \<mapsto> rec)
        \<and> r_InternalOrderID rec = internalID \<and> r_FilledQuantity rec = 0 \<and> r_Quantity rec = o_Quantity (a_Order a))"
    and "xe_fills e' = xe_fills e" "xe_reports e' = xe_reports e"
proof -
  have rec: "r_InternalOrderID (new_record now internalID a) = internalID" "r_FilledQuantity (new_record now internalID a) = 0"
    "r_Quantity (new_record now internalID a) = o_Quantity (a_Order a)" by (simp_all add: new_record_def Let_def)
  show "xe_openOrders e' = xe_openOrders e \<or> (\<exists>rec. xe_openOrders e' = (xe_openOrders e)(internalID \<mapsto> rec)
      \<and> r_InternalOrderID rec = internalID \<and> r_FilledQuantity rec = 0 \<and> r_Quantity rec = o_Quantity (a_Order a))"
    unfolding e' submit_venue_def Let_def
    by (auto simp: split_beta update_intent_as_settle rec intro!: exI split: sum.split)
  show "xe_fills e' = xe_fills e" "xe_reports e' = xe_reports e"
    unfolding e' submit_venue_def Let_def by (simp_all add: split_beta update_intent_as_settle split: sum.split)
qed

lemma accounted_inv_submit:
  assumes inv: "accounted_inv e"
  shows "accounted_inv (snd (Exec_SubmitOrder env va flt now internalID newIntentID aid a e))"
proof (cases rule: Exec_SubmitOrder_cases [of env a e va flt now internalID newIntentID aid])
  case (venue intent l)
  let ?e = "e\<lparr>xe_ledger := l, xe_orders := xe_orders e @ [new_row internalID a]\<rparr>"
  let ?e' = "snd (submit_venue env va flt now internalID (i_IntentID intent) aid a ?e)"
  have acc: "accounted (xe_openOrders e) (set (map or_internal_order_id (xe_orders e))) (xe_fills e) (xe_reports e)"
    using inv by (simp add: accounted_inv_def)
  have new: "internalID \<notin> set (map or_internal_order_id (xe_orders e))" "0 < sint (o_Quantity (a_Order a))"
    using venue(3) by (simp_all add: order_row_constraints_def new_row_def Let_def)
  let ?ids = "insert internalID (set (map or_internal_order_id (xe_orders e)))"
  have ids: "set (map or_internal_order_id (xe_orders ?e')) = ?ids"
    by (simp only: submit_venue_rows) (simp add: new_row_def Let_def)
  have grow: "accounted (xe_openOrders e) ?ids (xe_fills e) (xe_reports e)" using acc unfolding accounted_def by blast
  have "accounted ((xe_openOrders e)(internalID \<mapsto> rec)) ?ids (xe_fills e) (xe_reports e)"
    if "r_InternalOrderID rec = internalID" "r_FilledQuantity rec = 0" "r_Quantity rec = o_Quantity (a_Order a)" for rec
    using grow that new filled_of_new [OF acc new(1)] unfolding accounted_def by simp blast
  then have "accounted (xe_openOrders ?e') ?ids (xe_fills e) (xe_reports e)"
    using submit_venue_open(1) [OF refl, of env va flt now internalID "i_IntentID intent" aid a ?e] grow by auto
  then show ?thesis unfolding venue(4) accounted_inv_def ids
    using submit_venue_open(2,3) [OF refl, of env va flt now internalID "i_IntentID intent" aid a ?e] by simp
qed (use inv in \<open>simp_all add: accounted_inv_def\<close>)

lemma accounted_inv_step:
  assumes "exec_step env va sub_ok fill_fits e e'" "accounted_inv e"
  shows "accounted_inv e'"
  using assms(1)
proof cases
  case (xs_mode mode)
  show ?thesis by (rule accounted_inv_cong [OF assms(2)]) (simp_all add: xs_mode Exec_SetSystemMode_def)
next
  case (xs_reconciled b)
  show ?thesis by (rule accounted_inv_cong [OF assms(2)]) (simp_all add: xs_reconciled SetReconciled_def)
next
  case (xs_venue v)
  show ?thesis by (rule accounted_inv_cong [OF assms(2)]) (simp_all add: xs_venue)
qed (simp_all add: accounted_inv_CancelOrder accounted_inv_CancelAll accounted_inv_fill accounted_inv_submit assms(2))

interpretation accounting: step_invariant "exec_step env va sub_ok fill_fits" accounted_inv for env va sub_ok
  by unfold_locales (rule accounted_inv_step)

lemma accounted_inv_new: "accounted_inv (NewExecEngine venue key l limits [] [])"
  by (simp add: accounted_inv_def accounted_def NewExecEngine_def)

lemma reports_of_zero:
  assumes "\<forall>p \<in> set rs. 0 < sint (fr_Quantity (snd p))"
  shows "0 \<le> reports_of ok k rs" "reports_of ok k rs = 0 \<longleftrightarrow> (\<forall>p \<in> set rs. fr_InternalOrderID (snd p) = k \<longrightarrow> fst p \<noteq> ok)"
proof -
  show nonneg: "0 \<le> reports_of ok k rs" using assms unfolding reports_of_def by (intro sum_list_nonneg) auto
  show "reports_of ok k rs = 0 \<longleftrightarrow> (\<forall>p \<in> set rs. fr_InternalOrderID (snd p) = k \<longrightarrow> fst p \<noteq> ok)"
    using assms unfolding reports_of_def by (subst sum_list_nonneg_eq_0_iff) force+
qed

text \<open>
  C8: Fills are accounted for. From the start, over any operations and failures, as long as no fill takes an order's filled
  quantity past 32 bits: the filled quantity of every open order is the sum of its rows in \<^verbatim>\<open>execution.fills\<close> and
  below its size; and for every order the quantities of the reports to the risk engine, those whose call succeeded
  and those whose call failed, sum to the same as its fill rows. A failed report is logged and never made again, so the
  quantity reported successfully falls short of the fill rows exactly for the orders that have a failed report.
\<close>

theorem fills_accounted:
  assumes "(exec_step env va any_submission fill_fits)\<^sup>*\<^sup>* (NewExecEngine venue key l limits [] []) e"
  shows "(\<forall>k rec. xe_openOrders e k = Some rec \<longrightarrow> sint (r_FilledQuantity rec) = filled_of k (xe_fills e)
        \<and> filled_of k (xe_fills e) < sint (r_Quantity rec))
    \<and> (\<forall>k. reported_of k (xe_reports e) + unreported_of k (xe_reports e) = filled_of k (xe_fills e)
        \<and> reported_of k (xe_reports e) \<le> filled_of k (xe_fills e)
        \<and> (reported_of k (xe_reports e) = filled_of k (xe_fills e)
           \<longleftrightarrow> (\<forall>p \<in> set (xe_reports e). fr_InternalOrderID (snd p) = k \<longrightarrow> fst p)))"
proof -
  have "accounted_inv e" using assms accounted_inv_new by (rule accounting.reachable_inv)
  then have acc: "accounted (xe_openOrders e) (set (map or_internal_order_id (xe_orders e))) (xe_fills e) (xe_reports e)"
    by (simp only: accounted_inv_def)
  then have pos: "\<forall>p \<in> set (xe_reports e). 0 < sint (fr_Quantity (snd p))"
    and sum: "reported_of k (xe_reports e) + unreported_of k (xe_reports e) = filled_of k (xe_fills e)" for k
    unfolding accounted_def by blast+
  have "reported_of k (xe_reports e) + unreported_of k (xe_reports e) = filled_of k (xe_fills e)
        \<and> reported_of k (xe_reports e) \<le> filled_of k (xe_fills e)
        \<and> (reported_of k (xe_reports e) = filled_of k (xe_fills e)
           \<longleftrightarrow> (\<forall>p \<in> set (xe_reports e). fr_InternalOrderID (snd p) = k \<longrightarrow> fst p))" for k
  proof -
    have "reported_of k (xe_reports e) = filled_of k (xe_fills e) \<longleftrightarrow> unreported_of k (xe_reports e) = 0" using sum [of k] by linarith
    moreover have "reported_of k (xe_reports e) \<le> filled_of k (xe_fills e)" using sum [of k] reports_of_zero(1) [OF pos, of False k] by linarith
    ultimately show ?thesis using sum [of k] reports_of_zero(2) [OF pos, of False k] by simp
  qed
  moreover have "\<forall>k rec. xe_openOrders e k = Some rec \<longrightarrow> sint (r_FilledQuantity rec) = filled_of k (xe_fills e)
        \<and> filled_of k (xe_fills e) < sint (r_Quantity rec)"
    using acc unfolding accounted_def by blast
  ultimately show ?thesis by blast
qed

definition sample_fill :: ExchangeFill where
  "sample_fill = \<lparr>ef_FillID = ''x1'', ef_ExchangeOrderID = numbered ''MOCK-'' 1, ef_ClientOrderID = ''o1'', ef_Quantity = 4,
     ef_PriceMicros = 400000, ef_FeeMicros = 0, ef_FilledAt = 9\<rparr>"

definition sample_lost :: faults where
  "sample_lost c \<longleftrightarrow> c = Rpc ''RiskEngine.ReportFill'' ''f1''"

lemma sample_working_fill:
  assumes "e' = processFill flt 9 ''f1'' [''o1''] sample_fill sample_working" "\<not> flt (Db ''execution.fills'' ''f1'')"
  shows "map fl_Quantity (xe_fills e') = [4]" "map fl_InternalOrderID (xe_fills e') = [''o1'']"
    "map fst (xe_reports e') = [\<not> flt (Rpc ''RiskEngine.ReportFill'' ''f1'')]" "map (fr_InternalOrderID \<circ> snd) (xe_reports e') = [''o1'']"
proof -
  obtain rec where "xe_openOrders sample_working = [''o1'' \<mapsto> rec] \<and> r_NotionalMicros rec = 4000000 \<and> r_FilledQuantity rec = 0
     \<and> r_ExchangeOrderID rec = numbered ''MOCK-'' 1 \<and> r_InternalOrderID rec = ''o1'' \<and> map or_internal_order_id (xe_orders sample_working) = [''o1'']
     \<and> xe_fills sample_working = [] \<and> xe_reports sample_working = []"
    using sample_working_open ..
  then have rec: "xe_openOrders sample_working = [''o1'' \<mapsto> rec]" "r_ExchangeOrderID rec = numbered ''MOCK-'' 1" "r_InternalOrderID rec = ''o1''"
    "map or_internal_order_id (xe_orders sample_working) = [''o1'']" "xe_fills sample_working = []" "xe_reports sample_working = []" 
    by - (elim conjE, assumption)+
  have f: "find_by_exchange_id [''o1''] (ef_ExchangeOrderID sample_fill) sample_working = Some rec"
    by (simp add: find_by_exchange_id_def rec(1,2) sample_fill_def)
  have q: "ef_Quantity sample_fill = 4" "ef_PriceMicros sample_fill = 400000" by (simp_all add: sample_fill_def)
  have id: "r_InternalOrderID (fill_record 9 sample_fill rec) = ''o1''" by (simp add: fill_record_def rec(3))
  note eff = settle_fill_effect [OF id]
  have "\<not> (flt (Db ''execution.fills'' ''f1'') \<or> sint (ef_Quantity sample_fill) \<le> 0 \<or> sint (ef_PriceMicros sample_fill) \<le> 0
      \<or> ''f1'' \<in> set (map fl_FillID (xe_fills sample_working)) \<or> r_InternalOrderID rec \<notin> set (map or_internal_order_id (xe_orders sample_working)))"
    using assms(2) by (simp add: q rec(3-5))
  note e' = assms(1) [unfolded processFill_def f option.case if_not_P [OF this] Let_def split_beta]
  show "map fl_Quantity (xe_fills e') = [4]" "map fl_InternalOrderID (xe_fills e') = [''o1'']"
    "map fst (xe_reports e') = [\<not> flt (Rpc ''RiskEngine.ReportFill'' ''f1'')]" "map (fr_InternalOrderID \<circ> snd) (xe_reports e') = [''o1'']"
    unfolding e' by (simp_all add: eff rec(3,5,6) q report_fill_def fill_report_def)
qed

theorem fills_accounted_witness:
  "\<exists>e. e = processFill sample_lost 9 ''f1'' [''o1''] sample_fill sample_working
     \<and> filled_of ''o1'' (xe_fills e) = 4 \<and> reported_of ''o1'' (xe_reports e) = 0 \<and> unreported_of ''o1'' (xe_reports e) = 4"
proof -
  define e where "e = processFill sample_lost 9 ''f1'' [''o1''] sample_fill sample_working"
  obtain rec where rec: "xe_openOrders sample_working = [''o1'' \<mapsto> rec]" "r_FilledQuantity rec = 0"
    using sample_working_open by blast
  have "fill_fits [''o1''] sample_fill sample_working"
    by (simp add: fill_fits_def find_by_exchange_id_def rec sample_fill_def)
  then have last: "exec_step sample_env (PaperAdapter (\<lambda>_. [])) any_submission fill_fits sample_working e"
    unfolding e_def by (rule xs_fill)
  have "(exec_step sample_env (PaperAdapter (\<lambda>_. [])) any_submission fill_fits)\<^sup>*\<^sup>*
     (NewExecEngine (NewServer DefaultConfig (\<lambda>_. Fin (1 / 4))) [1, 2, 3] NewLedger sample_limits [] []) e"
    by (rule rtranclp.rtrancl_into_rtrancl, rule sample_reachable, simp add: any_submission_def, rule last)
  from conjunct2 [OF fills_accounted [OF this], THEN spec, of "''o1''"]
  have sum: "reported_of ''o1'' (xe_reports e) + unreported_of ''o1'' (xe_reports e) = filled_of ''o1'' (xe_fills e)" by blast
  have "\<not> sample_lost (Db ''execution.fills'' ''f1'')" by (simp add: sample_lost_def)
  note w = sample_working_fill [OF e_def this]
  from w(1,2) have "filled_of ''o1'' (xe_fills e) = 4" by (auto simp: filled_of_def map_eq_Cons_conv)
  moreover from w(3) have "reported_of ''o1'' (xe_reports e) = 0" by (auto simp: reports_of_def sample_lost_def map_eq_Cons_conv)
  ultimately show ?thesis using sum e_def by auto
qed

end
