(* ===== verification/Execution_Recovery.thy ===== *)
theory Execution_Recovery
  imports Execution_Runs
begin

text \<open>
  What the execution engine rebuilds from the database when it starts, and how one fill is worked in.
\<close>

section \<open>Recovery\<close>

definition working_rows :: "OrderRow list \<Rightarrow> OrderRow list" where
  "working_rows rows = filter (\<lambda>row. or_status row \<in> {StatusPending, StatusOpen, StatusPartiallyFilled}) rows"

definition recovered_orders :: "OrderRow list \<Rightarrow> string \<rightharpoonup> OrderRecord" where
  "recovered_orders rows = map_of (map (\<lambda>row. (or_internal_order_id row, the (scan_order row))) rows)"

lemma scan_order_id: "scan_order row = Some rec \<Longrightarrow> r_InternalOrderID rec = or_internal_order_id row"
  by (auto simp: scan_order_def split: option.splits)

lemma scan_order_Some: "(\<exists>rec. scan_order row = Some rec) \<longleftrightarrow> or_exchange_order_id row \<noteq> None"
  by (simp add: scan_order_def split: option.split)

lemma scan_orders_ok:
  assumes "\<forall>row \<in> set rows. or_exchange_order_id row \<noteq> None" "distinct (map or_internal_order_id rows)"
  shows "scan_orders rows e = (Inr (), e\<lparr>xe_openOrders := xe_openOrders e ++ recovered_orders rows\<rparr>)"
  using assms
proof (induction rows arbitrary: e)
  case (Cons row rows)
  then have "or_exchange_order_id row \<noteq> None" by simp
  then obtain rec where rec: "scan_order row = Some rec" using scan_order_Some by blast
  have new: "or_internal_order_id row \<notin> dom (recovered_orders rows)"
    using Cons.prems(2) by (simp add: recovered_orders_def dom_map_of_conv_image_fst image_image)
  have "recovered_orders (row # rows) = (recovered_orders rows)(or_internal_order_id row \<mapsto> rec)"
    by (simp add: recovered_orders_def rec)
  moreover have "scan_orders rows (e\<lparr>xe_openOrders := (xe_openOrders e)(or_internal_order_id row \<mapsto> rec)\<rparr>) =
      (Inr (), e\<lparr>xe_openOrders := (xe_openOrders e)(or_internal_order_id row \<mapsto> rec) ++ recovered_orders rows\<rparr>)"
    using Cons by simp
  ultimately show ?case
    unfolding scan_orders.simps rec option.case scan_order_id [OF rec] map_add_upd_left [OF new] by (simp only: map_add_upd)
qed (simp add: recovered_orders_def)

lemma scan_orders_null:
  "\<exists>row \<in> set rows. or_exchange_order_id row = None \<Longrightarrow> \<exists>k e'. scan_orders rows e = (Inl (ScanOrder k), e')"
  by (induction rows arbitrary: e) (auto simp: scan_order_def split: option.split)

lemma load_intent_keeps [simp]:
  "xe_openOrders (load_intent flt e k) = xe_openOrders e" "xe_ledger (load_intent flt e k) = xe_ledger e"
  "xe_orders (load_intent flt e k) = xe_orders e" "xe_venue (load_intent flt e k) = xe_venue e"
  "xe_hmacKey (load_intent flt e k) = xe_hmacKey e" "xe_systemMode (load_intent flt e k) = xe_systemMode e"
  by (simp_all add: load_intent_def split: option.split sum.split)

lemma load_intents_keep [simp]:
  "xe_openOrders (foldl (load_intent flt) e ks) = xe_openOrders e" "xe_ledger (foldl (load_intent flt) e ks) = xe_ledger e"
  "xe_orders (foldl (load_intent flt) e ks) = xe_orders e" "xe_venue (foldl (load_intent flt) e ks) = xe_venue e"
  "xe_hmacKey (foldl (load_intent flt) e ks) = xe_hmacKey e" "xe_systemMode (foldl (load_intent flt) e ks) = xe_systemMode e"
  by (induction ks arbitrary: e) simp_all

text \<open>The intent found for the order with key \<open>k\<close>, if its map entry is keyed by its own id.\<close>

lemma load_intent_at:
  assumes "xe_openOrders e k = Some rec" "r_InternalOrderID rec = k"
  shows "xe_intentMap (load_intent no_faults e k) k =
      (case find (\<lambda>r. i_TraceID r = r_TraceID rec) (ld_rows (xe_ledger e)) of None \<Rightarrow> xe_intentMap e k | Some r \<Rightarrow> Some (i_IntentID r))"
  using assms by (simp add: load_intent_def GetByTraceID_def split: option.split)

lemma load_intent_other:
  assumes "\<And>k rec. xe_openOrders e k = Some rec \<Longrightarrow> r_InternalOrderID rec = k" "j \<noteq> k"
  shows "xe_intentMap (load_intent no_faults e k) j = xe_intentMap e j"
  using assms by (simp add: load_intent_def GetByTraceID_def split: option.split)

lemma load_intents_at:
  assumes "distinct ks" "k \<in> set ks" "xe_openOrders e k = Some rec" "xe_intentMap e k = None"
    and keyed: "\<And>k rec. xe_openOrders e k = Some rec \<Longrightarrow> r_InternalOrderID rec = k"
  shows "xe_intentMap (foldl (load_intent no_faults) e ks) k =
    map_option i_IntentID (find (\<lambda>r. i_TraceID r = r_TraceID rec) (ld_rows (xe_ledger e)))"
proof -
  have other: "xe_intentMap (foldl (load_intent no_faults) f js) k = xe_intentMap f k"
    if "k \<notin> set js" "xe_openOrders f = xe_openOrders e" for js and f :: "'a ExecEngine"
    using that
  proof (induction js arbitrary: f)
    case (Cons j js)
    then have "xe_intentMap (load_intent no_faults f j) k = xe_intentMap f k"
      by (intro load_intent_other) (auto simp: keyed)
    then show ?case using Cons by (simp del: no_faults_simp)
  qed simp
  obtain as bs where ks: "ks = as @ k # bs" "k \<notin> set as" "k \<notin> set bs"
    using assms(1,2) by (metis distinct.simps(2) distinct_append not_distinct_conv_prefix split_list)
  show ?thesis unfolding ks(1)
    using ks(2,3) assms(3,4) load_intent_at [of "foldl (load_intent no_faults) e as" k rec] keyed [OF assms(3)]
    by (simp add: other split: option.split)
qed

text \<open>The two outcomes of \<^verbatim>\<open>RecoverFull\<close> on a fresh engine.\<close>

lemma RecoverFull_null:
  assumes "\<exists>row \<in> set (working_rows orders). or_exchange_order_id row = None" "\<not> flt (Db ''execution.orders.select'' [])"
  shows "\<exists>k. fst (RecoverFull flt visit (NewExecEngine venue key l limits orders fs)) = Inl (ScanOrder k)"
proof -
  from scan_orders_null [OF assms(1)] obtain k f where
    "scan_orders (working_rows orders) (NewExecEngine venue key l limits orders fs) = (Inl (ScanOrder k), f)" by blast
  then have "LoadOpenOrders flt visit (NewExecEngine venue key l limits orders fs) = (Inl (ScanOrder k), f)"
    unfolding LoadOpenOrders_def working_rows_def [symmetric] using assms(2) by (simp add: NewExecEngine_def)
  then show ?thesis by (simp add: RecoverFull_def)
qed

lemma RecoverFull_ok:
  fixes venue :: 'v and key l limits fs
  assumes "\<not> (\<exists>row \<in> set (working_rows orders). or_exchange_order_id row = None)" "distinct (map or_internal_order_id orders)"
  defines "e \<equiv> (NewExecEngine venue key l limits orders fs)\<lparr>xe_openOrders := recovered_orders (working_rows orders)\<rparr>"
  shows "RecoverFull no_faults visit (NewExecEngine venue key l limits orders fs) = (Inr (), foldl (load_intent no_faults) e (visit e))"
proof -
  have "distinct (map or_internal_order_id (working_rows orders))"
    unfolding working_rows_def using assms(2) by (simp add: distinct_map_filter)
  then have "scan_orders (working_rows orders) (NewExecEngine venue key l limits orders fs) = (Inr (), e)"
    using assms(1) unfolding e_def by (subst scan_orders_ok) (simp_all add: NewExecEngine_def)
  then have "LoadOpenOrders no_faults visit (NewExecEngine venue key l limits orders fs) = (Inr (), foldl (load_intent no_faults) e (visit e))"
    unfolding LoadOpenOrders_def working_rows_def [symmetric] by (simp add: NewExecEngine_def)
  then show ?thesis by (simp add: RecoverFull_def ReplayIntentLedger_def ReplayAll_def)
qed

text \<open>
  C18: What a restart recovers. On a fresh engine over the tables, with no failing query, \<^verbatim>\<open>RecoverFull\<close> fails if some working
  order (pending, open or partially filled) has no exchange id yet: the NULL cannot be scanned into
  a string. Otherwise it succeeds, the open orders are exactly the working rows, under their ids, and each is
  linked to the intent with its trace id, if the ledger has one.
\<close>

theorem recovery_rebuilds:
  assumes "distinct (map or_internal_order_id orders)" 
    and "\<And>e. xe_openOrders e = recovered_orders (working_rows orders) \<Longrightarrow> enumerates (visit e) (xe_openOrders e)"
    and "RecoverFull no_faults visit (NewExecEngine venue key l limits orders fs) = (res, e')"
  shows "if \<exists>row \<in> set (working_rows orders). or_exchange_order_id row = None then \<exists>k. res = Inl (ScanOrder k)
    else res = Inr () \<and> xe_openOrders e' = recovered_orders (working_rows orders)
      \<and> (\<forall>k rec. xe_openOrders e' k = Some rec \<longrightarrow>
           xe_intentMap e' k = map_option i_IntentID (find (\<lambda>r. i_TraceID r = r_TraceID rec) (ld_rows l)))"
proof (cases "\<exists>row \<in> set (working_rows orders). or_exchange_order_id row = None")
  case True
  from RecoverFull_null [OF this, of no_faults visit venue key l limits fs] assms(3) have "\<exists>k. res = Inl (ScanOrder k)" by simp
  with True show ?thesis by simp
next
  case False
  let ?e = "(NewExecEngine venue key l limits orders fs)\<lparr>xe_openOrders := recovered_orders (working_rows orders)\<rparr>"
  note rec = RecoverFull_ok [OF False assms(1), of visit venue key l limits fs]
  have e': "res = Inr ()" "e' = foldl (load_intent no_faults) ?e (visit ?e)" using rec assms(3) by simp_all
  have keyed: "r_InternalOrderID rec = k" if "recovered_orders (working_rows orders) k = Some rec" for k rec
    using map_of_SomeD [OF that [unfolded recovered_orders_def]] False by (auto simp: scan_order_def)
  have "xe_intentMap e' k = map_option i_IntentID (find (\<lambda>r. i_TraceID r = r_TraceID rec) (ld_rows l))"
    if "recovered_orders (working_rows orders) k = Some rec" for k rec
    unfolding e' by (subst load_intents_at [of _ _ _ rec])
      (use assms(2) [of ?e] that keyed in \<open>auto simp: enumerates_def NewExecEngine_def\<close>)
  then show ?thesis using False e' by simp
qed

definition sample_rows :: "OrderRow list" where
  "sample_rows = [(new_row ''o1'' sample_approval)\<lparr>or_exchange_order_id := Some ''MOCK-1'', or_status := StatusOpen\<rparr>]"

lemma sample_rows_working: "working_rows sample_rows = sample_rows"
  by (simp add: working_rows_def sample_rows_def)

theorem recovery_rebuilds_witness:
  "fst (RecoverFull no_faults (\<lambda>_. [''o1'']) (NewExecEngine () [1] NewLedger sample_limits sample_rows [])) = Inr ()
   \<and> dom (xe_openOrders (snd (RecoverFull no_faults (\<lambda>_. [''o1'']) (NewExecEngine () [1] NewLedger sample_limits sample_rows [])))) = {''o1''}"
proof -
  let ?r = "RecoverFull no_faults (\<lambda>_. [''o1'']) (NewExecEngine () [1] NewLedger sample_limits sample_rows [])"
  obtain res e' where r: "?r = (res, e')" by (cases ?r)
  have dom: "dom (recovered_orders sample_rows) = {''o1''}"
    by (simp add: recovered_orders_def sample_rows_def new_row_def Let_def)
  have d: "distinct (map or_internal_order_id sample_rows)" and nn: "\<not> (\<exists>row \<in> set sample_rows. or_exchange_order_id row = None)"
    by (simp_all add: sample_rows_def)
  have en: "enumerates [''o1''] (xe_openOrders e)" if "xe_openOrders e = recovered_orders (working_rows sample_rows)" for e :: "unit ExecEngine"
    using that dom by (simp add: enumerates_def sample_rows_working)
  from recovery_rebuilds [OF d en r] have "res = Inr () \<and> xe_openOrders e' = recovered_orders sample_rows"
    using nn unfolding sample_rows_working by auto
  then show ?thesis using dom r by simp
qed


section \<open>One fill\<close>

lemma settle_fill_intents:
  assumes "r_InternalOrderID rec = k"
  shows "xe_intentMap (snd (settle_fill flt now rec e)) =
      (if sint (r_Quantity rec) \<le> sint (r_FilledQuantity rec) then (xe_intentMap e)(k := None) else xe_intentMap e)"
    and "sint (r_Quantity rec) \<le> sint (r_FilledQuantity rec) \<Longrightarrow> xe_intentMap e k = Some i \<Longrightarrow>
      \<not> flt (Db ''order_intents.update'' i) \<Longrightarrow> intent_settled i (xe_ledger (snd (settle_fill flt now rec e)))"
proof -
  have st: "IntentFilled \<in> set intent_statuses" "IntentStatus_IsTerminal IntentFilled"
    by (simp_all add: intent_statuses_def IntentStatus_IsTerminal_def)
  show "xe_intentMap (snd (settle_fill flt now rec e)) =
      (if sint (r_Quantity rec) \<le> sint (r_FilledQuantity rec) then (xe_intentMap e)(k := None) else xe_intentMap e)"
    using assms by (simp add: settle_fill_def Let_def split_beta)
  show "intent_settled i (xe_ledger (snd (settle_fill flt now rec e)))"
    if "sint (r_Quantity rec) \<le> sint (r_FilledQuantity rec)" "xe_intentMap e k = Some i" "\<not> flt (Db ''order_intents.update'' i)"
    using that assms st by (simp add: settle_fill_def Let_def split_beta settle_settles)
qed

lemma fill_of_open:
  assumes "e' = processFill flt now fillID ks f e"
    and found: "find_by_exchange_id ks (ef_ExchangeOrderID f) e = Some rec" and k: "k = r_InternalOrderID rec"
    and ok: "\<not> flt (Db ''execution.fills'' fillID)" "0 < sint (ef_Quantity f)" "0 < sint (ef_PriceMicros f)"
      "fillID \<notin> set (map fl_FillID (xe_fills e))" "k \<in> set (map or_internal_order_id (xe_orders e))"
  shows "\<exists>row r. xe_fills e' = xe_fills e @ [row] \<and> fl_Quantity row = ef_Quantity f \<and> fl_InternalOrderID row = k
      \<and> xe_reports e' = xe_reports e @ [(\<not> flt (Rpc ''RiskEngine.ReportFill'' fillID), r)] \<and> fr_Quantity r = ef_Quantity f \<and> fr_InternalOrderID r = k"
    and "\<forall>j. j \<noteq> k \<longrightarrow> xe_openOrders e' j = xe_openOrders e j"
    and "if sint (r_Quantity rec) \<le> sint (r_FilledQuantity rec + ef_Quantity f)
      then xe_openOrders e' k = None \<and> xe_intentMap e' k = None
        \<and> (\<forall>i. xe_intentMap e k = Some i \<and> \<not> flt (Db ''order_intents.update'' i) \<longrightarrow> intent_settled i (xe_ledger e'))
      else \<exists>rec'. xe_openOrders e' k = Some rec' \<and> r_FilledQuantity rec' = r_FilledQuantity rec + ef_Quantity f
        \<and> xe_intentMap e' = xe_intentMap e"
proof -
  let ?row = "\<lparr>fl_FillID = fillID, fl_InternalOrderID = r_InternalOrderID rec, fl_ExchangeFillID = ef_FillID f,
     fl_Quantity = ef_Quantity f, fl_PriceMicros = ef_PriceMicros f, fl_FeeMicros = ef_FeeMicros f, fl_FilledAt = ef_FilledAt f\<rparr>"
  define g where "g = e\<lparr>xe_fills := xe_fills e @ [?row]\<rparr>"
  have g: "xe_openOrders g = xe_openOrders e" "xe_intentMap g = xe_intentMap e" "xe_fills g = xe_fills e @ [?row]" "xe_reports g = xe_reports e"
    by (simp_all add: g_def)
  let ?rec = "fill_record now f rec"
  have idk: "r_InternalOrderID ?rec = k" "r_FilledQuantity ?rec = r_FilledQuantity rec + ef_Quantity f" "r_Quantity ?rec = r_Quantity rec"
    using k by (simp_all add: fill_record_def)
  define s where "s = settle_fill flt now ?rec g"
  note eff = settle_fill_effect [OF idk(1), of flt now g, folded s_def] settle_fill_intents [OF idk(1), where flt = flt and now = now and e = g, folded s_def]
  have cond: "\<not> (flt (Db ''execution.fills'' fillID) \<or> sint (ef_Quantity f) \<le> 0 \<or> sint (ef_PriceMicros f) \<le> 0
      \<or> fillID \<in> set (map fl_FillID (xe_fills e)) \<or> r_InternalOrderID rec \<notin> set (map or_internal_order_id (xe_orders e)))"
    using ok unfolding k by simp
  have "\<exists>out. e' = (snd s)\<lparr>xe_reports := xe_reports (snd s) @ [report_fill flt fillID (fill_report f (fst s))], xe_out := out\<rparr>"
    unfolding assms(1) processFill_def found option.case if_not_P [OF cond] Let_def split_beta s_def g_def by (rule exI, rule refl)
  then obtain out where out: "e' = (snd s)\<lparr>xe_reports := xe_reports (snd s) @ [report_fill flt fillID (fill_report f (fst s))], xe_out := out\<rparr>" ..
  have e': "xe_fills e' = xe_fills (snd s)" "xe_reports e' = xe_reports (snd s) @ [report_fill flt fillID (fill_report f (fst s))]" "xe_openOrders e' = xe_openOrders (snd s)"
    "xe_intentMap e' = xe_intentMap (snd s)" "xe_ledger e' = xe_ledger (snd s)" by (simp_all add: out)
  show "\<exists>row r. xe_fills e' = xe_fills e @ [row] \<and> fl_Quantity row = ef_Quantity f \<and> fl_InternalOrderID row = k
      \<and> xe_reports e' = xe_reports e @ [(\<not> flt (Rpc ''RiskEngine.ReportFill'' fillID), r)] \<and> fr_Quantity r = ef_Quantity f \<and> fr_InternalOrderID r = k"
    unfolding e' eff(2,3) g using k eff(4) by (intro exI [of _ ?row] exI [of _ "fill_report f (fst s)"]) (simp add: fill_report_def report_fill_def)
  show "\<forall>j. j \<noteq> k \<longrightarrow> xe_openOrders e' j = xe_openOrders e j" unfolding e' eff(1) g by simp
  show "if sint (r_Quantity rec) \<le> sint (r_FilledQuantity rec + ef_Quantity f)
      then xe_openOrders e' k = None \<and> xe_intentMap e' k = None
        \<and> (\<forall>i. xe_intentMap e k = Some i \<and> \<not> flt (Db ''order_intents.update'' i) \<longrightarrow> intent_settled i (xe_ledger e'))
      else \<exists>rec'. xe_openOrders e' k = Some rec' \<and> r_FilledQuantity rec' = r_FilledQuantity rec + ef_Quantity f
        \<and> xe_intentMap e' = xe_intentMap e"
    unfolding e' eff(1,7) g idk using eff(6,8) by (simp add: idk g)
qed

text \<open>
  How a fill is worked in. A fill for an exchange id no open order has changes nothing. A fill of an open order, recorded without a
  database failure, appends its row and its report to the risk engine (which is lost exactly when the call fails); it leaves every other open
  order alone; if it completes the order, the order and its intent leave the books and the intent
  is settled; otherwise the order stays open with the fill's quantity added.
\<close>

theorem fill_worked_in:
  assumes "e' = processFill flt now fillID ks f e"
  shows "(find_by_exchange_id ks (ef_ExchangeOrderID f) e = None \<longrightarrow> e' = e)
    \<and> (\<forall>rec k. find_by_exchange_id ks (ef_ExchangeOrderID f) e = Some rec \<and> k = r_InternalOrderID rec
        \<and> \<not> flt (Db ''execution.fills'' fillID) \<and> 0 < sint (ef_Quantity f) \<and> 0 < sint (ef_PriceMicros f)
        \<and> fillID \<notin> set (map fl_FillID (xe_fills e)) \<and> k \<in> set (map or_internal_order_id (xe_orders e)) \<longrightarrow>
        (\<exists>row r. xe_fills e' = xe_fills e @ [row] \<and> fl_Quantity row = ef_Quantity f \<and> fl_InternalOrderID row = k
          \<and> xe_reports e' = xe_reports e @ [(\<not> flt (Rpc ''RiskEngine.ReportFill'' fillID), r)] \<and> fr_Quantity r = ef_Quantity f \<and> fr_InternalOrderID r = k)
        \<and> (\<forall>j. j \<noteq> k \<longrightarrow> xe_openOrders e' j = xe_openOrders e j)
        \<and> (if sint (r_Quantity rec) \<le> sint (r_FilledQuantity rec + ef_Quantity f)
           then xe_openOrders e' k = None \<and> xe_intentMap e' k = None
             \<and> (\<forall>i. xe_intentMap e k = Some i \<and> \<not> flt (Db ''order_intents.update'' i) \<longrightarrow> intent_settled i (xe_ledger e'))
           else \<exists>rec'. xe_openOrders e' k = Some rec' \<and> r_FilledQuantity rec' = r_FilledQuantity rec + ef_Quantity f
             \<and> xe_intentMap e' = xe_intentMap e))"
proof (intro conjI [OF _ allI [OF allI [OF impI]]])
  show "find_by_exchange_id ks (ef_ExchangeOrderID f) e = None \<longrightarrow> e' = e" using assms by (simp add: processFill_def)
qed (elim conjE, intro conjI, (rule fill_of_open [OF assms]; assumption)+)

theorem fill_worked_in_witness:
  "\<exists>rec'. xe_openOrders (processFill no_faults 9 ''f1'' [''o1''] (sample_fill\<lparr>ef_ExchangeOrderID := []\<rparr>) sample_open) ''o1'' = Some rec'
     \<and> r_FilledQuantity rec' = 4"
proof -
  let ?f = "sample_fill\<lparr>ef_ExchangeOrderID := []\<rparr>"
  let ?rec = "(new_record 8 ''o1'' sample_approval)\<lparr>r_Status := StatusOpen\<rparr>"
  have rec: "r_InternalOrderID ?rec = ''o1''" "r_FilledQuantity ?rec = 0" "r_Quantity ?rec = 10" "r_ExchangeOrderID ?rec = []"
    by (simp_all add: new_record_def Let_def sample_approval_fields sample_order_def)
  have so: "xe_openOrders sample_open = [''o1'' \<mapsto> ?rec]" "xe_fills sample_open = []" "xe_orders sample_open = [new_row ''o1'' sample_approval]"
    by (simp_all add: sample_open_def sample_exec_def NewExecEngine_def)
  have f: "ef_Quantity ?f = 4" "ef_PriceMicros ?f = 400000" "ef_ExchangeOrderID ?f = []" by (simp_all add: sample_fill_def)
  have "find_by_exchange_id [''o1''] (ef_ExchangeOrderID ?f) sample_open = Some ?rec"
    unfolding find_by_exchange_id_def so f using rec(4) by simp
  moreover have "''o1'' \<in> set (map or_internal_order_id (xe_orders sample_open))" unfolding so by (simp add: new_row_def Let_def)
  ultimately have "find_by_exchange_id [''o1''] (ef_ExchangeOrderID ?f) sample_open = Some ?rec \<and> ''o1'' = r_InternalOrderID ?rec
      \<and> \<not> no_faults (Db ''execution.fills'' ''f1'') \<and> 0 < sint (ef_Quantity ?f) \<and> 0 < sint (ef_PriceMicros ?f)
      \<and> ''f1'' \<notin> set (map fl_FillID (xe_fills sample_open)) \<and> ''o1'' \<in> set (map or_internal_order_id (xe_orders sample_open))"
    unfolding f so(2) using rec(1) by simp
  from conjunct2 [OF conjunct2 [OF fill_worked_in [OF refl, of "[''o1'']" ?f sample_open no_faults 9 "''f1''",
      THEN conjunct2, THEN spec, THEN spec, THEN mp, OF this]]]
  show ?thesis unfolding rec f by auto
qed

end
