(* ===== verification/Kill_Path.thy ===== *)
theory Kill_Path
  imports Watchdog_Runs Grpc_Auth Execution_Recovery
begin

text \<open>
  How a kill switch reaches the services: \<^verbatim>\<open>services/watchdog/grpc_clients.go\<close>, which implements the
  watchdog's control interfaces by gRPC calls, the heartbeat that carries the mode to the execution
  engine, and the risk engine's startup, which reads the kill switch table. The contract the
  watchdog relies on is the locale \<open>execution_control\<close>.
\<close>

section \<open>The control interface\<close>

locale execution_control =
  fixes ec :: "'x ExecutionControl" and inv :: "'x \<Rightarrow> bool" and no_open :: "'x \<Rightarrow> bool"
  assumes cancel_ok: "inv x \<Longrightarrow> ec_CancelAll ec reason by1 x = (Inr n, x') \<Longrightarrow> no_open x' \<and> inv x'"
    and cancel_failed: "ec_CancelAll ec reason by1 x = (Inl e, x') \<Longrightarrow> x' = x"
    and mode_keeps: "inv x \<Longrightarrow> inv (ec_SetSystemMode ec mode x) \<and> (no_open x \<longrightarrow> no_open (ec_SetSystemMode ec mode x))"
begin

lemma cancel_keeps: "inv x \<Longrightarrow> inv (snd (ec_CancelAll ec reason by1 x))"
  using cancel_ok cancel_failed by (metis prod.collapse sum.exhaust)

lemma trigger_inv: "inv (km_exec w) \<Longrightarrow> inv (km_exec (Trigger H ec rk flt visit now aid level scope reason triggeredBy w))"
  by (cases "blocked level scope w")
    (simp_all add: Trigger_cases trigger_actions_def Let_def cancel_keeps mode_keeps)

lemma trigger_clears:
  assumes "inv (km_exec w)" "\<not> blocked level scope w" "level = LevelFullStop \<or> level = LevelCancelOnly"
    and "fst (ec_CancelAll ec (''kill_switch:'' @ reason) triggeredBy (km_exec w)) = Inr n"
  shows "no_open (km_exec (Trigger H ec rk flt visit now aid level scope reason triggeredBy w))"
proof -
  let ?x = "snd (ec_CancelAll ec (''kill_switch:'' @ reason) triggeredBy (km_exec w))"
  have "no_open ?x \<and> inv ?x"
    using assms(4) by (intro cancel_ok [OF assms(1), of "''kill_switch:'' @ reason" triggeredBy n]) (simp add: prod_eq_iff)
  moreover have "\<exists>mode. km_exec (Trigger H ec rk flt visit now aid level scope reason triggeredBy w) = ec_SetSystemMode ec mode ?x"
    using assms(3) by (auto simp: Trigger_cases(2) [OF assms(2)] trigger_actions_def Let_def new_halt_def)
  ultimately show ?thesis using mode_keeps by auto
qed

end

text \<open>
  \<^verbatim>\<open>GRPCExecControl\<close>: a call may fail in transport (\<open>lost\<close>); otherwise it passes the caller check of the
  execution engine. \<^verbatim>\<open>SetSystemMode\<close> only logs. The map order of the engine is \<open>visitx\<close>.
\<close>

definition GRPCExecControl ::
  "Env \<Rightarrow> 'v VenueAdapter \<Rightarrow> faults \<Rightarrow> time \<Rightarrow> uuid \<Rightarrow> ('v ExecEngine \<Rightarrow> string list) \<Rightarrow> bool \<Rightarrow> 'v ExecEngine ExecutionControl" where
  "GRPCExecControl env va flt now aid visitx lost =
     \<lparr>ec_CancelAll = (\<lambda>reason cancelledBy e.
        if lost then (Inl ControlUnavailable, e)
        else case UnaryCallerInterceptor execution_callers (CallerIdentityInterceptor ''watchdog'' None)
               ''/execution.ExecutionEngine/CancelAll''
               (\<lambda>e. case GRPC_CancelAll env va flt now aid (visitx e) reason cancelledBy e of
                      ((cnt, _), e') \<Rightarrow> (Inr cnt :: (grpc_error, int32) result, e')) e of
               (Inl _, e) \<Rightarrow> (Inl ControlUnavailable, e) | (Inr n, e) \<Rightarrow> (Inr (sint n), e)),
      ec_SetSystemMode = (\<lambda>mode e. e)\<rparr>"

definition GRPCRiskControl :: "'r RiskControl" where
  "GRPCRiskControl = \<lparr>rk_SetSystemMode = (\<lambda>mode r. r)\<rparr>"

lemma grpc_cancel_all:
  "ec_CancelAll (GRPCExecControl env va flt now aid visitx False) reason by1 e =
     (let ((n, err), e') = Exec_CancelAll env va flt now aid (visitx e) reason by1 e in (Inr (sint (word_of_int n :: int32)), e'))"
proof -
  have perm: "permitted execution_callers ''/execution.ExecutionEngine/CancelAll'' (callerFromContext (CallerIdentityInterceptor ''watchdog'' None))"
    unfolding caller_of_identity table_rows by simp
  show ?thesis
    by (simp add: GRPCExecControl_def interceptor_cases(1) [OF perm] run_handler_def GRPC_CancelAll_def Let_def split_beta
        del: of_int_eq_numeral_iff)
qed

definition books_finite :: "'v ExecEngine \<Rightarrow> bool" where
  "books_finite e \<longleftrightarrow> finite (dom (xe_openOrders e))"

definition books_empty :: "'v ExecEngine \<Rightarrow> bool" where
  "books_empty e \<longleftrightarrow> xe_openOrders e = Map.empty"

definition visits_books :: "('v ExecEngine \<Rightarrow> string list) \<Rightarrow> bool" where
  "visits_books visitx \<longleftrightarrow> (\<forall>e. finite (dom (xe_openOrders e)) \<longrightarrow> enumerates (visitx e) (xe_openOrders e))"

lemma grpc_control:
  assumes "visits_books visitx"
  shows "execution_control (GRPCExecControl env va flt now aid visitx lost) books_finite books_empty"
proof (unfold_locales, goal_cases)
  case (1 e reason by1 n e')
  then have lost: "\<not> lost" by (auto simp: GRPCExecControl_def)
  have "enumerates (visitx e) (xe_openOrders e)"
    using 1(1) assms unfolding visits_books_def books_finite_def by blast
  from cancel_all_books(1) [OF this refl] have "xe_openOrders (snd (Exec_CancelAll env va flt now aid (visitx e) reason by1 e)) = Map.empty" .
  moreover have "e' = snd (Exec_CancelAll env va flt now aid (visitx e) reason by1 e)"
    using 1(2) lost by (simp add: grpc_cancel_all Let_def split_beta)
  ultimately show ?case by (simp add: books_empty_def books_finite_def)
next
  case (2 reason by1 e err e')
  then show ?case by (cases lost) (simp_all add: grpc_cancel_all Let_def split_beta, simp add: GRPCExecControl_def)
qed (simp_all add: GRPCExecControl_def)

definition sorted_books :: "'v ExecEngine \<Rightarrow> string list" where
  "sorted_books e = sorted_list_of_set (dom (xe_openOrders e))"

lemma visits_books_sorted: "visits_books sorted_books"
  by (simp add: sorted_books_def visits_books_def enumerates_def)

interpretation grpc: execution_control "GRPCExecControl env va flt now aid sorted_books lost" books_finite books_empty
  for env va flt now aid lost
  by (rule grpc_control [OF visits_books_sorted])


section \<open>A kill stops trading\<close>

lemma halted_engine_refuses:
  assumes "xe_systemMode e \<noteq> ''normal''"
  shows "\<exists>err. Exec_SubmitOrder env va flt now internalID newIntentID aid a e = (Inl err, e)"
proof -
  have "submit_gate (env_hmac env) a e \<noteq> Inr ()" using assms by (simp add: submit_gate_ok)
  then obtain err where "submit_gate (env_hmac env) a e = Inl err" by (cases "submit_gate (env_hmac env) a e") auto
  then show ?thesis by (simp add: Exec_SubmitOrder_def)
qed

lemma rank_not_normal: "0 < severityRank mode \<Longrightarrow> mode \<noteq> ''normal'' \<and> mode \<noteq> []"
  by (auto simp: severityRank_def split: if_splits)


text \<open>
  C3: A kill stops trading. When a full stop or cancel-only kill is triggered that the scope does not already have, and the call to the
  execution engine gets through, then the engine has no open order left. And from then on, whatever else is triggered,
  acknowledged or resumed, as long as the scope itself is not resumed: the reply to the next heartbeat makes the
  execution engine refuse every submission without effect.
\<close>

theorem kill_stops_trading:
  assumes "visits_all visit" "visits_books visitx" "mode_ok w" "books_finite (km_exec w)"
    and "level = LevelFullStop \<or> level = LevelCancelOnly" "\<not> blocked level scope w"
    and "w1 = Trigger H (GRPCExecControl env va fltx nowx aidx visitx False) GRPCRiskControl flt visit now aid level scope reason by1 w"
    and "(wd_step H ec rk visit any_faults ack_ok res_ok)\<^sup>*\<^sup>* w1 w2" "\<not> res_ok scope"
    and "fst (GRPC_Heartbeat fltb nowb ''execution-engine'' status detail w2 d) = (ack, mode)"
  shows "xe_openOrders (km_exec w1) = Map.empty
    \<and> (\<exists>err. Exec_SubmitOrder env' va' flt' now' internalID newIntentID aid' a (heartbeat_tick (Some mode) e) =
          (Inl err, heartbeat_tick (Some mode) e))"
proof -
  let ?ec = "GRPCExecControl env va fltx nowx aidx visitx False"
  have "books_empty (km_exec w1)" unfolding assms(7)
    by (rule execution_control.trigger_clears [OF grpc_control [OF assms(2)] assms(4,6,5)])
      (simp add: grpc_cancel_all Let_def split_beta)
  moreover have "mode_ok w1" unfolding assms(7) by (rule Trigger_mode_ok [OF assms(1,3)])
  moreover have "held scope (severityRank level) False w1" unfolding assms(7) by (rule Trigger_reaches [OF assms(1,3)])
  ultimately obtain h where h: "km_activeHalts w1 scope = Some h" "severityRank level \<le> severityRank (ah_Level h)"
    and "books_empty (km_exec w1)" "mode_ok w1" by (auto simp: held_def)
  from halt_holds [OF assms(1) \<open>mode_ok w1\<close> h(1) _ assms(8)]
  have "severityRank (ah_Level h) \<le> severityRank (km_currentMode w2)" using assms(9) by blast
  moreover have "0 < severityRank level" using assms(5) by (auto simp: severityRank_def)
  ultimately have "0 < severityRank mode" using h(2) assms(10) by (simp add: GRPC_Heartbeat_def GetCurrentMode_def)
  from rank_not_normal [OF this] have "xe_systemMode (heartbeat_tick (Some mode) e) \<noteq> ''normal''"
    by (simp add: heartbeat_tick_def Exec_SetSystemMode_def)
  from halted_engine_refuses [OF this] \<open>books_empty (km_exec w1)\<close> show ?thesis by (simp add: books_empty_def)
qed

definition sample_killed :: "(MockServer ExecEngine, unit) KillSwitchManager" where
  "sample_killed = Trigger (\<lambda>_. []) (GRPCExecControl sample_env (PaperAdapter (\<lambda>_. [])) no_faults 9 ''a1'' sorted_books False) GRPCRiskControl
     no_faults sorted_visit 9 ''a2'' LevelFullStop ''global'' ''drawdown'' ''risk'' (NewKillSwitchManager sample_open () [])"

theorem kill_stops_trading_witness:
  "xe_openOrders (km_exec sample_killed) = Map.empty
   \<and> (\<exists>err. Exec_SubmitOrder sample_env (PaperAdapter (\<lambda>_. [])) no_faults 10 ''o2'' ''i2'' ''a3'' sample_approval
        (heartbeat_tick (Some (km_currentMode sample_killed)) sample_exec) =
        (Inl err, heartbeat_tick (Some (km_currentMode sample_killed)) sample_exec))"
proof -
  have fin: "books_finite (km_exec (NewKillSwitchManager sample_open () []))"
    by (simp add: books_finite_def NewKillSwitchManager_def sample_open_def)
  have nb: "\<not> blocked LevelFullStop ''global'' (NewKillSwitchManager sample_open () [])"
    by (simp add: blocked_def NewKillSwitchManager_def)
  have hb: "fst (GRPC_Heartbeat no_faults 9 ''execution-engine'' [] [] sample_killed (NewDeadMansSwitch [] 10 3)) = (True, km_currentMode sample_killed)"
    by (simp add: GRPC_Heartbeat_def GetCurrentMode_def)
  show ?thesis
    by (rule kill_stops_trading [OF visits_all_sorted visits_books_sorted mode_ok_new fin disjI1 [OF refl] nb sample_killed_def
          rtranclp.rtrancl_refl [of "wd_step (\<lambda>_. []) \<lparr>ec_CancelAll = (\<lambda>r b x. (Inr 0, x)), ec_SetSystemMode = (\<lambda>m x. x)\<rparr> null_risk sorted_visit any_faults any_scope (\<lambda>s. s \<noteq> ''global'')"] _ hb]) simp
qed


section \<open>The risk engine reads the same mode\<close>

lemma halts_of_from_row: "halts_of rows k = Some h \<Longrightarrow> \<exists>r \<in> set rows. \<not> ks_resumed r \<and> ks_scope r = k \<and> h = halt_of_row r"
proof (induction rows rule: rev_induct)
  case (snoc r rows)
  then show ?case by (cases "ks_resumed r"; cases "ks_scope r = k") auto
qed simp

lemma halts_of_finite: "finite (dom (halts_of rows))"
  by (induction rows rule: rev_induct) simp_all

lemma load_mode_peak:
  assumes "table_ok w"
  shows "load_mode (km_rows w) = mode_of_rank (peak (km_activeHalts w))"
proof (cases "sort_key (\<lambda>r. - int (severityRank (ks_level r))) (filter (\<lambda>r. \<not> ks_resumed r) (km_rows w))")
  case Nil
  then have none: "filter (\<lambda>r. \<not> ks_resumed r) (km_rows w) = []"
    by (metis length_0_conv length_sort)
  then have "km_activeHalts w = Map.empty" using assms by (simp add: table_ok_def halts_of_def)
  then show ?thesis using Nil by (simp add: load_mode_def peak_def mode_of_rank_def)
next
  case (Cons r rs)
  have hs: "km_activeHalts w = halts_of (km_rows w)" using assms by (simp add: table_ok_def)
  have "set (r # rs) = set (filter (\<lambda>r. \<not> ks_resumed r) (km_rows w))" by (simp only: Cons [symmetric] set_sort)
  then have r: "r \<in> set (km_rows w)" "\<not> ks_resumed r" and all: "\<And>q. q \<in> set (km_rows w) \<Longrightarrow> \<not> ks_resumed q \<Longrightarrow> q = r \<or> q \<in> set rs" by auto
  have "sorted (map (\<lambda>r. - int (severityRank (ks_level r))) (r # rs))" using sorted_sort_key [of "\<lambda>r. - int (severityRank (ks_level r))"] Cons by metis
  then have top: "severityRank (ks_level q) \<le> severityRank (ks_level r)" if "q \<in> set (km_rows w)" "\<not> ks_resumed q" for q
    using all [OF that] by auto
  have "severityRank (ks_level r) \<le> halt_rank (km_activeHalts w) (ks_scope r)" using assms r unfolding table_ok_def by blast
  also have "\<dots> \<le> peak (km_activeHalts w)"
    using halts_of_finite peak_ge unfolding hs halt_rank_def by (auto split: option.split)
  finally have "severityRank (ks_level r) \<le> peak (km_activeHalts w)" .
  moreover have "peak (km_activeHalts w) \<le> severityRank (ks_level r)"
    unfolding peak_def hs
  proof (rule Max.boundedI)
    fix n assume "n \<in> insert 0 ((\<lambda>h. severityRank (ah_Level h)) ` ran (halts_of (km_rows w)))"
    then show "n \<le> severityRank (ks_level r)"
      using halts_of_from_row top by (fastforce simp: ran_def halt_of_row_def)
  qed (simp_all add: finite_ran halts_of_finite)
  moreover have "ks_level r \<in> set kill_levels" using assms r by (simp add: table_ok_def)
  ultimately have "ks_level r \<in> set kill_levels" "mode_of_rank (peak (km_activeHalts w)) = ks_level r"
    using mode_of_level [of "ks_level r"] by simp_all
  then show ?thesis using Cons by (simp add: load_mode_def)
qed

lemma load_halt_mode: "st_SystemMode (foldl load_halt st rows) = st_SystemMode st"
  by (induction rows arbitrary: st) (simp_all add: load_halt_def Let_def)

text \<open>
  The risk engine and the watchdog agree. After any run of the watchdog without database failures, a risk engine that starts and reads the
  kill switch table comes up in the mode the watchdog is in, whatever rows are superseded.
\<close>

theorem risk_starts_in_watchdog_mode:
  assumes "visits_all visit"
    and "(wd_step H ec rk visit no_faults_only any_scope any_scope)\<^sup>*\<^sup>* (NewKillSwitchManager x r []) w"
  shows "st_SystemMode (re_state (snd (LoadState no_faults now (km_rows w) e))) = km_currentMode w"
  using load_mode_peak reachable_table_mode [OF assms]
  by (simp add: LoadState_def Let_def load_halt_mode mode_ok_def)

theorem risk_starts_in_watchdog_mode_witness:
  "st_SystemMode (re_state (snd (LoadState no_faults 9 (km_rows sample_halted) sample_engine))) = km_currentMode sample_halted"
proof -
  have "wd_step (\<lambda>_. []) null_exec null_risk sorted_visit no_faults_only any_scope any_scope (NewKillSwitchManager () () []) sample_halted"
    unfolding sample_halted_def by (rule ws_trigger) (simp_all add: no_faults_only_def kill_levels_def)
  note run = r_into_rtranclp [of "wd_step (\<lambda>_. []) null_exec null_risk sorted_visit no_faults_only any_scope any_scope", OF this]
  show ?thesis by (rule risk_starts_in_watchdog_mode [OF visits_all_sorted run])
qed

end
