(* ===== verification/Recon.thy ===== *)
theory Recon
  imports Kill_Path Risk_Runs
begin

text \<open>
  Reconciliation: \<^verbatim>\<open>services/recon/comparator.go\<close> (the comparisons of the database with the simulated
  exchange) and \<^verbatim>\<open>engine.go\<close> (a cycle, its snapshots and the kill switch), with the
  \<^verbatim>\<open>watchdogKillAdapter\<close> of \<^verbatim>\<open>cmd/execution-engine/main.go\<close>. The tables and the exchange are arguments, one for
  each read: they may change in between. Where the code ranges over a map, the order is an argument.
\<close>

section \<open>Results\<close>

record Mismatch =
  mm_Field :: string
  mm_Key :: string
  mm_Internal :: string
  mm_Exchange :: string

record internalOrder =
  io_InternalID :: string
  io_ExchangeID :: string
  io_Status :: string
  io_FilledQuantity :: int32
  io_Quantity :: int32

text \<open>What the \<^verbatim>\<open>interface{}\<close> fields of a result hold.\<close>

datatype recon_state =
    Quantities "string \<rightharpoonup> int32"
  | Orders "string \<rightharpoonup> internalOrder"
  | Counts "string \<rightharpoonup> int64"
  | Source "string \<rightharpoonup> string"

record CompareResult =
  cmp_SnapshotType :: string
  cmp_Matches :: bool
  cmp_Mismatches :: "Mismatch list"
  cmp_InternalState :: recon_state
  cmp_ExchangeState :: recon_state
  cmp_Severity :: string

datatype recon_error = QueryPositions | ScanPosition | QueryOrders | ScanOrder | StartupPositions recon_error | StartupOrders recon_error


section \<open>Comparing positions\<close>

text \<open>\<^verbatim>\<open>SELECT market_id, SUM(net_quantity) .. GROUP BY market_id HAVING SUM(net_quantity) != 0\<close>; the sum is a 64-bit value.\<close>

definition market_sum :: "PositionRow list \<Rightarrow> string \<Rightarrow> int" where
  "market_sum rows mkt = (\<Sum>r\<leftarrow>filter (\<lambda>r. pos_market_id r = mkt) rows. sint (pos_net_quantity r))"

definition position_query :: "PositionRow list \<Rightarrow> (string \<times> int) list" where
  "position_query rows = filter (\<lambda>(mkt, q). q \<noteq> 0) (map (\<lambda>mkt. (mkt, market_sum rows mkt)) (remdups (map pos_market_id rows)))"

definition fits_int32 :: "int \<Rightarrow> bool" where
  "fits_int32 q \<longleftrightarrow> - 2147483648 \<le> q \<and> q < 2147483648"

fun scan_positions :: "(string \<times> int) list \<Rightarrow> (string \<rightharpoonup> int32) \<Rightarrow> (recon_error, string \<rightharpoonup> int32) result" where
  "scan_positions [] internal = Inr internal"
| "scan_positions ((marketID, q) # rows) internal =
     (if fits_int32 q then scan_positions rows (internal(marketID \<mapsto> word_of_int q)) else Inl ScanPosition)"

fun missing_or_different :: "(string \<rightharpoonup> int32) \<Rightarrow> (string \<rightharpoonup> int32) \<Rightarrow> string list \<Rightarrow> Mismatch list \<Rightarrow> Mismatch list" where
  "missing_or_different internal exchange [] mismatches = mismatches"
| "missing_or_different internal exchange (market # markets) mismatches =
     (let intQty = map_get internal market 0 in
      case exchange market of
        None \<Rightarrow> missing_or_different internal exchange markets
          (mismatches @ [\<lparr>mm_Field = ''position'', mm_Key = market, mm_Internal = show_int (sint intQty), mm_Exchange = ''0 (missing)''\<rparr>])
      | Some exchQty \<Rightarrow>
          if intQty \<noteq> exchQty
          then missing_or_different internal exchange markets
            (mismatches @ [\<lparr>mm_Field = ''position'', mm_Key = market, mm_Internal = show_int (sint intQty), mm_Exchange = show_int (sint exchQty)\<rparr>])
          else missing_or_different internal exchange markets mismatches)"

fun not_tracked :: "(string \<rightharpoonup> int32) \<Rightarrow> (string \<rightharpoonup> int32) \<Rightarrow> string list \<Rightarrow> Mismatch list \<Rightarrow> Mismatch list" where
  "not_tracked internal exchange [] mismatches = mismatches"
| "not_tracked internal exchange (market # markets) mismatches =
     (let exchQty = map_get exchange market 0 in
      if internal market = None \<and> exchQty \<noteq> 0
      then not_tracked internal exchange markets
        (mismatches @ [\<lparr>mm_Field = ''position'', mm_Key = market, mm_Internal = ''0 (missing)'', mm_Exchange = show_int (sint exchQty)\<rparr>])
      else not_tracked internal exchange markets mismatches)"

definition comparePositionMaps ::
  "((string \<rightharpoonup> int32) \<Rightarrow> string list) \<Rightarrow> (string \<rightharpoonup> int32) \<Rightarrow> (string \<rightharpoonup> int32) \<Rightarrow> Mismatch list" where
  "comparePositionMaps visit internal exchange =
     not_tracked internal exchange (visit exchange) (missing_or_different internal exchange (visit internal) [])"

definition ComparePositions ::
  "faults \<Rightarrow> ((string \<rightharpoonup> int32) \<Rightarrow> string list) \<Rightarrow> PositionRow list \<Rightarrow> MockServer \<Rightarrow> (recon_error, CompareResult) result" where
  "ComparePositions flt visit rows s =
     (if flt (Db ''risk.positions'' ''recon'') then Inl QueryPositions
      else case scan_positions (position_query rows) Map.empty of Inl err \<Rightarrow> Inl err
      | Inr internal \<Rightarrow>
          let exchange = GetPositions s; mismatches = comparePositionMaps visit internal exchange in
          Inr \<lparr>cmp_SnapshotType = ''positions'', cmp_Matches = (mismatches = []), cmp_Mismatches = mismatches,
               cmp_InternalState = Quantities internal, cmp_ExchangeState = Quantities exchange,
               cmp_Severity = (if mismatches \<noteq> [] then ''critical'' else ''info'')\<rparr>)"


section \<open>Comparing orders\<close>

definition order_query :: "OrderRow list \<Rightarrow> OrderRow list" where
  "order_query rows = filter (\<lambda>r. or_status r \<in> set [StatusPending, StatusOpen, StatusPartiallyFilled]) rows"

text \<open>A NULL exchange id cannot be scanned into a string.\<close>

fun scan_internal_orders :: "OrderRow list \<Rightarrow> (string \<rightharpoonup> internalOrder) \<Rightarrow> (recon_error, string \<rightharpoonup> internalOrder) result" where
  "scan_internal_orders [] internalOrders = Inr internalOrders"
| "scan_internal_orders (r # rows) internalOrders =
     (case or_exchange_order_id r of None \<Rightarrow> Inl ScanOrder
      | Some exchID \<Rightarrow> scan_internal_orders rows (internalOrders(exchID \<mapsto>
          \<lparr>io_InternalID = or_internal_order_id r, io_ExchangeID = exchID, io_Status = or_status r,
           io_FilledQuantity = or_filled_quantity r, io_Quantity = or_quantity r\<rparr>)))"

definition statusesAlign :: "string \<Rightarrow> string \<Rightarrow> bool" where
  "statusesAlign internal exchange \<longleftrightarrow> internal = exchange"

definition compare_order :: "MockServer \<Rightarrow> string \<Rightarrow> internalOrder \<Rightarrow> Mismatch list" where
  "compare_order s exchID intOrder =
     (case GetOrder exchID s of
        None \<Rightarrow> [\<lparr>mm_Field = ''order_existence'', mm_Key = exchID, mm_Internal = io_Status intOrder, mm_Exchange = ''not_found''\<rparr>]
      | Some exchOrder \<Rightarrow>
          (if io_FilledQuantity intOrder \<noteq> mo_FilledQty exchOrder
           then [\<lparr>mm_Field = ''filled_quantity'', mm_Key = exchID, mm_Internal = show_int (sint (io_FilledQuantity intOrder)),
                  mm_Exchange = show_int (sint (mo_FilledQty exchOrder))\<rparr>] else [])
          @ (if \<not> statusesAlign (io_Status intOrder) (mo_Status exchOrder)
             then [\<lparr>mm_Field = ''status'', mm_Key = exchID, mm_Internal = io_Status intOrder, mm_Exchange = mo_Status exchOrder\<rparr>] else []))"

fun compare_orders :: "MockServer \<Rightarrow> (string \<rightharpoonup> internalOrder) \<Rightarrow> string list \<Rightarrow> Mismatch list \<Rightarrow> Mismatch list" where
  "compare_orders s internalOrders [] mismatches = mismatches"
| "compare_orders s internalOrders (exchID # ids) mismatches =
     (case internalOrders exchID of None \<Rightarrow> compare_orders s internalOrders ids mismatches
      | Some intOrder \<Rightarrow> compare_orders s internalOrders ids (mismatches @ compare_order s exchID intOrder))"

definition order_severity :: "Mismatch list \<Rightarrow> string" where
  "order_severity mismatches =
     (if mismatches = [] then ''info''
      else if list_ex (\<lambda>m. mm_Field m = ''filled_quantity'' \<or> mm_Field m = ''order_existence'') mismatches then ''critical''
      else ''warn'')"

definition CompareOrders ::
  "faults \<Rightarrow> ((string \<rightharpoonup> internalOrder) \<Rightarrow> string list) \<Rightarrow> OrderRow list \<Rightarrow> MockServer \<Rightarrow> (recon_error, CompareResult) result" where
  "CompareOrders flt visit rows s =
     (if flt (Db ''execution.orders'' ''recon'') then Inl QueryOrders
      else case scan_internal_orders (order_query rows) Map.empty of Inl err \<Rightarrow> Inl err
      | Inr internalOrders \<Rightarrow>
          let mismatches = compare_orders s internalOrders (visit internalOrders) [] in
          Inr \<lparr>cmp_SnapshotType = ''orders'', cmp_Matches = (mismatches = []), cmp_Mismatches = mismatches,
               cmp_InternalState = Orders internalOrders, cmp_ExchangeState = Source [''source'' \<mapsto> ''mock_exchange''],
               cmp_Severity = order_severity mismatches\<rparr>)"

definition CompareBalance :: "MockServer \<Rightarrow> (recon_error, CompareResult) result" where
  "CompareBalance s =
     Inr \<lparr>cmp_SnapshotType = ''balance'', cmp_Matches = True, cmp_Mismatches = [],
          cmp_InternalState = Counts [''not_tracked'' \<mapsto> 0], cmp_ExchangeState = Counts [''balance_micros'' \<mapsto> GetBalance s],
          cmp_Severity = ''info''\<rparr>"


section \<open>The cycle\<close>

text \<open>A row of \<^verbatim>\<open>recon.snapshots\<close>; its mismatches are NULL when there are none.\<close>

record SnapshotRow =
  sn_venue :: string
  sn_snapshot_type :: string
  sn_matches :: bool
  sn_internal_state :: recon_state
  sn_exchange_state :: recon_state
  sn_mismatches :: "Mismatch list option"
  sn_severity :: string

text \<open>The kill switch may be nil; \<open>'w\<close> is the state behind it.\<close>

type_synonym ('e, 'w) kill_trigger = "string \<Rightarrow> string \<Rightarrow> string \<Rightarrow> string \<Rightarrow> 'w \<Rightarrow> ('e, unit) result \<times> 'w"

record 'w ReconEngine =
  rn_killSwitch :: 'w
  rn_auditor :: Logger
  rn_snapshots :: "SnapshotRow list"

definition persistSnapshot :: "faults \<Rightarrow> CompareResult \<Rightarrow> 'w ReconEngine \<Rightarrow> 'w ReconEngine" where
  "persistSnapshot flt result e =
     (if flt (Db ''recon.snapshots'' (cmp_SnapshotType result)) then e
      else e\<lparr>rn_snapshots := rn_snapshots e @
        [\<lparr>sn_venue = ''mock'', sn_snapshot_type = cmp_SnapshotType result, sn_matches = cmp_Matches result,
          sn_internal_state = cmp_InternalState result, sn_exchange_state = cmp_ExchangeState result,
          sn_mismatches = (if cmp_Mismatches result \<noteq> [] then Some (cmp_Mismatches result) else None),
          sn_severity = cmp_Severity result\<rparr>]\<rparr>)"

fun recon_results ::
  "faults \<Rightarrow> (recon_error, CompareResult) result list \<Rightarrow> string list \<Rightarrow> 'w ReconEngine \<Rightarrow> string list \<times> 'w ReconEngine" where
  "recon_results flt [] criticalMismatches e = (criticalMismatches, e)"
| "recon_results flt (Inl err # rs) criticalMismatches e = recon_results flt rs criticalMismatches e"
| "recon_results flt (Inr result # rs) criticalMismatches e =
     recon_results flt rs
       (if \<not> cmp_Matches result \<and> cmp_Severity result = ''critical'' then criticalMismatches @ [cmp_SnapshotType result] else criticalMismatches)
       (persistSnapshot flt result e)"

text \<open>\<^verbatim>\<open>%v\<close> of a list of strings.\<close>

fun spaced :: "string list \<Rightarrow> string" where
  "spaced [] = []"
| "spaced [x] = x"
| "spaced (x # y # xs) = x @ '' '' @ spaced (y # xs)"

definition recon_reason :: "string list \<Rightarrow> string" where
  "recon_reason criticalMismatches = ''reconciliation critical mismatch: ['' @ spaced criticalMismatches @ '']''"

text \<open>What a cycle reads: the tables and the exchange at each of the reads, and the orders of the maps.\<close>

record recon_reads =
  rd_positions :: "PositionRow list"
  rd_position_venue :: MockServer
  rd_orders :: "OrderRow list"
  rd_order_venue :: MockServer
  rd_balance_venue :: MockServer
  rd_visit_positions :: "(string \<rightharpoonup> int32) \<Rightarrow> string list"
  rd_visit_orders :: "(string \<rightharpoonup> internalOrder) \<Rightarrow> string list"

definition RunOnce ::
  "(HashInput \<Rightarrow> string) \<Rightarrow> ('e, 'w) kill_trigger option \<Rightarrow> faults \<Rightarrow> uuid \<Rightarrow> time \<Rightarrow> recon_reads \<Rightarrow> 'w ReconEngine \<Rightarrow> 'w ReconEngine" where
  "RunOnce H trigger flt aid now rd e =
     (let posResult = ComparePositions flt (rd_visit_positions rd) (rd_positions rd) (rd_position_venue rd);
          orderResult = CompareOrders flt (rd_visit_orders rd) (rd_orders rd) (rd_order_venue rd);
          balResult = CompareBalance (rd_balance_venue rd);
          (criticalMismatches, e) = recon_results flt [posResult, orderResult, balResult] [] e in
      if criticalMismatches = [] then e
      else let e = e\<lparr>rn_auditor := LogCritical H flt aid now ''recon.critical_mismatch'' []
                       [(''mismatch_types'', JArr (map JString criticalMismatches))] (rn_auditor e)\<rparr> in
        case trigger of None \<Rightarrow> e
        | Some trigger \<Rightarrow> e\<lparr>rn_killSwitch :=
            snd (trigger ''cancel_only'' ''global'' (recon_reason criticalMismatches) ''recon-engine'' (rn_killSwitch e))\<rparr>)"

definition RunStartupCheck ::
  "faults \<Rightarrow> recon_reads \<Rightarrow> 'w ReconEngine \<Rightarrow> (recon_error, bool) result \<times> 'w ReconEngine" where
  "RunStartupCheck flt rd e =
     (case ComparePositions flt (rd_visit_positions rd) (rd_positions rd) (rd_position_venue rd) of
        Inl err \<Rightarrow> (Inl (StartupPositions err), e)
      | Inr pos \<Rightarrow>
          (case CompareOrders flt (rd_visit_orders rd) (rd_orders rd) (rd_order_venue rd) of
             Inl err \<Rightarrow> (Inl (StartupOrders err), e)
           | Inr ord \<Rightarrow> (Inr (cmp_Matches pos \<and> cmp_Matches ord), persistSnapshot flt ord (persistSnapshot flt pos e))))"

text \<open>\<^verbatim>\<open>watchdogKillAdapter\<close>: the call to the watchdog, as the execution engine.\<close>

definition watchdogKillAdapter ::
  "(HashInput \<Rightarrow> string) \<Rightarrow> 'x ExecutionControl \<Rightarrow> 'r RiskControl \<Rightarrow> faults \<Rightarrow> (halts \<Rightarrow> string list) \<Rightarrow> time \<Rightarrow> uuid
     \<Rightarrow> (watchdog_error rpc_error, ('x, 'r) KillSwitchManager) kill_trigger" where
  "watchdogKillAdapter H ec rk flt visit now aid level scope reason triggeredBy w =
     (case UnaryCallerInterceptor watchdog_callers (CallerIdentityInterceptor ''execution-engine'' None) ''/watchdog.Watchdog/TriggerKillSwitch''
        (GRPC_TriggerKillSwitch H ec rk flt visit now aid (KillSwitchLevelToProto level) scope reason triggeredBy) w of
        (Inl err, w) \<Rightarrow> (Inl err, w) | (Inr _, w) \<Rightarrow> (Inr (), w))"


section \<open>Positions are compared exactly\<close>

definition internal_positions :: "PositionRow list \<Rightarrow> string \<rightharpoonup> int32" where
  "internal_positions rows = (\<lambda>mkt. if market_sum rows mkt = 0 then None else Some (word_of_int (market_sum rows mkt)))"

lemma scan_positions_ok:
  "scan_positions qs internal =
     (if \<forall>(mkt, q) \<in> set qs. fits_int32 q then Inr (internal ++ map_of (rev (map (\<lambda>(mkt, q). (mkt, word_of_int q)) qs)))
      else Inl ScanPosition)"
proof (induction qs arbitrary: internal)
  case (Cons x qs)
  obtain marketID q where x: "x = (marketID, q)" by (cases x)
  have "internal ++ ([marketID \<mapsto> word_of_int q] ++ m) = internal(marketID \<mapsto> word_of_int q) ++ m" for m
    by (simp only: map_add_assoc) simp
  then show ?case by (simp add: x Cons)
qed simp

lemma market_sum_absent: "mkt \<notin> set (map pos_market_id rows) \<Longrightarrow> market_sum rows mkt = 0"
  by (induction rows) (auto simp: market_sum_def)

lemma in_position_query: "(mkt, q) \<in> set (position_query rows) \<longleftrightarrow> q = market_sum rows mkt \<and> q \<noteq> 0"
  using market_sum_absent [of mkt rows] by (auto simp: position_query_def)

lemma position_query_distinct: "distinct (map fst (position_query rows))"
  unfolding position_query_def by (rule distinct_map_filter) (simp add: o_def)

lemma option_eqI: "(\<And>w. x = Some w \<longleftrightarrow> y = Some w) \<Longrightarrow> x = y"
  by (cases x; cases y) auto

lemma scan_position_query:
  "scan_positions (position_query rows) Map.empty =
     (if \<forall>mkt. fits_int32 (market_sum rows mkt) then Inr (internal_positions rows) else Inl ScanPosition)"
proof -
  let ?qs = "map (\<lambda>(mkt, q). (mkt, word_of_int q :: int32)) (position_query rows)"
  have "distinct (map fst ?qs)" using position_query_distinct [of rows] by (simp add: split_def o_def)
  then have d: "distinct (map fst (rev ?qs))" by (simp only: rev_map [symmetric] distinct_rev)
  have qs: "((mkt, w) \<in> set ?qs) \<longleftrightarrow> internal_positions rows mkt = Some w" for mkt w
    by (auto simp: in_position_query internal_positions_def image_iff split: if_splits
        intro!: bexI [of _ "(mkt, market_sum rows mkt)"])
  have "map_of (rev ?qs) mkt = Some w \<longleftrightarrow> internal_positions rows mkt = Some w" for mkt w
    unfolding map_of_eq_Some_iff [OF d] set_rev by (rule qs)
  then have "map_of (rev ?qs) = internal_positions rows" by (intro ext option_eqI)
  moreover have "(\<forall>(mkt, q) \<in> set (position_query rows). fits_int32 q) \<longleftrightarrow> (\<forall>mkt. fits_int32 (market_sum rows mkt))"
  proof -
    have "fits_int32 0" by (simp add: fits_int32_def)
    then show ?thesis by (force simp: in_position_query)
  qed
  ultimately show ?thesis by (simp only: scan_positions_ok map_add_empty empty_map_add)
qed


lemma missing_or_different_eq:
  "missing_or_different internal exchange ks acc =
     acc @ map (\<lambda>k. \<lparr>mm_Field = ''position'', mm_Key = k, mm_Internal = show_int (sint (map_get internal k 0)),
                     mm_Exchange = (case exchange k of None \<Rightarrow> ''0 (missing)'' | Some q \<Rightarrow> show_int (sint q))\<rparr>)
       (filter (\<lambda>k. exchange k \<noteq> Some (map_get internal k 0)) ks)"
  by (induction ks arbitrary: acc) (auto simp: Let_def split: option.split)

lemma not_tracked_eq:
  "not_tracked internal exchange ks acc =
     acc @ map (\<lambda>k. \<lparr>mm_Field = ''position'', mm_Key = k, mm_Internal = ''0 (missing)'', mm_Exchange = show_int (sint (map_get exchange k 0))\<rparr>)
       (filter (\<lambda>k. internal k = None \<and> map_get exchange k 0 \<noteq> 0) ks)"
  by (induction ks arbitrary: acc) (simp_all add: Let_def)

lemma compare_keys:
  assumes "enumerates (visit internal) internal" and "enumerates (visit exchange) exchange" and "\<forall>k. internal k \<noteq> Some 0"
  shows "set (map mm_Key (comparePositionMaps visit internal exchange)) = {k. map_get internal k 0 \<noteq> map_get exchange k 0}"
    and "distinct (map mm_Key (comparePositionMaps visit internal exchange))"
proof -
  have keys: "map mm_Key (comparePositionMaps visit internal exchange) =
      filter (\<lambda>k. exchange k \<noteq> Some (map_get internal k 0)) (visit internal)
      @ filter (\<lambda>k. internal k = None \<and> map_get exchange k 0 \<noteq> 0) (visit exchange)"
    by (simp add: comparePositionMaps_def missing_or_different_eq not_tracked_eq o_def)
  have "k \<in> set (map mm_Key (comparePositionMaps visit internal exchange)) \<longleftrightarrow> map_get internal k 0 \<noteq> map_get exchange k 0" for k
    using assms unfolding keys enumerates_def
    by (cases "internal k"; cases "exchange k") (auto simp: map_get_def domIff)
  then show "set (map mm_Key (comparePositionMaps visit internal exchange)) = {k. map_get internal k 0 \<noteq> map_get exchange k 0}"
    by blast
  show "distinct (map mm_Key (comparePositionMaps visit internal exchange))"
    using assms(1,2) unfolding keys enumerates_def by (auto simp: domIff)
qed

lemma internal_positions_get:
  "fits_int32 (market_sum rows mkt) \<Longrightarrow> sint (map_get (internal_positions rows) mkt 0) = market_sum rows mkt"
  "(\<forall>mkt. fits_int32 (market_sum rows mkt)) \<Longrightarrow> internal_positions rows k \<noteq> Some 0"
proof -
  have rt: "sint (word_of_int q :: int32) = q" if "fits_int32 q" for q
    using that by (simp add: fits_int32_def sint_sbintrunc' signed_take_bit_int_eq_self)
  then show "fits_int32 (market_sum rows mkt) \<Longrightarrow> sint (map_get (internal_positions rows) mkt 0) = market_sum rows mkt"
    by (simp add: map_get_def internal_positions_def)
  show "internal_positions rows k \<noteq> Some 0" if "\<forall>mkt. fits_int32 (market_sum rows mkt)"
    using rt [of "market_sum rows k"] that by (auto simp: internal_positions_def)
qed

text \<open>
  C10: Positions are reconciled exactly. Whatever the order of the two maps, when the query succeeds: some market whose
  positions sum to more than 32 bits makes the comparison fail; otherwise the result has one
  mismatch, with the market as its key, for every market where the sum of the positions over all
  strategies (in integers) differs from the exchange's position, and no other. It matches when
  there is none, and is critical otherwise.
\<close>

theorem positions_reconciled_exactly:
  assumes "\<not> flt (Db ''risk.positions'' ''recon'')"
    and "enumerates (visit (internal_positions rows)) (internal_positions rows)" and "enumerates (visit (GetPositions s)) (GetPositions s)"
  shows "case ComparePositions flt visit rows s of
      Inl err \<Rightarrow> err = ScanPosition \<and> (\<exists>mkt. \<not> fits_int32 (market_sum rows mkt))
    | Inr r \<Rightarrow> set (map mm_Key (cmp_Mismatches r)) = {mkt. market_sum rows mkt \<noteq> sint (map_get (GetPositions s) mkt 0)}
        \<and> distinct (map mm_Key (cmp_Mismatches r))
        \<and> (cmp_Matches r \<longleftrightarrow> (\<forall>mkt. market_sum rows mkt = sint (map_get (GetPositions s) mkt 0)))
        \<and> cmp_Severity r = (if cmp_Matches r then ''info'' else ''critical'')"
proof (cases "\<forall>mkt. fits_int32 (market_sum rows mkt)")
  case True
  let ?m = "comparePositionMaps visit (internal_positions rows) (GetPositions s)"
  note keys = compare_keys [where visit = visit, OF assms(2,3)] internal_positions_get(2) [OF True]
  have "map_get (internal_positions rows) k 0 \<noteq> map_get (GetPositions s) k 0 \<longleftrightarrow> market_sum rows k \<noteq> sint (map_get (GetPositions s) k 0)" for k
    using internal_positions_get(1) [of rows k] True by (simp add: sint_eq_iff [symmetric])
  with keys have k: "set (map mm_Key ?m) = {mkt. market_sum rows mkt \<noteq> sint (map_get (GetPositions s) mkt 0)}" by simp
  then have "?m = [] \<longleftrightarrow> (\<forall>mkt. market_sum rows mkt = sint (map_get (GetPositions s) mkt 0))"
    by (cases ?m) (simp_all, blast+)
  then show ?thesis
    using True k keys assms(1) by (simp add: ComparePositions_def scan_position_query Let_def)
next
  case False
  then show ?thesis unfolding ComparePositions_def scan_position_query if_not_P [OF False] if_not_P [OF assms(1)] by simp
qed

definition sample_position :: PositionRow where
  "sample_position = \<lparr>pos_venue = ''mock'', pos_market_id = ''M'', pos_strategy_id = ''s'', pos_net_quantity = 5,
     pos_notional_micros = 0, pos_realized_pnl_micros = 0, pos_updated_at = 0\<rparr>"

definition sample_visit :: "(string \<rightharpoonup> int32) \<Rightarrow> string list" where
  "sample_visit m = (case m ''M'' of None \<Rightarrow> [] | Some _ \<Rightarrow> [''M''])"

lemma sample_sums: "market_sum [sample_position] mkt = (if mkt = ''M'' then 5 else 0)"
  by (simp add: market_sum_def sample_position_def)

lemma sample_internal: "internal_positions [sample_position] = [''M'' \<mapsto> 5]"
  by (simp add: internal_positions_def sample_sums fun_eq_iff)

lemma sample_venue_positions: "GetPositions sample_mock = Map.empty"
  by (simp add: GetPositions_def sample_mock_def Mock_SubmitOrder_def NewServer_def DefaultConfig_def f_lit_def Let_def)

theorem positions_reconciled_exactly_witness:
  "\<exists>r. ComparePositions no_faults sample_visit [sample_position] sample_mock = Inr r \<and> \<not> cmp_Matches r
     \<and> set (map mm_Key (cmp_Mismatches r)) = {''M''}"
proof -
  have "\<not> no_faults (Db ''risk.positions'' ''recon'')"
    and "enumerates (sample_visit (internal_positions [sample_position])) (internal_positions [sample_position])"
    and "enumerates (sample_visit (GetPositions sample_mock)) (GetPositions sample_mock)"
    by (simp_all add: enumerates_def sample_visit_def sample_internal sample_venue_positions)
  note exact = positions_reconciled_exactly [where visit = sample_visit and flt = no_faults and rows = "[sample_position]" and s = sample_mock, OF this]
  have fits: "fits_int32 (market_sum [sample_position] mkt)" for mkt by (simp add: sample_sums fits_int32_def)
  have "{mkt. market_sum [sample_position] mkt \<noteq> sint (map_get (GetPositions sample_mock) mkt 0)} = {''M''}"
    by (auto simp: sample_sums sample_venue_positions map_get_def)
  with exact fits show ?thesis
    by (cases "ComparePositions no_faults sample_visit [sample_position] sample_mock") auto
qed


section \<open>When every fill is reported\<close>

definition market_words :: "PositionRow list \<Rightarrow> string \<Rightarrow> int32" where
  "market_words rows mkt = (\<Sum>r\<leftarrow>filter (\<lambda>r. pos_market_id r = mkt) rows. pos_net_quantity r)"

lemma market_sum_words: "word_of_int (market_sum rows mkt) = market_words rows mkt"
  by (induction rows) (simp_all add: market_sum_def market_words_def)

lemma sum_by_key_one:
  assumes "distinct (map key rows)"
  shows "(\<Sum>r\<leftarrow>filter P rows. if key r = k then c else 0 :: 'a :: comm_monoid_add) = (if \<exists>r \<in> set rows. P r \<and> key r = k then c else 0)"
  using assms
proof (induction rows)
  case (Cons r rows)
  show ?case
  proof (cases "P r \<and> key r = k")
    case True
    then have "\<not> (\<exists>r \<in> set rows. P r \<and> key r = k)" using Cons.prems by (auto simp: image_iff)
    with True Cons show ?thesis by simp
  next
    case False
    with Cons show ?thesis by auto
  qed
qed simp

lemma sum_by_key:
  assumes "distinct (map key rows)"
  shows "(\<Sum>r\<leftarrow>filter P rows. \<Sum>f\<leftarrow>filter (\<lambda>f. key' f = key r) fs. g f :: 'a :: comm_monoid_add) =
     (\<Sum>f\<leftarrow>filter (\<lambda>f. \<exists>r \<in> set rows. P r \<and> key r = key' f) fs. g f)"
proof (induction fs)
  case (Cons f fs)
  have "(\<Sum>r\<leftarrow>filter P rows. \<Sum>f\<leftarrow>filter (\<lambda>f. key' f = key r) (f # fs). g f) =
      (\<Sum>r\<leftarrow>filter P rows. (if key r = key' f then g f else 0) + (\<Sum>f\<leftarrow>filter (\<lambda>f. key' f = key r) fs. g f))"
    by (intro arg_cong [where f = sum_list] map_cong) auto
  also have "\<dots> = (\<Sum>r\<leftarrow>filter P rows. if key r = key' f then g f else 0) + (\<Sum>r\<leftarrow>filter P rows. \<Sum>f\<leftarrow>filter (\<lambda>f. key' f = key r) fs. g f)"
    by (rule sum_list_addf)
  finally show ?case
    using Cons sum_by_key_one [OF assms, where P = P and k = "key' f" and c = "g f"]
    by (cases "\<exists>r \<in> set rows. P r \<and> key r = key' f") (simp_all only: filter.simps if_True if_False list.map sum_list.Cons add_0)
qed simp

lemma market_words_of_fills:
  assumes "\<forall>(flt, now, f) \<in> set rs. \<not> flt (Db ''risk.positions'' (fill_key f)) \<and> colon_free (fr_Venue f) \<and> colon_free (fr_MarketID f)"
    and e: "e = fill_run rs (NewEngine policy key [] stats decs)"
  shows "market_words (re_positions e) mkt = (\<Sum>f\<leftarrow>filter (\<lambda>f. fr_MarketID f = mkt) (fills rs). signed_quantity f)"
proof -
  have agree: "positions_agree e" unfolding e
    by (rule fill_run_agrees [OF assms(1)]) (simp add: positions_agree_def NewEngine_def NewEmptyState_def table_map_def)
  have pos: "table_map (re_positions e) = position_of (fills rs)"
    using agree fill_run_positions [of rs policy key "[]" stats decs] unfolding e by (simp add: positions_agree_def)
  have d: "distinct (map row_key (re_positions e))" using agree by (simp add: positions_agree_def)
  have net: "pos_net_quantity r = (\<Sum>f\<leftarrow>filter (\<lambda>f. fill_key f = row_key r) (fills rs). signed_quantity f)" if "r \<in> set (re_positions e)" for r
  proof -
    have "table_map (re_positions e) (row_key r) = Some (row_state r)"
      using d that by (auto simp: table_map_def o_def intro!: map_of_is_SomeI)
    then show ?thesis unfolding pos position_of_def
      by (auto simp: fills_on_def row_state_def split: list.splits)
  qed
  have same: "(\<exists>r \<in> set (re_positions e). pos_market_id r = mkt \<and> row_key r = fill_key f) \<longleftrightarrow> fr_MarketID f = mkt" if f: "f \<in> set (fills rs)" for f
  proof -
    have "position_of (fills rs) (fill_key f) \<noteq> None"
    proof -
      have "fills_on (fill_key f) (fills rs) \<noteq> []" using f unfolding fills_on_def filter_empty_conv by blast
      then show ?thesis by (cases "fills_on (fill_key f) (fills rs)") (simp_all add: position_of_def)
    qed
    then obtain r where r: "r \<in> set (re_positions e)" "row_key r = fill_key f"
      unfolding pos [symmetric] table_map_def map_of_eq_None_iff by (auto simp: o_def)
    have "pos_market_id r = fr_MarketID f" if "r \<in> set (re_positions e)" "row_key r = fill_key f" for r
      using key_identifies [OF that(2)] that(1) agree assms(1) f by (auto simp: positions_agree_def)
    with r show ?thesis by auto
  qed
  have "market_words (re_positions e) mkt = (\<Sum>r\<leftarrow>filter (\<lambda>r. pos_market_id r = mkt) (re_positions e).
      \<Sum>f\<leftarrow>filter (\<lambda>f. fill_key f = row_key r) (fills rs). signed_quantity f)"
    unfolding market_words_def using net by (intro arg_cong [where f = sum_list] map_cong) auto
  also have "\<dots> = (\<Sum>f\<leftarrow>filter (\<lambda>f. fr_MarketID f = mkt) (fills rs). signed_quantity f)"
    unfolding sum_by_key [OF d] using same by (intro arg_cong [where f = sum_list] map_cong filter_cong) auto
  finally show ?thesis .
qed

lemma mset_filter_map: "mset xs = mset ys \<Longrightarrow> mset (map h (filter P xs)) = mset (map h (filter P ys))"
  by simp

text \<open>
  C12: When every fill is reported, reconciliation passes. Let the exchange run from its start, and let the risk engine, from its
  start, be told fills with every write to \<^verbatim>\<open>risk.positions\<close> succeeding (ids without colons). If the reported fills are, in any
  order, the exchange's fills by market, side and quantity, then whenever the comparison of positions
  returns a result, in any map order, it matches.
\<close>

theorem reported_fills_reconcile:
  assumes venue: "mock_step\<^sup>*\<^sup>* (NewServer cfg rng) s" "\<forall>n. unit_draw (rng n)"
    and ok: "\<forall>(flt, now, f) \<in> set rs. \<not> flt (Db ''risk.positions'' (fill_key f)) \<and> colon_free (fr_Venue f) \<and> colon_free (fr_MarketID f)"
    and e: "e = fill_run rs (NewEngine policy key [] stats decs)"
    and same: "mset (map (\<lambda>f. (fr_MarketID f, fr_Side f, fr_Quantity f)) (fills rs)) =
               mset (map (\<lambda>f. (mf_MarketID f, mf_Side f, mf_Quantity f)) (mx_fills s))"
    and vis: "enumerates (visit (internal_positions (re_positions e))) (internal_positions (re_positions e))"
      "enumerates (visit (GetPositions s)) (GetPositions s)"
    and run: "ComparePositions flt visit (re_positions e) s = Inr r"
  shows "cmp_Matches r"
proof -
  let ?sg = "\<lambda>(mkt :: string, side :: string, q :: int32). if side = ''buy'' then q else - q"
  have "mset (map ?sg (filter (\<lambda>(m, side, q). m = mkt) (map (\<lambda>f. (fr_MarketID f, fr_Side f, fr_Quantity f)) (fills rs)))) =
        mset (map ?sg (filter (\<lambda>(m, side, q). m = mkt) (map (\<lambda>f. (mf_MarketID f, mf_Side f, mf_Quantity f)) (mx_fills s))))" for mkt
    by (rule mset_filter_map [OF same])
  moreover have "map ?sg (filter (\<lambda>(m, side, q). m = mkt) (map (\<lambda>f. (fr_MarketID f, fr_Side f, fr_Quantity f)) fs)) =
      map signed_quantity (filter (\<lambda>f. fr_MarketID f = mkt) fs)" for mkt fs
    by (induction fs) (simp_all add: signed_quantity_def)
  moreover have "map ?sg (filter (\<lambda>(m, side, q). m = mkt) (map (\<lambda>f. (mf_MarketID f, mf_Side f, mf_Quantity f)) fs)) =
      map signed_fill (filter (\<lambda>f. mf_MarketID f = mkt) fs)" for mkt fs
    by (induction fs) (simp_all add: signed_fill_def)
  ultimately have sums: "(\<Sum>f\<leftarrow>filter (\<lambda>f. fr_MarketID f = mkt) (fills rs). signed_quantity f) =
        (\<Sum>f\<leftarrow>filter (\<lambda>f. mf_MarketID f = mkt) (mx_fills s). signed_fill f)" for mkt
    unfolding sum_mset_sum_list [symmetric] by (simp only:)
  have "mock_inv s" using exchange.reachable_inv [OF venue(1)] NewServer_inv venue(2) by simp
  then have words: "word_of_int (market_sum (re_positions e) mkt) = map_get (GetPositions s) mkt 0" for mkt
    using market_words_of_fills [OF ok e, of mkt] sums [of mkt]
    by (simp add: market_sum_words mock_inv_def books_ok_def GetPositions_def)
  have fits: "\<forall>mkt. fits_int32 (market_sum (re_positions e) mkt)"
    using run by (auto simp: ComparePositions_def scan_position_query split: if_splits)
  have "map_get (internal_positions (re_positions e)) mkt 0 = map_get (GetPositions s) mkt 0" for mkt
    using words [of mkt] unfolding internal_positions_get(1) [OF fits [rule_format, of mkt], symmetric] by simp
  then have "set (map mm_Key (comparePositionMaps visit (internal_positions (re_positions e)) (GetPositions s))) = {}"
    using compare_keys(1) [where visit = visit, OF vis] internal_positions_get(2) [OF fits] by simp
  then show ?thesis
    using run fits by (auto simp: ComparePositions_def scan_position_query Let_def split: if_splits)
qed

text \<open>An exchange that fills at once, with one order for ten contracts.\<close>

definition sample_start :: MockServer where
  "sample_start = NewServer \<lparr>mc_FillDelayMs = 0, mc_FillProbability = Fin 1, mc_PartialFillProb = Fin 0, mc_RejectionRate = Fin 0,
     mc_InitialBalanceMicros = 100000000, mc_SimulateStaleData = False\<rparr> (\<lambda>_. Fin (1 / 4))"

definition sample_placed :: MockServer where
  "sample_placed = snd (Mock_SubmitOrder 5 ''c1'' ''M'' ''buy'' 10 400000 sample_start)"

definition sample_traded :: MockServer where
  "sample_traded = simulateFillProcess 6 (numbered ''MOCK-'' 1) (sample_placed\<lparr>mx_pending := remove1 (numbered ''MOCK-'' 1) (mx_pending sample_placed)\<rparr>)"

definition sample_report :: FillReport where
  "sample_report = \<lparr>fr_TraceID = ''t1'', fr_InternalOrderID = ''o1'', fr_StrategyID = ''s'', fr_Venue = ''mock'', fr_MarketID = ''M'',
     fr_Side = ''buy'', fr_Quantity = 10, fr_PriceMicros = 400000\<rparr>"

lemma sample_traded_fields:
  "map (\<lambda>f. (mf_MarketID f, mf_Side f, mf_Quantity f)) (mx_fills sample_traded) = [(''M'', ''buy'', 10)]"
  "GetPositions sample_traded = [''M'' \<mapsto> 10]"
  by (simp_all add: sample_traded_def sample_placed_def sample_start_def simulateFillProcess_def Mock_SubmitOrder_def NewServer_def
      Let_def rng_Float64_def fill_quantity_def record_fill_def GetPositions_def map_get_def)

lemma sample_traded_reachable: "mock_step\<^sup>*\<^sup>* sample_start sample_traded"
proof -
  have "mock_step sample_start sample_placed" unfolding sample_placed_def by (rule step_submit) simp
  moreover have "numbered ''MOCK-'' 1 \<in> set (mx_pending sample_placed)"
    by (simp add: sample_placed_def sample_start_def Mock_SubmitOrder_def NewServer_def Let_def)
  then have "mock_step sample_placed sample_traded" unfolding sample_traded_def by (rule step_fill)
  ultimately show ?thesis by (rule rtranclp.rtrancl_into_rtrancl [OF r_into_rtranclp])
qed

lemma sample_reported_rows:
  "map (\<lambda>r. (pos_market_id r, pos_net_quantity r)) (re_positions (fill_run [(no_faults, 7, sample_report)] (NewEngine sample_policy [] [] [] []))) = [(''M'', 10)]"
  by (simp add: fill_run_def ReportFill_def NewEngine_def NewEmptyState_def upsert_position_def sql_upsert_def rows_affected_def
      apply_fill_def sample_report_def Let_def)

theorem reported_fills_reconcile_witness:
  "\<exists>r. ComparePositions no_faults sample_visit
       (re_positions (fill_run [(no_faults, 7, sample_report)] (NewEngine sample_policy [] [] [] []))) sample_traded = Inr r
     \<and> cmp_Matches r"
proof -
  let ?e = "fill_run [(no_faults, 7, sample_report)] (NewEngine sample_policy [] [] [] [])"
  let ?rs = "[(no_faults, 7 :: time, sample_report)]"
  have u: "\<forall>n :: nat. unit_draw (Fin (1 / 4))" by (simp add: unit_draw_def exI [of _ "1 / 4"])
  have ok: "\<forall>(flt, now, f) \<in> set ?rs. \<not> flt (Db ''risk.positions'' (fill_key f)) \<and> colon_free (fr_Venue f) \<and> colon_free (fr_MarketID f)"
    by (simp add: sample_report_def colon_free_def)
  have same: "mset (map (\<lambda>f. (fr_MarketID f, fr_Side f, fr_Quantity f)) (fills ?rs)) =
      mset (map (\<lambda>f. (mf_MarketID f, mf_Side f, mf_Quantity f)) (mx_fills sample_traded))"
    unfolding sample_traded_fields by (simp add: sample_report_def)
  obtain row where row: "re_positions ?e = [row]" "pos_market_id row = ''M''" "pos_net_quantity row = 10"
    using sample_reported_rows by (auto simp: map_eq_Cons_conv)
  have sums: "market_sum (re_positions ?e) mkt = (if mkt = ''M'' then 10 else 0)" for mkt
    by (simp add: row market_sum_def)
  then have ip: "internal_positions (re_positions ?e) = [''M'' \<mapsto> 10]" by (simp add: internal_positions_def fun_eq_iff)
  have vis: "enumerates (sample_visit (internal_positions (re_positions ?e))) (internal_positions (re_positions ?e))"
    "enumerates (sample_visit (GetPositions sample_traded)) (GetPositions sample_traded)"
    by (simp_all add: ip sample_traded_fields enumerates_def sample_visit_def)
  have "\<forall>mkt. fits_int32 (market_sum (re_positions ?e) mkt)" by (simp add: sums fits_int32_def)
  then obtain r where r: "ComparePositions no_faults sample_visit (re_positions ?e) sample_traded = Inr r"
    by (simp add: ComparePositions_def scan_position_query Let_def)
  from reported_fills_reconcile [where visit = sample_visit, OF sample_traded_reachable [unfolded sample_start_def] u ok refl same vis r] r
  show ?thesis by blast
qed


section \<open>What a cycle does\<close>

definition snapshot_row :: "CompareResult \<Rightarrow> SnapshotRow" where
  "snapshot_row r = \<lparr>sn_venue = ''mock'', sn_snapshot_type = cmp_SnapshotType r, sn_matches = cmp_Matches r,
     sn_internal_state = cmp_InternalState r, sn_exchange_state = cmp_ExchangeState r,
     sn_mismatches = (if cmp_Mismatches r = [] then None else Some (cmp_Mismatches r)), sn_severity = cmp_Severity r\<rparr>"

definition succeeded :: "(recon_error, CompareResult) result list \<Rightarrow> CompareResult list" where
  "succeeded rs = concat (map (\<lambda>r. case r of Inl _ \<Rightarrow> [] | Inr a \<Rightarrow> [a]) rs)"

definition critical :: "CompareResult \<Rightarrow> bool" where
  "critical r \<longleftrightarrow> \<not> cmp_Matches r \<and> cmp_Severity r = ''critical''"

lemma persist_eq:
  "persistSnapshot flt r e = e\<lparr>rn_snapshots := rn_snapshots e @ (if flt (Db ''recon.snapshots'' (cmp_SnapshotType r)) then [] else [snapshot_row r])\<rparr>"
  by (simp add: persistSnapshot_def snapshot_row_def)

lemma recon_results_eq:
  "recon_results flt rs acc e =
     (acc @ map cmp_SnapshotType (filter critical (succeeded rs)),
      e\<lparr>rn_snapshots := rn_snapshots e @ map snapshot_row (filter (\<lambda>r. \<not> flt (Db ''recon.snapshots'' (cmp_SnapshotType r))) (succeeded rs))\<rparr>)"
proof (induction rs arbitrary: acc e)
  case (Cons r rs)
  then show ?case by (cases r) (simp_all add: succeeded_def critical_def persist_eq)
qed (simp add: succeeded_def)

lemma scan_internal_orders_ok:
  "scan_internal_orders rows m =
     (if \<exists>r \<in> set rows. or_exchange_order_id r = None then Inl ScanOrder
      else Inr (m ++ map_of (rev (map (\<lambda>r. (the (or_exchange_order_id r),
          \<lparr>io_InternalID = or_internal_order_id r, io_ExchangeID = the (or_exchange_order_id r), io_Status = or_status r,
           io_FilledQuantity = or_filled_quantity r, io_Quantity = or_quantity r\<rparr>)) rows))))"
proof (induction rows arbitrary: m)
  case (Cons r rows)
  have "m ++ ([k \<mapsto> v] ++ f) = m(k \<mapsto> v) ++ f" for k f and v :: internalOrder
    by (simp only: map_add_assoc) simp
  then show ?case by (cases "or_exchange_order_id r") (simp_all add: Cons)
qed simp

lemma compare_orders_eq:
  "compare_orders s m ks acc = acc @ concat (map (\<lambda>k. case m k of None \<Rightarrow> [] | Some v \<Rightarrow> compare_order s k v) ks)"
  by (induction ks arbitrary: acc) (simp_all split: option.split)

text \<open>An order that is missing at the exchange or filled by a different quantity there.\<close>

definition fill_differs :: "MockServer \<Rightarrow> string \<Rightarrow> int32 \<Rightarrow> bool" where
  "fill_differs s k q \<longleftrightarrow> (case GetOrder k s of None \<Rightarrow> True | Some ord \<Rightarrow> mo_FilledQty ord \<noteq> q)"

lemma compare_order_critical:
  "list_ex (\<lambda>m. mm_Field m = ''filled_quantity'' \<or> mm_Field m = ''order_existence'') (compare_order s k v) \<longleftrightarrow> fill_differs s k (io_FilledQuantity v)"
  by (auto simp: compare_order_def fill_differs_def split: option.split)

lemma compare_orders_critical:
  "list_ex (\<lambda>m. mm_Field m = ''filled_quantity'' \<or> mm_Field m = ''order_existence'') (compare_orders s m ks []) \<longleftrightarrow>
     (\<exists>k \<in> set ks. \<exists>v. m k = Some v \<and> fill_differs s k (io_FilledQuantity v))"
  unfolding compare_orders_eq
proof (induction ks)
  case (Cons k ks)
  then show ?case by (cases "m k") (simp_all add: compare_order_critical)
qed simp

lemma severity_critical:
  "order_severity ms = ''critical'' \<longleftrightarrow> list_ex (\<lambda>m. mm_Field m = ''filled_quantity'' \<or> mm_Field m = ''order_existence'') ms"
  by (cases ms) (auto simp: order_severity_def)

text \<open>
  The row compared under an exchange id: the map is keyed by exchange id, so of several rows with
  the same one only the last that the query returns is compared. No constraint of the table forbids
  several, and the mock exchange numbers its orders from 1 again after every start.
\<close>

definition compared_row :: "OrderRow list \<Rightarrow> string \<Rightarrow> OrderRow option" where
  "compared_row rows k = find (\<lambda>row. or_exchange_order_id row = Some k) (rev rows)"

lemma later_row_hides: "or_exchange_order_id row = Some k \<Longrightarrow> compared_row (rows @ [row]) k = Some row"
  by (simp add: compared_row_def)

lemma compared_row_in: "compared_row rows k = Some row \<Longrightarrow> row \<in> set rows \<and> or_exchange_order_id row = Some k"
  by (auto simp: compared_row_def find_Some_iff rev_nth)

lemma every_row_compared:
  assumes "distinct (map or_exchange_order_id rows)" "row \<in> set rows" "or_exchange_order_id row = Some k"
  shows "compared_row rows k = Some row"
proof (cases "compared_row rows k")
  case None
  then show ?thesis using assms(2,3) by (auto simp: compared_row_def find_None_iff)
next
  case (Some row')
  from compared_row_in [OF this] assms have "row' = row" by (auto simp: distinct_map inj_on_def)
  with Some show ?thesis by simp
qed

lemma map_of_scanned:
  "\<forall>x \<in> set xs. f x \<noteq> None \<Longrightarrow> map_of (map (\<lambda>x. (the (f x), g x)) xs) k = map_option g (find (\<lambda>x. f x = Some k) xs)"
  by (induction xs) auto

lemma CompareOrders_critical:
  assumes "CompareOrders flt visit rows s = Inr r"
    and vis: "\<And>m. finite (dom m) \<Longrightarrow> set (visit m) = dom m"
  shows "critical r \<longleftrightarrow> (\<exists>k row. compared_row (order_query rows) k = Some row \<and> fill_differs s k (or_filled_quantity row))"
proof -
  let ?rows = "order_query rows"
  let ?io = "\<lambda>row. \<lparr>io_InternalID = or_internal_order_id row, io_ExchangeID = the (or_exchange_order_id row), io_Status = or_status row,
           io_FilledQuantity = or_filled_quantity row, io_Quantity = or_quantity row\<rparr>"
  let ?kv = "map (\<lambda>row. (the (or_exchange_order_id row), ?io row)) ?rows"
  let ?m = "map_of (rev ?kv)"
  have some: "\<forall>row \<in> set ?rows. or_exchange_order_id row \<noteq> None"
    using assms(1) by (auto simp: CompareOrders_def scan_internal_orders_ok split: if_splits)
  have ms: "cmp_Mismatches r = compare_orders s ?m (visit ?m) []" "cmp_Severity r = order_severity (cmp_Mismatches r)"
    "cmp_Matches r \<longleftrightarrow> cmp_Mismatches r = []"
    using assms(1) some by (auto simp: CompareOrders_def scan_internal_orders_ok Let_def split: if_splits)
  have "critical r \<longleftrightarrow> order_severity (cmp_Mismatches r) = ''critical''"
    unfolding critical_def ms(2,3) by (auto simp: order_severity_def)
  also have "\<dots> \<longleftrightarrow> (\<exists>k \<in> set (visit ?m). \<exists>v. ?m k = Some v \<and> fill_differs s k (io_FilledQuantity v))"
    unfolding severity_critical ms(1) by (rule compare_orders_critical)
  also have "\<dots> \<longleftrightarrow> (\<exists>k v. ?m k = Some v \<and> fill_differs s k (io_FilledQuantity v))"
    using vis [OF finite_dom_map_of] by auto
  also have "\<dots> \<longleftrightarrow> (\<exists>k row. compared_row ?rows k = Some row \<and> fill_differs s k (or_filled_quantity row))"
  proof -
    have "\<forall>row \<in> set (rev ?rows). or_exchange_order_id row \<noteq> None" using some by simp
    from map_of_scanned [OF this] have "?m k = map_option ?io (compared_row ?rows k)" for k
      by (simp add: compared_row_def rev_map)
    then have "?m k = Some v \<longleftrightarrow> (\<exists>row. compared_row ?rows k = Some row \<and> v = ?io row)" for k v by auto
    then have "(\<exists>v. ?m k = Some v \<and> fill_differs s k (io_FilledQuantity v)) \<longleftrightarrow>
        (\<exists>row. compared_row ?rows k = Some row \<and> fill_differs s k (or_filled_quantity row))" for k by auto
    then show ?thesis by (simp only:)
  qed
  finally show ?thesis .
qed

text \<open>The reads of a cycle that are amiss.\<close>

definition positions_amiss :: "faults \<Rightarrow> recon_reads \<Rightarrow> bool" where
  "positions_amiss flt rd \<longleftrightarrow> \<not> flt (Db ''risk.positions'' ''recon'') \<and> (\<forall>mkt. fits_int32 (market_sum (rd_positions rd) mkt))
     \<and> (\<exists>mkt. market_sum (rd_positions rd) mkt \<noteq> sint (map_get (GetPositions (rd_position_venue rd)) mkt 0))"

definition orders_amiss :: "faults \<Rightarrow> recon_reads \<Rightarrow> bool" where
  "orders_amiss flt rd \<longleftrightarrow> \<not> flt (Db ''execution.orders'' ''recon'')
     \<and> (\<forall>row \<in> set (order_query (rd_orders rd)). or_exchange_order_id row \<noteq> None)
     \<and> (\<exists>k row. compared_row (order_query (rd_orders rd)) k = Some row
          \<and> fill_differs (rd_order_venue rd) k (or_filled_quantity row))"

text \<open>All that is assumed of the reads: a finite map of positions, and maps visited entry by entry.\<close>

definition reads_ok :: "recon_reads \<Rightarrow> bool" where
  "reads_ok rd \<longleftrightarrow> finite (dom (GetPositions (rd_position_venue rd)))
     \<and> (\<forall>m. finite (dom m) \<longrightarrow> enumerates (rd_visit_positions rd m) m)
     \<and> (\<forall>m. finite (dom m) \<longrightarrow> enumerates (rd_visit_orders rd m) m)"

lemma finite_internal: "finite (dom (internal_positions rows))"
proof (rule finite_subset)
  show "dom (internal_positions rows) \<subseteq> set (map pos_market_id rows)"
    using market_sum_absent by (force simp: internal_positions_def split: if_splits)
qed simp

lemma positions_critical:
  assumes "reads_ok rd"
  shows "(case ComparePositions flt (rd_visit_positions rd) (rd_positions rd) (rd_position_venue rd) of Inl _ \<Rightarrow> False | Inr r \<Rightarrow> critical r)
     \<longleftrightarrow> positions_amiss flt rd"
proof (cases "\<not> flt (Db ''risk.positions'' ''recon'') \<and> (\<forall>mkt. fits_int32 (market_sum (rd_positions rd) mkt))")
  case True
  let ?i = "internal_positions (rd_positions rd)" and ?x = "GetPositions (rd_position_venue rd)"
  have vis: "enumerates (rd_visit_positions rd ?i) ?i" "enumerates (rd_visit_positions rd ?x) ?x"
    using assms finite_internal by (simp_all add: reads_ok_def)
  have "map_get ?i k 0 \<noteq> map_get ?x k 0 \<longleftrightarrow> market_sum (rd_positions rd) k \<noteq> sint (map_get ?x k 0)" for k
    using internal_positions_get(1) [of "rd_positions rd" k] True by (simp add: sint_eq_iff [symmetric])
  with compare_keys(1) [where visit = "rd_visit_positions rd", OF vis] internal_positions_get(2) True
  have "set (map mm_Key (comparePositionMaps (rd_visit_positions rd) ?i ?x)) = {mkt. market_sum (rd_positions rd) mkt \<noteq> sint (map_get ?x mkt 0)}"
    by simp
  then have "comparePositionMaps (rd_visit_positions rd) ?i ?x \<noteq> [] \<longleftrightarrow> (\<exists>mkt. market_sum (rd_positions rd) mkt \<noteq> sint (map_get ?x mkt 0))"
    by (cases "comparePositionMaps (rd_visit_positions rd) ?i ?x") (simp_all, blast+)
  with True show ?thesis
    by (simp add: ComparePositions_def scan_position_query Let_def critical_def positions_amiss_def)
next
  case False
  then show ?thesis
    unfolding ComparePositions_def scan_position_query positions_amiss_def by (cases "flt (Db ''risk.positions'' ''recon'')") auto
qed

lemma orders_critical:
  assumes "reads_ok rd"
  shows "(case CompareOrders flt (rd_visit_orders rd) (rd_orders rd) (rd_order_venue rd) of Inl _ \<Rightarrow> False | Inr r \<Rightarrow> critical r)
     \<longleftrightarrow> orders_amiss flt rd"
proof (cases "CompareOrders flt (rd_visit_orders rd) (rd_orders rd) (rd_order_venue rd)")
  case (Inl err)
  then show ?thesis by (auto simp: CompareOrders_def scan_internal_orders_ok orders_amiss_def Let_def split: if_splits)
next
  case (Inr r)
  then have "\<not> flt (Db ''execution.orders'' ''recon'')" "\<forall>row \<in> set (order_query (rd_orders rd)). or_exchange_order_id row \<noteq> None"
    by (auto simp: CompareOrders_def scan_internal_orders_ok split: if_splits)
  moreover have "critical r \<longleftrightarrow> (\<exists>k row. compared_row (order_query (rd_orders rd)) k = Some row
          \<and> fill_differs (rd_order_venue rd) k (or_filled_quantity row))"
    using assms by (intro CompareOrders_critical [OF Inr]) (auto simp: reads_ok_def enumerates_def)
  ultimately show ?thesis unfolding orders_amiss_def Inr by simp
qed

definition critical_types :: "faults \<Rightarrow> recon_reads \<Rightarrow> string list" where
  "critical_types flt rd = (if positions_amiss flt rd then [''positions''] else []) @ (if orders_amiss flt rd then [''orders''] else [])"

definition cycle_results :: "faults \<Rightarrow> recon_reads \<Rightarrow> CompareResult list" where
  "cycle_results flt rd = succeeded
     [ComparePositions flt (rd_visit_positions rd) (rd_positions rd) (rd_position_venue rd),
      CompareOrders flt (rd_visit_orders rd) (rd_orders rd) (rd_order_venue rd), CompareBalance (rd_balance_venue rd)]"

lemma snapshot_types:
  "ComparePositions flt visit rows s = Inr r \<Longrightarrow> cmp_SnapshotType r = ''positions''"
  "CompareOrders flt visit' orows s' = Inr r \<Longrightarrow> cmp_SnapshotType r = ''orders''"
proof -
  show "ComparePositions flt visit rows s = Inr r \<Longrightarrow> cmp_SnapshotType r = ''positions''"
    by (auto simp: ComparePositions_def Let_def split: if_splits sum.splits)
  show "CompareOrders flt visit' orows s' = Inr r \<Longrightarrow> cmp_SnapshotType r = ''orders''"
    by (auto simp: CompareOrders_def Let_def split: if_splits sum.splits)
qed

lemma cycle_critical:
  assumes "reads_ok rd"
  shows "map cmp_SnapshotType (filter critical (cycle_results flt rd)) = critical_types flt rd"
proof -
  let ?p = "ComparePositions flt (rd_visit_positions rd) (rd_positions rd) (rd_position_venue rd)"
  let ?o = "CompareOrders flt (rd_visit_orders rd) (rd_orders rd) (rd_order_venue rd)"
  have p: "map cmp_SnapshotType (filter critical (succeeded [?p])) = (if positions_amiss flt rd then [''positions''] else [])"
    using positions_critical [OF assms, of flt] by (cases ?p) (simp_all add: succeeded_def snapshot_types(1))
  have o: "map cmp_SnapshotType (filter critical (succeeded [?o])) = (if orders_amiss flt rd then [''orders''] else [])"
    using orders_critical [OF assms, of flt] by (cases ?o) (simp_all add: succeeded_def snapshot_types(2))
  have b: "filter critical (succeeded [CompareBalance (rd_balance_venue rd)]) = []"
    by (simp add: succeeded_def CompareBalance_def critical_def)
  have "cycle_results flt rd = succeeded [?p] @ succeeded [?o] @ succeeded [CompareBalance (rd_balance_venue rd)]"
    by (simp add: cycle_results_def succeeded_def)
  then show ?thesis
    unfolding critical_types_def by (simp only: filter_append map_append p o b list.map append_Nil2)
qed

text \<open>
  C15: A reconciliation cycle kills exactly on a critical difference. The cycle calls the kill switch (cancel only, global
  scope, naming the kinds of difference) exactly when the comparison of positions returned and some market
  differs, or the comparison of orders returned and, for some exchange id, the last row the query returned
  with it is missing at the exchange or filled by a different quantity there (a row with the same exchange
  id read before is not compared); otherwise the kill switch and the audit log are untouched. It
  appends one snapshot for every comparison that returned and could be written, and nothing else.
\<close>

theorem cycle_kills_exactly_on_critical:
  assumes "reads_ok rd"
  shows "rn_killSwitch (RunOnce H (Some k) flt aid now rd e) =
      (if critical_types flt rd = [] then rn_killSwitch e
       else snd (k ''cancel_only'' ''global'' (recon_reason (critical_types flt rd)) ''recon-engine'' (rn_killSwitch e)))
    \<and> (critical_types flt rd = [] \<longrightarrow> rn_auditor (RunOnce H (Some k) flt aid now rd e) = rn_auditor e)
    \<and> rn_snapshots (RunOnce H (Some k) flt aid now rd e) = rn_snapshots e @
        map snapshot_row (filter (\<lambda>r. \<not> flt (Db ''recon.snapshots'' (cmp_SnapshotType r))) (cycle_results flt rd))"
proof -
  have "recon_results flt [ComparePositions flt (rd_visit_positions rd) (rd_positions rd) (rd_position_venue rd),
      CompareOrders flt (rd_visit_orders rd) (rd_orders rd) (rd_order_venue rd), CompareBalance (rd_balance_venue rd)] [] e =
     (critical_types flt rd, e\<lparr>rn_snapshots := rn_snapshots e @
        map snapshot_row (filter (\<lambda>r. \<not> flt (Db ''recon.snapshots'' (cmp_SnapshotType r))) (cycle_results flt rd))\<rparr>)"
    unfolding recon_results_eq cycle_results_def [symmetric] cycle_critical [OF assms] by simp
  then show ?thesis by (simp add: RunOnce_def Let_def)
qed

text \<open>
  As wired in \<^verbatim>\<open>cmd/execution-engine/main.go\<close>, the kill never takes effect: the watchdog refuses the caller.
\<close>

lemma wired_kill_refused:
  "rn_killSwitch (RunOnce H (Some (watchdogKillAdapter H' ec rk flt' visit now' aid')) flt aid now rd e) = rn_killSwitch e"
proof -
  have "snd (watchdogKillAdapter H' ec rk flt' visit now' aid' level scope reason by1 w) = w" for level scope reason by1 w
    using recon_kill_refused [of "GRPC_TriggerKillSwitch H' ec rk flt' visit now' aid' (KillSwitchLevelToProto level) scope reason by1" w]
    unfolding watchdogKillAdapter_def by (elim exE) simp
  then show ?thesis by (simp add: RunOnce_def Let_def recon_results_eq)
qed

definition sample_reads :: recon_reads where
  "sample_reads = \<lparr>rd_positions = [sample_position], rd_position_venue = sample_mock, rd_orders = [], rd_order_venue = sample_mock,
     rd_balance_venue = sample_mock, rd_visit_positions = \<lambda>m. sorted_list_of_set (dom m), rd_visit_orders = \<lambda>m. sorted_list_of_set (dom m)\<rparr>"

theorem cycle_kills_exactly_on_critical_witness:
  "rn_killSwitch (RunOnce hi_ID (Some (\<lambda>level scope reason by1 w. (Inr () :: (unit, unit) result, (level, scope, reason, by1) # w))) no_faults ''a1'' 5
       sample_reads \<lparr>rn_killSwitch = [], rn_auditor = NewLogger ''execution-engine'', rn_snapshots = []\<rparr>) =
     [(''cancel_only'', ''global'', ''reconciliation critical mismatch: [positions]'', ''recon-engine'')]"
proof -
  have ok: "reads_ok sample_reads"
    by (simp add: reads_ok_def sample_reads_def sample_venue_positions order_query_def enumerates_def)
  have "\<not> (\<forall>mkt. market_sum [sample_position] mkt = sint (map_get (GetPositions sample_mock) mkt 0))"
    by (simp add: sample_sums sample_venue_positions map_get_def exI [of _ "''M''"])
  then have "critical_types no_faults sample_reads = [''positions'']"
    by (simp add: critical_types_def positions_amiss_def orders_amiss_def sample_reads_def sample_sums fits_int32_def order_query_def compared_row_def)
  then have "(if critical_types no_faults sample_reads = [] then a else b) = b"
    and r: "recon_reason (critical_types no_faults sample_reads) = ''reconciliation critical mismatch: [positions]''" for a b :: 'a
    by (simp_all add: recon_reason_def)
  then show ?thesis
    by (subst cycle_kills_exactly_on_critical [OF ok, THEN conjunct1]) (simp only: r if_False snd_conv ReconEngine.simps)
qed

end
