(* ===== verification/Strategy.thy ===== *)
theory Strategy
  imports Risk_Engine Execution_Safety Grpc_Auth
begin

text \<open>
  The strategy engine: \<^verbatim>\<open>services/strategy/engine.go\<close>, the momentum strategy (\<^verbatim>\<open>simple_momentum.go\<close>),
  the evaluator that calls the risk engine and the execution engine (\<^verbatim>\<open>grpc_evaluator.go\<close>) and the
  market data cache of \<^verbatim>\<open>cmd/strategy-engine/main.go\<close>. The state behind the evaluator has any type; for
  the gRPC evaluator it is the pair of the two engines. Where the code ranges over the data the
  order is an argument.
\<close>

section \<open>Signals\<close>

record Signal =
  sg_MarketID :: string
  sg_Side :: Side
  sg_Quantity :: int32
  sg_PriceMicros :: int64
  sg_Reason :: string

type_synonym market_map = "string \<rightharpoonup> MarketData"
type_synonym SignalFunc = "market_map \<Rightarrow> Signal list"

definition momentum_signal :: "MarketData \<Rightarrow> Signal list" where
  "momentum_signal md =
     (let mid = MidPriceMicros md in
      if mid = 0 then []
      else if sint mid < 400000
        then [\<lparr>sg_MarketID = md_MarketID md, sg_Side = SideBuy, sg_Quantity = 1, sg_PriceMicros = mid,
               sg_Reason = ''momentum: price below 0.40''\<rparr>]
      else if 600000 < sint mid
        then [\<lparr>sg_MarketID = md_MarketID md, sg_Side = SideSell, sg_Quantity = 1, sg_PriceMicros = mid,
               sg_Reason = ''momentum: price above 0.60''\<rparr>]
      else [])"

fun momentum_loop :: "market_map \<Rightarrow> string list \<Rightarrow> Signal list \<Rightarrow> Signal list" where
  "momentum_loop data [] signals = signals"
| "momentum_loop data (k # ks) signals =
     (case data k of None \<Rightarrow> momentum_loop data ks signals
      | Some md \<Rightarrow> momentum_loop data ks (signals @ momentum_signal md))"

definition SimpleMomentum :: "(market_map \<Rightarrow> string list) \<Rightarrow> SignalFunc" where
  "SimpleMomentum visit data = momentum_loop data (visit data) []"


section \<open>Proposals\<close>

record 'x StrategyEngine =
  se_strategyID :: string
  se_venue :: string
  se_out :: outbox
  se_evaluator :: 'x

definition NewStrategyEngine :: "string \<Rightarrow> string \<Rightarrow> 'x \<Rightarrow> 'x StrategyEngine" where
  "NewStrategyEngine strategyID venue ev = \<lparr>se_strategyID = strategyID, se_venue = venue, se_out = [], se_evaluator = ev\<rparr>"

text \<open>\<^verbatim>\<open>OrderEvaluator\<close>: the clock and fresh ids of the call come with it.\<close>

type_synonym ('e, 'x) evaluator = "ProposedOrder \<Rightarrow> 'x \<Rightarrow> ('e, bool) result \<times> 'x"

definition signal_order :: "string \<Rightarrow> string \<Rightarrow> uuid \<Rightarrow> time \<Rightarrow> Signal \<Rightarrow> ProposedOrder" where
  "signal_order strategyID venue traceID now sig =
     \<lparr>o_TraceID = traceID, o_StrategyID = strategyID, o_Venue = venue, o_MarketID = sg_MarketID sig, o_Side = sg_Side sig,
      o_Quantity = sg_Quantity sig, o_PriceMicros = sg_PriceMicros sig,
      o_NotionalMicros = scast (sg_Quantity sig) * sg_PriceMicros sig, o_ProposedAt = now\<rparr>"

definition process_signal ::
  "faults \<Rightarrow> ('e, 'x) evaluator \<Rightarrow> uuid \<Rightarrow> time \<Rightarrow> Signal \<Rightarrow> 'x StrategyEngine \<Rightarrow> 'x StrategyEngine" where
  "process_signal flt evaluate traceID now sig e =
     (let order = signal_order (se_strategyID e) (se_venue e) traceID now sig in
      case ProposedOrder_Validate order of
        Inl _ \<Rightarrow> e
      | Inr _ \<Rightarrow>
          e\<lparr>se_out := publish flt (SubjectOrderProposed @ ''.'' @ se_strategyID e)
               (EvOrderProposed \<lparr>ope_TraceID = o_TraceID order, ope_StrategyID = se_strategyID e, ope_Venue = se_venue e,
                  ope_MarketID = sg_MarketID sig, ope_Side = sg_Side sig, ope_Quantity = sg_Quantity sig,
                  ope_PriceMicros = sg_PriceMicros sig, ope_NotionalMicros = o_NotionalMicros order,
                  ope_Timestamp = o_ProposedAt order\<rparr>) (se_out e),
             se_evaluator := snd (evaluate order (se_evaluator e))\<rparr>)"

text \<open>The loop over the signals: each has its own trace id, time and evaluator call.\<close>

fun process_each ::
  "faults \<Rightarrow> (nat \<Rightarrow> ('e, 'x) evaluator) \<Rightarrow> (nat \<Rightarrow> uuid) \<Rightarrow> (nat \<Rightarrow> time) \<Rightarrow> Signal list \<Rightarrow> 'x StrategyEngine \<Rightarrow> 'x StrategyEngine" where
  "process_each flt evaluate ids clock [] e = e"
| "process_each flt evaluate ids clock (sig # sigs) e =
     process_each flt (\<lambda>n. evaluate (Suc n)) (\<lambda>n. ids (Suc n)) (\<lambda>n. clock (Suc n)) sigs
       (process_signal flt (evaluate 0) (ids 0) (clock 0) sig e)"

definition processSignals ::
  "faults \<Rightarrow> SignalFunc \<Rightarrow> (nat \<Rightarrow> ('e, 'x) evaluator) \<Rightarrow> (nat \<Rightarrow> uuid) \<Rightarrow> (nat \<Rightarrow> time) \<Rightarrow> market_map \<Rightarrow> 'x StrategyEngine \<Rightarrow> 'x StrategyEngine" where
  "processSignals flt signalFn evaluate ids clock data e = process_each flt evaluate ids clock (signalFn data) e"

text \<open>One tick of \<^verbatim>\<open>RunSignalLoop\<close>.\<close>

definition signal_tick ::
  "faults \<Rightarrow> SignalFunc \<Rightarrow> (nat \<Rightarrow> ('e, 'x) evaluator) \<Rightarrow> (nat \<Rightarrow> uuid) \<Rightarrow> (nat \<Rightarrow> time) \<Rightarrow> market_map \<Rightarrow> 'x StrategyEngine \<Rightarrow> 'x StrategyEngine" where
  "signal_tick flt signalFn evaluate ids clock data e =
     (if data = Map.empty then e else processSignals flt signalFn evaluate ids clock data e)"


section \<open>The evaluator over gRPC\<close>

text \<open>A call over the network: it arrives and is answered, or the request or the reply is lost.\<close>

datatype delivery = Delivered | RequestLost | ReplyLost

definition over_network :: "delivery \<Rightarrow> ('s \<Rightarrow> ('e, 'a) result \<times> 's) \<Rightarrow> 's \<Rightarrow> ('e option, 'a) result \<times> 's" where
  "over_network dl call s =
     (case dl of RequestLost \<Rightarrow> (Inl None, s)
      | ReplyLost \<Rightarrow> (Inl None, snd (call s))
      | Delivered \<Rightarrow> (case call s of (Inl e, s') \<Rightarrow> (Inl (Some e), s') | (Inr a, s') \<Rightarrow> (Inr a, s')))"

datatype evaluator_error = RiskCall "grpc_error rpc_error option" | ExecCall "grpc_error rpc_error option"

text \<open>What the environment supplies to one evaluation: clocks, fresh ids and what the network does.\<close>

record eval_call =
  cl_wall :: time
  cl_now :: time
  cl_audit :: uuid
  cl_execNow :: time
  cl_internalID :: uuid
  cl_intentID :: uuid
  cl_execAudit :: uuid
  cl_riskNet :: delivery
  cl_execNet :: delivery

definition risk_rpc ::
  "Env \<Rightarrow> faults \<Rightarrow> eval_call \<Rightarrow> ProposedOrder \<Rightarrow> RiskEngine \<Rightarrow> (grpc_error rpc_error option, pb_SignedApproval) result \<times> RiskEngine" where
  "risk_rpc env flt c order =
     over_network (cl_riskNet c)
       (UnaryCallerInterceptor risk_callers (CallerIdentityInterceptor ''strategy-engine'' None) ''/risk.RiskEngine/EvaluateOrder''
         (GRPC_EvaluateOrder env flt (cl_wall c) (cl_now c) (cl_audit c) (Some (ProposedOrderToProto order))))"

definition exec_rpc ::
  "Env \<Rightarrow> 'v VenueAdapter \<Rightarrow> faults \<Rightarrow> eval_call \<Rightarrow> pb_SignedApproval \<Rightarrow> 'v ExecEngine
     \<Rightarrow> (grpc_error rpc_error option, pb_OrderRecord) result \<times> 'v ExecEngine" where
  "exec_rpc env va flt c approval =
     over_network (cl_execNet c)
       (UnaryCallerInterceptor execution_callers (CallerIdentityInterceptor ''strategy-engine'' None) ''/execution.ExecutionEngine/SubmitOrder''
         (GRPC_SubmitOrder env va flt (cl_execNow c) (cl_internalID c) (cl_intentID c) (cl_execAudit c) (Some approval)))"

definition GRPCEvaluator ::
  "Env \<Rightarrow> 'v VenueAdapter \<Rightarrow> faults \<Rightarrow> eval_call \<Rightarrow> (evaluator_error, RiskEngine \<times> 'v ExecEngine) evaluator" where
  "GRPCEvaluator env va flt c order st =
     (case st of (risk, exec) \<Rightarrow>
        (case risk_rpc env flt c order risk of
           (Inl err, risk) \<Rightarrow> (Inl (RiskCall err), (risk, exec))
         | (Inr approval, risk) \<Rightarrow>
             if psa_Decision approval \<noteq> DECISION_APPROVED then (Inr False, (risk, exec))
             else case exec_rpc env va flt c approval exec of
               (Inl err, exec) \<Rightarrow> (Inl (ExecCall err), (risk, exec))
             | (Inr _, exec) \<Rightarrow> (Inr True, (risk, exec))))"


section \<open>The market data cache\<close>

definition cache_update :: "string \<Rightarrow> string \<Rightarrow> MarketData \<Rightarrow> market_map \<Rightarrow> market_map" where
  "cache_update venue marketID md cache = cache(venue @ '':'' @ marketID \<mapsto> md)"

definition on_market_event :: "MarketDataEvent \<Rightarrow> market_map \<Rightarrow> market_map" where
  "on_market_event mde cache =
     cache_update (mde_Venue mde) (mde_MarketID mde)
       \<lparr>md_Venue = mde_Venue mde, md_MarketID = mde_MarketID mde, md_DisplayName = [],
        md_BidPriceMicros = mde_BidPriceMicros mde, md_AskPriceMicros = mde_AskPriceMicros mde,
        md_LastPriceMicros = mde_LastPriceMicros mde, md_BidDepth = mde_BidDepth mde, md_AskDepth = mde_AskDepth mde,
        md_Volume24h = Fin 0, md_UpdatedAt = mde_Timestamp mde\<rparr> cache"

definition cache_snapshot :: "market_map \<Rightarrow> market_map" where
  "cache_snapshot cache = cache"


section \<open>Signals of the momentum strategy\<close>

lemma momentum_loop_eq: "momentum_loop data ks acc = acc @ concat (map (\<lambda>k. case data k of None \<Rightarrow> [] | Some md \<Rightarrow> momentum_signal md) ks)"
  by (induction ks arbitrary: acc) (simp_all split: option.split)

lemma in_momentum:
  assumes "enumerates (visit data) data"
  shows "sig \<in> set (SimpleMomentum visit data) \<longleftrightarrow> (\<exists>k md. data k = Some md \<and> sig \<in> set (momentum_signal md))"
proof -
  have "sig \<in> set (SimpleMomentum visit data) \<longleftrightarrow>
      (\<exists>k \<in> dom data. sig \<in> set (case data k of None \<Rightarrow> [] | Some md \<Rightarrow> momentum_signal md))"
    using assms by (simp add: SimpleMomentum_def momentum_loop_eq enumerates_def)
  also have "\<dots> \<longleftrightarrow> (\<exists>k md. data k = Some md \<and> sig \<in> set (momentum_signal md))"
    unfolding dom_def by (force split: option.splits)
  finally show ?thesis .
qed

lemma in_momentum_signal:
  assumes "sane_quote md"
  shows "sig \<in> set (momentum_signal md) \<longleftrightarrow>
     sg_MarketID sig = md_MarketID md \<and> sg_Quantity sig = 1 \<and> sg_PriceMicros sig = MidPriceMicros md
     \<and> ((0 < sint (MidPriceMicros md) \<and> sint (MidPriceMicros md) < 400000 \<and> sg_Side sig = SideBuy \<and> sg_Reason sig = ''momentum: price below 0.40'')
       \<or> (600000 < sint (MidPriceMicros md) \<and> sg_Side sig = SideSell \<and> sg_Reason sig = ''momentum: price above 0.60''))"
proof -
  have "0 \<le> sint (MidPriceMicros md)" using MidPriceMicros_between [OF assms] assms unfolding sane_quote_def by linarith
  moreover have "MidPriceMicros md = 0 \<longleftrightarrow> sint (MidPriceMicros md) = 0" by (simp add: sint_eq_iff [symmetric])
  ultimately show ?thesis by (cases sig) (auto simp: momentum_signal_def Let_def)
qed

text \<open>A quote of a named market with \<open>0 \<le> bid \<le> ask < $1\<close>.\<close>

definition tradable :: "MarketData \<Rightarrow> bool" where
  "tradable md \<longleftrightarrow> sane_quote md \<and> md_MarketID md \<noteq> [] \<and> sint (md_AskPriceMicros md) < 1000000"

lemma momentum_order_valid:
  assumes "sane_quote md" "sint (md_AskPriceMicros md) < 1000000" "md_MarketID md \<noteq> []" "sig \<in> set (momentum_signal md)"
    and "strategyID \<noteq> []" "traceID \<noteq> []"
  shows "ProposedOrder_Validate (signal_order strategyID venue traceID now sig) = Inr ()"
proof -
  let ?p = "sint (MidPriceMicros md)"
  have p: "?p < 1000000" using MidPriceMicros_between(2) [OF assms(1)] assms(2) by linarith
  have q: "sint (1 :: int32) = 1" by simp
  have "0 < ?p" and f: "sg_MarketID sig = md_MarketID md" "sg_Quantity sig = 1" "sg_PriceMicros sig = MidPriceMicros md"
    "sg_Side sig \<in> {SideBuy, SideSell}"
    using assms(4) unfolding in_momentum_signal [OF assms(1)] by auto
  then show ?thesis
    using assms p notional_exact(1) [of "1 :: int32" "MidPriceMicros md"]
    unfolding Validate_ok_iff well_formed_order_def signal_order_def by (simp add: q)
qed

text \<open>
  The momentum strategy signals exactly the markets away from the middle, with valid orders. Whatever order the map
  is visited in, and for quotes with a bid of at least zero, an ask of at least the bid and below one dollar: there is
  a signal exactly for each market whose mid price is positive and below 40 cents (a buy) or above 60 cents (a sell), for
  one contract at the mid price; and the order made of any signal passes validation.
\<close>

theorem momentum_signals_valid:
  assumes "enumerates (visit data) data"
    and "\<forall>k md. data k = Some md \<longrightarrow> tradable md"
    and "strategyID \<noteq> []" "traceID \<noteq> []"
  shows "(sig \<in> set (SimpleMomentum visit data) \<longleftrightarrow>
      (\<exists>k md. data k = Some md \<and> sg_MarketID sig = md_MarketID md \<and> sg_Quantity sig = 1 \<and> sg_PriceMicros sig = MidPriceMicros md
        \<and> ((0 < sint (MidPriceMicros md) \<and> sint (MidPriceMicros md) < 400000 \<and> sg_Side sig = SideBuy \<and> sg_Reason sig = ''momentum: price below 0.40'')
          \<or> (600000 < sint (MidPriceMicros md) \<and> sg_Side sig = SideSell \<and> sg_Reason sig = ''momentum: price above 0.60''))))
    \<and> (sig \<in> set (SimpleMomentum visit data) \<longrightarrow> ProposedOrder_Validate (signal_order strategyID venue traceID now sig) = Inr ())"
proof -
  have "(data k = Some md \<and> sig \<in> set (momentum_signal md)) \<longleftrightarrow>
      (data k = Some md \<and> sg_MarketID sig = md_MarketID md \<and> sg_Quantity sig = 1 \<and> sg_PriceMicros sig = MidPriceMicros md
        \<and> ((0 < sint (MidPriceMicros md) \<and> sint (MidPriceMicros md) < 400000 \<and> sg_Side sig = SideBuy \<and> sg_Reason sig = ''momentum: price below 0.40'')
          \<or> (600000 < sint (MidPriceMicros md) \<and> sg_Side sig = SideSell \<and> sg_Reason sig = ''momentum: price above 0.60'')))" for k md
    using assms(2) [rule_format, of k md] in_momentum_signal [of md sig] by (cases "data k = Some md") (simp_all add: tradable_def)
  moreover have "ProposedOrder_Validate (signal_order strategyID venue traceID now sig) = Inr ()"
    if "data k = Some md" "sig \<in> set (momentum_signal md)" for k md
    using momentum_order_valid [OF _ _ _ that(2) assms(3,4)] assms(2) [rule_format, OF that(1)] unfolding tradable_def by blast
  ultimately show ?thesis unfolding in_momentum [where visit = visit, OF assms(1)] by (simp only:) blast
qed

definition sample_quote :: MarketData where
  "sample_quote = \<lparr>md_Venue = ''mock'', md_MarketID = ''M'', md_DisplayName = [], md_BidPriceMicros = 290000,
     md_AskPriceMicros = 310000, md_LastPriceMicros = 300000, md_BidDepth = 5, md_AskDepth = 5, md_Volume24h = Fin 0, md_UpdatedAt = 0\<rparr>"

theorem momentum_signals_valid_witness:
  "\<lparr>sg_MarketID = ''M'', sg_Side = SideBuy, sg_Quantity = 1, sg_PriceMicros = 300000, sg_Reason = ''momentum: price below 0.40''\<rparr>
     \<in> set (SimpleMomentum (\<lambda>_. [''mock:M'']) [''mock:M'' \<mapsto> sample_quote])"
proof -
  let ?data = "[''mock:M'' \<mapsto> sample_quote]"
  have v: "enumerates ((\<lambda>_. [''mock:M'']) ?data) ?data" by (simp add: enumerates_def)
  have q: "sane_quote sample_quote" "md_MarketID sample_quote = ''M''" "sint (md_AskPriceMicros sample_quote) = 310000"
    by (simp_all add: sane_quote_def sample_quote_def)
  then have mid: "MidPriceMicros sample_quote = 300000"
    using sint_MidPriceMicros [OF q(1)] by (simp add: sint_eq_iff [symmetric] sample_quote_def)
  have "\<forall>k md. ?data k = Some md \<longrightarrow> tradable md" using q by (simp add: tradable_def)
  note mv = momentum_signals_valid [OF v this, where strategyID = "''s''" and traceID = "''t''", THEN conjunct1]
  show ?thesis
    by (rule mv [THEN iffD2], simp, simp, rule exI [of _ "''mock:M''"], rule exI [of _ sample_quote]) (simp add: mid q)
qed


section \<open>From a signal to the venue\<close>

lemma risk_rpc_approves:
  assumes "risk_rpc env flt c ord risk = (Inr p, risk')" and "psa_Decision p = DECISION_APPROVED"
    and "o_Venue ord \<in> set wire_venues" and "numbers_in_range ord (re_state risk) (re_policy risk)"
  shows "well_formed_order ord" "order_permitted (State_Now (cl_wall c) (re_state risk)) ord (re_state risk) (re_policy risk)"
    "approvalFromProto p = decide env (cl_wall c) (cl_now c) ord risk"
    "re_state risk' = track_approval (cl_now c) ord (re_state risk)"
proof -
  let ?ord = "ProposedOrderFromProto (ProposedOrderToProto ord)"
  have perm: "permitted risk_callers ''/risk.RiskEngine/EvaluateOrder'' (callerFromContext (CallerIdentityInterceptor ''strategy-engine'' None))"
    by (simp only: caller_of_identity table_rows)
  obtain a where ev: "EvaluateOrder env flt (cl_wall c) (cl_now c) (cl_audit c) ?ord risk = (Inr a, risk')" and p: "p = approvalToProto a"
    using assms(1) unfolding risk_rpc_def over_network_def interceptor_cases(1) [OF perm] run_handler_def GRPC_EvaluateOrder_def
    by (auto split: delivery.splits prod.splits sum.splits)
  note a = EvaluateOrder_Inr [OF ev]
  have "o_Side ?ord \<in> {SideBuy, SideSell}" using a(1) unfolding Validate_ok_iff well_formed_order_def by blast
  then have "o_Side ord \<in> {SideBuy, SideSell}"
    by (auto simp: ProposedOrderFromProto_def ProposedOrderToProto_def SideFromTo split: if_splits)
  then have w: "wire_order ord" using assms(3) by (auto simp: wire_order_def)
  then have same: "?ord = ord" by (simp add: order_over_the_wire)
  show wf: "well_formed_order ord" using a(1) unfolding same Validate_ok_iff .
  have dec: "a_Decision a \<in> set decisions" using a(2) by (simp add: decide_decision decisions_def)
  then have ret: "approvalFromProto p = a" unfolding p using w a(2) same by (intro approval_over_the_wire) simp_all
  then show "approvalFromProto p = decide env (cl_wall c) (cl_now c) ord risk" using a(2) same by simp
  have app: "a_Decision a = DecisionApproved" using ret assms(2) by (auto simp: approvalFromProto_def)
  then show "order_permitted (State_Now (cl_wall c) (re_state risk)) ord (re_state risk) (re_policy risk)"
    using a(2) all_passed_iff_permitted [OF wf assms(4)] unfolding same by (simp add: decide_decision split: if_splits)
  show "re_state risk' = track_approval (cl_now c) ord (re_state risk)"
    using EvaluateOrder_state [of env flt "cl_wall c" "cl_now c" "cl_audit c" ord risk] ev a app unfolding same by simp
qed

lemma exec_rpc_run:
  "snd (exec_rpc env va flt c p exec) =
     (if cl_execNet c = RequestLost then exec
      else snd (Exec_SubmitOrder env va flt (cl_execNow c) (cl_internalID c) (cl_intentID c) (cl_execAudit c) (approvalFromProto p) exec))"
  "fst (exec_rpc env va flt c p exec) = Inr r \<Longrightarrow>
     cl_execNet c = Delivered \<and> (\<exists>rec. r = OrderRecordToProto rec \<and>
       fst (Exec_SubmitOrder env va flt (cl_execNow c) (cl_internalID c) (cl_intentID c) (cl_execAudit c) (approvalFromProto p) exec) = Inr rec)"
proof -
  have perm: "permitted execution_callers ''/execution.ExecutionEngine/SubmitOrder'' (callerFromContext (CallerIdentityInterceptor ''strategy-engine'' None))"
    by (simp only: caller_of_identity table_rows)
  note unf = exec_rpc_def over_network_def interceptor_cases(1) [OF perm] run_handler_def GRPC_SubmitOrder_def
  show "snd (exec_rpc env va flt c p exec) =
     (if cl_execNet c = RequestLost then exec
      else snd (Exec_SubmitOrder env va flt (cl_execNow c) (cl_internalID c) (cl_intentID c) (cl_execAudit c) (approvalFromProto p) exec))"
    unfolding unf by (cases "cl_execNet c") (simp_all split: prod.split sum.split)
  show "cl_execNet c = Delivered \<and> (\<exists>rec. r = OrderRecordToProto rec \<and>
       fst (Exec_SubmitOrder env va flt (cl_execNow c) (cl_internalID c) (cl_intentID c) (cl_execAudit c) (approvalFromProto p) exec) = Inr rec)"
    if "fst (exec_rpc env va flt c p exec) = Inr r"
    using that unfolding unf by (cases "cl_execNet c") (auto split: prod.splits sum.splits)
qed

lemma submit_reaches_venue:
  assumes "xe_venue (snd (Exec_SubmitOrder env va flt now internalID newIntentID aid a e)) \<noteq> xe_venue e
      \<or> (\<exists>rec. fst (Exec_SubmitOrder env va flt now internalID newIntentID aid a e) = Inr rec)"
  shows "submit_gate (env_hmac env) a e = Inr ()"
  using assms by (cases rule: Exec_SubmitOrder_cases [of env a e va flt now internalID newIntentID aid]) auto

lemma submit_stopped:
  "submit_gate (env_hmac env) a e \<noteq> Inr () \<Longrightarrow> snd (Exec_SubmitOrder env va flt now internalID newIntentID aid a e) = e"
  by (cases rule: Exec_SubmitOrder_cases [of env a e va flt now internalID newIntentID aid]) auto

text \<open>
  C1: From the strategy to the venue, only permitted orders. Let a strategy evaluate an order over gRPC, with any
  venue behind the execution engine, any database or publication failures and any lost request or reply. Assume
  that the order names one of the venues the wire format has a number for (\<open>wire_venues\<close>) and that the
  figures of the risk engine are far enough from the ends of their ranges that no 64-bit sum of the
  checks wraps around (\<open>numbers_in_range\<close>). If
  the venue's state changed, or the strategy was told the order went out, then the order was well formed and
  satisfied the conditions of all twenty checks (\<open>order_permitted\<close>: the limits of the policy that the checks
  read, see \<open>unchecked_limits\<close> for those they do not) in the risk engine's state at that moment, the
  approval's signature verifies under
  the execution engine's key, the execution engine had reconciled and was in normal mode, and the
  risk engine has counted the order.
\<close>

theorem only_permitted_orders_reach_venue:
  assumes run: "GRPCEvaluator env va flt c ord (risk, exec) = (res, (risk', exec'))"
    and reach: "xe_venue exec' \<noteq> xe_venue exec \<or> res = Inr True"
    and wire: "o_Venue ord \<in> set wire_venues" and range: "numbers_in_range ord (re_state risk) (re_policy risk)"
  shows "well_formed_order ord \<and> order_permitted (State_Now (cl_wall c) (re_state risk)) ord (re_state risk) (re_policy risk)
    \<and> VerifyApproval (env_hmac env) (decide env (cl_wall c) (cl_now c) ord risk) (xe_hmacKey exec)
    \<and> xe_reconciled exec \<and> xe_systemMode exec = ''normal''
    \<and> re_state risk' = track_approval (cl_now c) ord (re_state risk)"
proof -
  obtain p where p: "risk_rpc env flt c ord risk = (Inr p, risk')" "psa_Decision p = DECISION_APPROVED"
    and ex: "exec' = snd (exec_rpc env va flt c p exec)" "res = Inr True \<Longrightarrow> \<exists>r. fst (exec_rpc env va flt c p exec) = Inr r"
    using run reach unfolding GRPCEvaluator_def by (auto split: prod.splits sum.splits if_splits)
  note r = risk_rpc_approves [OF p wire range]
  have "submit_gate (env_hmac env) (approvalFromProto p) exec = Inr ()"
    using reach ex exec_rpc_run [of env va flt c p exec]
    by (intro submit_reaches_venue [where va = va and flt = flt and now = "cl_execNow c" and internalID = "cl_internalID c"
        and newIntentID = "cl_intentID c" and aid = "cl_execAudit c"]) (auto split: if_splits)
  then show ?thesis using r unfolding submit_gate_ok by simp
qed

definition sample_call :: eval_call where
  "sample_call = \<lparr>cl_wall = 7000000000, cl_now = 7000000001, cl_audit = ''aid'', cl_execNow = 8, cl_internalID = ''o1'',
     cl_intentID = ''i1'', cl_execAudit = ''a1'', cl_riskNet = Delivered, cl_execNet = Delivered\<rparr>"

theorem only_permitted_orders_reach_venue_witness:
  "order_permitted 7000000000 sample_order sample_state sample_policy
     \<and> fst (GRPCEvaluator sample_env (PaperAdapter (\<lambda>_. [])) no_faults sample_call sample_order (sample_engine, sample_exec)) = Inr True"
proof -
  let ?va = "PaperAdapter (\<lambda>_. []) :: MockServer VenueAdapter"
  have perm: "permitted risk_callers ''/risk.RiskEngine/EvaluateOrder'' (callerFromContext (CallerIdentityInterceptor ''strategy-engine'' None))"
    "permitted execution_callers ''/execution.ExecutionEngine/SubmitOrder'' (callerFromContext (CallerIdentityInterceptor ''strategy-engine'' None))"
    by (simp_all only: caller_of_identity table_rows)
  have same: "ProposedOrderFromProto (ProposedOrderToProto sample_order) = sample_order"
    and wire: "o_Venue sample_order \<in> set wire_venues"
    by (simp_all add: order_over_the_wire wire_order_def wire_venues_def sample_order_def)
  have wf: "ProposedOrder_Validate sample_order = Inr ()" using sample_well_formed by (simp add: Validate_ok_iff)
  obtain risk' where ev: "EvaluateOrder sample_env no_faults 7000000000 7000000001 ''aid'' sample_order sample_engine = (Inr sample_approval, risk')"
    using EvaluateOrder_result [of sample_env no_faults 7000000000 7000000001 "''aid''" sample_order sample_engine] wf
    by (cases "EvaluateOrder sample_env no_faults 7000000000 7000000001 ''aid'' sample_order sample_engine") (simp add: sample_approval_def)
  have risk: "risk_rpc sample_env no_faults sample_call sample_order sample_engine = (Inr (approvalToProto sample_approval), risk')"
    unfolding risk_rpc_def interceptor_cases(1) [OF perm(1)]
    by (simp add: over_network_def sample_call_def run_handler_def GRPC_EvaluateOrder_def same ev del: no_faults_simp)
  have ret: "approvalFromProto (approvalToProto sample_approval) = sample_approval"
    by (rule approval_over_the_wire)
      (simp_all add: sample_approval_fields wire_order_def wire_venues_def sample_order_def decisions_def)
  have dec: "psa_Decision (approvalToProto sample_approval) = DECISION_APPROVED"
    by (simp add: approvalToProto_def sample_approval_fields)
  obtain rec exec' where sub: "Exec_SubmitOrder sample_env ?va no_faults 8 ''o1'' ''i1'' ''a1'' sample_approval sample_exec = (Inr rec, exec')"
    using sample_submit by (metis surjective_pairing)
  have exec: "exec_rpc sample_env ?va no_faults sample_call (approvalToProto sample_approval) sample_exec = (Inr (OrderRecordToProto rec), exec')"
    unfolding exec_rpc_def interceptor_cases(1) [OF perm(2)]
    by (simp add: over_network_def sample_call_def run_handler_def GRPC_SubmitOrder_def ret sub del: no_faults_simp)
  have run: "GRPCEvaluator sample_env ?va no_faults sample_call sample_order (sample_engine, sample_exec) = (Inr True, (risk', exec'))"
    by (simp add: GRPCEvaluator_def risk dec exec del: no_faults_simp)
  from only_permitted_orders_reach_venue [OF run _ wire sample_engine_in_range] run show ?thesis
    by (simp add: State_Now_def sample_call_def sample_engine_def NewEngine_def sample_state_def NewEmptyState_def)
qed


section \<open>A tick of the signal loop\<close>

text \<open>The valid orders of a list of signals, in order.\<close>

definition proposals :: "string \<Rightarrow> string \<Rightarrow> (nat \<Rightarrow> uuid) \<Rightarrow> (nat \<Rightarrow> time) \<Rightarrow> Signal list \<Rightarrow> ProposedOrder list" where
  "proposals strategyID venue ids clock sigs =
     filter well_formed_order (map (\<lambda>(n, sig). signal_order strategyID venue (ids n) (clock n) sig) (enumerate 0 sigs))"

definition proposal_event :: "ProposedOrder \<Rightarrow> event" where
  "proposal_event ord = EvOrderProposed \<lparr>ope_TraceID = o_TraceID ord, ope_StrategyID = o_StrategyID ord, ope_Venue = o_Venue ord,
     ope_MarketID = o_MarketID ord, ope_Side = o_Side ord, ope_Quantity = o_Quantity ord, ope_PriceMicros = o_PriceMicros ord,
     ope_NotionalMicros = o_NotionalMicros ord, ope_Timestamp = o_ProposedAt ord\<rparr>"

lemma proposals_Cons:
  "proposals strategyID venue ids clock (sig # sigs) =
     filter well_formed_order [signal_order strategyID venue (ids 0) (clock 0) sig]
       @ proposals strategyID venue (\<lambda>n. ids (Suc n)) (\<lambda>n. clock (Suc n)) sigs"
proof -
  have "enumerate (Suc n) sigs = map (\<lambda>(n, x). (Suc n, x)) (enumerate n sigs)" for n
    by (induction sigs arbitrary: n) simp_all
  then show ?thesis by (simp add: proposals_def split_def o_def)
qed

lemma process_signal_eq:
  "process_signal flt evaluate traceID now sig e =
     (let ord = signal_order (se_strategyID e) (se_venue e) traceID now sig in
      if well_formed_order ord
      then e\<lparr>se_out := publish flt (SubjectOrderProposed @ ''.'' @ se_strategyID e) (proposal_event ord) (se_out e),
             se_evaluator := snd (evaluate ord (se_evaluator e))\<rparr>
      else e)"
  by (cases "ProposedOrder_Validate (signal_order (se_strategyID e) (se_venue e) traceID now sig)")
    (simp_all add: process_signal_def Let_def Validate_ok_iff [symmetric] proposal_event_def signal_order_def)

lemma process_each_result:
  assumes stays: "\<And>n ord x. P x \<Longrightarrow> P (snd (evaluate n ord x))" and "P (se_evaluator e)"
  shows "P (se_evaluator (process_each flt evaluate ids clock sigs e))
    \<and> se_out (process_each flt evaluate ids clock sigs e) = se_out e @
        (if flt (Pub (SubjectOrderProposed @ ''.'' @ se_strategyID e)) then []
         else map (\<lambda>ord. (SubjectOrderProposed @ ''.'' @ se_strategyID e, proposal_event ord))
           (proposals (se_strategyID e) (se_venue e) ids clock sigs))"
  using assms
proof (induction sigs arbitrary: evaluate ids clock e)
  case Nil
  then show ?case by (simp add: proposals_def)
next
  case (Cons sig sigs)
  define e1 where "e1 = process_signal flt (evaluate 0) (ids 0) (clock 0) sig e"
  have e1: "P (se_evaluator e1)" "se_strategyID e1 = se_strategyID e" "se_venue e1 = se_venue e"
    using Cons.prems unfolding e1_def process_signal_eq Let_def by simp_all
  have "P x \<Longrightarrow> P (snd (evaluate (Suc n) ord x))" for n ord x by (rule Cons.prems)
  note ih = Cons.IH [where evaluate = "\<lambda>n. evaluate (Suc n)" and e = e1, OF this e1(1), of "\<lambda>n. ids (Suc n)" "\<lambda>n. clock (Suc n)"]
  show ?case
    using ih unfolding process_each.simps e1_def [symmetric] e1(2,3) proposals_Cons
    by (simp add: e1_def process_signal_eq Let_def publish_eq)
qed

text \<open>
  C13: A strategy cannot trade through a halted execution engine. While the execution engine is not in normal mode, or has not
  reconciled, a tick of the signal loop (any signal function, any number of signals, any failures) leaves the
  execution engine exactly as it was; what the tick does is publish each valid proposal, in signal order, on
  the strategy's subject (nothing when the publications fail).
\<close>

theorem halted_engine_gets_no_orders:
  assumes "xe_systemMode exec \<noteq> ''normal'' \<or> \<not> xe_reconciled exec" and "se_evaluator e = (risk, exec)"
  shows "snd (se_evaluator (signal_tick flt signalFn (\<lambda>n. GRPCEvaluator env va flt (calls n)) ids clock data e)) = exec
    \<and> se_out (signal_tick flt signalFn (\<lambda>n. GRPCEvaluator env va flt (calls n)) ids clock data e) = se_out e @
        (if data = Map.empty \<or> flt (Pub (SubjectOrderProposed @ ''.'' @ se_strategyID e)) then []
         else map (\<lambda>ord. (SubjectOrderProposed @ ''.'' @ se_strategyID e, proposal_event ord))
           (proposals (se_strategyID e) (se_venue e) ids clock (signalFn data)))"
proof -
  have "submit_gate (env_hmac env) a exec \<noteq> Inr ()" for a using assms(1) by (auto simp: submit_gate_ok)
  then have rpc: "snd (exec_rpc env va flt c p exec) = exec" for c p by (simp add: exec_rpc_run(1) submit_stopped)
  have "snd (snd (GRPCEvaluator env va flt c ord x)) = exec" if "snd x = exec" for c ord x
    using rpc [of c] that unfolding GRPCEvaluator_def
    by (cases x) (auto split: prod.split sum.split, (metis snd_conv)+)
  then have "snd (snd (GRPCEvaluator env va flt (calls n) ord x)) = exec" if "snd x = exec" for n ord x using that by blast
  from process_each_result [where P = "\<lambda>x. snd x = exec" and e = e and evaluate = "\<lambda>n. GRPCEvaluator env va flt (calls n)"
      and flt = flt and ids = ids and clock = clock and sigs = "signalFn data", OF this]
  show ?thesis using assms(2) by (simp add: signal_tick_def processSignals_def)
qed

theorem halted_engine_gets_no_orders_witness:
  "se_out (signal_tick no_faults (SimpleMomentum (\<lambda>_. [''mock:M'']))
       (\<lambda>n. GRPCEvaluator sample_env (PaperAdapter (\<lambda>_. [])) no_faults sample_call) (\<lambda>_. ''t'') (\<lambda>_. 5) [''mock:M'' \<mapsto> sample_quote]
       (NewStrategyEngine ''mm'' ''mock'' (sample_engine, Exec_SetSystemMode LevelFullStop sample_exec))) =
     [(''order.proposed.mm'', EvOrderProposed \<lparr>ope_TraceID = ''t'', ope_StrategyID = ''mm'', ope_Venue = ''mock'', ope_MarketID = ''M'',
        ope_Side = SideBuy, ope_Quantity = 1, ope_PriceMicros = 300000, ope_NotionalMicros = 300000, ope_Timestamp = 5\<rparr>)]"
proof -
  let ?e = "NewStrategyEngine ''mm'' ''mock'' (sample_engine, Exec_SetSystemMode LevelFullStop sample_exec)"
  have "xe_systemMode (Exec_SetSystemMode LevelFullStop sample_exec) \<noteq> ''normal'' \<or> \<not> xe_reconciled (Exec_SetSystemMode LevelFullStop sample_exec)"
    by (simp add: Exec_SetSystemMode_def)
  moreover have "se_evaluator ?e = (sample_engine, Exec_SetSystemMode LevelFullStop sample_exec)" by (simp add: NewStrategyEngine_def)
  moreover have mid: "MidPriceMicros sample_quote = 300000" by code_simp
  moreover have "well_formed_order (signal_order ''mm'' ''mock'' ''t'' 5
     \<lparr>sg_MarketID = ''M'', sg_Side = SideBuy, sg_Quantity = 1, sg_PriceMicros = 300000, sg_Reason = ''momentum: price below 0.40''\<rparr>)"
    by (simp add: well_formed_order_def signal_order_def)
  moreover have "md_MarketID sample_quote = ''M''" by (simp add: sample_quote_def)
  ultimately show ?thesis
    by (subst halted_engine_gets_no_orders [THEN conjunct2])
      (simp_all add: NewStrategyEngine_def SimpleMomentum_def momentum_signal_def proposals_def proposal_event_def signal_order_def)
qed

end
