(* ===== verification/Market_Feed.thy ===== *)
theory Market_Feed
  imports Strategy
begin

text \<open>
  Market data: \<^verbatim>\<open>services/data/ingestion.go\<close> (the synthetic feed), \<^verbatim>\<open>services/data/kalshi_feed.go\<close> and the
  price conversions of \<^verbatim>\<open>pkg/kalshi/client.go\<close>. Random draws, the answers of the Kalshi API and the
  clock are arguments. \<^verbatim>\<open>strconv.ParseFloat\<close> is modelled on decimal notation (with exponent, infinities and
  NaN) for values in the range of normal doubles; hexadecimal notation counts as a parse error.
\<close>

section \<open>Parsing prices\<close>

definition is_digit :: "char \<Rightarrow> bool" where
  "is_digit c \<longleftrightarrow> 48 \<le> (of_char c :: nat) \<and> (of_char c :: nat) \<le> 57"

definition split_sign :: "string \<Rightarrow> bool \<times> string" where
  "split_sign s = (case s of [] \<Rightarrow> (False, []) | c # r \<Rightarrow> if c = CHR ''-'' then (True, r) else if c = CHR ''+'' then (False, r) else (False, s))"

definition lower :: "char \<Rightarrow> char" where
  "lower c = (let n = of_char c :: nat in if 65 \<le> n \<and> n \<le> 90 then char_of (n + 32) else c)"

definition parse_exponent :: "string \<Rightarrow> int option" where
  "parse_exponent s =
     (case s of [] \<Rightarrow> Some 0
      | c # r \<Rightarrow>
          if lower c \<noteq> CHR ''e'' then None
          else let (neg, ds) = split_sign r in
            if ds = [] \<or> \<not> list_all is_digit ds then None
            else Some (if neg then - int (dec_value ds) else int (dec_value ds)))"

text \<open>Mantissa digits with at most one point, then an optional exponent, then the end.\<close>

definition parse_decimal :: "string \<Rightarrow> rat option" where
  "parse_decimal s =
     (let ip = takeWhile is_digit s; r = dropWhile is_digit s;
          (fp, r) = (case r of [] \<Rightarrow> ([], []) | c # q \<Rightarrow> if c = CHR ''.'' then (takeWhile is_digit q, dropWhile is_digit q) else ([], r))
      in if ip = [] \<and> fp = [] then None
         else case parse_exponent r of None \<Rightarrow> None
         | Some e \<Rightarrow> Some (of_nat (dec_value (ip @ fp)) * 10 powi (e - int (length fp))))"

definition ParseFloat :: "string \<Rightarrow> float64 option" where
  "ParseFloat s =
     (let (neg, r) = split_sign s; word1 = map lower r in
      if word1 = ''inf'' \<or> word1 = ''infinity'' then Some (if neg then NegInf else PosInf)
      else if map lower s = ''nan'' then Some NaN
      else case parse_decimal r of None \<Rightarrow> None | Some x \<Rightarrow> Some (Fin (rnd (if neg then - x else x))))"

definition DollarsToCents :: "string \<Rightarrow> int64" where
  "DollarsToCents dollars =
     (if dollars = [] \<or> dollars = ''0.0000'' then 0
      else case ParseFloat dollars of None \<Rightarrow> 0
      | Some f \<Rightarrow> word_of_int (f_trunc (f_mul f (f_lit 100))))"


subsection \<open>How far off a price can be\<close>

lemma round_half_even_error: "\<bar>of_int (round_half_even x) - x\<bar> \<le> 1 / 2"
proof -
  have "of_int \<lfloor>x\<rfloor> \<le> x" "x < of_int \<lfloor>x\<rfloor> + 1" by linarith+
  then show ?thesis by (auto simp: round_half_even_def Let_def abs_le_iff)
qed

lemma rnd_error:
  assumes "0 < x"
  shows "\<bar>rnd x - x\<bar> \<le> x / 2 ^ 53"
proof -
  let ?u = "(2 :: rat) powi (fexp x)"
  have u: "0 < ?u" by simp
  have "2 powi (fexp x + 52) = ?u * 2 ^ 52" by (simp add: power_int_add)
  then have small: "?u * 2 ^ 52 \<le> x" using fexp_bounds(1) [OF assms] by simp
  have "rnd x - x = (of_int (round_half_even (x / ?u)) - x / ?u) * ?u"
    using assms by (simp add: rnd_def round_pos_def field_simps)
  then have "\<bar>rnd x - x\<bar> = \<bar>of_int (round_half_even (x / ?u)) - x / ?u\<bar> * ?u" by (simp add: abs_mult)
  also have "\<dots> \<le> 1 / 2 * ?u" using round_half_even_error [of "x / ?u"] u by (intro mult_right_mono) simp_all
  also have "\<dots> \<le> x / 2 ^ 53" using small by (simp add: field_simps)
  finally show ?thesis .
qed

text \<open>The rounded product of 100 with the rounded price, when the price is below a dollar.\<close>

lemma hundredfold_error:
  assumes "0 \<le> x" "x < 1"
  shows "\<bar>rnd (rnd x * 100) - x * 100\<bar> < 1 / 100"
proof (cases "x = 0")
  case False
  then have x: "0 < x" using assms(1) by simp
  have e1: "\<bar>rnd x - x\<bar> \<le> 1 / 2 ^ 53" using rnd_error [OF x] assms(2) by (simp add: field_simps)
  have pos: "0 < rnd x" using x round_pos_positive by (simp add: rnd_def)
  have "rnd x < 2" using e1 assms(2) unfolding abs_le_iff by simp
  then have b: "0 < rnd x * 100" "rnd x * 100 < 200" using pos by simp_all
  have e2: "\<bar>rnd (rnd x * 100) - rnd x * 100\<bar> \<le> 200 / 2 ^ 53"
    using rnd_error [OF b(1)] b(2) by (simp add: field_simps)
  have "rnd (rnd x * 100) - x * 100 = (rnd (rnd x * 100) - rnd x * 100) + (rnd x - x) * 100" by (simp add: algebra_simps)
  also have "\<bar>\<dots>\<bar> \<le> 200 / 2 ^ 53 + 1 / 2 ^ 53 * 100"
  proof (intro order_trans [OF abs_triangle_ineq] add_mono e2)
    show "\<bar>(rnd x - x) * 100\<bar> \<le> 1 / 2 ^ 53 * 100"
      unfolding abs_mult using e1 by (intro mult_mono) simp_all
  qed
  finally show ?thesis by simp
qed simp

lemma digit_facts: "c \<in> decimal_digits \<Longrightarrow> is_digit c \<and> lower c = c"
  by (auto simp: decimal_digits_def is_digit_def lower_def Let_def)

lemma ParseFloat_fraction:
  assumes "set ds \<subseteq> decimal_digits"
  shows "ParseFloat (''0.'' @ ds) = Some (Fin (rnd (of_nat (dec_value ds) / 10 ^ length ds)))"
proof -
  have d: "\<forall>c \<in> set ds. is_digit c" using assms digit_facts by blast
  have z: "is_digit CHR ''0''" "\<not> is_digit CHR ''.''" "lower CHR ''0'' = CHR ''0''" "lower CHR ''.'' = CHR ''.''"
    by (simp_all add: is_digit_def lower_def Let_def)
  have tw: "takeWhile is_digit ds = ds" "dropWhile is_digit ds = []" using d by (simp_all add: takeWhile_eq_all_conv)
  have v: "dec_value (CHR ''0'' # ds) = dec_value ds" using dec_value_zeros [of 1 ds] by simp
  have "parse_decimal (''0.'' @ ds) = Some (of_nat (dec_value ds) * 10 powi (- int (length ds)))"
    by (simp add: parse_decimal_def z tw parse_exponent_def v Let_def)
  then show ?thesis
    by (simp add: ParseFloat_def split_sign_def z Let_def power_int_minus power_int_of_nat divide_inverse)
qed

lemma show_nat_short: "n < 10 ^ Suc k \<Longrightarrow> length (show_nat n) \<le> Suc k"
proof (induction k arbitrary: n)
  case 0
  then show ?case by (subst show_nat.simps) simp
next
  case (Suc k)
  then have "n div 10 < 10 ^ Suc k" by simp
  with Suc.IH [of "n div 10"] show ?case by (subst show_nat.simps) simp
qed

lemma fraction_cents:
  assumes "n < 10000"
  shows "DollarsToCents (''0.'' @ pad_left 4 (show_nat n)) = (if n = 0 then 0 else word_of_int (f_trunc (Fin (rnd (rnd (of_nat n / 10000) * 100)))))"
proof -
  let ?ds = "pad_left 4 (show_nat n)"
  have len: "length ?ds = 4" using assms show_nat_short [of n 3] by (simp add: pad_left_def)
  have v: "dec_value ?ds = n" by (simp add: pad_left_def dec_value_zeros dec_value_show_nat)
  have dig: "set ?ds \<subseteq> decimal_digits" using show_nat_digits by (auto simp: pad_left_def decimal_digits_def)
  have zero: "''0.'' @ ?ds = ''0.0000'' \<longleftrightarrow> n = 0"
  proof
    assume "''0.'' @ ?ds = ''0.0000''"
    then have "?ds = replicate 4 CHR ''0'' @ []" by (simp add: numeral_eq_Suc)
    then have "dec_value ?ds = dec_value []" by (simp only: dec_value_zeros)
    then show "n = 0" using v by (simp add: dec_value_def)
  next
    assume "n = 0"
    then show "''0.'' @ ?ds = ''0.0000''"
      by (simp add: pad_left_def show_nat.simps [of 0] digit_def numeral_eq_Suc)
  qed
  show ?thesis
    unfolding DollarsToCents_def zero ParseFloat_fraction [OF dig] len v by (simp add: f_lit_def)
qed

lemma trunc_near:
  assumes "\<bar>y - of_nat n / 100\<bar> < 1 / 100" "0 \<le> y"
  shows "f_trunc (Fin y) \<in> {int n div 100, int n div 100 - (if n mod 100 = 0 then 1 else 0)}"
proof -
  define k where "k = \<lfloor>y\<rfloor>"
  have tr: "f_trunc (Fin y) = k" using assms(2) by (simp add: k_def)
  have y: "of_nat n - 1 < y * 100" "y * 100 < of_nat n + 1" using assms(1) by (auto simp: abs_less_iff field_simps)
  have fl: "of_int k \<le> y" "y < of_int k + 1" unfolding k_def by linarith+
  have "(of_nat n - 1 :: rat) < 100 * of_int k + 100" "100 * of_int k < (of_nat n + 1 :: rat)" using y fl by linarith+
  then have "of_int (int n - 1) < (of_int (100 * k + 100) :: rat)" "of_int (100 * k) < (of_int (int n + 1) :: rat)" by simp_all
  then have k: "int n - 1 < 100 * k + 100" "100 * k < int n + 1" unfolding of_int_less_iff by simp_all
  have "k = int n div 100 \<or> (k = int n div 100 - 1 \<and> n mod 100 = 0)"
  proof (cases "int n = 100 * (k + 1)")
    case True
    then have "int n div 100 = k + 1" "int (n mod 100) = 0" by (simp_all add: zmod_int)
    then show ?thesis by simp
  next
    case False
    then have "int n = 100 * k + (int n - 100 * k)" "0 \<le> int n - 100 * k" "int n - 100 * k < 100" using k by simp_all
    then have "int n div 100 = k" by (rule int_div_pos_eq)
    then show ?thesis by simp
  qed
  then show ?thesis unfolding tr by auto
qed

text \<open>
  C33: A price loses at most a cent. For every price string of four decimals below a dollar, \<^verbatim>\<open>DollarsToCents\<close> returns the
  number of whole cents when there is a fraction of a cent left over, and otherwise the exact
  cents or one cent less.
\<close>

theorem dollars_to_cents_error:
  assumes "n < 10000"
  shows "sint (DollarsToCents (''0.'' @ pad_left 4 (show_nat n))) \<in> {int n div 100, int n div 100 - (if n mod 100 = 0 then 1 else 0)}"
proof (cases "n = 0")
  case True
  then show ?thesis unfolding fraction_cents [OF assms] by simp
next
  case False
  define x where "x = (of_nat n / 10000 :: rat)"
  define y where "y = rnd (rnd x * 100)"
  have x: "0 \<le> x" "x < 1" "x * 100 = of_nat n / 100" using assms by (simp_all add: x_def divide_less_eq)
  have "\<bar>y - of_nat n / 100\<bar> < 1 / 100" using hundredfold_error [OF x(1,2)] unfolding x(3) y_def .
  moreover have "0 \<le> y" unfolding y_def using x(1) by (intro rnd_nonneg mult_nonneg_nonneg) simp_all
  ultimately have tr: "f_trunc (Fin y) \<in> {int n div 100, int n div 100 - (if n mod 100 = 0 then 1 else 0)}" by (rule trunc_near)
  have "- 1 \<le> t \<and> t < 1000" if "t \<in> {int n div 100, int n div 100 - (if n mod 100 = 0 then 1 else 0)}" for t
    using that assms by (auto split: if_splits)
  from this [OF tr] have "- 1 \<le> f_trunc (Fin y) \<and> f_trunc (Fin y) < 1000" .
  then have "sint (word_of_int (f_trunc (Fin y)) :: int64) = f_trunc (Fin y)" by (intro sint_word_of_int_exact) simp_all
  then show ?thesis unfolding fraction_cents [OF assms] x_def [symmetric] y_def [symmetric] if_not_P [OF False] using tr by simp
qed

theorem dollars_to_cents_error_witness:
  "sint (DollarsToCents (''0.'' @ pad_left 4 (show_nat 6550))) = 65"
proof -
  have "(6550 :: nat) < 10000" "(6550 :: nat) mod 100 \<noteq> 0" by simp_all
  then show ?thesis using dollars_to_cents_error [of 6550] by simp
qed

text \<open>The cent is lost in the double arithmetic: \<^verbatim>\<open>0.29\<close> is read as 28 cents.\<close>

lemma rnd_at:
  assumes "0 < x" "2 powi (e + 52) \<le> x" "x < 2 powi (e + 53)"
  shows "rnd x = of_int (round_half_even (x / 2 powi e)) * 2 powi e"
proof -
  have "e + 52 < fexp x + 53"
  proof (rule ccontr)
    assume "\<not> e + 52 < fexp x + 53"
    then have "(2 :: rat) powi (fexp x + 53) \<le> 2 powi (e + 52)" by (intro power_int_increasing) simp_all
    with fexp_bounds(2) [OF assms(1)] assms(2) show False by linarith
  qed
  moreover have "fexp x + 52 < e + 53"
  proof (rule ccontr)
    assume "\<not> fexp x + 52 < e + 53"
    then have "(2 :: rat) powi (e + 53) \<le> 2 powi (fexp x + 52)" by (intro power_int_increasing) simp_all
    with fexp_bounds(1) [OF assms(1)] assms(3) show False by linarith
  qed
  ultimately have "fexp x = e" by linarith
  then show ?thesis using assms(1) by (simp add: rnd_def round_pos_def)
qed

lemma cent_lost: "DollarsToCents (''0.'' @ pad_left 4 (show_nat 2900)) = 28"
proof -
  have fl1: "\<lfloor>130604389193744384 / 25 :: rat\<rfloor> = 5224175567749775" by (rule floor_unique) simp_all
  have fl2: "\<lfloor>130604389193744375 / 16 :: rat\<rfloor> = 8162774324609023" by (rule floor_unique) simp_all
  have "rnd (2900 / 10000) = of_int (round_half_even (2900 / 10000 / 2 powi (- 54))) * 2 powi (- 54)"
    by (rule rnd_at) (simp_all add: power_int_minus)
  also have "\<dots> = 5224175567749775 / 2 ^ 54" by (simp add: round_half_even_def Let_def power_int_minus fl1)
  finally have x: "rnd (2900 / 10000) * 100 = 5224175567749775 * 100 / 2 ^ 54" by simp
  have "rnd (5224175567749775 * 100 / 2 ^ 54) = of_int (round_half_even (5224175567749775 * 100 / 2 ^ 54 / 2 powi (- 48))) * 2 powi (- 48)"
    by (rule rnd_at) (simp_all add: power_int_minus)
  also have "\<dots> = 8162774324609023 / 2 ^ 48" by (simp add: round_half_even_def Let_def power_int_minus fl2)
  finally have y: "rnd (rnd (2900 / 10000) * 100) = 8162774324609023 / 2 ^ 48" unfolding x .
  have lt: "(2900 :: nat) < 10000" and nz: "(2900 :: nat) \<noteq> 0" by simp_all
  have y': "rnd (rnd (of_nat 2900 / 10000) * 100) = 8162774324609023 / 2 ^ 48" using y by (simp only: of_nat_numeral)
  have "\<lfloor>8162774324609023 / 2 ^ 48 :: rat\<rfloor> = 28" by (rule floor_unique) simp_all
  then have "f_trunc (Fin (8162774324609023 / 2 ^ 48)) = 28" by simp
  then show ?thesis unfolding fraction_cents [OF lt] if_not_P [OF nz] y' by simp
qed


section \<open>The Kalshi API's data\<close>

record KalshiMarket =
  kx_Ticker :: string
  kx_Title :: string
  kx_Subtitle :: string
  kx_Status :: string
  kx_EventTicker :: string
  kx_YesBidDollars :: string
  kx_YesAskDollars :: string
  kx_NoBidDollars :: string
  kx_NoAskDollars :: string
  kx_LastPriceDollars :: string
  kx_VolumeFP :: string
  kx_Volume24hFP :: string
  kx_OpenInterestFP :: string
  kx_PreviousPriceDollars :: string
  kx_LiquidityDollars :: string
  kx_YesBid :: int64
  kx_YesAsk :: int64
  kx_NoBid :: int64
  kx_NoAsk :: int64
  kx_LastPrice :: int64
  kx_Volume :: int64
  kx_Volume24h :: int64
  kx_OpenInterest :: int64
  kx_PreviousYesBid :: int64
  kx_PreviousYesAsk :: int64
  kx_PreviousPrice :: int64

definition YesBidCents :: "KalshiMarket \<Rightarrow> int64" where
  "YesBidCents mkt = (let c = DollarsToCents (kx_YesBidDollars mkt) in if 0 < sint c then c else kx_YesBid mkt)"

definition YesAskCents :: "KalshiMarket \<Rightarrow> int64" where
  "YesAskCents mkt = (let c = DollarsToCents (kx_YesAskDollars mkt) in if 0 < sint c then c else kx_YesAsk mkt)"

definition LastPriceCents :: "KalshiMarket \<Rightarrow> int64" where
  "LastPriceCents mkt = (let c = DollarsToCents (kx_LastPriceDollars mkt) in if 0 < sint c then c else kx_LastPrice mkt)"

definition CentsToMicros :: "int64 \<Rightarrow> int64" where
  "CentsToMicros cents = cents * 10000"

text \<open>An order book side: levels of price and quantity; a level of fewer than two numbers is skipped.\<close>

fun best_bid_loop :: "int64 list list \<Rightarrow> int64 \<Rightarrow> int32 \<Rightarrow> int64 \<times> int32" where
  "best_bid_loop [] best totalDepth = (best, totalDepth)"
| "best_bid_loop (level # levels) best totalDepth =
     (if 2 \<le> length level
      then best_bid_loop levels (if sint best < sint (level ! 0) then level ! 0 else best) (totalDepth + ucast (level ! 1))
      else best_bid_loop levels best totalDepth)"

definition BestBid :: "int64 list list \<Rightarrow> int64 \<times> int32" where
  "BestBid levels = (if levels = [] then (0, 0) else best_bid_loop levels 0 0)"

fun best_ask_loop :: "int64 list list \<Rightarrow> int64 \<Rightarrow> int32 \<Rightarrow> int64 \<times> int32" where
  "best_ask_loop [] best totalDepth = (best, totalDepth)"
| "best_ask_loop (level # levels) best totalDepth =
     (if 2 \<le> length level
      then best_ask_loop levels (if sint (level ! 0) < sint best then level ! 0 else best) (totalDepth + ucast (level ! 1))
      else best_ask_loop levels best totalDepth)"

definition BestAsk :: "int64 list list \<Rightarrow> int64 \<times> int32" where
  "BestAsk levels =
     (if levels = [] then (0, 0)
      else let (best, totalDepth) = best_ask_loop levels 101 0 in if best = 101 then (0, 0) else (best, totalDepth))"

text \<open>The path of \<^verbatim>\<open>GetMarkets\<close>.\<close>

definition markets_path :: "string \<Rightarrow> int64 \<Rightarrow> string" where
  "markets_path cursor lmt =
     (let (path, sep) = (if 0 < sint lmt then (''/markets?limit='' @ show_int (sint lmt), CHR ''&'') else (''/markets'', CHR ''?''))
      in if cursor \<noteq> [] then path @ [sep] @ ''cursor='' @ cursor else path)"


section \<open>The feeds\<close>

record MarketMapping =
  mp_KalshiTicker :: string
  mp_InternalID :: string
  mp_DisplayName :: string
  mp_Enabled :: bool

record KalshiFeedConfig =
  kf_Markets :: "MarketMapping list"
  kf_PollIntervalMs :: int64
  kf_APIBaseURL :: string

text \<open>\<^verbatim>\<open>LoadKalshiFeedConfig\<close> after the file was read and parsed.\<close>

definition feed_defaults :: "KalshiFeedConfig \<Rightarrow> KalshiFeedConfig" where
  "feed_defaults cfg = (if sint (kf_PollIntervalMs cfg) \<le> 0 then cfg\<lparr>kf_PollIntervalMs := 1000\<rparr> else cfg)"

definition EnabledMarkets :: "KalshiFeedConfig \<Rightarrow> MarketMapping list" where
  "EnabledMarkets cfg = filter mp_Enabled (kf_Markets cfg)"

datatype feed_error = ReadFeedConfig string | ParseFeedConfig string | NoEnabledMarkets string

definition LoadKalshiFeedConfig ::
  "(string \<Rightarrow> bytes option) \<Rightarrow> (bytes \<Rightarrow> KalshiFeedConfig option) \<Rightarrow> string \<Rightarrow> (feed_error, KalshiFeedConfig) result" where
  "LoadKalshiFeedConfig readFile yaml_Unmarshal path =
     (case readFile path of None \<Rightarrow> Inl (ReadFeedConfig path)
      | Some data \<Rightarrow> (case yaml_Unmarshal data of None \<Rightarrow> Inl (ParseFeedConfig path) | Some cfg \<Rightarrow> Inr (feed_defaults cfg)))"

text \<open>\<^verbatim>\<open>RunKalshiFeed\<close> up to its loop: the markets it polls and the period of its ticker.\<close>

definition RunKalshiFeed ::
  "(string \<Rightarrow> bytes option) \<Rightarrow> (bytes \<Rightarrow> KalshiFeedConfig option) \<Rightarrow> string \<Rightarrow> (feed_error, MarketMapping list \<times> duration) result" where
  "RunKalshiFeed readFile yaml_Unmarshal configPath =
     (case LoadKalshiFeedConfig readFile yaml_Unmarshal configPath of Inl err \<Rightarrow> Inl err
      | Inr cfg \<Rightarrow>
          let markets = EnabledMarkets cfg in
          if markets = [] then Inl (NoEnabledMarkets configPath)
          else Inr (markets, sint (kf_PollIntervalMs cfg * 1000000)))"

text \<open>A feed that starts has a market to poll and a period its ticker accepts, unless the configured one overflows.\<close>

lemma feed_starts_polling:
  assumes "RunKalshiFeed readFile yaml_Unmarshal path = Inr (markets, period)"
    and "\<And>data cfg. yaml_Unmarshal data = Some cfg \<Longrightarrow> sint (kf_PollIntervalMs cfg) < 9000000000000"
  shows "markets \<noteq> []" "0 < period" "\<forall>mp \<in> set markets. mp_Enabled mp"
proof -
  obtain data cfg where cfg: "yaml_Unmarshal data = Some cfg" and ms: "markets = EnabledMarkets (feed_defaults cfg)" "markets \<noteq> []"
    and period: "period = sint (kf_PollIntervalMs (feed_defaults cfg) * 1000000)"
    using assms(1) by (auto simp: RunKalshiFeed_def LoadKalshiFeedConfig_def Let_def split: option.splits if_splits)
  show "markets \<noteq> []" by (rule ms(2))
  show "\<forall>mp \<in> set markets. mp_Enabled mp" by (simp add: ms(1) EnabledMarkets_def)
  have pos: "0 < sint (kf_PollIntervalMs (feed_defaults cfg))" "sint (kf_PollIntervalMs (feed_defaults cfg)) < 9000000000000"
    using assms(2) [OF cfg] by (simp_all add: feed_defaults_def)
  have "sint (kf_PollIntervalMs (feed_defaults cfg) * 1000000) = sint (kf_PollIntervalMs (feed_defaults cfg)) * sint (1000000 :: int64)"
    using pos by (intro sint64_mult) simp_all
  then show "0 < period" using pos(1) by (simp add: period)
qed

record Ingestion =
  ig_latest :: market_map
  ig_out :: outbox

definition NewIngestion :: Ingestion where
  "NewIngestion = \<lparr>ig_latest = Map.empty, ig_out = []\<rparr>"

definition GetLatest :: "Ingestion \<Rightarrow> market_map" where
  "GetLatest ing = ig_latest ing"

definition GetMarketData :: "string \<Rightarrow> string \<Rightarrow> Ingestion \<Rightarrow> MarketData option" where
  "GetMarketData venue marketID ing = ig_latest ing (venue @ '':'' @ marketID)"

text \<open>Storing the data under its key and publishing the event.\<close>

definition store_and_publish :: "faults \<Rightarrow> MarketData \<Rightarrow> Ingestion \<Rightarrow> Ingestion" where
  "store_and_publish flt md ing =
     ing\<lparr>ig_latest := (ig_latest ing)(md_Venue md @ '':'' @ md_MarketID md \<mapsto> md),
         ig_out := publish flt (SubjectMarketData @ ''.'' @ md_Venue md @ ''.'' @ md_MarketID md)
           (EvMarketData \<lparr>mde_Venue = md_Venue md, mde_MarketID = md_MarketID md, mde_BidPriceMicros = md_BidPriceMicros md,
              mde_AskPriceMicros = md_AskPriceMicros md, mde_LastPriceMicros = md_LastPriceMicros md,
              mde_BidDepth = md_BidDepth md, mde_AskDepth = md_AskDepth md, mde_Timestamp = md_UpdatedAt md\<rparr>) (ig_out ing)\<rparr>"

text \<open>The missing sides of a quote, in cents: no data at all is None.\<close>

definition fill_in_sides :: "int64 \<Rightarrow> int64 \<Rightarrow> int64 \<Rightarrow> (int64 \<times> int64) option" where
  "fill_in_sides bidCents askCents lastCents =
     (if bidCents = 0 \<and> askCents = 0 \<and> lastCents = 0 then None
      else
        let bidCents = (if bidCents = 0 \<and> 0 < sint askCents then (if sint (askCents - 1) < 1 then 1 else askCents - 1) else bidCents);
            askCents = (if askCents = 0 \<and> 0 < sint bidCents then (if 99 < sint (bidCents + 1) then 99 else bidCents + 1) else askCents)
        in if bidCents = 0 \<and> askCents = 0 \<and> 0 < sint lastCents
           then Some (lastCents, if 99 < sint (lastCents + 1) then 99 else lastCents + 1)
           else Some (bidCents, askCents))"

definition pollMarket :: "faults \<Rightarrow> (string \<Rightarrow> KalshiMarket option) \<Rightarrow> time \<Rightarrow> MarketMapping \<Rightarrow> Ingestion \<Rightarrow> Ingestion" where
  "pollMarket flt GetMarket now mp ing =
     (case GetMarket (mp_KalshiTicker mp) of None \<Rightarrow> ing
      | Some mkt \<Rightarrow>
          (case fill_in_sides (YesBidCents mkt) (YesAskCents mkt) (LastPriceCents mkt) of None \<Rightarrow> ing
           | Some (bidCents, askCents) \<Rightarrow>
               let bidMicros = CentsToMicros bidCents; askMicros = CentsToMicros askCents; midMicros = go_div (bidMicros + askMicros) 2 in
               store_and_publish flt
                 \<lparr>md_Venue = ''kalshi'', md_MarketID = mp_InternalID mp, md_DisplayName = mp_DisplayName mp,
                  md_BidPriceMicros = bidMicros, md_AskPriceMicros = askMicros, md_LastPriceMicros = midMicros,
                  md_BidDepth = 1, md_AskDepth = 1, md_Volume24h = Fin 0, md_UpdatedAt = now\<rparr> ing))"

text \<open>Each market is polled with its own answer and time; a cancelled context ends the loop early.\<close>

fun pollAllMarkets :: "faults \<Rightarrow> (nat \<Rightarrow> string \<Rightarrow> KalshiMarket option) \<Rightarrow> (nat \<Rightarrow> time) \<Rightarrow> (nat \<Rightarrow> bool) \<Rightarrow> MarketMapping list \<Rightarrow> Ingestion \<Rightarrow> Ingestion" where
  "pollAllMarkets flt api clock cancelled1 [] ing = ing"
| "pollAllMarkets flt api clock cancelled1 (mp # mps) ing =
     (if cancelled1 0 then ing
      else pollAllMarkets flt (\<lambda>n. api (Suc n)) (\<lambda>n. clock (Suc n)) (\<lambda>n. cancelled1 (Suc n)) mps (pollMarket flt (api 0) (clock 0) mp ing))"

definition mock_markets :: "string list" where
  "mock_markets = [''MOCK-BTC-100K'', ''MOCK-ETH-5K'', ''MOCK-FED-RATE-CUT'', ''MOCK-RAIN-NYC-TOMORROW'', ''MOCK-SUPERBOWL-WINNER'']"

text \<open>The draws of one market in one cycle: \<^verbatim>\<open>rng.Intn(20000)\<close>, \<^verbatim>\<open>(30000)\<close>, \<^verbatim>\<open>(10)\<close>, \<^verbatim>\<open>(10)\<close> and \<^verbatim>\<open>(100000)\<close>.\<close>

record mock_draws =
  dr_delta :: int64
  dr_spread :: int64
  dr_bid_depth :: int64
  dr_ask_depth :: int64
  dr_volume :: int64

definition initial_mid :: "int64 \<Rightarrow> int64" where
  "initial_mid draw = draw + 100000"

definition walk_mid :: "int64 \<Rightarrow> int64 \<Rightarrow> int64" where
  "walk_mid mid draw =
     (let mid = mid + (draw - 10000);
          mid = (if sint mid < 20000 then 20000 else mid)
      in if 980000 < sint mid then 980000 else mid)"

definition mock_data :: "string \<Rightarrow> int64 \<Rightarrow> mock_draws \<Rightarrow> time \<Rightarrow> MarketData" where
  "mock_data marketID mid dr now =
     (let spread = dr_spread dr + 10000; bid = mid - go_div spread 2; ask = mid + go_div spread 2 in
      \<lparr>md_Venue = ''mock'', md_MarketID = marketID, md_DisplayName = marketID, md_BidPriceMicros = bid, md_AskPriceMicros = ask,
       md_LastPriceMicros = mid, md_BidDepth = ucast (dr_bid_depth dr) + 1, md_AskDepth = ucast (dr_ask_depth dr) + 1,
       md_Volume24h = f_of_int (sint (dr_volume dr)), md_UpdatedAt = now\<rparr>)"

fun mock_cycle ::
  "faults \<Rightarrow> (nat \<Rightarrow> mock_draws) \<Rightarrow> (nat \<Rightarrow> time) \<Rightarrow> string list \<Rightarrow> (string \<Rightarrow> int64) \<Rightarrow> Ingestion \<Rightarrow> (string \<Rightarrow> int64) \<times> Ingestion" where
  "mock_cycle flt draws clock [] midPrices ing = (midPrices, ing)"
| "mock_cycle flt draws clock (marketID # markets) midPrices ing =
     (let mid = walk_mid (midPrices marketID) (dr_delta (draws 0)) in
      mock_cycle flt (\<lambda>n. draws (Suc n)) (\<lambda>n. clock (Suc n)) markets (midPrices(marketID := mid))
        (store_and_publish flt (mock_data marketID mid (draws 0) (clock 0)) ing))"


section \<open>Every published quote can be traded\<close>

definition draws_ok :: "mock_draws \<Rightarrow> bool" where
  "draws_ok dr \<longleftrightarrow> 0 \<le> sint (dr_delta dr) \<and> sint (dr_delta dr) < 20000 \<and> 0 \<le> sint (dr_spread dr) \<and> sint (dr_spread dr) < 30000"

definition mid_ok :: "int64 \<Rightarrow> bool" where
  "mid_ok mid \<longleftrightarrow> 20000 \<le> sint mid \<and> sint mid \<le> 980000"

text \<open>An answer of the API: prices from 0 to 99 cents, a bid and an ask never crossed.\<close>

definition api_ok :: "KalshiMarket \<Rightarrow> bool" where
  "api_ok mkt \<longleftrightarrow> (\<forall>c \<in> set [YesBidCents mkt, YesAskCents mkt, LastPriceCents mkt]. 0 \<le> sint c \<and> sint c \<le> 99)
     \<and> (0 < sint (YesBidCents mkt) \<and> 0 < sint (YesAskCents mkt) \<longrightarrow> sint (YesBidCents mkt) \<le> sint (YesAskCents mkt))"

lemma initial_mid_ok: "0 \<le> sint draw \<Longrightarrow> sint draw < 800000 \<Longrightarrow> mid_ok (initial_mid draw)"
  by (simp add: mid_ok_def initial_mid_def sint64_add)

lemma walk_mid_ok:
  assumes "mid_ok mid" "0 \<le> sint draw" "sint draw < 20000"
  shows "mid_ok (walk_mid mid draw)" and "\<bar>sint (walk_mid mid draw) - sint mid\<bar> \<le> 10000"
proof -
  have d: "sint (draw - 10000) = sint draw - 10000" using assms(2,3) by (intro sint64_sub [THEN trans]) simp_all
  have m: "sint (mid + (draw - 10000)) = sint mid + (sint draw - 10000)"
    using assms d by (subst sint64_add) (simp_all add: mid_ok_def)
  show "mid_ok (walk_mid mid draw)" "\<bar>sint (walk_mid mid draw) - sint mid\<bar> \<le> 10000"
    using assms m by (auto simp: walk_mid_def mid_ok_def Let_def)
qed

lemma mock_data_tradable:
  assumes "mid_ok mid" "draws_ok dr" "marketID \<noteq> []"
  shows "tradable (mock_data marketID mid dr now)"
proof -
  have s: "sint (dr_spread dr + 10000) = sint (dr_spread dr) + 10000"
    using assms(2) by (subst sint64_add) (simp_all add: draws_ok_def)
  define h where "h = (sint (dr_spread dr) + 10000) div 2"
  have r: "0 \<le> sint (dr_spread dr)" "sint (dr_spread dr) < 30000" using assms(2) by (simp_all add: draws_ok_def)
  then have h: "sint (go_div (dr_spread dr + 10000) 2) = h" using s by (simp add: sint_go_div_nonneg h_def)
  have h2: "5000 \<le> h" "h < 20000" using r unfolding h_def by presburger+
  have "sint (mid - go_div (dr_spread dr + 10000) 2) = sint mid - h" "sint (mid + go_div (dr_spread dr + 10000) 2) = sint mid + h"
    using assms(1) h h2 by (simp_all add: sint64_sub sint64_add mid_ok_def)
  then show ?thesis
    using assms(1,3) h2 by (simp add: tradable_def sane_quote_def mock_data_def Let_def mid_ok_def)
qed

lemma fill_in_sides_ok:
  assumes "fill_in_sides b a l = Some (bid, ask)"
    and "0 \<le> sint b" "sint b \<le> 99" "0 \<le> sint a" "sint a \<le> 99" "0 \<le> sint l" "sint l \<le> 99"
    and "0 < sint b \<and> 0 < sint a \<longrightarrow> sint b \<le> sint a"
  shows "1 \<le> sint bid \<and> sint bid \<le> sint ask \<and> sint ask \<le> 99"
proof -
  have z: "x = 0 \<longleftrightarrow> sint x = 0" for x :: int64 by (simp add: sint_eq_iff [symmetric])
  have inc: "sint (x + 1) = sint x + 1" if "0 \<le> sint x" "sint x \<le> 99" for x :: int64 using that by (simp add: sint64_add)
  have dec: "sint (x - 1) = sint x - 1" if "0 \<le> sint x" for x :: int64
    using that sint64_less [of x] by (subst sint64_sub) (simp_all del: sint64_less)
  show ?thesis
    using assms unfolding fill_in_sides_def z Let_def by (auto simp: inc dec split: if_splits)
qed

lemma cents_micros: "0 \<le> sint c \<Longrightarrow> sint c \<le> 99 \<Longrightarrow> sint (CentsToMicros c) = sint c * 10000"
  unfolding CentsToMicros_def by (subst sint64_mult) simp_all

text \<open>What the ingestion holds and has published is tradable.\<close>

definition event_tradable :: "event \<Rightarrow> bool" where
  "event_tradable ev \<longleftrightarrow> (\<exists>mde. ev = EvMarketData mde \<and> mde_MarketID mde \<noteq> [] \<and> 0 \<le> sint (mde_BidPriceMicros mde)
     \<and> sint (mde_BidPriceMicros mde) \<le> sint (mde_AskPriceMicros mde) \<and> sint (mde_AskPriceMicros mde) < 1000000)"

definition feed_ok :: "Ingestion \<Rightarrow> bool" where
  "feed_ok ing \<longleftrightarrow> (\<forall>k md. ig_latest ing k = Some md \<longrightarrow> tradable md \<and> k = md_Venue md @ '':'' @ md_MarketID md)
     \<and> (\<forall>(subject, ev) \<in> set (ig_out ing). event_tradable ev)"

lemma store_feed_ok: "feed_ok ing \<Longrightarrow> tradable md \<Longrightarrow> feed_ok (store_and_publish flt md ing)"
  by (auto simp: feed_ok_def store_and_publish_def publish_eq event_tradable_def tradable_def sane_quote_def)

lemma mock_cycle_ok:
  assumes "feed_ok ing" "\<forall>m. mid_ok (mids m)" "\<forall>n. draws_ok (draws n)" "[] \<notin> set markets"
  shows "feed_ok (snd (mock_cycle flt draws clock markets mids ing)) \<and> (\<forall>m. mid_ok (fst (mock_cycle flt draws clock markets mids ing) m))"
  using assms
proof (induction markets arbitrary: draws clock mids ing)
  case (Cons m ms)
  let ?mid = "walk_mid (mids m) (dr_delta (draws 0))"
  have "mid_ok ?mid" using Cons.prems(2,3) by (intro walk_mid_ok(1)) (simp_all add: draws_ok_def)
  moreover have "tradable (mock_data m ?mid (draws 0) (clock 0))"
    using Cons.prems(3,4) calculation by (intro mock_data_tradable) auto
  ultimately show ?case
    using Cons.prems by (simp add: Let_def Cons.IH store_feed_ok)
qed simp

lemma poll_feed_ok:
  assumes "feed_ok ing" "mp_InternalID mp \<noteq> []" "\<And>mkt. api (mp_KalshiTicker mp) = Some mkt \<Longrightarrow> api_ok mkt"
  shows "feed_ok (pollMarket flt api now mp ing)"
proof (cases "api (mp_KalshiTicker mp)")
  case (Some mkt)
  show ?thesis
  proof (cases "fill_in_sides (YesBidCents mkt) (YesAskCents mkt) (LastPriceCents mkt)")
    case (Some q)
    obtain bid ask where q: "q = (bid, ask)" by (cases q)
    have "1 \<le> sint bid \<and> sint bid \<le> sint ask \<and> sint ask \<le> 99"
      using assms(3) [OF \<open>api (mp_KalshiTicker mp) = Some mkt\<close>] unfolding api_ok_def
      by (intro fill_in_sides_ok [OF Some [unfolded q]]) simp_all
    then show ?thesis
      using assms(1,2) \<open>api (mp_KalshiTicker mp) = Some mkt\<close> Some q
      by (auto simp: pollMarket_def Let_def tradable_def sane_quote_def cents_micros intro!: store_feed_ok)
  qed (use assms(1) Some in \<open>simp add: pollMarket_def\<close>)
qed (use assms(1) in \<open>simp add: pollMarket_def\<close>)

lemma poll_all_feed_ok:
  assumes "feed_ok ing" "\<forall>mp \<in> set mps. mp_InternalID mp \<noteq> []" "\<forall>n t mkt. api n t = Some mkt \<longrightarrow> api_ok mkt"
  shows "feed_ok (pollAllMarkets flt api clock stop mps ing)"
  using assms
proof (induction mps arbitrary: api clock stop ing)
  case (Cons mp mps)
  have "feed_ok (pollMarket flt (api 0) (clock 0) mp ing)" using Cons.prems by (intro poll_feed_ok) auto
  then show ?case using Cons.prems by (simp add: Cons.IH)
qed simp

text \<open>The runs of a feed: cycles of the synthetic feed, and polls of the API.\<close>

inductive feed_step :: "(string \<Rightarrow> int64) \<times> Ingestion \<Rightarrow> (string \<Rightarrow> int64) \<times> Ingestion \<Rightarrow> bool" where
  fs_mock: "\<forall>n. draws_ok (draws n) \<Longrightarrow> feed_step (mids, ing) (mock_cycle flt draws clock mock_markets mids ing)"
| fs_kalshi: "\<forall>n t mkt. api n t = Some mkt \<longrightarrow> api_ok mkt \<Longrightarrow> \<forall>mp \<in> set (EnabledMarkets cfg). mp_InternalID mp \<noteq> [] \<Longrightarrow>
     feed_step (mids, ing) (mids, pollAllMarkets flt api clock stop (EnabledMarkets cfg) ing)"

inductive_cases feed_stepE: "feed_step st st'"

lemma feed_step_ok:
  assumes "feed_step st st'" "feed_ok (snd st)" "\<forall>m. mid_ok (fst st m)"
  shows "feed_ok (snd st') \<and> (\<forall>m. mid_ok (fst st' m))"
  using assms
proof cases
  case (fs_mock draws mids ing flt clock)
  have "[] \<notin> set mock_markets" by (simp add: mock_markets_def)
  then show ?thesis using fs_mock assms(2,3) mock_cycle_ok [of ing mids draws mock_markets flt clock] by simp
next
  case (fs_kalshi api cfg mids ing flt clock stop)
  then show ?thesis using assms(2,3) poll_all_feed_ok by simp
qed

lemma feed_run_ok:
  assumes "feed_step\<^sup>*\<^sup>* st st'" "feed_ok (snd st)" "\<forall>m. mid_ok (fst st m)"
  shows "feed_ok (snd st') \<and> (\<forall>m. mid_ok (fst st' m))"
  using assms(1)
proof (induction rule: rtranclp_induct)
  case base
  show ?case using assms(2,3) by blast
next
  case (step y z)
  then show ?case using feed_step_ok by blast
qed

text \<open>What the strategy's cache makes of delivered events: any of the published ones, in any order, possibly repeated.\<close>

definition delivered :: "event list \<Rightarrow> market_map" where
  "delivered evs = foldl (\<lambda>cache ev. case ev of EvMarketData mde \<Rightarrow> on_market_event mde cache | _ \<Rightarrow> cache) Map.empty evs"

lemma delivered_tradable:
  assumes "\<forall>ev \<in> set evs. event_tradable ev" "delivered evs k = Some md"
  shows "tradable md"
  using assms
proof (induction evs arbitrary: k rule: rev_induct)
  case (snoc ev evs)
  from snoc.prems obtain mde where ev: "ev = EvMarketData mde" and ok: "event_tradable (EvMarketData mde)" by (auto simp: event_tradable_def)
  show ?case
    using snoc.prems snoc.IH ok unfolding ev
    by (auto simp: delivered_def on_market_event_def cache_update_def event_tradable_def tradable_def sane_quote_def split: if_splits)
qed (simp add: delivered_def)

text \<open>
  The bound on the API's prices is needed: the client's cents run from 0 to 100, and an ask of a
  dollar is stored and published as it is.
\<close>

lemma dollar_ask_not_tradable:
  assumes "api (mp_KalshiTicker mp) = Some mkt" "YesBidCents mkt = 60" "YesAskCents mkt = 100"
  shows "\<exists>md. ig_latest (pollMarket flt api now mp ing) (''kalshi'' @ '':'' @ mp_InternalID mp) = Some md
     \<and> md_AskPriceMicros md = 1000000 \<and> \<not> tradable md"
  using assms by (simp add: pollMarket_def fill_in_sides_def store_and_publish_def CentsToMicros_def tradable_def sane_quote_def Let_def)

text \<open>
  C16: Every quote of the feeds can be traded, as long as the API's prices can. From a fresh ingestion, with the mid prices
  the synthetic feed starts with, run any number of cycles of the synthetic feed and polls of the API, whatever the
  draws, failures and missing or one-sided quotes. Assume that every answer of the API has its prices between 0 and 99
  cents and a bid that is not above the ask (\<open>api_ok\<close>; with an ask of 100 cents the stored quote is not
  tradable, \<open>dollar_ask_not_tradable\<close>) and that the configured markets have an internal id. Then every stored quote has a
  bid of at least zero, an ask of at least the bid and below a dollar, and stands under its own key; every mid of the synthetic
  feed is between 2 and 98 cents; and on any selection of the published
  events, in any order, the momentum strategy proposes only orders that pass validation.
\<close>

theorem feed_quotes_tradable:
  assumes run: "feed_step\<^sup>*\<^sup>* (\<lambda>m. initial_mid (seed m), NewIngestion) (mids, ing)"
    and seed: "\<forall>m. 0 \<le> sint (seed m) \<and> sint (seed m) < 800000"
    and evs: "set evs \<subseteq> snd ` set (ig_out ing)"
    and ids: "strategyID \<noteq> []" "traceID \<noteq> []" and vis: "enumerates (visit (delivered evs)) (delivered evs)"
  shows "(\<forall>k md. ig_latest ing k = Some md \<longrightarrow> tradable md \<and> k = md_Venue md @ '':'' @ md_MarketID md)
    \<and> (\<forall>m. mid_ok (mids m))
    \<and> (\<forall>sig \<in> set (SimpleMomentum visit (delivered evs)). ProposedOrder_Validate (signal_order strategyID venue traceID now sig) = Inr ())"
proof -
  have ok: "feed_ok ing" "\<forall>m. mid_ok (mids m)"
    using feed_run_ok [OF run] seed by (simp_all add: feed_ok_def NewIngestion_def initial_mid_ok)
  have "\<forall>ev \<in> set evs. event_tradable ev" using ok(1) evs by (fastforce simp: feed_ok_def)
  then have tr: "tradable md" if "delivered evs k = Some md" for k md using that by (rule delivered_tradable)
  have "ProposedOrder_Validate (signal_order strategyID venue traceID now sig) = Inr ()"
    if sg: "sig \<in> set (SimpleMomentum visit (delivered evs))" for sig
  proof -
    obtain k md where "delivered evs k = Some md" "sig \<in> set (momentum_signal md)"
      using sg unfolding in_momentum [where visit = visit, OF vis] by blast
    then show ?thesis using tr [of k md] ids unfolding tradable_def by (intro momentum_order_valid) auto
  qed
  then show ?thesis using ok unfolding feed_ok_def by blast
qed

theorem feed_quotes_tradable_witness:
  "\<exists>md. ig_latest (snd (mock_cycle no_faults (\<lambda>_. \<lparr>dr_delta = 10000, dr_spread = 2000, dr_bid_depth = 3, dr_ask_depth = 4, dr_volume = 7\<rparr>)
       (\<lambda>_. 5) mock_markets (\<lambda>m. initial_mid 200000) NewIngestion)) ''mock:MOCK-ETH-5K'' = Some md \<and> tradable md"
proof -
  let ?dr = "\<lambda>_ :: nat. \<lparr>dr_delta = 10000, dr_spread = 2000, dr_bid_depth = 3, dr_ask_depth = 4, dr_volume = 7\<rparr> :: mock_draws"
  let ?st = "mock_cycle no_faults ?dr (\<lambda>_. 5) mock_markets (\<lambda>m. initial_mid 200000) NewIngestion"
  have "feed_step (\<lambda>m. initial_mid 200000, NewIngestion) ?st" by (rule fs_mock) (simp add: draws_ok_def)
  then have run: "feed_step\<^sup>*\<^sup>* (\<lambda>m. initial_mid ((\<lambda>_. 200000) m), NewIngestion) (fst ?st, snd ?st)" by simp
  have "\<forall>m :: string. 0 \<le> sint ((\<lambda>_. 200000 :: int64) m) \<and> sint ((\<lambda>_. 200000 :: int64) m) < 800000" by simp
  note tr = feed_quotes_tradable [where evs = "[]" and visit = "\<lambda>_. []" and strategyID = "''s''" and traceID = "''t''", OF run this, THEN conjunct1]
  have all: "tradable md" if "ig_latest (snd ?st) k = Some md" for k md
    using tr that by (simp add: delivered_def enumerates_def)
  have "ig_latest (snd ?st) ''mock:MOCK-ETH-5K'' \<noteq> None"
    by (simp add: mock_markets_def store_and_publish_def mock_data_def Let_def)
  then show ?thesis using all by blast
qed

text \<open>
  The strategy engine trades on venue \<^verbatim>\<open>mock\<close> whatever the source: the risk engine has the Kalshi quotes
  under \<^verbatim>\<open>kalshi:<id>\<close>, so an order made from one finds no market data and is denied.
\<close>

lemma shadow_mode_denied:
  assumes "st_MarketData (re_state e) (''mock:'' @ sg_MarketID sig) = None"
  shows "a_Decision (decide env wall now (signal_order strategyID ''mock'' traceID t sig) e) \<noteq> DecisionApproved"
proof -
  have "(''data_freshness'', checkDataFreshness) \<in> set allChecks" by (simp add: allChecks_def)
  then have "\<exists>r \<in> set (RunAllChecks wall (signal_order strategyID ''mock'' traceID t sig) (re_state e) (re_policy e)). \<not> c_Passed r"
    using assms by (force simp: RunAllChecks_def checkDataFreshness_def market_key_def signal_order_def)
  then show ?thesis by (auto simp: decide_decision)
qed

end
