(* ===== verification/Market_Scan.thy ===== *)
theory Market_Scan
  imports Market_Feed
begin

text \<open>
  The command line scans of the Kalshi markets: \<^verbatim>\<open>cmd/find-markets\<close>, \<^verbatim>\<open>cmd/find-active\<close> and \<^verbatim>\<open>cmd/debug-kalshi\<close>. Each
  follows the API's cursor from page to page until it has found enough, so the loops end only by their page limits. The
  API's answers are arguments, by page and cursor or ticker; None is a failed request. What a scan prints for a market
  is kept as its fields.
\<close>

section \<open>Following the cursor\<close>

type_synonym markets_api = "nat \<Rightarrow> string \<Rightarrow> (KalshiMarket list \<times> string) option"
type_synonym books_api = "nat \<Rightarrow> string \<Rightarrow> (int64 list list \<times> int64 list list) option"

record 'l scan =
  sc_cursor :: string
  sc_pages :: nat
  sc_checked :: nat
  sc_found :: nat
  sc_prefixes :: "string \<rightharpoonup> nat"
  sc_lines :: "'l list"

definition scan_start :: "'l scan" where
  "scan_start = \<lparr>sc_cursor = [], sc_pages = 0, sc_checked = 0, sc_found = 0, sc_prefixes = Map.empty, sc_lines = []\<rparr>"

text \<open>What a visit of one market does: an optional line, and the statistics.\<close>

definition report_line :: "'l option \<Rightarrow> 'l scan \<Rightarrow> 'l scan" where
  "report_line l s = (case l of None \<Rightarrow> s | Some l \<Rightarrow> s\<lparr>sc_found := Suc (sc_found s), sc_lines := sc_lines s @ [l]\<rparr>)"

definition visit_market :: "(nat \<Rightarrow> KalshiMarket \<Rightarrow> 'l option) \<Rightarrow> (KalshiMarket \<Rightarrow> 'l scan \<Rightarrow> 'l scan) \<Rightarrow> nat \<Rightarrow> KalshiMarket \<Rightarrow> 'l scan \<Rightarrow> 'l scan" where
  "visit_market report stats page mkt s = report_line (report page mkt) (stats mkt s)"

definition visit_page :: "(nat \<Rightarrow> KalshiMarket \<Rightarrow> 'l option) \<Rightarrow> (KalshiMarket \<Rightarrow> 'l scan \<Rightarrow> 'l scan) \<Rightarrow> KalshiMarket list \<Rightarrow> string \<Rightarrow> 'l scan \<Rightarrow> 'l scan" where
  "visit_page report stats mkts next_cursor s =
     (let page = sc_pages s; s = foldl (\<lambda>s mkt. visit_market report stats page mkt s) s mkts
      in s\<lparr>sc_cursor := next_cursor, sc_pages := Suc page\<rparr>)"

function page_loop ::
  "nat \<Rightarrow> nat \<Rightarrow> markets_api \<Rightarrow> (nat \<Rightarrow> KalshiMarket \<Rightarrow> 'l option) \<Rightarrow> (KalshiMarket \<Rightarrow> 'l scan \<Rightarrow> 'l scan) \<Rightarrow> 'l scan \<Rightarrow> 'l scan" where
  "page_loop maxPages enough api report stats s =
     (if sc_pages s < maxPages \<and> sc_found s < enough then
        (case api (sc_pages s) (sc_cursor s) of None \<Rightarrow> s
         | Some (mkts, next_cursor) \<Rightarrow>
             let s = visit_page report stats mkts next_cursor s in
             if next_cursor = [] then s else page_loop maxPages enough api report stats s)
      else s)"
  by pat_completeness auto
termination
  by (relation "measure (\<lambda>(maxPages, enough, api, report, stats, s). maxPages - sc_pages s)") (auto simp: visit_page_def Let_def)

declare page_loop.simps [simp del]

definition has_prefix :: "string \<Rightarrow> string \<Rightarrow> bool" where
  "has_prefix s p \<longleftrightarrow> take (length p) s = p"

definition parlay :: "KalshiMarket \<Rightarrow> bool" where
  "parlay mkt \<longleftrightarrow> has_prefix (kx_Ticker mkt) ''KXMVE'' \<or> has_prefix (kx_Ticker mkt) ''KXMUC''"

definition active :: "KalshiMarket \<Rightarrow> bool" where
  "active mkt \<longleftrightarrow> kx_Status mkt = ''active''"


section \<open>The three scans\<close>

record book_line =
  bl_Title :: string
  bl_Ticker :: string
  bl_Bid :: "int64 \<times> int32"
  bl_Ask :: "int64 \<times> int32"
  bl_YesLevels :: nat
  bl_NoLevels :: nat

definition book_of :: "KalshiMarket \<Rightarrow> int64 list list \<Rightarrow> int64 list list \<Rightarrow> book_line" where
  "book_of mkt yes no = \<lparr>bl_Title = kx_Title mkt, bl_Ticker = kx_Ticker mkt, bl_Bid = BestBid yes, bl_Ask = BestAsk no,
     bl_YesLevels = length yes, bl_NoLevels = length no\<rparr>"

definition market_prefix :: "string \<Rightarrow> string" where
  "market_prefix ticker = takeWhile (\<lambda>c. c \<noteq> CHR ''-'') ticker"

definition find_markets_stats :: "KalshiMarket \<Rightarrow> book_line scan \<Rightarrow> book_line scan" where
  "find_markets_stats mkt s =
     s\<lparr>sc_prefixes := (sc_prefixes s)(market_prefix (kx_Ticker mkt) \<mapsto> Suc (map_get (sc_prefixes s) (market_prefix (kx_Ticker mkt)) 0)),
       sc_checked := (if parlay mkt \<or> \<not> active mkt then sc_checked s else Suc (sc_checked s))\<rparr>"

definition find_markets_report :: "books_api \<Rightarrow> nat \<Rightarrow> KalshiMarket \<Rightarrow> book_line option" where
  "find_markets_report books page mkt =
     (if parlay mkt then None else if \<not> active mkt then None
      else case books page (kx_Ticker mkt) of None \<Rightarrow> None
      | Some (yes, no) \<Rightarrow>
          if 0 < sint (fst (BestBid yes)) \<or> 0 < sint (fst (BestAsk no)) then Some (book_of mkt yes no) else None)"

definition find_markets :: "markets_api \<Rightarrow> books_api \<Rightarrow> book_line scan" where
  "find_markets api books = page_loop 300 15 api (find_markets_report books) find_markets_stats scan_start"

definition find_active_report :: "books_api \<Rightarrow> nat \<Rightarrow> KalshiMarket \<Rightarrow> book_line option" where
  "find_active_report books page mkt =
     (if parlay mkt then None else if \<not> active mkt then None
      else case books page (kx_Ticker mkt) of None \<Rightarrow> None
      | Some (yes, no) \<Rightarrow> if yes \<noteq> [] \<or> no \<noteq> [] then Some (book_of mkt yes no) else None)"

definition find_active :: "markets_api \<Rightarrow> books_api \<Rightarrow> book_line scan" where
  "find_active api books = page_loop 100 10 api (find_active_report books) (\<lambda>_ s. s) scan_start"

record price_line =
  pl_Ticker :: string
  pl_Bid :: int64
  pl_Ask :: int64
  pl_Last :: int64
  pl_OpenInterest :: string
  pl_Volume24h :: string

definition debug_report :: "nat \<Rightarrow> KalshiMarket \<Rightarrow> price_line option" where
  "debug_report page mkt =
     (if \<not> active mkt then None else if parlay mkt then None
      else let yesBid = YesBidCents mkt; yesAsk = YesAskCents mkt; lastP = LastPriceCents mkt in
        if 0 < sint yesBid \<or> 0 < sint yesAsk \<or> 0 < sint lastP
        then Some \<lparr>pl_Ticker = kx_Ticker mkt, pl_Bid = yesBid, pl_Ask = yesAsk, pl_Last = lastP,
               pl_OpenInterest = kx_OpenInterestFP mkt, pl_Volume24h = kx_Volume24hFP mkt\<rparr>
        else None)"

definition debug_kalshi :: "markets_api \<Rightarrow> price_line scan" where
  "debug_kalshi api = page_loop 100 15 api debug_report (\<lambda>_ s. s) scan_start"


section \<open>Every scan ends, and reports what its pages hold\<close>

text \<open>The pages the cursor leads through: the cursor sent for page \<open>n\<close> and the answer.\<close>

fun cursor_at :: "markets_api \<Rightarrow> nat \<Rightarrow> string" where
  "cursor_at api 0 = []"
| "cursor_at api (Suc n) = (case api n (cursor_at api n) of None \<Rightarrow> [] | Some (_, next_cursor) \<Rightarrow> next_cursor)"

definition page_at :: "markets_api \<Rightarrow> nat \<Rightarrow> KalshiMarket list" where
  "page_at api n = (case api n (cursor_at api n) of None \<Rightarrow> [] | Some (mkts, _) \<Rightarrow> mkts)"

definition page_lines :: "(nat \<Rightarrow> KalshiMarket \<Rightarrow> 'l option) \<Rightarrow> markets_api \<Rightarrow> nat \<Rightarrow> 'l list" where
  "page_lines report api n = List.map_filter (report n) (page_at api n)"

definition after_pages :: "(nat \<Rightarrow> KalshiMarket \<Rightarrow> 'l option) \<Rightarrow> markets_api \<Rightarrow> nat \<Rightarrow> 'l scan \<Rightarrow> bool" where
  "after_pages report api n s \<longleftrightarrow> sc_pages s = n \<and> sc_cursor s = cursor_at api n \<and> (\<forall>i < n. api i (cursor_at api i) \<noteq> None)
     \<and> sc_lines s = concat (map (page_lines report api) [0..<n]) \<and> sc_found s = length (sc_lines s)"

definition stats_only :: "(KalshiMarket \<Rightarrow> 'l scan \<Rightarrow> 'l scan) \<Rightarrow> bool" where
  "stats_only stats \<longleftrightarrow> (\<forall>mkt s. sc_cursor (stats mkt s) = sc_cursor s \<and> sc_pages (stats mkt s) = sc_pages s
     \<and> sc_found (stats mkt s) = sc_found s \<and> sc_lines (stats mkt s) = sc_lines s)"

lemma visit_markets_fold:
  assumes "stats_only stats"
  shows "sc_lines (foldl (\<lambda>s mkt. visit_market report stats page mkt s) s mkts) = sc_lines s @ List.map_filter (report page) mkts
    \<and> sc_found (foldl (\<lambda>s mkt. visit_market report stats page mkt s) s mkts) = sc_found s + length (List.map_filter (report page) mkts)"
  using assms
  by (induction mkts arbitrary: s) (simp_all add: visit_market_def report_line_def stats_only_def map_filter_simps split: option.split)

lemma visit_page_after:
  assumes "stats_only stats" "after_pages report api n s" "api n (cursor_at api n) = Some (mkts, next_cursor)"
  shows "after_pages report api (Suc n) (visit_page report stats mkts next_cursor s)"
  using assms visit_markets_fold [OF assms(1), of report n s mkts]
  by (simp add: after_pages_def visit_page_def page_lines_def page_at_def Let_def less_Suc_eq)

lemma page_loop_result:
  assumes "stats_only stats" "after_pages report api n s" "n \<le> maxPages" "0 < n \<longrightarrow> sc_cursor s \<noteq> []"
  shows "\<exists>m \<le> maxPages. after_pages report api m (page_loop maxPages enough api report stats s)
    \<and> (m = maxPages \<or> enough \<le> sc_found (page_loop maxPages enough api report stats s)
       \<or> api m (cursor_at api m) = None \<or> 0 < m \<and> cursor_at api m = [])"
  using assms
proof (induction "maxPages - n" arbitrary: n s)
  case 0
  then have "n = maxPages" "\<not> sc_pages s < maxPages" by (simp_all add: after_pages_def)
  then show ?case using 0 by (subst (1 2) page_loop.simps) auto
next
  case (Suc k)
  have s: "sc_pages s = n" "sc_cursor s = cursor_at api n" using Suc.prems(2) by (simp_all add: after_pages_def)
  show ?case
  proof (cases "n < maxPages \<and> sc_found s < enough")
    case False
    then have "page_loop maxPages enough api report stats s = s" by (subst page_loop.simps) (auto simp: s)
    then show ?thesis using False Suc.prems by auto
  next
    case True
    show ?thesis
    proof (cases "api n (cursor_at api n)")
      case None
      then have "page_loop maxPages enough api report stats s = s" using True by (subst page_loop.simps) (simp add: s)
      then show ?thesis using None Suc.prems by auto
    next
      case (Some answer)
      obtain mkts next_cursor where ans: "answer = (mkts, next_cursor)" by (cases answer)
      define s' where "s' = visit_page report stats mkts next_cursor s"
      have after: "after_pages report api (Suc n) s'" unfolding s'_def using Suc.prems(1,2) Some ans by (intro visit_page_after) simp_all
      have step: "page_loop maxPages enough api report stats s = (if next_cursor = [] then s' else page_loop maxPages enough api report stats s')"
        using True by (subst page_loop.simps) (simp add: s Some ans s'_def Let_def)
      show ?thesis
      proof (cases "next_cursor = []")
        case True
        then have "cursor_at api (Suc n) = []" using Some ans by simp
        then show ?thesis using after True \<open>n < maxPages \<and> sc_found s < enough\<close> unfolding step by (intro exI [of _ "Suc n"]) simp
      next
        case False
        have "sc_cursor s' = next_cursor" by (simp add: s'_def visit_page_def Let_def)
        then show ?thesis
          using Suc.hyps(1) [of "Suc n" s'] Suc.hyps(2) Suc.prems(1) after True False unfolding step by simp
      qed
    qed
  qed
qed

lemma find_markets_stats_only: "stats_only find_markets_stats"
  by (simp add: stats_only_def find_markets_stats_def)

lemma scan_start_after: "after_pages report api 0 scan_start"
  by (simp add: after_pages_def scan_start_def)

lemma scan_ends:
  fixes stats :: "KalshiMarket \<Rightarrow> 'l scan \<Rightarrow> 'l scan"
  assumes "stats_only stats" "s = page_loop maxPages enough api report stats scan_start"
  shows "\<exists>n \<le> maxPages. sc_pages s = n \<and> sc_lines s = concat (map (page_lines report api) [0..<n])
      \<and> (n = maxPages \<or> enough \<le> length (sc_lines s) \<or> api n (cursor_at api n) = None \<or> 0 < n \<and> cursor_at api n = [])"
proof -
  have "\<exists>m \<le> maxPages. after_pages report api m s
    \<and> (m = maxPages \<or> enough \<le> sc_found s \<or> api m (cursor_at api m) = None \<or> 0 < m \<and> cursor_at api m = [])"
    unfolding assms(2) by (rule page_loop_result [OF assms(1) scan_start_after]) simp_all
  then show ?thesis by (auto simp: after_pages_def)
qed

text \<open>
  C36: The market scans end, whatever cursors the API hands out. Each of the three asks for a number of pages within its
  limit (300, 100 and 100) and stops at the limit, when it has found enough, when a request fails, or when the cursor is
  empty; and its lines are exactly those of the markets on the pages it was given, in their order, none missed or repeated.
\<close>

theorem scans_end:
  "(\<exists>n \<le> 300. sc_pages (find_markets api books) = n
      \<and> sc_lines (find_markets api books) = concat (map (page_lines (find_markets_report books) api) [0..<n])
      \<and> (n = 300 \<or> 15 \<le> length (sc_lines (find_markets api books)) \<or> api n (cursor_at api n) = None \<or> 0 < n \<and> cursor_at api n = []))
    \<and> (\<exists>n \<le> 100. sc_pages (find_active api books) = n
      \<and> sc_lines (find_active api books) = concat (map (page_lines (find_active_report books) api) [0..<n])
      \<and> (n = 100 \<or> 10 \<le> length (sc_lines (find_active api books)) \<or> api n (cursor_at api n) = None \<or> 0 < n \<and> cursor_at api n = []))
    \<and> (\<exists>n \<le> 100. sc_pages (debug_kalshi api) = n
      \<and> sc_lines (debug_kalshi api) = concat (map (page_lines debug_report api) [0..<n])
      \<and> (n = 100 \<or> 15 \<le> length (sc_lines (debug_kalshi api)) \<or> api n (cursor_at api n) = None \<or> 0 < n \<and> cursor_at api n = []))"
proof -
  have plain: "stats_only (\<lambda>_ s. s)" by (simp add: stats_only_def)
  show ?thesis
    by (intro conjI scan_ends [OF find_markets_stats_only find_markets_def] scan_ends [OF plain find_active_def] scan_ends [OF plain debug_kalshi_def])
qed

text \<open>A scan of two pages, the second the last: one of three markets is active, quoted and no parlay.\<close>

definition listed :: "string \<Rightarrow> string \<Rightarrow> KalshiMarket" where
  "listed ticker st = \<lparr>kx_Ticker = ticker, kx_Title = [], kx_Subtitle = [], kx_Status = st, kx_EventTicker = [], kx_YesBidDollars = [],
     kx_YesAskDollars = [], kx_NoBidDollars = [], kx_NoAskDollars = [], kx_LastPriceDollars = [], kx_VolumeFP = [], kx_Volume24hFP = [],
     kx_OpenInterestFP = [], kx_PreviousPriceDollars = [], kx_LiquidityDollars = [], kx_YesBid = 40, kx_YesAsk = 42, kx_NoBid = 0, kx_NoAsk = 0,
     kx_LastPrice = 41, kx_Volume = 0, kx_Volume24h = 0, kx_OpenInterest = 0, kx_PreviousYesBid = 0, kx_PreviousYesAsk = 0, kx_PreviousPrice = 0\<rparr>"

definition two_pages :: markets_api where
  "two_pages page cursor =
     (if page = 0 then Some ([listed ''KXMVE-1'' ''active'', listed ''KXBTC'' ''active''], ''next'')
      else if page = 1 \<and> cursor = ''next'' then Some ([listed ''KXOLD'' ''settled''], []) else None)"

theorem scans_end_witness:
  "sc_pages (debug_kalshi two_pages) = 2 \<and> map pl_Ticker (sc_lines (debug_kalshi two_pages)) = [''KXBTC'']"
proof -
  have report: "debug_report page (listed ''KXBTC'' ''active'') \<noteq> None" "debug_report page (listed ''KXMVE-1'' ''active'') = None"
    "debug_report page (listed ''KXOLD'' ''settled'') = None" for page
    by (simp_all add: debug_report_def listed_def active_def parlay_def has_prefix_def YesBidCents_def DollarsToCents_def Let_def)
  then obtain l where l: "debug_report 0 (listed ''KXBTC'' ''active'') = Some l" by blast
  then have ticker: "pl_Ticker l = ''KXBTC''" by (auto simp: debug_report_def listed_def Let_def split: if_splits)
  have c: "cursor_at two_pages 1 = ''next''" "cursor_at two_pages 2 = []" by (simp_all add: two_pages_def numeral_2_eq_2)
  have p: "page_lines debug_report two_pages 0 = [l]" "page_lines debug_report two_pages 1 = []"
    using report l c by (simp_all add: page_lines_def page_at_def two_pages_def map_filter_simps)
  obtain n where n: "sc_pages (debug_kalshi two_pages) = n" "sc_lines (debug_kalshi two_pages) = concat (map (page_lines debug_report two_pages) [0..<n])"
    using scans_end [of two_pages "\<lambda>_ _. None"] by blast
  have "sc_pages (debug_kalshi two_pages) = 2"
    unfolding debug_kalshi_def
    by (subst page_loop.simps, simp add: scan_start_def two_pages_def visit_page_def visit_market_def report_line_def report l Let_def,
        subst page_loop.simps, simp add: two_pages_def visit_page_def visit_market_def report_line_def report Let_def)
  then show ?thesis using n p ticker by (simp add: numeral_2_eq_2)
qed

end
