(* ===== verification/Backtest.thy ===== *)
theory Backtest
  imports Strategy
begin

text \<open>
  Backtesting (\<^verbatim>\<open>services/backtest\<close>): the simulated clock, the fill simulator, the strategy registry,
  loading and grouping of snapshots, the scraper that records them, and the runner. The runner calls the live
  risk checks on its own risk state, which the main result writes out from the trades made so far. Times, fresh ids, the visiting order of maps and the cancellation of the
  context come with each tick as arguments (\<open>tick_env\<close>).
\<close>

section \<open>Clock, fills and registry\<close>

record SimClock =
  sc_now :: time

definition NewSimClock :: "time \<Rightarrow> SimClock" where
  "NewSimClock start = \<lparr>sc_now = start\<rparr>"

definition SimClock_Now :: "SimClock \<Rightarrow> time" where
  "SimClock_Now c = sc_now c"

definition SimClock_Advance :: "duration \<Rightarrow> SimClock \<Rightarrow> SimClock" where
  "SimClock_Advance d c = c\<lparr>sc_now := sc_now c + d\<rparr>"

definition SimClock_Set :: "time \<Rightarrow> SimClock \<Rightarrow> SimClock" where
  "SimClock_Set t c = c\<lparr>sc_now := t\<rparr>"

definition SimulateFill :: "ProposedOrder \<Rightarrow> MarketData option \<Rightarrow> int32 \<times> int64" where
  "SimulateFill order md =
     (case md of None \<Rightarrow> (0, 0)
      | Some md \<Rightarrow>
          if o_Side order = SideBuy then
            if 0 < sint (md_AskPriceMicros md) \<and> sint (md_AskPriceMicros md) \<le> sint (o_PriceMicros order)
            then (o_Quantity order, md_AskPriceMicros md) else (0, 0)
          else if o_Side order = SideSell then
            if 0 < sint (md_BidPriceMicros md) \<and> sint (o_PriceMicros order) \<le> sint (md_BidPriceMicros md)
            then (o_Quantity order, md_BidPriceMicros md) else (0, 0)
          else (0, 0))"

text \<open>A constructor takes the visiting order of the maps the strategy ranges over.\<close>

definition Registry :: "string \<rightharpoonup> ((market_map \<Rightarrow> string list) \<Rightarrow> SignalFunc)" where
  "Registry = [''simple-momentum'' \<mapsto> SimpleMomentum]"

datatype backtest_error = UnknownStrategy string | ContextCancelled

definition GetStrategy :: "string \<Rightarrow> (backtest_error, (market_map \<Rightarrow> string list) \<Rightarrow> SignalFunc) result" where
  "GetStrategy nm = (case Registry nm of None \<Rightarrow> Inl (UnknownStrategy nm) | Some ctor \<Rightarrow> Inr ctor)"


section \<open>Snapshots and ticks\<close>

record Snapshot =
  sn_Venue :: string
  sn_MarketID :: string
  sn_CapturedAt :: time
  sn_BidPriceMicros :: int64
  sn_AskPriceMicros :: int64
  sn_BidDepth :: int64
  sn_AskDepth :: int64
  sn_Volume :: int64

record Tick =
  tk_Timestamp :: time
  tk_Data :: market_map

text \<open>
  The rows of \<^verbatim>\<open>backtest.market_snapshots\<close> in the period. \<open>order_by\<close> is the database's sort by
  \<open>captured_at\<close>, whose order among equal times is open.
\<close>

definition LoadSnapshots :: "(Snapshot list \<Rightarrow> Snapshot list) \<Rightarrow> string \<Rightarrow> time \<Rightarrow> time \<Rightarrow> Snapshot list \<Rightarrow> Snapshot list" where
  "LoadSnapshots order_by venue from_time to_time rows =
     order_by (filter (\<lambda>s. sn_Venue s = venue \<and> from_time \<le> sn_CapturedAt s \<and> sn_CapturedAt s < to_time) rows)"

definition snapshot_data :: "Snapshot \<Rightarrow> MarketData" where
  "snapshot_data s =
     \<lparr>md_Venue = sn_Venue s, md_MarketID = sn_MarketID s, md_DisplayName = [], md_BidPriceMicros = sn_BidPriceMicros s,
      md_AskPriceMicros = sn_AskPriceMicros s, md_LastPriceMicros = 0, md_BidDepth = 0, md_AskDepth = 0,
      md_Volume24h = f_of_int (sint (sn_Volume s)), md_UpdatedAt = sn_CapturedAt s\<rparr>"

definition add_snapshot :: "Snapshot \<Rightarrow> Tick \<Rightarrow> Tick" where
  "add_snapshot s tick = tick\<lparr>tk_Data := (tk_Data tick)(sn_Venue s @ '':'' @ sn_MarketID s \<mapsto> snapshot_data s)\<rparr>"

definition new_tick :: "time \<Rightarrow> Tick" where
  "new_tick t = \<lparr>tk_Timestamp = t, tk_Data = Map.empty\<rparr>"

fun group_loop :: "duration \<Rightarrow> Snapshot list \<Rightarrow> Tick list \<Rightarrow> Tick \<Rightarrow> Tick list \<times> Tick" where
  "group_loop tolerance [] ticks currentTick = (ticks, currentTick)"
| "group_loop tolerance (s # ss) ticks currentTick =
     (if tolerance < time_Sub (sn_CapturedAt s) (tk_Timestamp currentTick)
      then group_loop tolerance ss (ticks @ [currentTick]) (add_snapshot s (new_tick (sn_CapturedAt s)))
      else group_loop tolerance ss ticks (add_snapshot s currentTick))"

text \<open>\<open>sort_slice\<close> is \<^verbatim>\<open>sort.Slice\<close>, which is not stable.\<close>

definition GroupByTimestamp :: "(Snapshot list \<Rightarrow> Snapshot list) \<Rightarrow> Snapshot list \<Rightarrow> duration \<Rightarrow> Tick list" where
  "GroupByTimestamp sort_slice snapshots tolerance =
     (if snapshots = [] then []
      else let sorted_snapshots = sort_slice snapshots;
               (ticks, currentTick) = group_loop tolerance sorted_snapshots [] (new_tick (sn_CapturedAt (hd sorted_snapshots)))
           in ticks @ [currentTick])"


section \<open>The runner\<close>

record Trade =
  tr_MarketID :: string
  tr_Side :: string
  tr_Quantity :: int32
  tr_PriceMicros :: int64
  tr_PnLMicros :: int64

record RunConfig =
  rc_StrategyName :: string
  rc_Venue :: string
  rc_Policy :: Policy
  rc_InitialCapital :: int64
  rc_FillMode :: string
  rc_Ticks :: "Tick list"

definition buildOrder :: "uuid \<Rightarrow> Signal \<Rightarrow> RunConfig \<Rightarrow> time \<Rightarrow> ProposedOrder" where
  "buildOrder traceID sig cfg ts =
     \<lparr>o_TraceID = traceID, o_StrategyID = rc_StrategyName cfg, o_Venue = rc_Venue cfg, o_MarketID = sg_MarketID sig,
      o_Side = sg_Side sig, o_Quantity = sg_Quantity sig, o_PriceMicros = sg_PriceMicros sig,
      o_NotionalMicros = scast (sg_Quantity sig) * sg_PriceMicros sig, o_ProposedAt = ts\<rparr>"

text \<open>The second division guard of the code is implied by its first test.\<close>

definition computePnL :: "string \<Rightarrow> int32 \<Rightarrow> int64 \<Rightarrow> State \<Rightarrow> string \<Rightarrow> string \<Rightarrow> string \<Rightarrow> int64" where
  "computePnL side qty fillPrice st venue marketID strategyID =
     (case st_Markets st (venue @ '':'' @ marketID @ '':'' @ strategyID) of
        None \<Rightarrow> 0
      | Some ms \<Rightarrow>
          let pos = ms_PositionContracts ms in
          if side = SideSell \<and> 0 < sint pos then
            let closeQty = (if sint pos < sint qty then pos else qty);
                avgEntry = go_div (ms_PositionNotional ms) (scast pos)
            in scast closeQty * (fillPrice - avgEntry)
          else if side = SideBuy \<and> sint pos < 0 then
            let closeQty = (if sint (- pos) < sint qty then - pos else qty);
                avgEntry = go_div (ms_PositionNotional ms) (scast (- pos))
            in scast closeQty * (avgEntry - fillPrice)
          else 0)"

definition backtest_key :: "ProposedOrder \<Rightarrow> string" where
  "backtest_key order =
     o_StrategyID order @ '':'' @ o_MarketID order @ '':'' @ o_Side order @ '':'' @ show_int (sint (o_Quantity order))
     @ '':'' @ show_int (sint (o_PriceMicros order))"

definition updateState :: "ProposedOrder \<Rightarrow> int32 \<Rightarrow> int64 \<Rightarrow> State \<Rightarrow> State" where
  "updateState order filledQty fillPrice st =
     (let key = o_Venue order @ '':'' @ o_MarketID order @ '':'' @ o_StrategyID order;
          ms = map_get (st_Markets st) key \<lparr>ms_PositionContracts = 0, ms_PositionNotional = 0, ms_StrategyID = o_StrategyID order\<rparr>;
          fillNotional = scast filledQty * fillPrice;
          ms = (if o_Side order = SideBuy
                then ms\<lparr>ms_PositionContracts := ms_PositionContracts ms + filledQty, ms_PositionNotional := ms_PositionNotional ms + fillNotional\<rparr>
                else ms\<lparr>ms_PositionContracts := ms_PositionContracts ms - filledQty, ms_PositionNotional := ms_PositionNotional ms - fillNotional\<rparr>)
      in st\<lparr>st_Markets := (st_Markets st)(key \<mapsto> ms),
            st_TotalExposure := Money_Abs (ms_PositionNotional ms),
            st_RecentOrderTimes := (st_RecentOrderTimes st)(o_StrategyID order \<mapsto>
              map_get (st_RecentOrderTimes st) (o_StrategyID order) [] @ [o_ProposedAt order]),
            st_RecentNotionals := (st_RecentNotionals st)(o_StrategyID order \<mapsto>
              map_get (st_RecentNotionals st) (o_StrategyID order) [] @ [o_NotionalMicros order]),
            st_RecentOrderKeys := (st_RecentOrderKeys st)(backtest_key order \<mapsto> o_ProposedAt order)\<rparr>)"

text \<open>The loop's variables: the risk state, the trades so far, the equity curve and the equity.\<close>

record backtest =
  bt_state :: State
  bt_trades :: "Trade list"
  bt_curve :: "int64 list"
  bt_equity :: int64

definition bt_start :: "time \<Rightarrow> RunConfig \<Rightarrow> backtest" where
  "bt_start now cfg =
     \<lparr>bt_state = NewEmptyState\<lparr>st_NowFunc := Some (SimClock_Now (NewSimClock now)), st_CurrentEquity := rc_InitialCapital cfg,
        st_PeakEquity := rc_InitialCapital cfg\<rparr>,
      bt_trades = [], bt_curve = [rc_InitialCapital cfg], bt_equity = rc_InitialCapital cfg\<rparr>"

definition book_trade :: "ProposedOrder \<Rightarrow> int32 \<Rightarrow> int64 \<Rightarrow> int64 \<Rightarrow> backtest \<Rightarrow> backtest" where
  "book_trade order filledQty fillPrice pnl r =
     (let st = updateState order filledQty fillPrice (bt_state r); equity = bt_equity r + pnl in
      \<lparr>bt_state = st\<lparr>st_DailyPnL := st_DailyPnL st + pnl, st_CurrentEquity := equity,
         st_PeakEquity := (if sint (st_PeakEquity st) < sint equity then equity else st_PeakEquity st)\<rparr>,
       bt_trades = bt_trades r @ [\<lparr>tr_MarketID = o_MarketID order, tr_Side = o_Side order, tr_Quantity = filledQty,
         tr_PriceMicros = fillPrice, tr_PnLMicros = pnl\<rparr>],
       bt_curve = bt_curve r @ [equity], bt_equity = equity\<rparr>)"

definition simulate_signal :: "RunConfig \<Rightarrow> time \<Rightarrow> uuid \<Rightarrow> Tick \<Rightarrow> Signal \<Rightarrow> backtest \<Rightarrow> backtest" where
  "simulate_signal cfg wall traceID tick sig r =
     (let order = buildOrder traceID sig cfg (tk_Timestamp tick) in
      if \<not> list_all c_Passed (RunAllChecks wall order (bt_state r) (rc_Policy cfg)) then r
      else let (filledQty, fillPrice) = SimulateFill order (tk_Data tick (o_Venue order @ '':'' @ o_MarketID order)) in
        if filledQty = 0 then r
        else book_trade order filledQty fillPrice
          (computePnL (o_Side order) filledQty fillPrice (bt_state r) (o_Venue order) (o_MarketID order) (rc_StrategyName cfg)) r)"

fun simulate_signals :: "RunConfig \<Rightarrow> time \<Rightarrow> (nat \<Rightarrow> uuid) \<Rightarrow> Tick \<Rightarrow> Signal list \<Rightarrow> backtest \<Rightarrow> backtest" where
  "simulate_signals cfg wall ids tick [] r = r"
| "simulate_signals cfg wall ids tick (sig # sigs) r =
     simulate_signals cfg wall (\<lambda>n. ids (Suc n)) tick sigs (simulate_signal cfg wall (ids 0) tick sig r)"

text \<open>The new quotes, under the key of their own venue and market.\<close>

fun load_quotes :: "market_map \<Rightarrow> string list \<Rightarrow> market_map \<Rightarrow> market_map" where
  "load_quotes data [] cache = cache"
| "load_quotes data (k # ks) cache =
     load_quotes data ks (case data k of None \<Rightarrow> cache | Some md \<Rightarrow> cache(md_Venue md @ '':'' @ md_MarketID md \<mapsto> md))"

record tick_env =
  te_cancelled :: bool
  te_wall :: time
  te_quotes :: "market_map \<Rightarrow> string list"
  te_signals :: "market_map \<Rightarrow> string list"
  te_ids :: "nat \<Rightarrow> uuid"

definition begin_tick :: "tick_env \<Rightarrow> Tick \<Rightarrow> backtest \<Rightarrow> backtest" where
  "begin_tick te tick r =
     r\<lparr>bt_state := (bt_state r)\<lparr>st_NowFunc := Some (SimClock_Now (SimClock_Set (tk_Timestamp tick) (NewSimClock 0))),
         st_MarketData := load_quotes (tk_Data tick) (te_quotes te (tk_Data tick)) (st_MarketData (bt_state r))\<rparr>\<rparr>"

fun run_ticks ::
  "((market_map \<Rightarrow> string list) \<Rightarrow> SignalFunc) \<Rightarrow> RunConfig \<Rightarrow> (nat \<Rightarrow> tick_env) \<Rightarrow> Tick list \<Rightarrow> backtest \<Rightarrow> (backtest_error, backtest) result" where
  "run_ticks signalFn cfg te [] r = Inr r"
| "run_ticks signalFn cfg te (tick # ticks) r =
     (if te_cancelled (te 0) then Inl ContextCancelled
      else run_ticks signalFn cfg (\<lambda>n. te (Suc n)) ticks
        (simulate_signals cfg (te_wall (te 0)) (te_ids (te 0)) tick (signalFn (te_signals (te 0)) (tk_Data tick)) (begin_tick (te 0) tick r)))"

definition backtest_loop :: "time \<Rightarrow> (nat \<Rightarrow> tick_env) \<Rightarrow> RunConfig \<Rightarrow> (backtest_error, backtest) result" where
  "backtest_loop now te cfg =
     (case GetStrategy (rc_StrategyName cfg) of Inl err \<Rightarrow> Inl err
      | Inr signalFn \<Rightarrow> run_ticks signalFn cfg te (rc_Ticks cfg) (bt_start now cfg))"


section \<open>What holds after every run\<close>

definition keyed_tick :: "Tick \<Rightarrow> bool" where
  "keyed_tick tick \<longleftrightarrow> (\<forall>k md. tk_Data tick k = Some md \<longrightarrow> k = md_Venue md @ '':'' @ md_MarketID md)"

definition env_ok :: "tick_env \<Rightarrow> Tick \<Rightarrow> bool" where
  "env_ok te tick \<longleftrightarrow> enumerates (te_quotes te (tk_Data tick)) (tk_Data tick) \<and> enumerates (te_signals te (tk_Data tick)) (tk_Data tick)"

text \<open>Under the keys of their own markets, the quotes known after some ticks are the latest of each market.\<close>

definition quotes_upto :: "Tick list \<Rightarrow> nat \<Rightarrow> market_map" where
  "quotes_upto ticks k = foldl (++) Map.empty (map tk_Data (take k ticks))"

lemma quotes_upto_0 [simp]: "quotes_upto ticks 0 = Map.empty"
  by (simp add: quotes_upto_def)

lemma quotes_upto_Suc: "k < length ticks \<Longrightarrow> quotes_upto ticks (Suc k) = quotes_upto ticks k ++ tk_Data (ticks ! k)"
  by (simp add: quotes_upto_def take_Suc_conv_app_nth)

lemma load_quotes_eq:
  assumes "\<forall>j md. data j = Some md \<longrightarrow> j = md_Venue md @ '':'' @ md_MarketID md"
  shows "load_quotes data ks cache = cache ++ (data |` set ks)"
  using assms
proof (induction ks arbitrary: cache)
  case (Cons j ks)
  show ?case
  proof (cases "data j")
    case None
    then have "data |` insert j (set ks) = data |` set ks" by (auto simp: restrict_map_def fun_eq_iff)
    then show ?thesis using Cons None by simp
  next
    case (Some md)
    then have j: "md_Venue md @ '':'' @ md_MarketID md = j" using Cons.prems by metis
    have "cache(j \<mapsto> md) ++ (data |` set ks) = cache ++ (data |` insert j (set ks))"
      using Some by (auto simp: fun_eq_iff map_add_def restrict_map_def split: option.split)
    then show ?thesis using Cons Some j by simp
  qed
qed simp

lemma begin_tick_state:
  assumes "keyed_tick tick" "env_ok te tick"
  shows "bt_state (begin_tick te tick r) = (bt_state r)\<lparr>st_NowFunc := Some (tk_Timestamp tick), st_MarketData := st_MarketData (bt_state r) ++ tk_Data tick\<rparr>"
proof -
  have "tk_Data tick |` set (te_quotes te (tk_Data tick)) = tk_Data tick"
    using assms(2) by (auto simp: env_ok_def enumerates_def restrict_map_def fun_eq_iff domIff)
  then have "load_quotes (tk_Data tick) (te_quotes te (tk_Data tick)) cache = cache ++ tk_Data tick" for cache
    using load_quotes_eq [OF assms(1) [unfolded keyed_tick_def]] by simp
  then show ?thesis by (simp add: begin_tick_def SimClock_Now_def SimClock_Set_def NewSimClock_def)
qed

text \<open>The one way a signal changes the run.\<close>

definition trade_conditions :: "RunConfig \<Rightarrow> time \<Rightarrow> uuid \<Rightarrow> Tick \<Rightarrow> Signal \<Rightarrow> State \<Rightarrow> ProposedOrder \<Rightarrow> int64 \<Rightarrow> bool" where
  "trade_conditions cfg wall traceID tick sig st order fillPrice \<longleftrightarrow>
     order = buildOrder traceID sig cfg (tk_Timestamp tick) \<and> list_all c_Passed (RunAllChecks wall order st (rc_Policy cfg))
     \<and> (\<exists>md. tk_Data tick (rc_Venue cfg @ '':'' @ sg_MarketID sig) = Some md
          \<and> (sg_Side sig = SideBuy \<and> fillPrice = md_AskPriceMicros md \<and> 0 < sint fillPrice \<and> sint fillPrice \<le> sint (sg_PriceMicros sig)
           \<or> sg_Side sig = SideSell \<and> fillPrice = md_BidPriceMicros md \<and> 0 < sint fillPrice \<and> sint (sg_PriceMicros sig) \<le> sint fillPrice))"

lemma simulate_signal_cases:
  obtains (skipped) "simulate_signal cfg wall traceID tick sig r = r"
  | (traded) order fillPrice where "trade_conditions cfg wall traceID tick sig (bt_state r) order fillPrice"
      "simulate_signal cfg wall traceID tick sig r = book_trade order (sg_Quantity sig) fillPrice
         (computePnL (sg_Side sig) (sg_Quantity sig) fillPrice (bt_state r) (rc_Venue cfg) (sg_MarketID sig) (rc_StrategyName cfg)) r"
proof -
  define order where "order = buildOrder traceID sig cfg (tk_Timestamp tick)"
  have o: "o_Side order = sg_Side sig" "o_Quantity order = sg_Quantity sig" "o_PriceMicros order = sg_PriceMicros sig"
    "o_Venue order = rc_Venue cfg" "o_MarketID order = sg_MarketID sig" by (simp_all add: order_def buildOrder_def)
  show ?thesis
  proof (cases "list_all c_Passed (RunAllChecks wall order (bt_state r) (rc_Policy cfg)) \<and> fst (SimulateFill order (tk_Data tick (o_Venue order @ '':'' @ o_MarketID order))) \<noteq> 0")
    case False
    then have "simulate_signal cfg wall traceID tick sig r = r"
      unfolding simulate_signal_def order_def [symmetric] Let_def by (auto split: prod.split)
    then show ?thesis by (rule skipped)
  next
    case True
    define f where "f = SimulateFill order (tk_Data tick (o_Venue order @ '':'' @ o_MarketID order))"
    have filled: "fst f \<noteq> 0" using True by (simp add: f_def)
    then obtain md where md: "tk_Data tick (rc_Venue cfg @ '':'' @ sg_MarketID sig) = Some md"
      unfolding f_def o by (auto simp: SimulateFill_def split: option.splits)
    have "SideBuy \<noteq> SideSell" by simp
    then have f: "fst f = sg_Quantity sig" and "sg_Side sig = SideBuy \<and> snd f = md_AskPriceMicros md \<and> 0 < sint (snd f) \<and> sint (snd f) \<le> sint (sg_PriceMicros sig)
           \<or> sg_Side sig = SideSell \<and> snd f = md_BidPriceMicros md \<and> 0 < sint (snd f) \<and> sint (sg_PriceMicros sig) \<le> sint (snd f)"
      using filled unfolding f_def o md by (auto simp: SimulateFill_def o split: if_splits)
    then have "trade_conditions cfg wall traceID tick sig (bt_state r) order (snd f)"
      unfolding trade_conditions_def order_def [symmetric] using True md by simp
    moreover have "simulate_signal cfg wall traceID tick sig r = book_trade order (sg_Quantity sig) (snd f)
         (computePnL (sg_Side sig) (sg_Quantity sig) (snd f) (bt_state r) (rc_Venue cfg) (sg_MarketID sig) (rc_StrategyName cfg)) r"
      using True filled f unfolding simulate_signal_def order_def [symmetric] Let_def f_def [symmetric] by (simp add: o split_beta)
    ultimately show ?thesis by (rule traded)
  qed
qed

text \<open>An invariant of the loop: \<open>P k\<close> of the run in which \<open>k\<close> ticks have begun.\<close>

lemma simulate_signals_invariant:
  assumes "P r" "set sigs \<subseteq> S"
    and trade: "\<And>traceID sig order fillPrice r. sig \<in> S \<Longrightarrow> P r \<Longrightarrow> trade_conditions cfg wall traceID tick sig (bt_state r) order fillPrice
        \<Longrightarrow> P (book_trade order (sg_Quantity sig) fillPrice
              (computePnL (sg_Side sig) (sg_Quantity sig) fillPrice (bt_state r) (rc_Venue cfg) (sg_MarketID sig) (rc_StrategyName cfg)) r)"
  shows "P (simulate_signals cfg wall ids tick sigs r)"
  using assms(1,2)
proof (induction sigs arbitrary: ids r)
  case (Cons sig sigs)
  have "P (simulate_signal cfg wall (ids 0) tick sig r)"
    using Cons.prems trade by (cases rule: simulate_signal_cases [of cfg wall "ids 0" tick sig r]) simp_all
  then show ?case using Cons.IH Cons.prems by simp
qed simp

lemma run_ticks_invariant:
  assumes "run_ticks signalFn cfg te ticks r = Inr r'" "P 0 r"
    and begin_inv: "\<And>n r. n < length ticks \<Longrightarrow> P n r \<Longrightarrow> P (Suc n) (begin_tick (te n) (ticks ! n) r)"
    and trade_inv: "\<And>n wall traceID sig order fillPrice r. n < length ticks
        \<Longrightarrow> sig \<in> set (signalFn (te_signals (te n)) (tk_Data (ticks ! n))) \<Longrightarrow> P (Suc n) r
        \<Longrightarrow> trade_conditions cfg wall traceID (ticks ! n) sig (bt_state r) order fillPrice
        \<Longrightarrow> P (Suc n) (book_trade order (sg_Quantity sig) fillPrice
              (computePnL (sg_Side sig) (sg_Quantity sig) fillPrice (bt_state r) (rc_Venue cfg) (sg_MarketID sig) (rc_StrategyName cfg)) r)"
  shows "P (length ticks) r'"
  using assms
proof (induction ticks arbitrary: te r P)
  case (Cons tick ticks)
  let ?sigs = "signalFn (te_signals (te 0)) (tk_Data tick)"
  let ?r = "simulate_signals cfg (te_wall (te 0)) (te_ids (te 0)) tick ?sigs (begin_tick (te 0) tick r)"
  have go: "run_ticks signalFn cfg (\<lambda>n. te (Suc n)) ticks ?r = Inr r'"
    using Cons.prems(1) by (simp split: if_splits)
  have begun: "P (Suc 0) (begin_tick (te 0) tick r)" using Cons.prems(3) [of 0 r] Cons.prems(2) by simp
  have "P (Suc 0) ?r"
    using Cons.prems(4) [of 0] by (intro simulate_signals_invariant [where S = "set ?sigs" and P = "P (Suc 0)", OF begun]) simp_all
  from Cons.IH [where P = "\<lambda>n. P (Suc n)", OF go this] show ?case
    using Cons.prems(3) [of "Suc _"] Cons.prems(4) [of "Suc _"] by simp
qed simp


subsection \<open>Accounting\<close>

definition total_pnl :: "Trade list \<Rightarrow> int64" where
  "total_pnl trades = (\<Sum>t\<leftarrow>trades. tr_PnLMicros t)"

definition signed_quantity :: "Trade \<Rightarrow> int32" where
  "signed_quantity t = (if tr_Side t = SideBuy then tr_Quantity t else - tr_Quantity t)"

definition signed_notional :: "Trade \<Rightarrow> int64" where
  "signed_notional t = (let n = scast (tr_Quantity t) * tr_PriceMicros t in if tr_Side t = SideBuy then n else - n)"

definition in_market :: "string \<Rightarrow> Trade list \<Rightarrow> Trade list" where
  "in_market m trades = filter (\<lambda>t. tr_MarketID t = m) trades"

definition position_of :: "RunConfig \<Rightarrow> State \<Rightarrow> string \<Rightarrow> int32 \<times> int64" where
  "position_of cfg st m =
     (case st_Markets st (rc_Venue cfg @ '':'' @ m @ '':'' @ rc_StrategyName cfg) of None \<Rightarrow> (0, 0)
      | Some ms \<Rightarrow> (ms_PositionContracts ms, ms_PositionNotional ms))"

definition equity_after :: "RunConfig \<Rightarrow> Trade list \<Rightarrow> nat \<Rightarrow> int64" where
  "equity_after cfg trades n = rc_InitialCapital cfg + total_pnl (take n trades)"

definition books :: "RunConfig \<Rightarrow> backtest \<Rightarrow> bool" where
  "books cfg r \<longleftrightarrow>
     bt_equity r = rc_InitialCapital cfg + total_pnl (bt_trades r)
     \<and> bt_curve r = map (equity_after cfg (bt_trades r)) [0..<Suc (length (bt_trades r))]
     \<and> st_DailyPnL (bt_state r) = total_pnl (bt_trades r) \<and> st_CurrentEquity (bt_state r) = bt_equity r
     \<and> st_PeakEquity (bt_state r) \<in> set (bt_curve r) \<and> (\<forall>e \<in> set (bt_curve r). sint e \<le> sint (st_PeakEquity (bt_state r)))
     \<and> (\<forall>m. position_of cfg (bt_state r) m
          = ((\<Sum>t\<leftarrow>in_market m (bt_trades r). signed_quantity t), (\<Sum>t\<leftarrow>in_market m (bt_trades r). signed_notional t)))"

lemma total_pnl_snoc [simp]: "total_pnl (ts @ [t]) = total_pnl ts + tr_PnLMicros t"
  by (simp add: total_pnl_def)

lemma curve_snoc:
  "map (equity_after cfg (ts @ [t])) [0..<Suc (length (ts @ [t]))]
     = map (equity_after cfg ts) [0..<Suc (length ts)] @ [rc_InitialCapital cfg + (total_pnl ts + tr_PnLMicros t)]"
  by (simp add: equity_after_def)

lemma position_update:
  assumes "o_Venue ord = rc_Venue cfg" "o_StrategyID ord = rc_StrategyName cfg"
  shows "position_of cfg (updateState ord q fp st) m =
     (let (c, n) = position_of cfg st m in
      if m \<noteq> o_MarketID ord then (c, n)
      else if o_Side ord = SideBuy then (c + q, n + scast q * fp) else (c - q, n - scast q * fp))"
  using assms
  by (cases "st_Markets st (rc_Venue cfg @ '':'' @ m @ '':'' @ rc_StrategyName cfg)")
     (auto simp: position_of_def updateState_def Let_def map_get_def)

lemma book_trade_books:
  assumes "books cfg r" "o_Venue ord = rc_Venue cfg" "o_StrategyID ord = rc_StrategyName cfg"
  shows "books cfg (book_trade ord q fp pnl r)"
proof -
  define r' where "r' = book_trade ord q fp pnl r"
  define t where "t = \<lparr>tr_MarketID = o_MarketID ord, tr_Side = o_Side ord, tr_Quantity = q, tr_PriceMicros = fp, tr_PnLMicros = pnl\<rparr>"
  define e where "e = bt_equity r + pnl"
  have r': "bt_equity r' = e" "bt_trades r' = bt_trades r @ [t]" "bt_curve r' = bt_curve r @ [e]"
    "st_DailyPnL (bt_state r') = st_DailyPnL (bt_state r) + pnl" "st_CurrentEquity (bt_state r') = e"
    "st_PeakEquity (bt_state r') = (if sint (st_PeakEquity (bt_state r)) < sint e then e else st_PeakEquity (bt_state r))"
    by (simp_all add: r'_def t_def e_def book_trade_def updateState_def Let_def)
  have pos: "position_of cfg (bt_state r') m = position_of cfg (updateState ord q fp (bt_state r)) m" for m
    by (simp add: r'_def book_trade_def position_of_def Let_def)
  have t: "tr_MarketID t = o_MarketID ord" "signed_quantity t = (if o_Side ord = SideBuy then q else - q)"
    "signed_notional t = (if o_Side ord = SideBuy then scast q * fp else - (scast q * fp))"
    by (simp_all add: t_def signed_quantity_def signed_notional_def)
  note b = assms(1) [unfolded books_def]
  have e: "e = rc_InitialCapital cfg + (total_pnl (bt_trades r) + pnl)" using b by (simp add: e_def)
  have tp: "tr_PnLMicros t = pnl" by (simp add: t_def)
  have "position_of cfg (bt_state r') m
      = ((\<Sum>t\<leftarrow>in_market m (bt_trades r'). signed_quantity t), (\<Sum>t\<leftarrow>in_market m (bt_trades r'). signed_notional t))" for m
    using b unfolding pos position_update [OF assms(2,3)] by (simp add: r' in_market_def t)
  moreover have "bt_curve r' = map (equity_after cfg (bt_trades r')) [0..<Suc (length (bt_trades r'))]"
    unfolding r' curve_snoc tp e using b by simp
  moreover have "st_PeakEquity (bt_state r') \<in> set (bt_curve r') \<and> (\<forall>x \<in> set (bt_curve r'). sint x \<le> sint (st_PeakEquity (bt_state r')))"
    using b unfolding r' by fastforce
  moreover have "bt_equity r' = rc_InitialCapital cfg + total_pnl (bt_trades r')" "st_DailyPnL (bt_state r') = total_pnl (bt_trades r')"
    using b by (simp_all add: r' e tp)
  ultimately show ?thesis unfolding r'_def [symmetric] books_def by (simp add: r')
qed

lemma books_start: "books cfg (bt_start now cfg)"
  by (simp add: books_def bt_start_def total_pnl_def equity_after_def position_of_def in_market_def NewEmptyState_def)

lemma begin_tick_books: "books cfg (begin_tick te tick r) = books cfg r"
proof -
  have "position_of cfg (bt_state (begin_tick te tick r)) = position_of cfg (bt_state r)" by (simp add: begin_tick_def position_of_def fun_eq_iff)
  then show ?thesis unfolding books_def by (simp add: begin_tick_def)
qed


subsection \<open>What a trade went through\<close>

text \<open>With a simulated clock the checks read neither the wall clock nor the trace id.\<close>

lemmas check_defs = checkSystemMode_def checkStrategyNotHalted_def checkVenueNotHalted_def checkMarketAllowed_def
  checkDataFreshness_def checkPriceSanity_def checkSpread_def checkPerTradeSize_def checkPerTradeNotional_def
  checkPositionLimit_def checkConcentration_def checkStrategyDailyLoss_def checkStrategyOrderFrequency_def
  checkStrategyConsecutiveLosses_def checkVenueExposure_def checkGlobalExposure_def checkGlobalDailyLoss_def
  checkGlobalDrawdown_def checkDuplicateOrder_def checkFatFinger_def

lemma checks_simulated:
  assumes "st_NowFunc st = Some t"
  shows "RunAllChecks wall (buildOrder traceID sig cfg ts) st pol = RunAllChecks wall' (buildOrder traceID' sig cfg ts) st pol"
proof -
  have now: "State_Now w st = t" for w using assms by (simp add: State_Now_def)
  have keys: "market_key (buildOrder traceID sig cfg ts) = market_key (buildOrder traceID' sig cfg ts)"
    "current_notional (buildOrder traceID sig cfg ts) st = current_notional (buildOrder traceID' sig cfg ts) st"
    "concentration_pct (buildOrder traceID sig cfg ts) st = concentration_pct (buildOrder traceID' sig cfg ts) st"
    "IdempotencyKey (buildOrder traceID sig cfg ts) = IdempotencyKey (buildOrder traceID' sig cfg ts)"
    by (simp_all add: market_key_def current_notional_def position_key_def concentration_pct_def IdempotencyKey_def buildOrder_def)
  have same: "f wall (buildOrder traceID sig cfg ts) st pol = f wall' (buildOrder traceID' sig cfg ts) st pol" if "(nm, f) \<in> set allChecks" for nm f
  proof -
    have fields: "o_StrategyID (buildOrder traceID sig cfg ts) = o_StrategyID (buildOrder traceID' sig cfg ts)"
      "o_Venue (buildOrder traceID sig cfg ts) = o_Venue (buildOrder traceID' sig cfg ts)"
      "o_MarketID (buildOrder traceID sig cfg ts) = o_MarketID (buildOrder traceID' sig cfg ts)"
      "o_Quantity (buildOrder traceID sig cfg ts) = o_Quantity (buildOrder traceID' sig cfg ts)"
      "o_PriceMicros (buildOrder traceID sig cfg ts) = o_PriceMicros (buildOrder traceID' sig cfg ts)"
      "o_NotionalMicros (buildOrder traceID sig cfg ts) = o_NotionalMicros (buildOrder traceID' sig cfg ts)"
      by (simp_all add: buildOrder_def)
    show ?thesis
      using that unfolding allChecks_def set_simps insert_iff empty_iff prod.inject
      by (elim disjE conjE) (simp_all only: check_defs now keys fields)
  qed
  have "(case x of (nm, f) \<Rightarrow> (f wall (buildOrder traceID sig cfg ts) st pol)\<lparr>c_Name := nm\<rparr>)
      = (case x of (nm, f) \<Rightarrow> (f wall' (buildOrder traceID' sig cfg ts) st pol)\<lparr>c_Name := nm\<rparr>)" if "x \<in> set allChecks" for x
  proof (cases x)
    case (Pair nm f)
    then show ?thesis using same [of nm f] that by simp
  qed
  then show ?thesis unfolding RunAllChecks_def by (intro map_cong refl)
qed

lemma run_ticks_books:
  assumes "run_ticks signalFn cfg te ticks (bt_start now cfg) = Inr r"
  shows "books cfg r"
  using assms
proof (rule run_ticks_invariant [where P = "\<lambda>_. books cfg"])
  show "books cfg (book_trade order (sg_Quantity sig) fillPrice (computePnL (sg_Side sig) (sg_Quantity sig) fillPrice (bt_state r) (rc_Venue cfg) (sg_MarketID sig) (rc_StrategyName cfg)) r)"
    if "books cfg r" "trade_conditions cfg wall traceID (ticks ! n) sig (bt_state r) order fillPrice" for n wall traceID sig order fillPrice r
    using that by (intro book_trade_books) (simp_all add: trade_conditions_def buildOrder_def)
qed (simp_all add: books_start begin_tick_books)

text \<open>
  The risk state a backtest has after the orders \<open>orders\<close> were filled as the trades \<open>trades\<close>, written out from those
  lists alone: per market the signed sums of its trades, the notional of the market traded last as the total exposure,
  the orders' times, notionals and keys, and the equity with its peak. Nothing else of it ever changes.
\<close>

definition book_positions :: "RunConfig \<Rightarrow> Trade list \<Rightarrow> string \<rightharpoonup> MarketState" where
  "book_positions cfg trades k =
     (let ts = filter (\<lambda>t. rc_Venue cfg @ '':'' @ tr_MarketID t @ '':'' @ rc_StrategyName cfg = k) trades in
      if ts = [] then None
      else Some \<lparr>ms_PositionContracts = (\<Sum>t\<leftarrow>ts. signed_quantity t), ms_PositionNotional = (\<Sum>t\<leftarrow>ts. signed_notional t),
        ms_StrategyID = rc_StrategyName cfg\<rparr>)"

definition last_exposure :: "Trade list \<Rightarrow> int64" where
  "last_exposure trades =
     (if trades = [] then 0 else Money_Abs (\<Sum>t\<leftarrow>in_market (tr_MarketID (last trades)) trades. signed_notional t))"

definition for_strategy :: "RunConfig \<Rightarrow> 'a list \<Rightarrow> string \<rightharpoonup> 'a list" where
  "for_strategy cfg xs = (if xs = [] then Map.empty else [rc_StrategyName cfg \<mapsto> xs])"

definition peak_equity :: "RunConfig \<Rightarrow> Trade list \<Rightarrow> int64" where
  "peak_equity cfg trades = of_int (Max ((\<lambda>n. sint (equity_after cfg trades n)) ` {..length trades}))"

definition backtest_risk_state :: "RunConfig \<Rightarrow> ProposedOrder list \<Rightarrow> Trade list \<Rightarrow> market_map \<Rightarrow> time \<Rightarrow> State" where
  "backtest_risk_state cfg orders trades quotes clock =
     NewEmptyState\<lparr>st_NowFunc := Some clock, st_MarketData := quotes, st_Markets := book_positions cfg trades,
       st_TotalExposure := last_exposure trades, st_RecentOrderTimes := for_strategy cfg (map o_ProposedAt orders),
       st_RecentNotionals := for_strategy cfg (map o_NotionalMicros orders),
       st_RecentOrderKeys := map_of (rev (map (\<lambda>ord. (backtest_key ord, o_ProposedAt ord)) orders)),
       st_DailyPnL := total_pnl trades, st_CurrentEquity := rc_InitialCapital cfg + total_pnl trades,
       st_PeakEquity := peak_equity cfg trades\<rparr>"

lemma book_positions_snoc:
  "book_positions cfg (trades @ [t]) = (book_positions cfg trades)(rc_Venue cfg @ '':'' @ tr_MarketID t @ '':'' @ rc_StrategyName cfg \<mapsto>
     (let ms = map_get (book_positions cfg trades) (rc_Venue cfg @ '':'' @ tr_MarketID t @ '':'' @ rc_StrategyName cfg)
            \<lparr>ms_PositionContracts = 0, ms_PositionNotional = 0, ms_StrategyID = rc_StrategyName cfg\<rparr>
      in ms\<lparr>ms_PositionContracts := ms_PositionContracts ms + signed_quantity t, ms_PositionNotional := ms_PositionNotional ms + signed_notional t\<rparr>))"
  by (rule ext) (simp add: book_positions_def map_get_def Let_def)

lemma book_positions_of:
  "map_get (book_positions cfg trades) (rc_Venue cfg @ '':'' @ m @ '':'' @ rc_StrategyName cfg)
     \<lparr>ms_PositionContracts = 0, ms_PositionNotional = 0, ms_StrategyID = rc_StrategyName cfg\<rparr>
   = \<lparr>ms_PositionContracts = (\<Sum>t\<leftarrow>in_market m trades. signed_quantity t), ms_PositionNotional = (\<Sum>t\<leftarrow>in_market m trades. signed_notional t),
      ms_StrategyID = rc_StrategyName cfg\<rparr>"
  by (simp add: book_positions_def map_get_def in_market_def Let_def)

lemma last_exposure_snoc:
  "last_exposure (trades @ [t]) = Money_Abs ((\<Sum>u\<leftarrow>in_market (tr_MarketID t) trades. signed_notional u) + signed_notional t)"
  by (simp add: last_exposure_def in_market_def)

lemma for_strategy_snoc:
  "for_strategy cfg (xs @ [x]) = (for_strategy cfg xs)(rc_StrategyName cfg \<mapsto> map_get (for_strategy cfg xs) (rc_StrategyName cfg) [] @ [x])"
  by (simp add: for_strategy_def map_get_def)

lemma equity_after_snoc:
  "n \<le> length trades \<Longrightarrow> equity_after cfg (trades @ [t]) n = equity_after cfg trades n"
  by (simp add: equity_after_def)

lemma sint_peak_equity: "sint (peak_equity cfg trades) = Max ((\<lambda>n. sint (equity_after cfg trades n)) ` {..length trades})"
proof -
  have "Max ((\<lambda>n. sint (equity_after cfg trades n)) ` {..length trades}) \<in> (\<lambda>n. sint (equity_after cfg trades n)) ` {..length trades}"
    by (rule Max_in) auto
  then obtain n where "Max ((\<lambda>n. sint (equity_after cfg trades n)) ` {..length trades}) = sint (equity_after cfg trades n)" by blast
  then show ?thesis by (simp add: peak_equity_def)
qed

lemma peak_equity_snoc:
  "peak_equity cfg (trades @ [t]) =
     (let e = rc_InitialCapital cfg + total_pnl (trades @ [t]) in if sint (peak_equity cfg trades) < sint e then e else peak_equity cfg trades)"
proof -
  define S where "S = (\<lambda>n. sint (equity_after cfg trades n)) ` {..length trades}"
  define e where "e = rc_InitialCapital cfg + total_pnl (trades @ [t])"
  have "(\<lambda>n. sint (equity_after cfg (trades @ [t]) n)) ` {..length (trades @ [t])}
      = insert (sint (equity_after cfg (trades @ [t]) (Suc (length trades)))) ((\<lambda>n. sint (equity_after cfg (trades @ [t]) n)) ` {..length trades})"
    by (simp add: atMost_Suc)
  also have "\<dots> = insert (sint e) S" by (simp add: equity_after_def e_def S_def)
  finally have p: "peak_equity cfg (trades @ [t]) = of_int (Max (insert (sint e) S))" unfolding peak_equity_def by (rule arg_cong)
  have S: "Max (insert (sint e) S) = max (sint e) (Max S)" by (rule Max_insert) (auto simp: S_def)
  have M: "Max S = sint (peak_equity cfg trades)" by (simp add: sint_peak_equity S_def)
  show ?thesis unfolding p S M e_def [symmetric] Let_def by (simp add: max_def)
qed

lemma book_trade_risk_state:
  assumes "o_Venue ord = rc_Venue cfg" "o_StrategyID ord = rc_StrategyName cfg" "bt_equity r = rc_InitialCapital cfg + total_pnl (bt_trades r)"
    and "bt_state r = backtest_risk_state cfg orders (bt_trades r) quotes clock"
  shows "bt_state (book_trade ord q fp pnl r) = backtest_risk_state cfg (orders @ [ord]) (bt_trades (book_trade ord q fp pnl r)) quotes clock"
proof -
  define t where "t = \<lparr>tr_MarketID = o_MarketID ord, tr_Side = o_Side ord, tr_Quantity = q, tr_PriceMicros = fp, tr_PnLMicros = pnl\<rparr>"
  have trades: "bt_trades (book_trade ord q fp pnl r) = bt_trades r @ [t]" by (simp add: book_trade_def t_def Let_def)
  show ?thesis
    unfolding trades book_trade_def updateState_def assms(4)
    by (cases "o_Side ord = SideBuy")
       (simp_all add: backtest_risk_state_def book_positions_snoc book_positions_of [simplified] last_exposure_snoc for_strategy_snoc peak_equity_snoc
          t_def signed_quantity_def signed_notional_def assms(1-3) Let_def add.assoc)
qed

lemma risk_state_start: "bt_state (bt_start now cfg) = backtest_risk_state cfg [] [] Map.empty now"
  by (simp add: bt_start_def backtest_risk_state_def book_positions_def last_exposure_def for_strategy_def peak_equity_def
      equity_after_def total_pnl_def SimClock_Now_def NewSimClock_def NewEmptyState_def fun_eq_iff)

lemma risk_state_begin:
  assumes "keyed_tick (ticks ! n)" "env_ok te (ticks ! n)" "n < length ticks"
    and "bt_state r = backtest_risk_state cfg orders trades (quotes_upto ticks n) clock"
  shows "bt_state (begin_tick te (ticks ! n) r) = backtest_risk_state cfg orders trades (quotes_upto ticks (Suc n)) (tk_Timestamp (ticks ! n))"
  unfolding begin_tick_state [OF assms(1,2)] assms(4) quotes_upto_Suc [OF assms(3)] by (simp add: backtest_risk_state_def)

text \<open>Order \<open>ord\<close> filled as trade \<open>t\<close> from a signal of tick \<open>j\<close>, after \<open>orders\<close> filled as \<open>trades\<close>.\<close>

definition state_at :: "RunConfig \<Rightarrow> Tick list \<Rightarrow> nat \<Rightarrow> ProposedOrder list \<Rightarrow> Trade list \<Rightarrow> State" where
  "state_at cfg ticks j orders trades = backtest_risk_state cfg orders trades (quotes_upto ticks (Suc j)) (tk_Timestamp (ticks ! j))"

definition traded_from ::
  "((market_map \<Rightarrow> string list) \<Rightarrow> SignalFunc) \<Rightarrow> RunConfig \<Rightarrow> (nat \<Rightarrow> tick_env) \<Rightarrow> Tick list \<Rightarrow> nat \<Rightarrow> ProposedOrder list \<Rightarrow> Trade list \<Rightarrow> ProposedOrder \<Rightarrow> Trade \<Rightarrow> bool" where
  "traded_from signalFn cfg te ticks j orders trades ord t \<longleftrightarrow>
     (\<exists>sig wall traceID. sig \<in> set (signalFn (te_signals (te j)) (tk_Data (ticks ! j)))
        \<and> trade_conditions cfg wall traceID (ticks ! j) sig (state_at cfg ticks j orders trades) ord (tr_PriceMicros t)
        \<and> t = \<lparr>tr_MarketID = sg_MarketID sig, tr_Side = sg_Side sig, tr_Quantity = sg_Quantity sig, tr_PriceMicros = tr_PriceMicros t,
            tr_PnLMicros = computePnL (sg_Side sig) (sg_Quantity sig) (tr_PriceMicros t) (state_at cfg ticks j orders trades)
              (rc_Venue cfg) (sg_MarketID sig) (rc_StrategyName cfg)\<rparr>)"

text \<open>\<open>js\<close> are the ticks of the trades and \<open>orders\<close> their orders, when \<open>k\<close> ticks have begun.\<close>

definition run_history ::
  "((market_map \<Rightarrow> string list) \<Rightarrow> SignalFunc) \<Rightarrow> RunConfig \<Rightarrow> (nat \<Rightarrow> tick_env) \<Rightarrow> Tick list \<Rightarrow> time \<Rightarrow> nat \<Rightarrow> nat list \<Rightarrow> ProposedOrder list \<Rightarrow> backtest \<Rightarrow> bool" where
  "run_history signalFn cfg te ticks clock k js orders r \<longleftrightarrow>
     length js = length (bt_trades r) \<and> length orders = length (bt_trades r) \<and> sorted js \<and> (\<forall>j \<in> set js. j < k)
     \<and> bt_equity r = rc_InitialCapital cfg + total_pnl (bt_trades r)
     \<and> bt_state r = backtest_risk_state cfg orders (bt_trades r) (quotes_upto ticks k) clock
     \<and> (\<forall>n < length (bt_trades r). traded_from signalFn cfg te ticks (js ! n) (take n orders) (take n (bt_trades r)) (orders ! n) (bt_trades r ! n))"

lemma history_trade:
  assumes h: "run_history signalFn cfg te ticks (tk_Timestamp (ticks ! k)) (Suc k) js orders r"
    and sig: "sig \<in> set (signalFn (te_signals (te k)) (tk_Data (ticks ! k)))"
    and cond: "trade_conditions cfg wall traceID (ticks ! k) sig (bt_state r) ord fillPrice"
    and pnl: "pnl = computePnL (sg_Side sig) (sg_Quantity sig) fillPrice (bt_state r) (rc_Venue cfg) (sg_MarketID sig) (rc_StrategyName cfg)"
  shows "run_history signalFn cfg te ticks (tk_Timestamp (ticks ! k)) (Suc k) (js @ [k]) (orders @ [ord]) (book_trade ord (sg_Quantity sig) fillPrice pnl r)"
proof -
  define r' where "r' = book_trade ord (sg_Quantity sig) fillPrice pnl r"
  define t where "t = \<lparr>tr_MarketID = sg_MarketID sig, tr_Side = sg_Side sig, tr_Quantity = sg_Quantity sig, tr_PriceMicros = fillPrice, tr_PnLMicros = pnl\<rparr>"
  note h = h [unfolded run_history_def]
  have "ord = buildOrder traceID sig cfg (tk_Timestamp (ticks ! k))" using cond by (simp add: trade_conditions_def)
  then have o: "o_Venue ord = rc_Venue cfg" "o_StrategyID ord = rc_StrategyName cfg" "o_MarketID ord = sg_MarketID sig" "o_Side ord = sg_Side sig"
    by (simp_all add: buildOrder_def)
  have trades: "bt_trades r' = bt_trades r @ [t]" and eq: "bt_equity r' = rc_InitialCapital cfg + total_pnl (bt_trades r @ [t])"
    using h by (simp_all add: r'_def book_trade_def o t_def Let_def)
  have st: "bt_state r' = backtest_risk_state cfg (orders @ [ord]) (bt_trades r') (quotes_upto ticks (Suc k)) (tk_Timestamp (ticks ! k))"
    unfolding r'_def using h by (intro book_trade_risk_state) (simp_all add: o)
  have "bt_state r = state_at cfg ticks k orders (bt_trades r)" using h by (simp add: state_at_def)
  then have new: "traded_from signalFn cfg te ticks k orders (bt_trades r) ord t"
    unfolding traded_from_def using sig cond pnl by (intro exI [of _ sig] exI [of _ wall] exI [of _ traceID]) (simp add: t_def)
  have "\<forall>n < length (bt_trades r'). traded_from signalFn cfg te ticks ((js @ [k]) ! n) (take n (orders @ [ord])) (take n (bt_trades r')) ((orders @ [ord]) ! n) (bt_trades r' ! n)"
    using h new unfolding trades by (auto simp: less_Suc_eq nth_append)
  then show ?thesis
    unfolding r'_def [symmetric] run_history_def using h eq st by (auto simp: trades sorted_append less_Suc_eq_le)
qed

lemma run_ticks_history:
  assumes "run_ticks signalFn cfg te ticks (bt_start now cfg) = Inr r" "\<forall>j < length ticks. env_ok (te j) (ticks ! j) \<and> keyed_tick (ticks ! j)"
  shows "\<exists>js orders. run_history signalFn cfg te ticks (if ticks = [] then now else tk_Timestamp (last ticks)) (length ticks) js orders r"
proof -
  let ?clock = "\<lambda>k. if k = 0 then now else tk_Timestamp (ticks ! (k - 1))"
  have "\<exists>js orders. run_history signalFn cfg te ticks (?clock (length ticks)) (length ticks) js orders r"
    using assms(1)
  proof (rule run_ticks_invariant [where P = "\<lambda>k r. \<exists>js orders. run_history signalFn cfg te ticks (?clock k) k js orders r"])
    have "run_history signalFn cfg te ticks now 0 [] [] (bt_start now cfg)"
      unfolding run_history_def risk_state_start quotes_upto_0 by (simp add: bt_start_def total_pnl_def)
    then show "\<exists>js orders. run_history signalFn cfg te ticks (?clock 0) 0 js orders (bt_start now cfg)" by auto
  next
    fix n r assume n: "n < length ticks" and "\<exists>js orders. run_history signalFn cfg te ticks (?clock n) n js orders r"
    then obtain js orders where h: "run_history signalFn cfg te ticks (?clock n) n js orders r" by blast
    then have st: "bt_state (begin_tick (te n) (ticks ! n) r) = backtest_risk_state cfg orders (bt_trades r) (quotes_upto ticks (Suc n)) (tk_Timestamp (ticks ! n))"
      using assms(2) n unfolding run_history_def by (intro risk_state_begin) simp_all
    have b: "bt_trades (begin_tick (te n) (ticks ! n) r) = bt_trades r" "bt_equity (begin_tick (te n) (ticks ! n) r) = bt_equity r"
      by (simp_all add: begin_tick_def)
    have "run_history signalFn cfg te ticks (?clock (Suc n)) (Suc n) js orders (begin_tick (te n) (ticks ! n) r)"
      unfolding run_history_def b st using h unfolding run_history_def by (auto intro: less_SucI)
    then show "\<exists>js orders. run_history signalFn cfg te ticks (?clock (Suc n)) (Suc n) js orders (begin_tick (te n) (ticks ! n) r)" by blast
  next
    fix n wall traceID sig order fillPrice r
    assume n: "n < length ticks" and sig: "sig \<in> set (signalFn (te_signals (te n)) (tk_Data (ticks ! n)))"
      and "\<exists>js orders. run_history signalFn cfg te ticks (?clock (Suc n)) (Suc n) js orders r"
      and cond: "trade_conditions cfg wall traceID (ticks ! n) sig (bt_state r) order fillPrice"
    then obtain js orders where h: "run_history signalFn cfg te ticks (tk_Timestamp (ticks ! n)) (Suc n) js orders r" by auto
    from history_trade [OF h sig cond refl]
    show "\<exists>js orders. run_history signalFn cfg te ticks (?clock (Suc n)) (Suc n) js orders (book_trade order (sg_Quantity sig) fillPrice
        (computePnL (sg_Side sig) (sg_Quantity sig) fillPrice (bt_state r) (rc_Venue cfg) (sg_MarketID sig) (rc_StrategyName cfg)) r)"
      unfolding nat.distinct if_False diff_Suc_1 by (intro exI) simp
  qed
  then show ?thesis by (cases "ticks = []") (simp_all add: last_conv_nth)
qed

lemma backtest_loop_iff:
  "backtest_loop now te cfg = Inr r \<longleftrightarrow> rc_StrategyName cfg = ''simple-momentum'' \<and> run_ticks SimpleMomentum cfg te (rc_Ticks cfg) (bt_start now cfg) = Inr r"
  by (simp add: backtest_loop_def GetStrategy_def Registry_def)

lemma check_in_results: "(nm, f) \<in> set allChecks \<Longrightarrow> list_all c_Passed (RunAllChecks wall order st pol) \<Longrightarrow> c_Passed (f wall order st pol)"
  by (auto simp: list_all_iff RunAllChecks_def)

lemma history_approved:
  assumes "traded_from SimpleMomentum cfg te ticks j orders trades ord t" "env_ok (te j) (ticks ! j)"
  shows "\<exists>sig traceID. (\<exists>k md. tk_Data (ticks ! j) k = Some md \<and> sig \<in> set (momentum_signal md))
      \<and> ord = buildOrder traceID sig cfg (tk_Timestamp (ticks ! j))
      \<and> (\<forall>env wall decided i e. re_state e = state_at cfg ticks j orders trades \<and> re_policy e = rc_Policy cfg
            \<longrightarrow> a_Decision (decide env wall decided (buildOrder i sig cfg (tk_Timestamp (ticks ! j))) e) = DecisionApproved)"
    and "sint (- gl_MaxDailyLossMicros (p_Global (rc_Policy cfg))) \<le> sint (total_pnl trades)"
proof -
  from assms(1) obtain sig wall traceID where sg: "sig \<in> set (SimpleMomentum (te_signals (te j)) (tk_Data (ticks ! j)))"
    and cond: "trade_conditions cfg wall traceID (ticks ! j) sig (state_at cfg ticks j orders trades) ord (tr_PriceMicros t)"
    unfolding traded_from_def by blast
  then have ord: "ord = buildOrder traceID sig cfg (tk_Timestamp (ticks ! j))"
    and checks: "list_all c_Passed (RunAllChecks wall (buildOrder traceID sig cfg (tk_Timestamp (ticks ! j))) (state_at cfg ticks j orders trades) (rc_Policy cfg))"
    unfolding trade_conditions_def by blast+
  have clock: "st_NowFunc (state_at cfg ticks j orders trades) = Some (tk_Timestamp (ticks ! j))" by (simp add: state_at_def backtest_risk_state_def)
  have "a_Decision (decide env w d (buildOrder i sig cfg (tk_Timestamp (ticks ! j))) e) = DecisionApproved"
    if "re_state e = state_at cfg ticks j orders trades \<and> re_policy e = rc_Policy cfg" for env w d i e
    using checks that unfolding decide_decision checks_simulated [OF clock, of wall traceID sig cfg _ _ w i] by (simp add: list_all_iff)
  moreover have "\<exists>k md. tk_Data (ticks ! j) k = Some md \<and> sig \<in> set (momentum_signal md)"
    using sg assms(2) in_momentum [where visit = "te_signals (te j)"] unfolding env_ok_def by blast
  ultimately show "\<exists>sig traceID. (\<exists>k md. tk_Data (ticks ! j) k = Some md \<and> sig \<in> set (momentum_signal md))
      \<and> ord = buildOrder traceID sig cfg (tk_Timestamp (ticks ! j))
      \<and> (\<forall>env wall decided i e. re_state e = state_at cfg ticks j orders trades \<and> re_policy e = rc_Policy cfg
            \<longrightarrow> a_Decision (decide env wall decided (buildOrder i sig cfg (tk_Timestamp (ticks ! j))) e) = DecisionApproved)"
    using ord by blast
  have "(''global_daily_loss'', checkGlobalDailyLoss) \<in> set allChecks" by (simp add: allChecks_def)
  from check_in_results [OF this checks] show "sint (- gl_MaxDailyLossMicros (p_Global (rc_Policy cfg))) \<le> sint (total_pnl trades)"
    by (simp add: checkGlobalDailyLoss_def state_at_def backtest_risk_state_def not_less split: if_splits)
qed

text \<open>The fill of \<open>ord\<close> at tick \<open>j\<close>: in full, at the quote on the other side, never worse than the order's price.\<close>

definition filled_at_quote :: "Tick \<Rightarrow> ProposedOrder \<Rightarrow> Trade \<Rightarrow> bool" where
  "filled_at_quote tick ord t \<longleftrightarrow> tr_MarketID t = o_MarketID ord \<and> tr_Side t = o_Side ord \<and> tr_Quantity t = o_Quantity ord
     \<and> (\<exists>md. tk_Data tick (o_Venue ord @ '':'' @ o_MarketID ord) = Some md
          \<and> (o_Side ord = SideBuy \<and> tr_PriceMicros t = md_AskPriceMicros md \<and> sint (md_AskPriceMicros md) \<le> sint (o_PriceMicros ord)
           \<or> o_Side ord = SideSell \<and> tr_PriceMicros t = md_BidPriceMicros md \<and> sint (o_PriceMicros ord) \<le> sint (md_BidPriceMicros md)))"

lemma history_filled:
  assumes "traded_from signalFn cfg te ticks j orders trades ord t"
  shows "filled_at_quote (ticks ! j) ord t"
    and "tr_PnLMicros t = computePnL (o_Side ord) (o_Quantity ord) (tr_PriceMicros t) (state_at cfg ticks j orders trades)
           (o_Venue ord) (o_MarketID ord) (rc_StrategyName cfg)"
proof -
  from assms obtain sig wall traceID where cond: "trade_conditions cfg wall traceID (ticks ! j) sig (state_at cfg ticks j orders trades) ord (tr_PriceMicros t)"
    and t: "t = \<lparr>tr_MarketID = sg_MarketID sig, tr_Side = sg_Side sig, tr_Quantity = sg_Quantity sig, tr_PriceMicros = tr_PriceMicros t,
            tr_PnLMicros = computePnL (sg_Side sig) (sg_Quantity sig) (tr_PriceMicros t) (state_at cfg ticks j orders trades)
              (rc_Venue cfg) (sg_MarketID sig) (rc_StrategyName cfg)\<rparr>"
    unfolding traded_from_def by blast
  have "ord = buildOrder traceID sig cfg (tk_Timestamp (ticks ! j))" using cond by (simp add: trade_conditions_def)
  then have o: "o_Side ord = sg_Side sig" "o_Quantity ord = sg_Quantity sig" "o_PriceMicros ord = sg_PriceMicros sig"
    "o_Venue ord = rc_Venue cfg" "o_MarketID ord = sg_MarketID sig" by (simp_all add: buildOrder_def)
  have f: "tr_MarketID t = sg_MarketID sig" "tr_Side t = sg_Side sig" "tr_Quantity t = sg_Quantity sig"
    "tr_PnLMicros t = computePnL (sg_Side sig) (sg_Quantity sig) (tr_PriceMicros t) (state_at cfg ticks j orders trades) (rc_Venue cfg) (sg_MarketID sig) (rc_StrategyName cfg)"
    by (subst t, simp)+
  show "tr_PnLMicros t = computePnL (o_Side ord) (o_Quantity ord) (tr_PriceMicros t) (state_at cfg ticks j orders trades)
           (o_Venue ord) (o_MarketID ord) (rc_StrategyName cfg)" unfolding o by (rule f(4))
  show "filled_at_quote (ticks ! j) ord t"
    using cond unfolding filled_at_quote_def trade_conditions_def o f(1-3) by auto
qed

text \<open>
  C17: A backtest trades exactly what the twenty checks allow on its own risk state. Take a finished run whose tick data are
  keyed by the quotes' own venue and market (as \<open>GroupByTimestamp\<close> makes them) and in which each range over a tick's
  map visits every quote. Its trades come from orders at ticks in the order of the ticks: the order of the n-th trade is
  built from a signal of the momentum strategy on that tick's quotes, and a risk engine with the run's policy approves it,
  whatever its wall clock and trace id, when its state is \<open>state_at\<close>, which is written out from the trades before it and
  their orders: the latest quotes up to the tick, the tick's time as the clock, per market the signed sums of the earlier
  trades, the earlier orders' times, notionals and backtest keys, the daily profit, equity and peak of the earlier
  trades, and as total exposure only that of the market traded last (the runner overwrites it). The fill is the whole
  quantity at the quoted ask of a buy or bid of a sell and never worse than the order's price, its profit and loss are
  those of the code's formula on that state, and the trades before it had not lost more than the daily limit. What the
  state gets wrong against the live system is in \<open>Backtest_Data\<close>: exposure in other markets is not counted, and the keys
  kept are not those the duplicate check looks up.
\<close>

theorem backtest_trades_permitted:
  assumes "backtest_loop now te cfg = Inr r" "\<forall>j < length (rc_Ticks cfg). env_ok (te j) (rc_Ticks cfg ! j) \<and> keyed_tick (rc_Ticks cfg ! j)"
  shows "\<exists>js orders. length js = length (bt_trades r) \<and> length orders = length (bt_trades r) \<and> sorted js
    \<and> (\<forall>n < length (bt_trades r). js ! n < length (rc_Ticks cfg)
        \<and> (let tick = rc_Ticks cfg ! (js ! n); t = bt_trades r ! n; before = take n (bt_trades r);
               st = state_at cfg (rc_Ticks cfg) (js ! n) (take n orders) before in
            (\<exists>sig traceID. (\<exists>k md. tk_Data tick k = Some md \<and> sig \<in> set (momentum_signal md))
               \<and> orders ! n = buildOrder traceID sig cfg (tk_Timestamp tick)
               \<and> (\<forall>env wall decided i e. re_state e = st \<and> re_policy e = rc_Policy cfg
                     \<longrightarrow> a_Decision (decide env wall decided (buildOrder i sig cfg (tk_Timestamp tick)) e) = DecisionApproved))
            \<and> filled_at_quote tick (orders ! n) t
            \<and> tr_PnLMicros t = computePnL (o_Side (orders ! n)) (o_Quantity (orders ! n)) (tr_PriceMicros t) st
                 (o_Venue (orders ! n)) (o_MarketID (orders ! n)) (rc_StrategyName cfg)
            \<and> sint (- gl_MaxDailyLossMicros (p_Global (rc_Policy cfg))) \<le> sint (total_pnl before)))"
proof -
  have "run_ticks SimpleMomentum cfg te (rc_Ticks cfg) (bt_start now cfg) = Inr r" using assms(1) unfolding backtest_loop_iff by simp
  from run_ticks_history [OF this assms(2)] obtain js orders clock
    where h: "run_history SimpleMomentum cfg te (rc_Ticks cfg) clock (length (rc_Ticks cfg)) js orders r" by blast
  note h = h [unfolded run_history_def]
  have j: "js ! n < length (rc_Ticks cfg)" if "n < length (bt_trades r)" for n using h that by simp
  have t: "traded_from SimpleMomentum cfg te (rc_Ticks cfg) (js ! n) (take n orders) (take n (bt_trades r)) (orders ! n) (bt_trades r ! n)"
    if "n < length (bt_trades r)" for n using h that by blast
  have env: "env_ok (te (js ! n)) (rc_Ticks cfg ! (js ! n))" if "n < length (bt_trades r)" for n using assms(2) j [OF that] by blast
  have "length js = length (bt_trades r) \<and> length orders = length (bt_trades r) \<and> sorted js" using h by blast
  then show ?thesis
    unfolding Let_def using j history_approved [OF t env] history_filled [OF t] by blast
qed

subsection \<open>A run: bought at 30 cents, sold at 70\<close>

definition quote_at :: "int64 \<Rightarrow> time \<Rightarrow> MarketData" where
  "quote_at price t = \<lparr>md_Venue = ''mock'', md_MarketID = ''KX-1'', md_DisplayName = [], md_BidPriceMicros = price, md_AskPriceMicros = price,
     md_LastPriceMicros = 0, md_BidDepth = 0, md_AskDepth = 0, md_Volume24h = Fin 0, md_UpdatedAt = t\<rparr>"

definition sample_ticks :: "Tick list" where
  "sample_ticks = [\<lparr>tk_Timestamp = 60000000000, tk_Data = [''mock:KX-1'' \<mapsto> quote_at 300000 60000000000]\<rparr>,
     \<lparr>tk_Timestamp = 120000000000, tk_Data = [''mock:KX-1'' \<mapsto> quote_at 700000 120000000000]\<rparr>]"

definition sample_config :: RunConfig where
  "sample_config = \<lparr>rc_StrategyName = ''simple-momentum'', rc_Venue = ''mock'',
     rc_Policy = sample_policy\<lparr>p_PerPosition := (p_PerPosition sample_policy)\<lparr>pp_MaxConcentrationPct := f_of_int 100\<rparr>\<rparr>,
     rc_InitialCapital = 100000000, rc_FillMode = ''deterministic'', rc_Ticks = sample_ticks\<rparr>"

definition sample_te :: tick_env where
  "sample_te = \<lparr>te_cancelled = False, te_wall = 0, te_quotes = (\<lambda>_. [''mock:KX-1'']), te_signals = (\<lambda>_. [''mock:KX-1'']), te_ids = (\<lambda>_. ''t'')\<rparr>"

definition bought :: Trade where
  "bought = \<lparr>tr_MarketID = ''KX-1'', tr_Side = SideBuy, tr_Quantity = 1, tr_PriceMicros = 300000, tr_PnLMicros = 0\<rparr>"

definition sold :: Trade where
  "sold = \<lparr>tr_MarketID = ''KX-1'', tr_Side = SideSell, tr_Quantity = 1, tr_PriceMicros = 700000, tr_PnLMicros = 400000\<rparr>"

definition sample_signal :: "string \<Rightarrow> int64 \<Rightarrow> string \<Rightarrow> Signal" where
  "sample_signal side price reason = \<lparr>sg_MarketID = ''KX-1'', sg_Side = side, sg_Quantity = 1, sg_PriceMicros = price, sg_Reason = reason\<rparr>"

definition sample_before :: "time \<Rightarrow> int64 \<Rightarrow> State \<Rightarrow> State" where
  "sample_before t price st = st\<lparr>st_NowFunc := Some t, st_MarketData := (st_MarketData st)(''mock:KX-1'' \<mapsto> quote_at price t)\<rparr>"

definition sample_start :: State where
  "sample_start = NewEmptyState\<lparr>st_NowFunc := Some 0, st_CurrentEquity := 100000000, st_PeakEquity := 100000000\<rparr>"

definition sample_bought :: State where
  "sample_bought = (sample_before 60000000000 300000 sample_start)\<lparr>
     st_Markets := [''mock:KX-1:simple-momentum'' \<mapsto> \<lparr>ms_PositionContracts = 1, ms_PositionNotional = 300000, ms_StrategyID = ''simple-momentum''\<rparr>],
     st_TotalExposure := 300000, st_RecentOrderTimes := [''simple-momentum'' \<mapsto> [60000000000]],
     st_RecentNotionals := [''simple-momentum'' \<mapsto> [300000]],
     st_RecentOrderKeys := [''simple-momentum:KX-1:buy:1:300000'' \<mapsto> 60000000000]\<rparr>"

lemmas bt_sample_simps = sample_config_def sample_signal_def sample_before_def sample_start_def sample_bought_def quote_at_def
  buildOrder_def sample_policy_def NewEmptyState_def market_key_def position_key_def current_notional_def IdempotencyKey_def

lemma sample_signals:
  "SimpleMomentum (\<lambda>_. [''mock:KX-1'']) [''mock:KX-1'' \<mapsto> quote_at 300000 t] = [sample_signal SideBuy 300000 ''momentum: price below 0.40'']"
  "SimpleMomentum (\<lambda>_. [''mock:KX-1'']) [''mock:KX-1'' \<mapsto> quote_at 700000 t] = [sample_signal SideSell 700000 ''momentum: price above 0.60'']"
  by (simp_all add: SimpleMomentum_def momentum_signal_def sample_signal_def MidPriceMicros_def quote_at_def go_div_def)

lemma sample_checks:
  "list_all c_Passed (RunAllChecks 0 (buildOrder ''t'' (sample_signal SideBuy 300000 x) sample_config 60000000000)
     (sample_before 60000000000 300000 sample_start) (rc_Policy sample_config))"
  "list_all c_Passed (RunAllChecks 0 (buildOrder ''t'' (sample_signal SideSell 700000 x) sample_config 120000000000)
     (sample_before 120000000000 700000 sample_bought) (rc_Policy sample_config))"
proof -
  let ?o1 = "buildOrder ''t'' (sample_signal SideBuy 300000 x) sample_config 60000000000" and ?s1 = "sample_before 60000000000 300000 sample_start"
  let ?o2 = "buildOrder ''t'' (sample_signal SideSell 700000 x) sample_config 120000000000" and ?s2 = "sample_before 120000000000 700000 sample_bought"
  let ?p = "rc_Policy sample_config"
  have now: "State_Now 0 ?s1 = 60000000000" "State_Now 0 ?s2 = 120000000000" by (simp_all add: State_Now_def sample_before_def)
  have w: "well_formed_order ?o1" "well_formed_order ?o2" by (simp_all add: well_formed_order_def bt_sample_simps)
  have n: "numbers_in_range ?o1 ?s1 ?p" "numbers_in_range ?o2 ?s2 ?p"
    by (simp_all add: numbers_in_range_def in_range62_def bt_sample_simps)
  have "trading_permitted 60000000000 ?o1 ?s1 ?p" "trading_permitted 120000000000 ?o2 ?s2 ?p"
    by (simp_all add: trading_permitted_def bt_sample_simps sample_market_matches SpreadBps_def SpreadMicros_def go_div_def)
  moreover have "size_permitted ?o1 ?s1 ?p" "size_permitted ?o2 ?s2 ?p"
    by (simp_all add: size_permitted_def concentration_pct_def bt_sample_simps f_of_int_def)
  moreover have "losses_permitted ?o1 ?s1 ?p" "losses_permitted ?o2 ?s2 ?p"
    by (simp_all add: losses_permitted_def drawdown_pct_def bt_sample_simps f_of_int_def)
  moreover have "rate_permitted 60000000000 ?o1 ?s1 ?p" "rate_permitted 120000000000 ?o2 ?s2 ?p"
    by (simp_all add: rate_permitted_def bt_sample_simps time_Minute_def time_Second_def)
  ultimately show "list_all c_Passed (RunAllChecks 0 ?o1 ?s1 ?p)" "list_all c_Passed (RunAllChecks 0 ?o2 ?s2 ?p)"
    using all_passed_iff_permitted [OF w(1) n(1), of 0] all_passed_iff_permitted [OF w(2) n(2), of 0]
    by (simp_all add: list_all_iff order_permitted_def now)
qed

definition quote_tick :: "int64 \<Rightarrow> time \<Rightarrow> Tick" where
  "quote_tick price t = \<lparr>tk_Timestamp = t, tk_Data = [''mock:KX-1'' \<mapsto> quote_at price t]\<rparr>"

lemma sample_quote_key: "o_Venue (buildOrder i (sample_signal sd pr x) sample_config t) @ '':'' @ o_MarketID (buildOrder i (sample_signal sd pr x) sample_config t) = ''mock:KX-1''"
  by (simp add: buildOrder_def sample_signal_def sample_config_def)

lemma sample_buy:
  "simulate_signal sample_config 0 ''t'' (quote_tick 300000 60000000000) (sample_signal SideBuy 300000 x)
     \<lparr>bt_state = sample_before 60000000000 300000 sample_start, bt_trades = [], bt_curve = [100000000], bt_equity = 100000000\<rparr>
   = \<lparr>bt_state = sample_bought, bt_trades = [bought], bt_curve = [100000000, 100000000], bt_equity = 100000000\<rparr>"
proof -
  let ?order = "buildOrder ''t'' (sample_signal SideBuy 300000 x) sample_config 60000000000"
  have fill: "SimulateFill ?order (tk_Data (quote_tick 300000 60000000000) ''mock:KX-1'') = (1, 300000)"
    by (simp add: SimulateFill_def quote_tick_def quote_at_def buildOrder_def sample_signal_def)
  have t: "tk_Timestamp (quote_tick 300000 60000000000) = 60000000000" by (simp add: quote_tick_def)
  have pnl: "computePnL sd q fp (sample_before 60000000000 300000 sample_start) v mk sid = 0" for sd q fp v mk sid
    by (simp add: computePnL_def sample_before_def sample_start_def NewEmptyState_def)
  have "book_trade ?order 1 300000 0 \<lparr>bt_state = sample_before 60000000000 300000 sample_start, bt_trades = [], bt_curve = [100000000], bt_equity = 100000000\<rparr>
     = \<lparr>bt_state = sample_bought, bt_trades = [bought], bt_curve = [100000000, 100000000], bt_equity = 100000000\<rparr>"
    by (simp add: book_trade_def updateState_def backtest_key_def bought_def Money_Abs_def Let_def bt_sample_simps show_int_def show_nat.simps digit_def)
  then show ?thesis
    unfolding simulate_signal_def t Let_def sample_quote_key fill backtest.select_convs pnl using sample_checks(1) by simp
qed

lemma sample_sell:
  "bt_trades (simulate_signal sample_config 0 ''t'' (quote_tick 700000 120000000000) (sample_signal SideSell 700000 x)
     \<lparr>bt_state = sample_before 120000000000 700000 sample_bought, bt_trades = [bought], bt_curve = cs, bt_equity = e\<rparr>) = [bought, sold]"
proof -
  let ?order = "buildOrder ''t'' (sample_signal SideSell 700000 x) sample_config 120000000000"
  have fill: "SimulateFill ?order (tk_Data (quote_tick 700000 120000000000) ''mock:KX-1'') = (1, 700000)"
    by (simp add: SimulateFill_def quote_tick_def quote_at_def buildOrder_def sample_signal_def)
  have t: "tk_Timestamp (quote_tick 700000 120000000000) = 120000000000" by (simp add: quote_tick_def)
  have pnl: "computePnL (o_Side ?order) 1 700000 (sample_before 120000000000 700000 sample_bought) (o_Venue ?order) (o_MarketID ?order) (rc_StrategyName sample_config) = 400000"
    by (simp add: computePnL_def bt_sample_simps go_div_def)
  show ?thesis
    unfolding simulate_signal_def t Let_def sample_quote_key fill backtest.select_convs split_conv pnl using sample_checks(2)
    by (simp add: book_trade_def Let_def sold_def buildOrder_def sample_signal_def)
qed

lemma sample_backtest: "\<exists>r. backtest_loop 0 (\<lambda>_. sample_te) sample_config = Inr r \<and> bt_trades r = [bought, sold]"
proof -
  have start: "bt_start 0 sample_config = \<lparr>bt_state = sample_start, bt_trades = [], bt_curve = [100000000], bt_equity = 100000000\<rparr>"
    by (simp add: bt_start_def sample_start_def sample_config_def SimClock_Now_def NewSimClock_def)
  have tick: "begin_tick sample_te (quote_tick p t) \<lparr>bt_state = st, bt_trades = ts, bt_curve = cs, bt_equity = e\<rparr>
      = \<lparr>bt_state = sample_before t p st, bt_trades = ts, bt_curve = cs, bt_equity = e\<rparr>" for p t st ts cs e
    by (simp add: begin_tick_def quote_tick_def sample_te_def sample_before_def quote_at_def SimClock_Now_def SimClock_Set_def)
  have te: "\<not> te_cancelled sample_te" "te_wall sample_te = 0" "te_signals sample_te = (\<lambda>_. [''mock:KX-1''])" "te_ids sample_te = (\<lambda>_. ''t'')"
    by (simp_all add: sample_te_def)
  have sigs: "SimpleMomentum (\<lambda>_. [''mock:KX-1'']) (tk_Data (quote_tick 300000 t)) = [sample_signal SideBuy 300000 ''momentum: price below 0.40'']"
    "SimpleMomentum (\<lambda>_. [''mock:KX-1'']) (tk_Data (quote_tick 700000 t)) = [sample_signal SideSell 700000 ''momentum: price above 0.60'']" for t
    unfolding quote_tick_def Tick.select_convs by (rule sample_signals)+
  have ticks: "rc_Ticks sample_config = [quote_tick 300000 60000000000, quote_tick 700000 120000000000]"
    by (simp add: sample_config_def sample_ticks_def quote_tick_def)
  have "rc_StrategyName sample_config = ''simple-momentum''" by (simp add: sample_config_def)
  then show ?thesis
    unfolding backtest_loop_iff ticks start run_ticks.simps te sigs tick simulate_signals.simps sample_buy if_not_P [OF te(1)] using sample_sell by simp
qed

lemma sample_env_ok: "\<forall>j < length (rc_Ticks sample_config). env_ok sample_te (rc_Ticks sample_config ! j) \<and> keyed_tick (rc_Ticks sample_config ! j)"
  by (simp add: sample_config_def sample_ticks_def env_ok_def sample_te_def enumerates_def keyed_tick_def quote_at_def less_Suc_eq)

text \<open>The state the sale is checked in, after the purchase.\<close>

lemma sample_sale_state:
  assumes "ord = buildOrder i (sample_signal SideBuy 300000 x) sample_config 60000000000"
  shows "state_at sample_config sample_ticks 1 [ord] [bought] = sample_before 120000000000 700000 sample_bought"
proof -
  have "quotes_upto sample_ticks (Suc 1) = [''mock:KX-1'' \<mapsto> quote_at 700000 120000000000]"
    by (simp add: quotes_upto_def sample_ticks_def)
  moreover have "book_positions sample_config [bought] = st_Markets sample_bought"
    by (simp add: book_positions_def bought_def sample_config_def sample_bought_def signed_quantity_def signed_notional_def fun_eq_iff)
  moreover have "last_exposure [bought] = 300000"
    by (simp add: last_exposure_def in_market_def bought_def signed_notional_def Money_Abs_def)
  moreover have "peak_equity sample_config [bought] = 100000000"
    by (simp add: peak_equity_def equity_after_def bought_def total_pnl_def sample_config_def atMost_Suc)
  moreover have "backtest_key ord = ''simple-momentum:KX-1:buy:1:300000''"
    by (simp add: assms backtest_key_def buildOrder_def sample_signal_def sample_config_def show_int_def show_nat.simps digit_def)
  moreover have "total_pnl [bought] = 0" by (simp add: total_pnl_def bought_def)
  moreover have "o_ProposedAt ord = 60000000000" "o_NotionalMicros ord = 300000" "rc_StrategyName sample_config = ''simple-momentum''"
    "rc_InitialCapital sample_config = 100000000" "tk_Timestamp (sample_ticks ! 1) = 120000000000"
    by (simp_all add: assms buildOrder_def sample_signal_def sample_config_def sample_ticks_def)
  ultimately show ?thesis
    unfolding state_at_def backtest_risk_state_def by (simp add: for_strategy_def sample_bought_def sample_before_def sample_start_def NewEmptyState_def)
qed

lemma sample_tick_signals:
  assumes "j < length sample_ticks" "tk_Data (sample_ticks ! j) k = Some md" "sig \<in> set (momentum_signal md)"
  shows "j = 0 \<and> sig = sample_signal SideBuy 300000 ''momentum: price below 0.40'' \<or> j = 1 \<and> sig = sample_signal SideSell 700000 ''momentum: price above 0.60''"
proof -
  have j: "j = 0 \<or> j = 1" using assms(1) by (auto simp: sample_ticks_def)
  have m: "momentum_signal (quote_at 300000 t) = [sample_signal SideBuy 300000 ''momentum: price below 0.40'']"
    "momentum_signal (quote_at 700000 t) = [sample_signal SideSell 700000 ''momentum: price above 0.60'']" for t
    by (simp_all add: momentum_signal_def sample_signal_def MidPriceMicros_def quote_at_def go_div_def)
  have "md = quote_at (if j = 0 then 300000 else 700000) (tk_Timestamp (sample_ticks ! j))"
    using assms(2) j by (auto simp: sample_ticks_def split: if_splits)
  then show ?thesis using assms(3) j by (auto simp: m)
qed

theorem backtest_trades_permitted_witness:
  "a_Decision (decide sample_env 0 0 (buildOrder ''x'' (sample_signal SideSell 700000 ''momentum: price above 0.60'') sample_config 120000000000)
     (sample_engine\<lparr>re_state := sample_before 120000000000 700000 sample_bought, re_policy := rc_Policy sample_config\<rparr>)) = DecisionApproved"
proof -
  obtain r where r: "backtest_loop 0 (\<lambda>_. sample_te) sample_config = Inr r" "bt_trades r = [bought, sold]" using sample_backtest by blast
  have ticks: "rc_Ticks sample_config = sample_ticks" by (simp add: sample_config_def)
  have time: "tk_Timestamp (sample_ticks ! 0) = 60000000000" "tk_Timestamp (sample_ticks ! 1) = 120000000000" by (simp_all add: sample_ticks_def)
  from backtest_trades_permitted [OF r(1) sample_env_ok, unfolded r(2) ticks Let_def] obtain js orders where
    len: "length js = length [bought, sold]" "length orders = length [bought, sold]" and
    all: "\<forall>n < length [bought, sold]. js ! n < length sample_ticks
      \<and> (\<exists>sig traceID. (\<exists>k md. tk_Data (sample_ticks ! (js ! n)) k = Some md \<and> sig \<in> set (momentum_signal md))
        \<and> orders ! n = buildOrder traceID sig sample_config (tk_Timestamp (sample_ticks ! (js ! n)))
        \<and> (\<forall>env wall decided i e. re_state e = state_at sample_config sample_ticks (js ! n) (take n orders) (take n [bought, sold]) \<and> re_policy e = rc_Policy sample_config
           \<longrightarrow> a_Decision (decide env wall decided (buildOrder i sig sample_config (tk_Timestamp (sample_ticks ! (js ! n)))) e) = DecisionApproved))
      \<and> filled_at_quote (sample_ticks ! (js ! n)) (orders ! n) ([bought, sold] ! n)" by blast
  have j: "js ! n < length sample_ticks" and side: "tr_Side ([bought, sold] ! n) = o_Side (orders ! n)"
    and t: "\<exists>sig traceID. (\<exists>k md. tk_Data (sample_ticks ! (js ! n)) k = Some md \<and> sig \<in> set (momentum_signal md))
        \<and> orders ! n = buildOrder traceID sig sample_config (tk_Timestamp (sample_ticks ! (js ! n)))
        \<and> (\<forall>env wall decided i e. re_state e = state_at sample_config sample_ticks (js ! n) (take n orders) (take n [bought, sold]) \<and> re_policy e = rc_Policy sample_config
           \<longrightarrow> a_Decision (decide env wall decided (buildOrder i sig sample_config (tk_Timestamp (sample_ticks ! (js ! n)))) e) = DecisionApproved)"
    if "n < 2" for n
    using all that unfolding filled_at_quote_def by simp_all
  from t [OF pos2] obtain s0 i0 k0 m0 where s0: "tk_Data (sample_ticks ! (js ! 0)) k0 = Some m0" "s0 \<in> set (momentum_signal m0)"
    and o0: "orders ! 0 = buildOrder i0 s0 sample_config (tk_Timestamp (sample_ticks ! (js ! 0)))" by blast
  have "o_Side (orders ! 0) = SideBuy" using side [of 0] by (simp add: bought_def)
  then have "sg_Side s0 = SideBuy" unfolding o0 by (simp add: buildOrder_def)
  then have "js ! 0 = 0" "s0 = sample_signal SideBuy 300000 ''momentum: price below 0.40''"
    using sample_tick_signals [OF j [of 0] s0] by (auto simp: sample_signal_def)
  then have buy: "orders ! 0 = buildOrder i0 (sample_signal SideBuy 300000 ''momentum: price below 0.40'') sample_config 60000000000"
    using o0 time by simp
  have before: "take 1 orders = [orders ! 0]" using len by (cases orders) auto
  have "(1::nat) < 2" by simp
  from t [OF this] obtain s1 i1 k1 m1 where s1: "tk_Data (sample_ticks ! (js ! 1)) k1 = Some m1" "s1 \<in> set (momentum_signal m1)"
    and o1: "orders ! 1 = buildOrder i1 s1 sample_config (tk_Timestamp (sample_ticks ! (js ! 1)))"
    and ok: "\<forall>env wall decided i e. re_state e = state_at sample_config sample_ticks (js ! 1) (take 1 orders) (take 1 [bought, sold]) \<and> re_policy e = rc_Policy sample_config
       \<longrightarrow> a_Decision (decide env wall decided (buildOrder i s1 sample_config (tk_Timestamp (sample_ticks ! (js ! 1)))) e) = DecisionApproved"
    by blast
  have "o_Side (orders ! 1) = SideSell" using side [of 1] by (simp add: sold_def)
  then have "sg_Side s1 = SideSell" unfolding o1 by (simp add: buildOrder_def)
  then have js: "js ! 1 = 1" and sg: "s1 = sample_signal SideSell 700000 ''momentum: price above 0.60''"
    using sample_tick_signals [OF j [of 1] s1] by (auto simp: sample_signal_def)
  have st: "state_at sample_config sample_ticks 1 (take 1 orders) (take 1 [bought, sold]) = sample_before 120000000000 700000 sample_bought"
    unfolding before using sample_sale_state [OF buy] by simp
  show ?thesis using ok unfolding js sg st time by simp
qed

text \<open>
  The books of a backtest balance. In every finished run the equity is the initial capital plus the profit and loss of
  all trades, the equity curve is the initial capital followed by the equity after each trade, the risk state's daily
  profit is the same sum, its peak equity is the maximum of the curve, and its position in each market is the signed
  sum of that market's trades, in contracts and in notional.
\<close>

theorem backtest_books_balance:
  assumes "backtest_loop now te cfg = Inr r"
  shows "bt_equity r = rc_InitialCapital cfg + total_pnl (bt_trades r)
    \<and> bt_curve r = map (equity_after cfg (bt_trades r)) [0..<Suc (length (bt_trades r))]
    \<and> st_DailyPnL (bt_state r) = total_pnl (bt_trades r) \<and> st_CurrentEquity (bt_state r) = bt_equity r
    \<and> sint (st_PeakEquity (bt_state r)) = Max (sint ` set (bt_curve r))
    \<and> (\<forall>m. position_of cfg (bt_state r) m
          = ((\<Sum>t\<leftarrow>in_market m (bt_trades r). signed_quantity t), (\<Sum>t\<leftarrow>in_market m (bt_trades r). signed_notional t)))"
proof -
  have b: "books cfg r" using assms run_ticks_books unfolding backtest_loop_iff by blast
  then have "st_PeakEquity (bt_state r) \<in> set (bt_curve r)" "\<forall>e \<in> set (bt_curve r). sint e \<le> sint (st_PeakEquity (bt_state r))"
    unfolding books_def by blast+
  then have "Max (sint ` set (bt_curve r)) = sint (st_PeakEquity (bt_state r))" by (intro Max_eqI) auto
  then show ?thesis using b unfolding books_def by simp
qed

theorem backtest_books_balance_witness:
  "\<exists>r. backtest_loop 0 (\<lambda>_. sample_te) sample_config = Inr r \<and> bt_equity r = 100400000 \<and> bt_curve r = [100000000, 100000000, 100400000]"
proof -
  obtain r where r: "backtest_loop 0 (\<lambda>_. sample_te) sample_config = Inr r" "bt_trades r = [bought, sold]" using sample_backtest by blast
  have "rc_InitialCapital sample_config = 100000000" by (simp add: sample_config_def)
  moreover have "map (equity_after sample_config [bought, sold]) [0..<Suc (length [bought, sold])] = [100000000, 100000000, 100400000]"
    using calculation by (simp add: equity_after_def total_pnl_def bought_def sold_def)
  moreover have "total_pnl [bought, sold] = 400000" by (simp add: total_pnl_def bought_def sold_def)
  ultimately show ?thesis using backtest_books_balance [OF r(1)] r(1) unfolding r(2) by (intro exI [of _ r]) simp
qed


section \<open>The simulated clock makes runs reproducible\<close>

definition same_choices :: "tick_env \<Rightarrow> tick_env \<Rightarrow> bool" where
  "same_choices te te' \<longleftrightarrow> te_cancelled te = te_cancelled te' \<and> te_quotes te = te_quotes te' \<and> te_signals te = te_signals te'"

lemma simulate_signal_clock:
  assumes "st_NowFunc (bt_state r) = Some t"
  shows "simulate_signal cfg wall traceID tick sig r = simulate_signal cfg wall' traceID' tick sig r"
proof -
  define ord where "ord = buildOrder traceID sig cfg (tk_Timestamp tick)"
  define ord' where "ord' = buildOrder traceID' sig cfg (tk_Timestamp tick)"
  have o: "o_Side ord = o_Side ord'" "o_Venue ord = o_Venue ord'" "o_MarketID ord = o_MarketID ord'" by (simp_all add: ord_def ord'_def buildOrder_def)
  have "SimulateFill ord md = SimulateFill ord' md" for md by (simp add: ord_def ord'_def buildOrder_def SimulateFill_def split: option.split)
  moreover have "book_trade ord q fp pnl r = book_trade ord' q fp pnl r" for q fp pnl
    by (simp add: ord_def ord'_def buildOrder_def book_trade_def updateState_def backtest_key_def)
  moreover have "RunAllChecks wall ord (bt_state r) pol = RunAllChecks wall' ord' (bt_state r) pol" for pol
    unfolding ord_def ord'_def using assms by (rule checks_simulated)
  ultimately show ?thesis unfolding simulate_signal_def ord_def [symmetric] ord'_def [symmetric] Let_def o by (simp only:)
qed

lemma simulate_signals_clock:
  "st_NowFunc (bt_state r) = Some t \<Longrightarrow> simulate_signals cfg wall ids tick sigs r = simulate_signals cfg wall' ids' tick sigs r"
proof (induction sigs arbitrary: ids ids' r)
  case (Cons sig sigs)
  have "st_NowFunc (bt_state (simulate_signal cfg wall i tick sig r)) = Some t" for i
    using Cons.prems by (cases rule: simulate_signal_cases [of cfg wall i tick sig r]) (simp_all add: book_trade_def updateState_def Let_def)
  from Cons.IH [OF this, of "\<lambda>n. ids (Suc n)" "ids 0" "\<lambda>n. ids' (Suc n)"] show ?case
    using simulate_signal_clock [OF Cons.prems, of cfg wall "ids 0" tick sig wall' "ids' 0"] by simp
qed simp

text \<open>
  A backtest is reproducible. Two runs with the same configuration and start whose ticks make the same choices of map
  order and cancellation have the same result, whatever the wall clock shows during each tick and whatever trace
  ids the orders get.
\<close>

theorem backtest_reproducible:
  assumes "\<forall>n. same_choices (te n) (te' n)"
  shows "backtest_loop now te cfg = backtest_loop now te' cfg"
proof -
  have "run_ticks signalFn cfg te ticks r = run_ticks signalFn cfg te' ticks r" for signalFn ticks r
    using assms
  proof (induction ticks arbitrary: te te' r)
    case (Cons tick ticks)
    have same: "te_cancelled (te 0) = te_cancelled (te' 0)" "te_quotes (te 0) = te_quotes (te' 0)" "te_signals (te 0) = te_signals (te' 0)"
      using Cons.prems by (simp_all add: same_choices_def)
    have "begin_tick (te 0) tick r = begin_tick (te' 0) tick r" by (simp add: begin_tick_def same)
    moreover have "simulate_signals cfg w i tick sigs (begin_tick (te' 0) tick r) = simulate_signals cfg w' i' tick sigs (begin_tick (te' 0) tick r)" for w w' i i' sigs
      by (rule simulate_signals_clock) (simp add: begin_tick_def)
    from this [of "te_wall (te 0)" "te_ids (te 0)" _ "te_wall (te' 0)" "te_ids (te' 0)"]
    show ?case using Cons.IH [of "\<lambda>n. te (Suc n)" "\<lambda>n. te' (Suc n)"] Cons.prems by (simp add: same calculation)
  qed simp
  then show ?thesis by (simp add: backtest_loop_def split: sum.split)
qed

theorem backtest_reproducible_witness:
  "\<exists>r. backtest_loop 0 (\<lambda>n. sample_te\<lparr>te_wall := int n, te_ids := (\<lambda>k. show_nat (n + k))\<rparr>) sample_config = Inr r \<and> bt_trades r = [bought, sold]"
proof -
  have "\<forall>n. same_choices sample_te (sample_te\<lparr>te_wall := int n, te_ids := (\<lambda>k. show_nat (n + k))\<rparr>)" by (simp add: same_choices_def)
  from backtest_reproducible [where te = "\<lambda>_. sample_te", OF this] show ?thesis using sample_backtest by simp
qed

end
