(* ===== verification/Backtest_Data.thy ===== *)
theory Backtest_Data
  imports Backtest Market_Feed
begin

text \<open>
  The data of backtests: what \<^verbatim>\<open>GroupByTimestamp\<close> (\<^verbatim>\<open>services/backtest/loader.go\<close>) makes of the snapshots, the
  scraper that records them (\<^verbatim>\<open>services/backtest/scraper.go\<close>), and what the runner's profit and loss, exposure and duplicate
  bookkeeping mean.
\<close>

section \<open>Ticks partition the snapshots\<close>

fun groups :: "duration \<Rightarrow> Snapshot list \<Rightarrow> Snapshot list \<Rightarrow> Snapshot list list" where
  "groups tolerance g [] = [g]"
| "groups tolerance g (s # ss) =
     (if tolerance < sn_CapturedAt s - sn_CapturedAt (hd g) then g # groups tolerance [s] ss else groups tolerance (g @ [s]) ss)"

definition tick_of :: "Snapshot list \<Rightarrow> Tick" where
  "tick_of g = foldl (\<lambda>tick s. add_snapshot s tick) (new_tick (sn_CapturedAt (hd g))) g"

lemma tick_of_timestamp: "tk_Timestamp (foldl (\<lambda>tick s. add_snapshot s tick) tick g) = tk_Timestamp tick"
  by (induction g arbitrary: tick) (simp_all add: add_snapshot_def)

lemma tick_of_snoc: "g \<noteq> [] \<Longrightarrow> tick_of (g @ [s]) = add_snapshot s (tick_of g)"
  by (simp add: tick_of_def)

lemma groups_nonempty: "groups tolerance g ss \<noteq> []"
  by (induction ss arbitrary: g) simp_all

lemma group_loop_groups:
  assumes "0 \<le> tolerance" "tolerance < 2 ^ 63 - 1" "g \<noteq> []"
  shows "group_loop tolerance ss ticks (tick_of g) = (ticks @ map tick_of (butlast (groups tolerance g ss)), tick_of (last (groups tolerance g ss)))"
  using assms(3)
proof (induction ss arbitrary: ticks g)
  case (Cons s ss)
  have "tk_Timestamp (tick_of g) = sn_CapturedAt (hd g)" by (simp add: tick_of_def tick_of_timestamp new_tick_def)
  moreover have "tolerance < time_Sub (sn_CapturedAt s) t \<longleftrightarrow> tolerance < sn_CapturedAt s - t" for t
    using assms(1,2) by (intro time_Sub_greater_iff) simp_all
  moreover have "add_snapshot s (new_tick (sn_CapturedAt s)) = tick_of [s]" by (simp add: tick_of_def)
  ultimately show ?case
    using Cons.IH [of "[s]"] Cons.IH [of "g @ [s]"] Cons.prems groups_nonempty [of tolerance "[s]" ss] by (simp add: tick_of_snoc)
qed simp

lemma groups_concat: "concat (groups tolerance g ss) = g @ ss"
  by (induction ss arbitrary: g) simp_all

lemma groups_properties:
  assumes "g \<noteq> []" "sorted (map sn_CapturedAt (g @ ss))" "\<forall>s \<in> set g. sn_CapturedAt s - sn_CapturedAt (hd g) \<le> tolerance"
  shows "(\<forall>h \<in> set (groups tolerance g ss). h \<noteq> [] \<and> (\<forall>s \<in> set h. sn_CapturedAt (hd h) \<le> sn_CapturedAt s \<and> sn_CapturedAt s - sn_CapturedAt (hd h) \<le> tolerance))
    \<and> sorted_wrt (\<lambda>h h'. tolerance < sn_CapturedAt (hd h') - sn_CapturedAt (hd h)) (groups tolerance g ss)"
  using assms
proof (induction ss arbitrary: g)
  case Nil
  have "sn_CapturedAt (hd g) \<le> sn_CapturedAt s" if "s \<in> set g" for s using Nil.prems(1,2) that by (cases g) auto
  then show ?case using Nil.prems by simp
next
  case (Cons s ss)
  show ?case
  proof (cases "tolerance < sn_CapturedAt s - sn_CapturedAt (hd g)")
    case False
    then have "\<forall>x \<in> set (g @ [s]). sn_CapturedAt x - sn_CapturedAt (hd (g @ [s])) \<le> tolerance" using Cons.prems by simp
    then show ?thesis using Cons.IH [of "g @ [s]"] Cons.prems False by simp
  next
    case True
    have "0 \<le> tolerance" using Cons.prems(1,3) by (cases g) auto
    then have IH: "(\<forall>h \<in> set (groups tolerance [s] ss). h \<noteq> [] \<and> (\<forall>x \<in> set h. sn_CapturedAt (hd h) \<le> sn_CapturedAt x \<and> sn_CapturedAt x - sn_CapturedAt (hd h) \<le> tolerance))
        \<and> sorted_wrt (\<lambda>h h'. tolerance < sn_CapturedAt (hd h') - sn_CapturedAt (hd h)) (groups tolerance [s] ss)"
      using Cons.prems(2) by (intro Cons.IH) (simp_all add: sorted_append)
    have first: "sn_CapturedAt (hd g) \<le> sn_CapturedAt x" if "x \<in> set g" for x using Cons.prems(1,2) that by (cases g) auto
    have later: "tolerance < sn_CapturedAt (hd h) - sn_CapturedAt (hd g)" if h: "h \<in> set (groups tolerance [s] ss)" for h
    proof -
      have "hd h \<in> set h" using IH h by simp
      then have "hd h \<in> set (concat (groups tolerance [s] ss))" using h by auto
      then have "hd h \<in> set (s # ss)" by (simp add: groups_concat)
      then have "sn_CapturedAt s \<le> sn_CapturedAt (hd h)" using Cons.prems(2) by (auto simp: sorted_append)
      then show ?thesis using True by linarith
    qed
    show ?thesis using IH Cons.prems(1,3) True first later by simp
  qed
qed

lemma tick_of_data:
  "tk_Data (foldl (\<lambda>tick s. add_snapshot s tick) tick g) k = Some md \<Longrightarrow>
     tk_Data tick k = Some md \<or> (\<exists>s \<in> set g. k = sn_Venue s @ '':'' @ sn_MarketID s \<and> md = snapshot_data s)"
  by (induction g arbitrary: tick) (fastforce simp: add_snapshot_def split: if_splits)+

text \<open>
  Ticks partition the snapshots. However \<^verbatim>\<open>sort.Slice\<close> orders snapshots of equal time, the ticks made of a non-empty
  list correspond to consecutive groups that together are all its snapshots: each group is not empty and has the time of
  its first snapshot, which none of its snapshots exceeds by more than the tolerance; the times of any two
  ticks differ by more than the tolerance, in order; and every quote of a tick stands under its own venue and market
  and is one of the group's snapshots.
\<close>

theorem ticks_partition_snapshots:
  assumes "snapshots \<noteq> []" "mset (sort_slice snapshots) = mset snapshots" "sorted (map sn_CapturedAt (sort_slice snapshots))"
    and "0 \<le> tolerance" "tolerance < 2 ^ 63 - 1"
  shows "sorted_wrt (\<lambda>t t'. tolerance < tk_Timestamp t' - tk_Timestamp t) (GroupByTimestamp sort_slice snapshots tolerance)
    \<and> (\<exists>gs. mset (concat gs) = mset snapshots \<and> GroupByTimestamp sort_slice snapshots tolerance = map tick_of gs
    \<and> (\<forall>g \<in> set gs. g \<noteq> [] \<and> tk_Timestamp (tick_of g) = sn_CapturedAt (hd g)
        \<and> (\<forall>s \<in> set g. tk_Timestamp (tick_of g) \<le> sn_CapturedAt s \<and> sn_CapturedAt s - tk_Timestamp (tick_of g) \<le> tolerance)
        \<and> keyed_tick (tick_of g) \<and> (\<forall>k md. tk_Data (tick_of g) k = Some md \<longrightarrow> (\<exists>s \<in> set g. md = snapshot_data s))))"
proof -
  have "sort_slice snapshots \<noteq> []" using assms(1,2) by (metis mset_zero_iff)
  then obtain s ss where sorted_snapshots: "sort_slice snapshots = s # ss" by (cases "sort_slice snapshots") auto
  define gs where "gs = groups tolerance [s] ss"
  have stamp: "tk_Timestamp (tick_of g) = sn_CapturedAt (hd g)" for g by (simp add: tick_of_def tick_of_timestamp new_tick_def)
  have first: "group_loop tolerance (s # ss) [] (new_tick (sn_CapturedAt s)) = group_loop tolerance ss [] (tick_of [s])"
    using assms(4) by (simp add: tick_of_def new_tick_def time_Sub_def)
  have loop: "group_loop tolerance ss [] (tick_of [s]) = (map tick_of (butlast gs), tick_of (last gs))"
    using assms(4,5) by (simp add: group_loop_groups gs_def)
  have "map tick_of (butlast gs) @ [tick_of (last gs)] = map tick_of (butlast gs @ [last gs])" by simp
  also have "\<dots> = map tick_of gs" using groups_nonempty [of tolerance "[s]" ss] by (simp add: gs_def)
  finally have grouped: "GroupByTimestamp sort_slice snapshots tolerance = map tick_of gs"
    unfolding GroupByTimestamp_def sorted_snapshots list.sel if_not_P [OF assms(1)] Let_def first loop split_conv .
  have props: "(\<forall>g \<in> set gs. g \<noteq> [] \<and> (\<forall>s \<in> set g. sn_CapturedAt (hd g) \<le> sn_CapturedAt s \<and> sn_CapturedAt s - sn_CapturedAt (hd g) \<le> tolerance))
      \<and> sorted_wrt (\<lambda>h h'. tolerance < sn_CapturedAt (hd h') - sn_CapturedAt (hd h)) gs"
    unfolding gs_def using assms(3,4) sorted_snapshots by (intro groups_properties) simp_all
  have quotes: "\<exists>s \<in> set g. k = sn_Venue s @ '':'' @ sn_MarketID s \<and> md = snapshot_data s" if "tk_Data (tick_of g) k = Some md" for g k md
    using tick_of_data that unfolding tick_of_def by (fastforce simp: new_tick_def)
  then have keyed: "keyed_tick (tick_of g)" for g unfolding keyed_tick_def by (fastforce simp: snapshot_data_def)
  have from_group: "\<forall>k md. tk_Data (tick_of g) k = Some md \<longrightarrow> (\<exists>s \<in> set g. md = snapshot_data s)" for g using quotes by fast
  have each: "\<forall>g \<in> set gs. g \<noteq> [] \<and> sn_CapturedAt (hd g) = sn_CapturedAt (hd g)
        \<and> (\<forall>s \<in> set g. sn_CapturedAt (hd g) \<le> sn_CapturedAt s \<and> sn_CapturedAt s - sn_CapturedAt (hd g) \<le> tolerance)
        \<and> keyed_tick (tick_of g) \<and> (\<forall>k md. tk_Data (tick_of g) k = Some md \<longrightarrow> (\<exists>s \<in> set g. md = snapshot_data s))"
    using props [THEN conjunct1] keyed from_group by simp
  have "mset (concat gs) = mset snapshots" using assms(2) by (simp add: gs_def groups_concat sorted_snapshots)
  then show ?thesis
    unfolding grouped stamp sorted_wrt_map using props [THEN conjunct2] each by (intro conjI exI [of _ gs]) (rule refl | assumption)+
qed

definition sample_snapshot :: "string \<Rightarrow> time \<Rightarrow> Snapshot" where
  "sample_snapshot mk t = \<lparr>sn_Venue = ''kalshi'', sn_MarketID = mk, sn_CapturedAt = t, sn_BidPriceMicros = 300000, sn_AskPriceMicros = 310000,
     sn_BidDepth = 0, sn_AskDepth = 0, sn_Volume = 10\<rparr>"

theorem ticks_partition_snapshots_witness:
  "sorted_wrt (\<lambda>t t'. 5 < tk_Timestamp t' - tk_Timestamp t)
     (GroupByTimestamp (\<lambda>xs. xs) [sample_snapshot ''A'' 100, sample_snapshot ''B'' 103, sample_snapshot ''A'' 110] 5)
   \<and> length (GroupByTimestamp (\<lambda>xs. xs) [sample_snapshot ''A'' 100, sample_snapshot ''B'' 103, sample_snapshot ''A'' 110] 5) = 2"
proof
  show "sorted_wrt (\<lambda>t t'. 5 < tk_Timestamp t' - tk_Timestamp t)
     (GroupByTimestamp (\<lambda>xs. xs) [sample_snapshot ''A'' 100, sample_snapshot ''B'' 103, sample_snapshot ''A'' 110] 5)"
    using ticks_partition_snapshots [of "[sample_snapshot ''A'' 100, sample_snapshot ''B'' 103, sample_snapshot ''A'' 110]" "\<lambda>xs. xs" 5, THEN conjunct1]
    by (simp add: sample_snapshot_def)
qed (simp add: GroupByTimestamp_def sample_snapshot_def time_Sub_def new_tick_def add_snapshot_def)


section \<open>Profit and loss of a sale\<close>

text \<open>
  The profit booked for selling out of a long position is the sold share of proceeds minus cost, rounded up by
  less than a micro-dollar per contract: with \<open>n\<close> contracts held at a cost of \<open>N\<close>, selling \<open>q\<close> of them at price \<open>p\<close> books
  at least \<open>q * (p - N / n)\<close> and less than \<open>q\<close> more.
\<close>

theorem realised_pnl_bound:
  assumes "st_Markets st (venue @ '':'' @ marketID @ '':'' @ strategyID) = Some ms"
    and pos: "0 < sint (ms_PositionContracts ms)" and q: "0 < sint q" "sint q \<le> sint (ms_PositionContracts ms)"
    and cost: "0 \<le> sint (ms_PositionNotional ms)" "sint (ms_PositionNotional ms) \<le> sint (ms_PositionContracts ms) * 1000000"
    and price: "0 \<le> sint fillPrice" "sint fillPrice \<le> 1000000"
  shows "sint q * (sint fillPrice * sint (ms_PositionContracts ms) - sint (ms_PositionNotional ms))
        \<le> sint (ms_PositionContracts ms) * sint (computePnL SideSell q fillPrice st venue marketID strategyID)
    \<and> sint (ms_PositionContracts ms) * sint (computePnL SideSell q fillPrice st venue marketID strategyID)
        < sint q * (sint fillPrice * sint (ms_PositionContracts ms) - sint (ms_PositionNotional ms)) + sint q * sint (ms_PositionContracts ms)"
proof -
  let ?n = "sint (ms_PositionContracts ms)" and ?N = "sint (ms_PositionNotional ms)" and ?q = "sint q" and ?p = "sint fillPrice"
  have avg: "sint (go_div (ms_PositionNotional ms) (scast (ms_PositionContracts ms)) :: int64) = ?N div ?n"
    using sint_go_div_nonneg [of "ms_PositionNotional ms" "scast (ms_PositionContracts ms)"] pos cost by simp
  have d: "0 \<le> ?N div ?n" "?N div ?n \<le> 1000000"
    using pos cost zdiv_mono1 [of ?N "?n * 1000000" ?n] by (simp_all add: pos_imp_zdiv_nonneg_iff mult.commute)
  have diff: "sint (fillPrice - go_div (ms_PositionNotional ms) (scast (ms_PositionContracts ms))) = ?p - ?N div ?n"
    using price d by (subst sint64_sub) (simp_all add: avg)
  have "?q \<le> 2147483648" using sint32_less [of q] by linarith
  then have "\<bar>?q * (?p - ?N div ?n)\<bar> \<le> 2147483648 * 1000000"
    unfolding abs_mult using q price d by (intro mult_mono) simp_all
  then have pnl: "sint (computePnL SideSell q fillPrice st venue marketID strategyID) = ?q * (?p - ?N div ?n)"
    using assms(1) pos q by (simp add: computePnL_def Let_def sint64_mult diff abs_le_iff)
  define k where "k = ?N div ?n"
  define m where "m = ?N mod ?n"
  have N: "?N = k * ?n + m" "0 \<le> m" "m < ?n" using pos by (simp_all add: k_def m_def)
  have "?n * (?q * (?p - k)) = ?q * (?p * ?n - ?N) + ?q * m" unfolding N(1) by (simp add: algebra_simps)
  moreover have "0 \<le> ?q * m" "?q * m < ?q * ?n" using N q by simp_all
  ultimately show ?thesis unfolding pnl k_def [symmetric] by simp
qed

theorem realised_pnl_bound_witness:
  "3 * sint (computePnL SideSell 2 500000 (NewEmptyState\<lparr>st_Markets := [''v:m:s'' \<mapsto> \<lparr>ms_PositionContracts = 3, ms_PositionNotional = 1000000, ms_StrategyID = ''s''\<rparr>]\<rparr>)
     ''v'' ''m'' ''s'') < 1000006"
  using realised_pnl_bound [of "NewEmptyState\<lparr>st_Markets := [''v:m:s'' \<mapsto> \<lparr>ms_PositionContracts = 3, ms_PositionNotional = 1000000, ms_StrategyID = ''s''\<rparr>]\<rparr>"
      "''v''" "''m''" "''s''" "\<lparr>ms_PositionContracts = 3, ms_PositionNotional = 1000000, ms_StrategyID = ''s''\<rparr>" 2 500000]
  by simp

text \<open>
  The same does not hold for short positions: their notional is negative, so the average entry is, and buying back at a
  profit books a loss. One contract sold at 70 cents and bought at 30 is booked as a loss of a dollar.
\<close>

lemma short_profit_booked_as_loss:
  "sint (computePnL SideBuy 1 300000
     (updateState (buildOrder t (sample_signal SideSell 700000 x) sample_config ts) 1 700000 NewEmptyState) ''mock'' ''KX-1'' ''simple-momentum'') = - 1000000"
  by (simp add: computePnL_def updateState_def buildOrder_def sample_signal_def sample_config_def NewEmptyState_def go_div_def Let_def)

text \<open>
  Nor after a partial sale, which takes the proceeds and not the cost out of the notional. Of 10 contracts bought at 40
  cents, 5 are sold at 60 cents: the 5 left are carried at 20 cents each.
\<close>

lemma partial_sale_moves_cost:
  assumes "st_Markets st ''mock:KX-1:simple-momentum'' = Some \<lparr>ms_PositionContracts = 10, ms_PositionNotional = 4000000, ms_StrategyID = s\<rparr>"
  shows "st_Markets (updateState (buildOrder t (sample_signal SideSell 600000 x) sample_config ts) 5 600000 st) ''mock:KX-1:simple-momentum''
    = Some \<lparr>ms_PositionContracts = 5, ms_PositionNotional = 5 * 200000, ms_StrategyID = s\<rparr>"
  using assms by (simp add: updateState_def buildOrder_def sample_signal_def sample_config_def map_get_def Let_def)


section \<open>What the runner does not track\<close>

text \<open>The total exposure is that of the market traded last, whatever is held elsewhere.\<close>

lemma exposure_of_last_market:
  "st_TotalExposure (updateState order q p st) =
     Money_Abs (ms_PositionNotional (the (st_Markets (updateState order q p st) (o_Venue order @ '':'' @ o_MarketID order @ '':'' @ o_StrategyID order))))"
  by (simp add: updateState_def Let_def)

text \<open>
  The key a trade is remembered under is not the one the duplicate check looks up, so in a backtest the same order passes
  it again at once.
\<close>

lemma colon_split: "CHR '':'' \<notin> set a \<Longrightarrow> CHR '':'' \<notin> set b \<Longrightarrow> a @ CHR '':'' # x = b @ CHR '':'' # y \<longleftrightarrow> a = b \<and> x = y"
  by (induction a arbitrary: b) (case_tac b; auto)+

lemma backtest_duplicates_missed:
  assumes "CHR '':'' \<notin> set (o_Venue order)" "CHR '':'' \<notin> set (o_MarketID order)" "o_Venue order \<noteq> o_MarketID order"
  shows "st_RecentOrderKeys (updateState order q p st) (IdempotencyKey order) = st_RecentOrderKeys st (IdempotencyKey order)"
proof -
  have "IdempotencyKey order \<noteq> backtest_key order"
    using assms by (simp add: IdempotencyKey_def backtest_key_def colon_split)
  then show ?thesis by (simp add: updateState_def Let_def)
qed

text \<open>
  The only registered strategy proposes at the mid price, which the deterministic filler fills only on the other side's
  quote: at a spread of two micro-dollars or more no order of it is ever filled.
\<close>

lemma momentum_never_fills:
  assumes "sane_quote md" "sig \<in> set (momentum_signal md)" "2 \<le> sint (md_AskPriceMicros md) - sint (md_BidPriceMicros md)"
  shows "SimulateFill (buildOrder traceID sig cfg ts) (Some md) = (0, 0)"
proof -
  let ?b = "sint (md_BidPriceMicros md)" and ?a = "sint (md_AskPriceMicros md)"
  have mid: "sint (MidPriceMicros md) = (?b + ?a) div 2" using assms(1) by (simp add: sint_MidPriceMicros)
  then have "?b < sint (MidPriceMicros md)" "sint (MidPriceMicros md) < ?a" using assms(3) by linarith+
  moreover have "sg_PriceMicros sig = MidPriceMicros md" using assms(2) in_momentum_signal [OF assms(1)] by blast
  ultimately show ?thesis by (simp add: SimulateFill_def buildOrder_def)
qed


section \<open>The scraper\<close>

text \<open>A scrape: the API's answer (None when the request failed), the time, the table. The depths are not recorded.\<close>

definition scraped :: "time \<Rightarrow> KalshiMarket \<Rightarrow> Snapshot" where
  "scraped now mkt =
     \<lparr>sn_Venue = ''kalshi'', sn_MarketID = kx_Ticker mkt, sn_CapturedAt = now, sn_BidPriceMicros = kx_YesBid mkt * 10000,
      sn_AskPriceMicros = kx_YesAsk mkt * 10000, sn_BidDepth = 0, sn_AskDepth = 0, sn_Volume = kx_Volume mkt\<rparr>"

fun scrape_markets :: "faults \<Rightarrow> time \<Rightarrow> KalshiMarket list \<Rightarrow> Snapshot list \<times> nat \<Rightarrow> Snapshot list \<times> nat" where
  "scrape_markets flt now [] acc = acc"
| "scrape_markets flt now (mkt # mkts) (rows, inserted) =
     (if kx_Status mkt \<noteq> ''open'' then scrape_markets flt now mkts (rows, inserted)
      else if flt (Db ''backtest.market_snapshots'' (kx_Ticker mkt)) then scrape_markets flt now mkts (rows, inserted)
      else scrape_markets flt now mkts (rows @ [scraped now mkt], Suc inserted))"

definition scrapeOnce :: "faults \<Rightarrow> KalshiMarket list option \<Rightarrow> time \<Rightarrow> Snapshot list \<Rightarrow> Snapshot list" where
  "scrapeOnce flt answer now rows = (case answer of None \<Rightarrow> rows | Some mkts \<Rightarrow> fst (scrape_markets flt now mkts (rows, 0)))"

text \<open>The statuses of the API are \<^verbatim>\<open>active\<close>, \<^verbatim>\<open>closed\<close> and \<^verbatim>\<open>settled\<close>: nothing is ever recorded.\<close>

lemma scraper_records_nothing:
  assumes "\<forall>mkt \<in> set mkts. kx_Status mkt \<in> {''active'', ''closed'', ''settled''}"
  shows "scrapeOnce flt (Some mkts) now rows = rows"
proof -
  have "scrape_markets flt now mkts (rows, n) = (rows, n)" for n using assms by (induction mkts) auto
  then show ?thesis by (simp add: scrapeOnce_def)
qed

end
