(* ===== verification/Backtest_Metrics.thy ===== *)
theory Backtest_Metrics
  imports Backtest
begin

text \<open>
  The metrics of a backtest (\<^verbatim>\<open>services/backtest/metrics.go\<close>), the runner's result (\<^verbatim>\<open>runner.go\<close>) and its printed
  table (\<^verbatim>\<open>output.go\<close>). \<^verbatim>\<open>math.Sqrt\<close> is the correctly rounded square root.
\<close>

section \<open>Square roots\<close>

fun isqrt :: "nat \<Rightarrow> nat" where
  "isqrt n = (if n = 0 then 0 else let r = 2 * isqrt (n div 4) in if (r + 1) * (r + 1) \<le> n then r + 1 else r)"

declare isqrt.simps [simp del]

lemma isqrt_bounds: "isqrt n * isqrt n \<le> n \<and> n < (isqrt n + 1) * (isqrt n + 1)"
proof (induction n rule: isqrt.induct)
  case (1 n)
  show ?case
  proof (cases "n = 0")
    case False
    define r where "r = isqrt (n div 4)"
    have IH: "r * r \<le> n div 4" "n div 4 < (r + 1) * (r + 1)" using 1 False by (simp_all add: r_def)
    have n: "n = 4 * (n div 4) + n mod 4" "n mod 4 < 4" by simp_all
    have "2 * r * (2 * r) \<le> n" using IH(1) n(1) by (simp add: algebra_simps)
    moreover have "n < (2 * r + 2) * (2 * r + 2)"
    proof -
      have "n div 4 + 1 \<le> (r + 1) * (r + 1)" using IH(2) by simp
      then have "4 * (n div 4) + 4 \<le> 4 * ((r + 1) * (r + 1))" by simp
      also have "\<dots> = (2 * r + 2) * (2 * r + 2)" by (simp add: algebra_simps)
      finally show ?thesis using n by linarith
    qed
    ultimately show ?thesis using False by (subst (1 2 3 4) isqrt.simps) (simp add: r_def [symmetric] Let_def)
  qed (simp add: isqrt.simps)
qed

text \<open>The significand has 53 bits: \<open>x / 4 ^ g\<close> lies between \<open>2 ^ 104\<close> and \<open>2 ^ 106\<close>.\<close>

definition sqrt_pos :: "rat \<Rightarrow> rat" where
  "sqrt_pos x =
     (let g = (fexp x - 52) div 2; y = x / 4 powi g; f = isqrt (nat \<lfloor>y\<rfloor>)
      in of_nat (if of_nat (f * f + f) + 1 / 4 < y then f + 1 else f) * 2 powi g)"

fun f_sqrt :: "float64 \<Rightarrow> float64" where
  "f_sqrt (Fin x) = (if x < 0 then NaN else if x = 0 then Fin 0 else Fin (sqrt_pos x))"
| "f_sqrt PosInf = PosInf"
| "f_sqrt x = NaN"

text \<open>The result is the nearest multiple of its last bit: off by at most half of it.\<close>

lemma sqrt_pos_rounded:
  assumes "0 < x"
  shows "\<exists>s g. sqrt_pos x = of_nat s * 2 powi g \<and> 2 ^ 52 \<le> s \<and> s \<le> 2 ^ 53
    \<and> (of_nat s - 1 / 2) * (of_nat s - 1 / 2) \<le> x / 4 powi g \<and> x / 4 powi g \<le> (of_nat s + 1 / 2) * (of_nat s + 1 / 2)"
proof -
  define g where "g = (fexp x - 52) div 2"
  define y where "y = x / 4 powi g"
  define f where "f = isqrt (nat \<lfloor>y\<rfloor>)"
  define s where "s = (if of_nat (f * f + f) + 1 / 4 < y then f + 1 else f)"
  have four: "(4 :: rat) powi g = 2 powi (2 * g)" by (simp add: power_int_mult)
  have g: "2 * g \<le> fexp x - 52" "fexp x - 52 \<le> 2 * g + 1" by (simp_all add: g_def)
  have "(2 :: rat) ^ 104 * 2 powi (2 * g) = 2 powi (104 + 2 * g)" by (simp add: power_int_add)
  also have "\<dots> \<le> 2 powi (fexp x + 52)" using g by (intro power_int_increasing) simp_all
  also have "\<dots> \<le> x" using assms by (rule fexp_bounds(1))
  finally have lo: "2 ^ 104 \<le> y" unfolding y_def four by (simp add: field_simps)
  have "x < 2 powi (fexp x + 53)" using assms by (rule fexp_bounds(2))
  also have "\<dots> \<le> 2 powi (106 + 2 * g)" using g by (intro power_int_increasing) simp_all
  also have "\<dots> = (2 :: rat) ^ 106 * 2 powi (2 * g)" by (simp add: power_int_add)
  finally have hi: "y < 2 ^ 106" unfolding y_def four by (simp add: field_simps)
  have fl: "of_nat (nat \<lfloor>y\<rfloor>) \<le> y" "y < of_nat (nat \<lfloor>y\<rfloor>) + 1" using lo floor_correct [of y] by simp_all
  have sq: "f * f \<le> nat \<lfloor>y\<rfloor>" "nat \<lfloor>y\<rfloor> < (f + 1) * (f + 1)" using isqrt_bounds [of "nat \<lfloor>y\<rfloor>"] by (simp_all add: f_def)
  have below: "of_nat (f * f) \<le> y" using sq(1) fl(1) by (meson of_nat_mono order_trans)
  have "nat \<lfloor>y\<rfloor> + 1 \<le> (f + 1) * (f + 1)" using sq(2) by simp
  then have "(of_nat (nat \<lfloor>y\<rfloor> + 1) :: rat) \<le> of_nat ((f + 1) * (f + 1))" by (simp only: of_nat_le_iff)
  then have above: "y < of_nat ((f + 1) * (f + 1))" using fl(2) by simp
  have f: "2 ^ 52 \<le> f" "f < 2 ^ 53"
  proof -
    have "(of_nat (2 ^ 104) :: rat) < of_nat ((f + 1) * (f + 1))" using lo above by simp
    then have "2 ^ 52 * 2 ^ 52 < (f + 1) * (f + 1)" by (simp only: of_nat_less_iff) simp
    then show "2 ^ 52 \<le> f" by (metis Suc_eq_plus1 less_Suc_eq_le linorder_not_less mult_le_mono)
    have "(of_nat (f * f) :: rat) < of_nat (2 ^ 106)" using hi below by simp
    then have "f * f < 2 ^ 53 * 2 ^ 53" by (simp only: of_nat_less_iff) simp
    then show "f < 2 ^ 53" by (metis linorder_not_less mult_le_mono)
  qed
  have "(of_nat s - 1 / 2) * (of_nat s - 1 / 2) \<le> y \<and> y \<le> (of_nat s + 1 / 2) * (of_nat s + 1 / 2)"
  proof -
    have "(1 :: nat) \<le> 2 ^ 52" by (rule one_le_power) simp
    then have "1 \<le> f" using f(1) by (rule order_trans)
    then have "(of_nat 1 :: rat) \<le> of_nat f" by (rule of_nat_mono)
    then have "(1 :: rat) \<le> of_nat f" by (simp only: of_nat_1)
    then show ?thesis using below above by (simp add: s_def algebra_simps)
  qed
  moreover have "2 ^ 52 \<le> s" "s \<le> 2 ^ 53" using f by (simp_all add: s_def)
  moreover have "sqrt_pos x = of_nat s * 2 powi g" by (simp add: sqrt_pos_def Let_def g_def y_def f_def s_def)
  ultimately show ?thesis unfolding y_def by blast
qed


section \<open>Metrics\<close>

record BacktestMetrics =
  bm_TotalReturn :: float64
  bm_SharpeRatio :: float64
  bm_MaxDrawdown :: float64
  bm_WinRate :: float64
  bm_ProfitFactor :: float64
  bm_TradeCount :: int64
  bm_TotalPnL :: int64

definition f_sub :: "float64 \<Rightarrow> float64 \<Rightarrow> float64" where
  "f_sub x y = f_add x (f_mul (Fin (- 1)) y)"

fun drawdown_loop :: "int64 list \<Rightarrow> int64 \<Rightarrow> float64 \<Rightarrow> float64" where
  "drawdown_loop [] peak maxDD = maxDD"
| "drawdown_loop (eq # eqs) peak maxDD =
     (let peak = (if sint peak < sint eq then eq else peak) in
      if 0 < sint peak then
        let dd = f_div (f_of_int (sint (peak - eq))) (f_of_int (sint peak))
        in drawdown_loop eqs peak (if f_less maxDD dd then dd else maxDD)
      else drawdown_loop eqs peak maxDD)"

definition ComputeMaxDrawdown :: "int64 list \<Rightarrow> float64" where
  "ComputeMaxDrawdown equityCurve = (if length equityCurve < 2 then Fin 0 else drawdown_loop equityCurve (hd equityCurve) (Fin 0))"

definition ComputeSharpe :: "Trade list \<Rightarrow> int64 \<Rightarrow> float64" where
  "ComputeSharpe trades initialCapital =
     (if length trades < 2 \<or> initialCapital = 0 then Fin 0
      else
        let returns = map (\<lambda>t. f_div (f_of_int (sint (tr_PnLMicros t))) (f_of_int (sint initialCapital))) trades;
            n = f_of_int (int (length returns));
            mean = f_div (foldl f_add (Fin 0) returns) n;
            variance = foldl (\<lambda>v r. let d = f_sub r mean in f_add v (f_mul d d)) (Fin 0) returns;
            variance = f_div variance (f_of_int (int (length returns) - 1));
            stddev = f_sqrt variance
        in if stddev = Fin 0 then Fin 0 else f_mul (f_div mean stddev) (f_sqrt (f_of_int 252)))"

record trade_sums =
  ts_totalPnL :: int64
  ts_wins :: int64
  ts_losses :: int64
  ts_grossProfit :: int64
  ts_grossLoss :: int64

definition add_trade :: "trade_sums \<Rightarrow> Trade \<Rightarrow> trade_sums" where
  "add_trade s t =
     (let p = tr_PnLMicros t; s = s\<lparr>ts_totalPnL := ts_totalPnL s + p\<rparr> in
      if 0 < sint p then s\<lparr>ts_wins := ts_wins s + 1, ts_grossProfit := ts_grossProfit s + p\<rparr>
      else if sint p < 0 then s\<lparr>ts_losses := ts_losses s + 1, ts_grossLoss := ts_grossLoss s + (- p)\<rparr>
      else s)"

definition trade_totals :: "Trade list \<Rightarrow> trade_sums" where
  "trade_totals trades =
     foldl add_trade \<lparr>ts_totalPnL = 0, ts_wins = 0, ts_losses = 0, ts_grossProfit = 0, ts_grossLoss = 0\<rparr> trades"

definition no_metrics :: "Trade list \<Rightarrow> BacktestMetrics" where
  "no_metrics trades = \<lparr>bm_TotalReturn = Fin 0, bm_SharpeRatio = Fin 0, bm_MaxDrawdown = Fin 0, bm_WinRate = Fin 0, bm_ProfitFactor = Fin 0,
     bm_TradeCount = word_of_nat (length trades), bm_TotalPnL = 0\<rparr>"

definition ComputeFromTrades :: "Trade list \<Rightarrow> int64 list \<Rightarrow> int64 \<Rightarrow> BacktestMetrics" where
  "ComputeFromTrades trades equityCurve initialCapital =
     (let m = no_metrics trades in
      if trades = [] then m
      else let s = trade_totals trades in
        m\<lparr>bm_TotalPnL := ts_totalPnL s,
          bm_TotalReturn := (if 0 < sint initialCapital then f_div (f_of_int (sint (ts_totalPnL s))) (f_of_int (sint initialCapital)) else Fin 0),
          bm_WinRate := f_div (f_of_int (sint (ts_wins s))) (f_of_int (int (length trades))),
          bm_ProfitFactor := (if 0 < sint (ts_grossLoss s) then f_div (f_of_int (sint (ts_grossProfit s))) (f_of_int (sint (ts_grossLoss s))) else Fin 0),
          bm_MaxDrawdown := ComputeMaxDrawdown equityCurve,
          bm_SharpeRatio := ComputeSharpe trades initialCapital\<rparr>)"


section \<open>The result of a run\<close>

record RunResult =
  rr_Config :: RunConfig
  rr_Metrics :: BacktestMetrics
  rr_Trades :: "Trade list"
  rr_EquityCurve :: "int64 list"
  rr_Duration :: duration

definition Run :: "time \<Rightarrow> duration \<Rightarrow> (nat \<Rightarrow> tick_env) \<Rightarrow> RunConfig \<Rightarrow> (backtest_error, RunResult) result" where
  "Run now took te cfg =
     (case backtest_loop now te cfg of Inl err \<Rightarrow> Inl err
      | Inr r \<Rightarrow> Inr \<lparr>rr_Config = cfg, rr_Metrics = ComputeFromTrades (bt_trades r) (bt_curve r) (rc_InitialCapital cfg),
          rr_Trades = bt_trades r, rr_EquityCurve = bt_curve r, rr_Duration = took\<rparr>)"

text \<open>The lines of \<^verbatim>\<open>PrintTable\<close>; \<open>duration\<close> is the duration as Go prints it.\<close>

definition usd :: "int64 \<Rightarrow> string" where
  "usd m = show_float 2 (f_div (f_of_int (sint m)) (f_of_int 1000000))"

definition percent :: "nat \<Rightarrow> float64 \<Rightarrow> string" where
  "percent k x = show_float k (f_mul x (f_of_int 100)) @ ''%''"

definition trade_line :: "Trade \<Rightarrow> string" where
  "trade_line t = ''  '' @ tr_Side t @ '' '' @ tr_MarketID t @ '' '' @ show_int (sint (tr_Quantity t)) @ '' @ $'' @ usd (tr_PriceMicros t)
     @ ''  P&L: $'' @ usd (tr_PnLMicros t)"

definition PrintTable :: "string \<Rightarrow> RunResult \<Rightarrow> string list" where
  "PrintTable duration r =
     (let c = rr_Config r; m = rr_Metrics r; trades = rr_Trades r in
      [''=== Backtest Results ==='',
       ''Strategy:        '' @ rc_StrategyName c,
       ''Venue:           '' @ rc_Venue c,
       ''Fill mode:       '' @ rc_FillMode c,
       ''Initial capital: $'' @ usd (rc_InitialCapital c),
       ''Ticks processed: '' @ show_nat (length (rc_Ticks c)),
       ''Duration:        '' @ duration,
       '''',
       ''--- Performance ---'',
       ''Total Return:    '' @ percent 4 (bm_TotalReturn m),
       ''Total P&L:       $'' @ usd (bm_TotalPnL m),
       ''Sharpe Ratio:    '' @ show_float 4 (bm_SharpeRatio m),
       ''Max Drawdown:    '' @ percent 4 (bm_MaxDrawdown m),
       ''Win Rate:        '' @ percent 2 (bm_WinRate m),
       ''Profit Factor:   '' @ (if f_less (Fin 0) (bm_ProfitFactor m) then show_float 4 (bm_ProfitFactor m) else ''N/A''),
       ''Trade Count:     '' @ show_int (sint (bm_TradeCount m))]
      @ (if trades = [] then [] else
           ['''', ''--- Recent Trades (last 20) ---''] @ map trade_line (if 20 < length trades then drop (length trades - 20) trades else trades)))"


section \<open>The maximum drawdown\<close>

text \<open>The relative falls of a curve: from a positive value to a later one.\<close>

definition falls :: "int list \<Rightarrow> rat set" where
  "falls es = {of_int (es ! i - es ! j) / of_int (es ! i) | i j. i \<le> j \<and> j < length es \<and> 0 < es ! i}"

definition max_fall :: "int list \<Rightarrow> rat" where
  "max_fall es = Max (insert 0 (falls es))"

lemma falls_finite: "finite (falls es)"
proof -
  have "falls es \<subseteq> (\<lambda>(i, j). of_int (es ! i - es ! j) / of_int (es ! i)) ` ({..<length es} \<times> {..<length es})"
    by (auto simp: falls_def)
  then show ?thesis by (rule finite_subset) simp
qed

lemma falls_snoc:
  "falls (es @ [e]) = falls es \<union> {of_int (x - e) / of_int x | x. x \<in> set (es @ [e]) \<and> 0 < x}"
proof (intro set_eqI iffI)
  fix d assume "d \<in> falls (es @ [e])"
  then obtain i j where ij: "i \<le> j" "j < Suc (length es)" "0 < (es @ [e]) ! i" "d = of_int ((es @ [e]) ! i - (es @ [e]) ! j) / of_int ((es @ [e]) ! i)"
    by (auto simp: falls_def)
  show "d \<in> falls es \<union> {of_int (x - e) / of_int x | x. x \<in> set (es @ [e]) \<and> 0 < x}"
  proof (cases "j = length es")
    case True
    then have "(es @ [e]) ! i \<in> set (es @ [e])" using ij(1) by (intro nth_mem) simp
    then show ?thesis using ij True by auto
  next
    case False
    then have "i < length es" "j < length es" using ij by simp_all
    then have "es ! i = (es @ [e]) ! i" "es ! j = (es @ [e]) ! j" by (simp_all add: nth_append)
    then have "d \<in> falls es" unfolding falls_def using ij \<open>j < length es\<close> by (intro CollectI exI [of _ i] exI [of _ j]) simp
    then show ?thesis by blast
  qed
next
  fix d assume "d \<in> falls es \<union> {of_int (x - e) / of_int x | x. x \<in> set (es @ [e]) \<and> 0 < x}"
  then consider (old) "d \<in> falls es" | (new) x where "x \<in> set (es @ [e])" "0 < x" "d = of_int (x - e) / of_int x" by blast
  then show "d \<in> falls (es @ [e])"
  proof cases
    case old
    then obtain i j where "i \<le> j" "j < length es" "0 < es ! i" "d = of_int (es ! i - es ! j) / of_int (es ! i)" by (auto simp: falls_def)
    then show ?thesis unfolding falls_def by (intro CollectI exI [of _ i] exI [of _ j]) (simp add: nth_append)
  next
    case new
    then obtain i where "i < Suc (length es)" "(es @ [e]) ! i = x" by (metis in_set_conv_nth length_append_singleton)
    then show ?thesis unfolding falls_def using new by (intro CollectI exI [of _ i] exI [of _ "length es"]) simp
  qed
qed

lemma max_fall_snoc:
  assumes "\<forall>x \<in> set (es @ [e]). 0 \<le> x" "p \<in> set (es @ [e])" "\<forall>x \<in> set (es @ [e]). x \<le> p" "0 < p"
  shows "max_fall (es @ [e]) = max (max_fall es) (of_int (p - e) / of_int p)"
proof -
  let ?new = "{of_int (x - e) / of_int x | x. x \<in> set (es @ [e]) \<and> 0 < x} :: rat set"
  have fin: "finite ?new"
  proof -
    have "?new \<subseteq> (\<lambda>x. of_int (x - e) / of_int x) ` set (es @ [e])" by blast
    then show ?thesis by (rule finite_subset) simp
  qed
  have mem: "of_int (p - e) / of_int p \<in> ?new" using assms(2,4) by blast
  have le: "of_int (x - e) / of_int x \<le> (of_int (p - e) / of_int p :: rat)" if "x \<in> set (es @ [e])" "0 < x" for x
  proof -
    have "x \<le> p" "0 \<le> e" using assms(1,3) that(1) by auto
    then have "(of_int e :: rat) / of_int p \<le> of_int e / of_int x"
      using that(2) assms(4) by (intro divide_left_mono mult_pos_pos) simp_all
    then show ?thesis using that assms(4) by (simp add: diff_divide_distrib)
  qed
  have "Max ?new = of_int (p - e) / of_int p" using fin mem le by (intro Max_eqI) auto
  moreover have "max_fall (es @ [e]) = Max (insert 0 (falls es) \<union> ?new)" by (simp only: max_fall_def falls_snoc Un_insert_left)
  moreover have "Max (insert 0 (falls es) \<union> ?new) = max (Max (insert 0 (falls es))) (Max ?new)"
    using fin mem falls_finite by (intro Max_Un) auto
  ultimately show ?thesis by (simp only: max_fall_def)
qed

lemma max_fall_zero:
  assumes "\<forall>x \<in> set (es @ [e]). x \<le> 0"
  shows "max_fall (es @ [e]) = max_fall es"
proof -
  have "{of_int (x - e) / of_int x | x. x \<in> set (es @ [e]) \<and> 0 < x} = ({} :: rat set)" using assms by fastforce
  then show ?thesis by (simp only: max_fall_def falls_snoc Un_empty_right)
qed

lemma larger_rounded: "(if f_less (Fin (rnd a)) (Fin (rnd b)) then Fin (rnd b) else Fin (rnd a)) = Fin (rnd (max a b))"
  using rnd_mono [of a b] rnd_mono [of b a] by (cases "a \<le> b") (auto simp: max_def)

lemma drawdown_loop_exact:
  assumes "\<forall>e \<in> set (xs @ es). 0 \<le> sint e \<and> sint e \<le> 2 ^ 53" "xs = [] \<longrightarrow> es \<noteq> [] \<and> sint peak = sint (hd es)"
    and "xs \<noteq> [] \<longrightarrow> peak \<in> set xs \<and> (\<forall>e \<in> set xs. sint e \<le> sint peak)"
  shows "drawdown_loop es peak (Fin (rnd (max_fall (map sint xs)))) = Fin (rnd (max_fall (map sint (xs @ es))))"
  using assms
proof (induction es arbitrary: xs peak)
  case (Cons e es)
  define peak' where "peak' = (if sint peak < sint e then e else peak)"
  have pk: "peak' \<in> set (xs @ [e])" "\<forall>x \<in> set (xs @ [e]). sint x \<le> sint peak'"
    unfolding atomize_conj
  proof (cases "xs = []")
    case True
    then have "peak = e" using Cons.prems(2) by (simp add: sint_eq_iff)
    then show "peak' \<in> set (xs @ [e]) \<and> (\<forall>x \<in> set (xs @ [e]). sint x \<le> sint peak')" using True by (simp add: peak'_def)
  next
    case False
    then show "peak' \<in> set (xs @ [e]) \<and> (\<forall>x \<in> set (xs @ [e]). sint x \<le> sint peak')" using Cons.prems(3) by (auto simp: peak'_def)
  qed
  have IH: "drawdown_loop es peak' (Fin (rnd (max_fall (map sint (xs @ [e]))))) = Fin (rnd (max_fall (map sint (xs @ e # es))))"
    using Cons.IH [of "xs @ [e]" peak'] Cons.prems(1) pk by simp
  have nn: "\<forall>x \<in> set (map sint xs @ [sint e]). 0 \<le> x" using Cons.prems(1) by simp
  show ?case
  proof (cases "0 < sint peak'")
    case True
    have range: "0 \<le> sint e" "sint e \<le> sint peak'" "sint peak' \<le> 2 ^ 53"
      using pk Cons.prems(1) by auto
    define d where "d = (of_int (sint peak' - sint e) / of_int (sint peak') :: rat)"
    have "sint (peak' - e) = sint peak' - sint e" using range by (intro sint64_sub) simp_all
    moreover have "(of_int (sint peak') :: rat) \<noteq> 0" unfolding of_int_eq_0_iff using True by simp
    ultimately have dd: "f_div (f_of_int (sint (peak' - e))) (f_of_int (sint peak')) = Fin (rnd d)"
      using range rnd_of_int [of "sint peak' - sint e"] rnd_of_int [of "sint peak'"] by (simp add: f_of_int_def d_def)
    have "sint peak' \<in> set (map sint xs @ [sint e])" "\<forall>x \<in> set (map sint xs @ [sint e]). x \<le> sint peak'" using pk by auto
    from max_fall_snoc [OF nn this True] have m: "max_fall (map sint (xs @ [e])) = max (max_fall (map sint xs)) d" by (simp add: d_def)
    show ?thesis
      unfolding drawdown_loop.simps peak'_def [symmetric] Let_def dd if_P [OF True] larger_rounded m [symmetric] by (rule IH)
  next
    case False
    then have "\<forall>x \<in> set (map sint xs @ [sint e]). x \<le> 0" using pk by fastforce
    from max_fall_zero [OF this] show ?thesis using IH False by (simp add: peak'_def [symmetric] Let_def)
  qed
qed simp

text \<open>
  C34: The maximum drawdown is exact. For an equity curve of at least two values between zero and \<open>2 ^ 53\<close> micros,
  \<^verbatim>\<open>ComputeMaxDrawdown\<close> is the correctly rounded maximum, over all pairs of an earlier positive and a
  later value, of the relative fall between them, and zero if there is none.
\<close>

theorem max_drawdown_exact:
  assumes "2 \<le> length curve" "\<forall>e \<in> set curve. 0 \<le> sint e \<and> sint e \<le> 2 ^ 53"
  shows "ComputeMaxDrawdown curve = Fin (rnd (max_fall (map sint curve)))"
proof -
  have "curve \<noteq> []" using assms(1) by auto
  moreover have "max_fall [] = 0" by (simp add: max_fall_def falls_def)
  ultimately show ?thesis
    using drawdown_loop_exact [of "[]" curve "hd curve"] assms by (simp add: ComputeMaxDrawdown_def)
qed

theorem max_drawdown_exact_witness:
  "ComputeMaxDrawdown [100, 200, 150, 300, 150] = Fin (1 / 2)"
proof -
  have "ComputeMaxDrawdown [100, 200, 150, 300, 150] = Fin (rnd (max_fall [100, 200, 150, 300, 150]))"
    using max_drawdown_exact [of "[100, 200, 150, 300, 150]"] by simp
  moreover have "max_fall ([100, 200, 150, 300] @ [150]) = max (max_fall [100, 200, 150, 300]) (1 / 2)"
    by (subst max_fall_snoc [where p = 300]) simp_all
  moreover have "max_fall ([100, 200, 150] @ [300]) = max (max_fall [100, 200, 150]) 0"
    by (subst max_fall_snoc [where p = 300]) simp_all
  moreover have "max_fall ([100, 200] @ [150]) = max (max_fall [100, 200]) (1 / 4)"
    by (subst max_fall_snoc [where p = 200]) simp_all
  moreover have "max_fall ([100] @ [200]) = max (max_fall [100]) 0" by (subst max_fall_snoc [where p = 200]) simp_all
  moreover have "max_fall ([] @ [100]) = max (max_fall []) 0" by (subst max_fall_snoc [where p = 100]) simp_all
  moreover have "max_fall [] = 0" by (simp add: max_fall_def falls_def)
  moreover have "rnd (1 / 2) = 1 / 2"
    by (rule rnd_exact, unfold representable_def, intro exI [of _ 1] exI [of _ "- 1"]) (simp add: power_int_minus)
  ultimately show ?thesis by simp
qed


section \<open>The outcome of a run\<close>

lemma trade_totals_pnl: "ts_totalPnL (trade_totals trades) = total_pnl trades"
proof (induction trades rule: rev_induct)
  case (snoc t trades)
  then show ?case by (simp add: trade_totals_def add_trade_def Let_def)
qed (simp add: trade_totals_def total_pnl_def)

lemma run_ticks_cancelled:
  "case run_ticks signalFn cfg te ticks r of Inl err \<Rightarrow> err = ContextCancelled \<and> (\<exists>n < length ticks. te_cancelled (te n))
     | Inr _ \<Rightarrow> \<not> (\<exists>n < length ticks. te_cancelled (te n))"
proof (induction ticks arbitrary: te r)
  case (Cons tick ticks)
  show ?case
  proof (cases "te_cancelled (te 0)")
    case True
    then show ?thesis by (auto intro!: exI [of _ 0])
  next
    case False
    then have "(\<exists>n < length (tick # ticks). te_cancelled (te n)) \<longleftrightarrow> (\<exists>n < length ticks. te_cancelled (te (Suc n)))"
      by (auto simp: less_Suc_eq_0_disj)
    then show ?thesis
      using Cons.IH [of "\<lambda>n. te (Suc n)" "simulate_signals cfg (te_wall (te 0)) (te_ids (te 0)) tick (signalFn (te_signals (te 0)) (tk_Data tick)) (begin_tick (te 0) tick r)"] False
      by (simp split: sum.splits)
  qed
qed simp

text \<open>
  C35: Every run ends in one of three ways. It fails with the name of an unregistered strategy, before any tick; or it is
  cancelled, which happens exactly when the context is cancelled at some tick; or it finishes all ticks with a result,
  whose equity curve starts at the initial capital, has one more value for each trade and ends at the initial capital plus the
  total profit and loss of the metrics, which count the trades and give the return on the capital and the
  drawdown of that curve.
\<close>

theorem backtest_outcome:
  "case Run now took te cfg of
     Inl (UnknownStrategy s) \<Rightarrow> s = rc_StrategyName cfg \<and> Registry s = None
   | Inl ContextCancelled \<Rightarrow> Registry (rc_StrategyName cfg) \<noteq> None \<and> (\<exists>n < length (rc_Ticks cfg). te_cancelled (te n))
   | Inr res \<Rightarrow> Registry (rc_StrategyName cfg) \<noteq> None \<and> \<not> (\<exists>n < length (rc_Ticks cfg). te_cancelled (te n))
       \<and> length (rr_EquityCurve res) = Suc (length (rr_Trades res)) \<and> hd (rr_EquityCurve res) = rc_InitialCapital cfg
       \<and> last (rr_EquityCurve res) = rc_InitialCapital cfg + bm_TotalPnL (rr_Metrics res)
       \<and> bm_TradeCount (rr_Metrics res) = word_of_nat (length (rr_Trades res))
       \<and> bm_TotalReturn (rr_Metrics res) = (if rr_Trades res = [] \<or> sint (rc_InitialCapital cfg) \<le> 0 then Fin 0
            else f_div (f_of_int (sint (bm_TotalPnL (rr_Metrics res)))) (f_of_int (sint (rc_InitialCapital cfg))))
       \<and> bm_MaxDrawdown (rr_Metrics res) = ComputeMaxDrawdown (rr_EquityCurve res)"
proof (cases "Registry (rc_StrategyName cfg) = None")
  case True
  then show ?thesis by (simp add: Run_def backtest_loop_def GetStrategy_def)
next
  case False
  then obtain ctor where ctor: "Registry (rc_StrategyName cfg) = Some ctor" by blast
  then have loop: "backtest_loop now te cfg = run_ticks ctor cfg te (rc_Ticks cfg) (bt_start now cfg)"
    by (simp add: backtest_loop_def GetStrategy_def)
  show ?thesis
  proof (cases "backtest_loop now te cfg")
    case (Inl err)
    then show ?thesis using run_ticks_cancelled [where signalFn = ctor and cfg = cfg and te = te and ticks = "rc_Ticks cfg" and r = "bt_start now cfg"] False by (simp add: Run_def loop)
  next
    case (Inr r)
    have books: "books cfg r" using run_ticks_books Inr unfolding loop by blast
    have curve: "bt_curve r = map (equity_after cfg (bt_trades r)) [0..<Suc (length (bt_trades r))]" using books by (simp only: books_def)
    then have "length (bt_curve r) = Suc (length (bt_trades r))" "last (bt_curve r) = rc_InitialCapital cfg + total_pnl (bt_trades r)" "bt_curve r \<noteq> []"
      by (simp_all add: equity_after_def)
    moreover have "hd (bt_curve r) = rc_InitialCapital cfg"
      unfolding curve by (subst hd_map) (simp_all add: equity_after_def total_pnl_def upt_rec [of 0] del: upt_Suc)
    moreover have "\<not> (\<exists>n < length (rc_Ticks cfg). te_cancelled (te n))"
      using run_ticks_cancelled [where signalFn = ctor and cfg = cfg and te = te and ticks = "rc_Ticks cfg" and r = "bt_start now cfg"] Inr loop by simp
    moreover have "ComputeMaxDrawdown (bt_curve r) = Fin 0" if "bt_trades r = []"
      using that curve by (simp add: ComputeMaxDrawdown_def)
    ultimately show ?thesis using False
      by (simp add: Run_def Inr ComputeFromTrades_def no_metrics_def trade_totals_pnl total_pnl_def Let_def)
  qed
qed

theorem backtest_outcome_witness:
  "\<exists>res. Run 0 7 (\<lambda>_. sample_te) sample_config = Inr res \<and> rr_Trades res = [bought, sold]
     \<and> last (rr_EquityCurve res) = 100000000 + bm_TotalPnL (rr_Metrics res)"
proof -
  obtain r where r: "backtest_loop 0 (\<lambda>_. sample_te) sample_config = Inr r" "bt_trades r = [bought, sold]" using sample_backtest by blast
  then obtain res where "Run 0 7 (\<lambda>_. sample_te) sample_config = Inr res" "rr_Trades res = [bought, sold]" by (simp add: Run_def)
  then show ?thesis using backtest_outcome [where now = 0 and took = 7 and te = "\<lambda>_. sample_te" and cfg = sample_config] by (simp add: sample_config_def)
qed

end
