(* ===== verification/Dashboard_Hub.thy ===== *)
theory Dashboard_Hub
  imports Prelude "HOL-Library.Sublist"
begin

text \<open>
  The WebSocket hub of the dashboard (\<^verbatim>\<open>services/dashboard/hub.go\<close>): goroutines, channels and their interleavings as steps.
  Clients are numbers; a channel is its buffered contents and how often it was closed, and closing or sending to a closed
  channel sets \<open>hb_panic\<close>. \<open>hb_joining\<close> and \<open>hb_pending\<close> are the goroutines blocked on the unbuffered \<^verbatim>\<open>register\<close> and
  \<^verbatim>\<open>unregister\<close> channels. The last six fields record the history: the clients that ever connected, the messages the hub took
  up, from which of them on a client was registered, what was written to its connection, the message whose write failed (the
  writer of a client ends with its first error, while the client stays registered until its reader notices), and who was
  found with a full buffer.
\<close>

section \<open>State and operations\<close>

record 'm Hub =
  hb_clients :: "nat set"
  hb_broadcast :: "'m list"
  hb_running :: bool
  hb_buf :: "nat \<Rightarrow> 'm list"
  hb_closed :: "nat \<Rightarrow> nat"
  hb_joining :: "nat list"
  hb_pending :: "nat list"
  hb_panic :: bool
  hb_known :: "nat set"
  hb_log :: "'m list"
  hb_since :: "nat \<Rightarrow> nat"
  hb_got :: "nat \<Rightarrow> 'm list"
  hb_lost :: "nat \<Rightarrow> 'm list"
  hb_dropped :: "nat set"

definition NewHub :: "'m Hub" where
  "NewHub = \<lparr>hb_clients = {}, hb_broadcast = [], hb_running = True, hb_buf = (\<lambda>_. []), hb_closed = (\<lambda>_. 0), hb_joining = [], hb_pending = [],
     hb_panic = False, hb_known = {}, hb_log = [], hb_since = (\<lambda>_. 0), hb_got = (\<lambda>_. []), hb_lost = (\<lambda>_. []), hb_dropped = {}\<rparr>"

definition Broadcast :: "'m \<Rightarrow> 'm Hub \<Rightarrow> 'm Hub" where
  "Broadcast m h = (if length (hb_broadcast h) < 256 then h\<lparr>hb_broadcast := hb_broadcast h @ [m]\<rparr> else h)"

definition ClientCount :: "'m Hub \<Rightarrow> nat" where
  "ClientCount h = card (hb_clients h)"

definition close_send :: "nat \<Rightarrow> 'm Hub \<Rightarrow> 'm Hub" where
  "close_send c h = h\<lparr>hb_closed := (hb_closed h)(c := Suc (hb_closed h c)), hb_panic := (hb_panic h \<or> 0 < hb_closed h c)\<rparr>"

text \<open>The cases of the main loop's select.\<close>

definition on_register :: "nat \<Rightarrow> 'm Hub \<Rightarrow> 'm Hub" where
  "on_register c h = h\<lparr>hb_joining := remove1 c (hb_joining h), hb_clients := insert c (hb_clients h), hb_since := (hb_since h)(c := length (hb_log h))\<rparr>"

definition on_unregister :: "nat \<Rightarrow> 'm Hub \<Rightarrow> 'm Hub" where
  "on_unregister c h =
     (let h = h\<lparr>hb_pending := remove1 c (hb_pending h)\<rparr> in
      if c \<in> hb_clients h then (close_send c h)\<lparr>hb_clients := hb_clients h - {c}\<rparr> else h)"

definition send_or_drop :: "'m \<Rightarrow> 'm Hub \<Rightarrow> nat \<Rightarrow> 'm Hub" where
  "send_or_drop m h c =
     (if 0 < hb_closed h c then h\<lparr>hb_panic := True\<rparr>
      else if length (hb_buf h c) < 64 then h\<lparr>hb_buf := (hb_buf h)(c := hb_buf h c @ [m])\<rparr>
      else h\<lparr>hb_pending := hb_pending h @ [c], hb_dropped := insert c (hb_dropped h)\<rparr>)"

definition on_broadcast :: "nat list \<Rightarrow> 'm Hub \<Rightarrow> 'm Hub" where
  "on_broadcast visit h =
     (case hb_broadcast h of [] \<Rightarrow> h
      | m # rest \<Rightarrow> foldl (send_or_drop m) (h\<lparr>hb_broadcast := rest, hb_log := hb_log h @ [m]\<rparr>) visit)"

definition close_and_delete :: "'m Hub \<Rightarrow> nat \<Rightarrow> 'm Hub" where
  "close_and_delete h c = (close_send c h)\<lparr>hb_clients := hb_clients h - {c}\<rparr>"

definition on_done :: "nat list \<Rightarrow> 'm Hub \<Rightarrow> 'm Hub" where
  "on_done visit h = foldl close_and_delete (h\<lparr>hb_running := False\<rparr>) visit"

text \<open>\<^verbatim>\<open>ServeClient\<close>: a new client waits to be registered; its writer takes a message; in the end it waits to be unregistered.\<close>

definition connect :: "nat \<Rightarrow> 'm Hub \<Rightarrow> 'm Hub" where
  "connect c h = h\<lparr>hb_joining := hb_joining h @ [c], hb_known := insert c (hb_known h)\<rparr>"

definition disconnect :: "nat \<Rightarrow> 'm Hub \<Rightarrow> 'm Hub" where
  "disconnect c h = h\<lparr>hb_pending := hb_pending h @ [c]\<rparr>"

text \<open>\<open>ok\<close>: the write to the connection succeeded. After an error the loop of the writer is over, and the message is gone.\<close>

definition write_next :: "bool \<Rightarrow> nat \<Rightarrow> 'm Hub \<Rightarrow> 'm Hub" where
  "write_next ok c h =
     (if hb_lost h c \<noteq> [] then h
      else case hb_buf h c of [] \<Rightarrow> h
      | m # rest \<Rightarrow>
          let h = h\<lparr>hb_buf := (hb_buf h)(c := rest)\<rparr> in
          if ok then h\<lparr>hb_got := (hb_got h)(c := hb_got h c @ [m])\<rparr> else h\<lparr>hb_lost := (hb_lost h)(c := [m])\<rparr>)"

inductive hub_step :: "'m Hub \<Rightarrow> 'm Hub \<Rightarrow> bool" where
  hs_broadcast: "hub_step h (Broadcast m h)"
| hs_connect: "c \<notin> hb_known h \<Longrightarrow> hub_step h (connect c h)"
| hs_register: "hb_running h \<Longrightarrow> c \<in> set (hb_joining h) \<Longrightarrow> hub_step h (on_register c h)"
| hs_disconnect: "c \<in> hb_known h \<Longrightarrow> hub_step h (disconnect c h)"
| hs_unregister: "hb_running h \<Longrightarrow> c \<in> set (hb_pending h) \<Longrightarrow> hub_step h (on_unregister c h)"
| hs_deliver: "hb_running h \<Longrightarrow> distinct visit \<Longrightarrow> set visit = hb_clients h \<Longrightarrow> hub_step h (on_broadcast visit h)"
| hs_write: "hub_step h (write_next ok c h)"
| hs_done: "hb_running h \<Longrightarrow> distinct visit \<Longrightarrow> set visit = hb_clients h \<Longrightarrow> hub_step h (on_done visit h)"

inductive_cases hub_stepE: "hub_step h h'"


section \<open>The NATS bridge\<close>

text \<open>
  \<^verbatim>\<open>nats_bridge.go\<close>: every message on these subjects is wrapped and broadcast. \<open>marshal\<close> is the JSON encoder, which fails on
  data that is not JSON.
\<close>

record WSMessage =
  ws_Type :: string
  ws_Data :: string

definition bridge_subjects :: "(string \<times> string) list" where
  "bridge_subjects = [(''order.>'', ''dashboard-orders''), (''risk.>'', ''dashboard-risk''), (''kill.>'', ''dashboard-kill''),
     (''system.heartbeat.>'', ''dashboard-heartbeat''), (''data.market.>'', ''dashboard-data'')]"

definition forward :: "(WSMessage \<Rightarrow> 'm option) \<Rightarrow> string \<Rightarrow> string \<Rightarrow> 'm Hub \<Rightarrow> 'm Hub" where
  "forward marshal subject data h = (case marshal \<lparr>ws_Type = subject, ws_Data = data\<rparr> of None \<Rightarrow> h | Some m \<Rightarrow> Broadcast m h)"


section \<open>No panic, no reordering\<close>

definition stream_ok :: "'m Hub \<Rightarrow> nat \<Rightarrow> bool" where
  "stream_ok h c \<longleftrightarrow> subseq (hb_got h c @ hb_lost h c @ hb_buf h c) (drop (hb_since h c) (hb_log h)) \<and> hb_since h c \<le> length (hb_log h)
     \<and> (c \<in> hb_clients h \<longrightarrow> hb_closed h c = 0 \<and> (c \<notin> hb_dropped h \<longrightarrow> hb_got h c @ hb_lost h c @ hb_buf h c = drop (hb_since h c) (hb_log h)))
     \<and> (c \<notin> hb_known h \<or> c \<in> set (hb_joining h) \<longrightarrow>
          c \<notin> hb_clients h \<and> hb_closed h c = 0 \<and> hb_got h c = [] \<and> hb_lost h c = [] \<and> hb_buf h c = []
          \<and> c \<notin> hb_dropped h)
     \<and> hb_closed h c \<le> 1 \<and> length (hb_lost h c) \<le> 1 \<and> length (hb_buf h c) \<le> 64"

definition hub_ok :: "'m Hub \<Rightarrow> bool" where
  "hub_ok h \<longleftrightarrow> \<not> hb_panic h \<and> length (hb_broadcast h) \<le> 256 \<and> distinct (hb_joining h) \<and> set (hb_joining h) \<subseteq> hb_known h \<and> (\<forall>c. stream_ok h c)"

lemma hub_okD: "hub_ok h \<Longrightarrow> stream_ok h c"
  by (simp add: hub_ok_def)

lemma subseq_prolong: "subseq xs ys \<Longrightarrow> subseq xs (ys @ zs)"
  using list_emb_append_mono [of "(=)" xs ys "[]" zs] by simp

text \<open>The round of one message over all clients, whatever order the map is visited in.\<close>

lemma send_fold:
  assumes "distinct visit" "\<forall>c \<in> set visit. hb_closed h c = 0" "h' = foldl (send_or_drop m) h visit"
  shows "hb_clients h' = hb_clients h \<and> hb_broadcast h' = hb_broadcast h \<and> hb_running h' = hb_running h \<and> hb_closed h' = hb_closed h
    \<and> hb_joining h' = hb_joining h \<and> hb_panic h' = hb_panic h \<and> hb_known h' = hb_known h \<and> hb_log h' = hb_log h
    \<and> hb_since h' = hb_since h \<and> hb_got h' = hb_got h \<and> hb_lost h' = hb_lost h
    \<and> hb_buf h' = (\<lambda>c. if c \<in> set visit \<and> length (hb_buf h c) < 64 then hb_buf h c @ [m] else hb_buf h c)
    \<and> hb_dropped h' = hb_dropped h \<union> {c \<in> set visit. 64 \<le> length (hb_buf h c)}"
  using assms
proof (induction visit arbitrary: h)
  case (Cons c visit)
  define g where "g = send_or_drop m h c"
  have closed: "hb_closed h c = 0" using Cons.prems(2) by simp
  have g: "hb_clients g = hb_clients h" "hb_broadcast g = hb_broadcast h" "hb_running g = hb_running h" "hb_closed g = hb_closed h"
    "hb_joining g = hb_joining h" "hb_panic g = hb_panic h" "hb_known g = hb_known h" "hb_log g = hb_log h" "hb_since g = hb_since h" "hb_got g = hb_got h" "hb_lost g = hb_lost h"
    "hb_buf g = (\<lambda>d. if d = c \<and> length (hb_buf h d) < 64 then hb_buf h d @ [m] else hb_buf h d)"
    "hb_dropped g = hb_dropped h \<union> {d. d = c \<and> 64 \<le> length (hb_buf h d)}"
    using closed by (auto simp: g_def send_or_drop_def fun_eq_iff)
  have "\<forall>d \<in> set visit. hb_closed g d = 0" using Cons.prems(2) by (simp add: g)
  note IH = Cons.IH [OF _ this, unfolded g]
  have "h' = foldl (send_or_drop m) g visit" using Cons.prems(3) by (simp add: g_def)
  then show ?case using IH Cons.prems(1) by (auto simp: fun_eq_iff)
qed simp

lemma close_fold:
  assumes "distinct visit" "h' = foldl close_and_delete h visit"
  shows "hb_clients h' = hb_clients h - set visit \<and> hb_broadcast h' = hb_broadcast h \<and> hb_buf h' = hb_buf h
    \<and> hb_joining h' = hb_joining h \<and> hb_known h' = hb_known h \<and> hb_log h' = hb_log h \<and> hb_since h' = hb_since h
    \<and> hb_got h' = hb_got h \<and> hb_lost h' = hb_lost h \<and> hb_dropped h' = hb_dropped h
    \<and> hb_closed h' = (\<lambda>c. if c \<in> set visit then Suc (hb_closed h c) else hb_closed h c)
    \<and> (hb_panic h' \<longleftrightarrow> hb_panic h \<or> (\<exists>c \<in> set visit. 0 < hb_closed h c))"
  using assms
proof (induction visit arbitrary: h)
  case (Cons c visit)
  have h': "h' = foldl close_and_delete (close_and_delete h c) visit" using Cons.prems(2) by simp
  from Cons.IH [OF _ h'] Cons.prems(1) show ?case by (auto simp: close_and_delete_def close_send_def fun_eq_iff)
qed simp

lemma on_broadcast_ok:
  assumes ok: "hub_ok h" and visit: "distinct visit" "set visit = hb_clients h"
  shows "hub_ok (on_broadcast visit h)"
proof (cases "hb_broadcast h")
  case (Cons m rest)
  define g where "g = h\<lparr>hb_broadcast := rest, hb_log := hb_log h @ [m]\<rparr>"
  define h' where "h' = on_broadcast visit h"
  have h': "h' = foldl (send_or_drop m) g visit" by (simp add: h'_def on_broadcast_def Cons g_def)
  have "\<forall>c \<in> set visit. hb_closed g c = 0" using ok visit(2) by (simp add: g_def hub_ok_def stream_ok_def)
  note sent = send_fold [OF visit(1) this h', unfolded visit(2)]
  have g: "hb_buf g = hb_buf h" "hb_clients g = hb_clients h" "hb_closed g = hb_closed h" "hb_log g = hb_log h @ [m]" "hb_broadcast g = rest"
    "hb_joining g = hb_joining h" "hb_panic g = hb_panic h" "hb_known g = hb_known h" "hb_since g = hb_since h" "hb_got g = hb_got h" "hb_lost g = hb_lost h"
    "hb_dropped g = hb_dropped h" by (simp_all add: g_def)
  from sent [unfolded g] have f: "hb_clients h' = hb_clients h" "hb_broadcast h' = rest" "hb_closed h' = hb_closed h"
    "hb_joining h' = hb_joining h" "hb_panic h' = hb_panic h" "hb_known h' = hb_known h" "hb_log h' = hb_log h @ [m]"
    "hb_since h' = hb_since h" "hb_got h' = hb_got h" "hb_lost h' = hb_lost h"
    "hb_buf h' = (\<lambda>c. if c \<in> hb_clients h \<and> length (hb_buf h c) < 64 then hb_buf h c @ [m] else hb_buf h c)"
    "hb_dropped h' = hb_dropped h \<union> {c \<in> hb_clients h. 64 \<le> length (hb_buf h c)}"
    by (simp_all only: simp_thms)
  have "stream_ok h' c" for c
  proof -
    note c = hub_okD [OF ok, of c, unfolded stream_ok_def]
    have log: "drop (hb_since h' c) (hb_log h') = drop (hb_since h c) (hb_log h) @ [m]" using c by (simp add: f)
    show ?thesis
    proof (cases "c \<in> hb_clients h \<and> length (hb_buf h c) < 64")
      case True
      then have b: "hb_got h' c @ hb_lost h' c @ hb_buf h' c = (hb_got h c @ hb_lost h c @ hb_buf h c) @ [m]" by (simp add: f)
      have "subseq ((hb_got h c @ hb_lost h c @ hb_buf h c) @ [m]) (drop (hb_since h c) (hb_log h) @ [m])" using c by (intro list_emb_append_mono) simp_all
      then show ?thesis unfolding stream_ok_def b log using c True by (auto simp: f)
    next
      case False
      then have b: "hb_got h' c @ hb_lost h' c @ hb_buf h' c = hb_got h c @ hb_lost h c @ hb_buf h c" by (auto simp: f)
      have "subseq (hb_got h c @ hb_lost h c @ hb_buf h c) (drop (hb_since h c) (hb_log h) @ [m])" using c by (intro subseq_prolong) simp
      then show ?thesis unfolding stream_ok_def b log using c False by (auto simp: f)
    qed
  qed
  moreover have "length (hb_broadcast h') \<le> 256" using ok by (simp add: f hub_ok_def Cons)
  ultimately show ?thesis using ok unfolding h'_def [symmetric] hub_ok_def f by blast
qed (simp add: on_broadcast_def ok)

lemma hub_step_ok:
  assumes "hub_step h h'" "hub_ok h"
  shows "hub_ok h'"
  using assms(1)
proof cases
  case (hs_broadcast m)
  then show ?thesis using assms(2) by (auto simp: hub_ok_def Broadcast_def stream_ok_def)
next
  case (hs_connect c)
  then show ?thesis using assms(2) by (auto simp: hub_ok_def connect_def stream_ok_def)
next
  case (hs_register c)
  then have "stream_ok h' d" for d
    using hub_okD [OF assms(2), of d] assms(2) by (cases "d = c") (auto simp: stream_ok_def on_register_def hub_ok_def)
  then show ?thesis using assms(2) hs_register by (auto simp: hub_ok_def on_register_def dest: notin_set_remove1 in_set_remove1)
next
  case (hs_disconnect c)
  then show ?thesis using assms(2) by (simp add: hub_ok_def disconnect_def stream_ok_def)
next
  case (hs_unregister c)
  then have "stream_ok h' d" for d
    using hub_okD [OF assms(2), of d] by (cases "d = c") (auto simp: stream_ok_def on_unregister_def close_send_def Let_def)
  moreover have "c \<in> hb_clients h \<longrightarrow> hb_closed h c = 0" using hub_okD [OF assms(2), of c] by (simp add: stream_ok_def)
  ultimately show ?thesis using assms(2) hs_unregister by (simp add: hub_ok_def on_unregister_def close_send_def Let_def)
next
  case (hs_deliver visit)
  then show ?thesis using assms(2) on_broadcast_ok by blast
next
  case (hs_write ok c)
  have "stream_ok (write_next ok c h) d" for d
    using hub_okD [OF assms(2), of d] by (auto simp: stream_ok_def write_next_def Let_def split: list.splits)
  then show ?thesis using assms(2) hs_write by (simp add: hub_ok_def write_next_def Let_def split: list.splits)
next
  case (hs_done visit)
  define g where "g = h\<lparr>hb_running := False\<rparr>"
  have h': "h' = foldl close_and_delete g visit" using hs_done by (simp add: on_done_def g_def)
  have g: "hb_buf g = hb_buf h" "hb_clients g = hb_clients h" "hb_closed g = hb_closed h" "hb_log g = hb_log h" "hb_broadcast g = hb_broadcast h"
    "hb_joining g = hb_joining h" "hb_panic g = hb_panic h" "hb_known g = hb_known h" "hb_since g = hb_since h" "hb_got g = hb_got h" "hb_lost g = hb_lost h"
    "hb_dropped g = hb_dropped h" by (simp_all add: g_def)
  from close_fold [OF hs_done(3) h', unfolded hs_done(4) g] have f: "hb_clients h' = {}" "hb_broadcast h' = hb_broadcast h" "hb_buf h' = hb_buf h"
    "hb_joining h' = hb_joining h" "hb_known h' = hb_known h" "hb_log h' = hb_log h" "hb_since h' = hb_since h" "hb_got h' = hb_got h" "hb_lost h' = hb_lost h"
    "hb_dropped h' = hb_dropped h" "hb_closed h' = (\<lambda>c. if c \<in> hb_clients h then Suc (hb_closed h c) else hb_closed h c)"
    "hb_panic h' \<longleftrightarrow> hb_panic h \<or> (\<exists>c \<in> hb_clients h. 0 < hb_closed h c)"
    by (simp_all only: simp_thms Diff_cancel)
  have "stream_ok h' d" for d using hub_okD [OF assms(2), of d] by (auto simp: stream_ok_def f)
  moreover have "\<forall>c \<in> hb_clients h. hb_closed h c = 0" using hub_okD [OF assms(2)] by (auto simp: stream_ok_def)
  ultimately show ?thesis using assms(2) by (simp add: hub_ok_def f)
qed

interpretation hub: step_invariant hub_step hub_ok
  by unfold_locales (rule hub_step_ok)

lemma NewHub_ok: "hub_ok NewHub"
  by (simp add: hub_ok_def NewHub_def stream_ok_def)

text \<open>
  C37: The hub never panics and never reorders. From a new hub, under every interleaving of broadcasts, connections,
  registrations, disconnections, deliveries in any map order, successful and failing writes and the shutdown: no channel
  is closed twice and nothing is sent on a closed one; the broadcast channel holds at most 256 messages and a client's at
  most 64; a client loses at most one message to a failing write, and what its writer sent comes before it and what
  is still buffered after it, as a subsequence of the messages the hub took up since the client's registration, in their order;
  for a registered client that was never found with a full buffer the three together are all of those
  messages, so that what it got and has buffered is all of them as long as no write to it failed.
\<close>

theorem hub_streams_in_order:
  assumes "hub_step\<^sup>*\<^sup>* NewHub h"
  shows "\<not> hb_panic h \<and> length (hb_broadcast h) \<le> 256
    \<and> (\<forall>c. hb_closed h c \<le> 1 \<and> length (hb_buf h c) \<le> 64 \<and> length (hb_lost h c) \<le> 1
        \<and> subseq (hb_got h c @ hb_lost h c @ hb_buf h c) (drop (hb_since h c) (hb_log h))
        \<and> (c \<in> hb_clients h \<and> c \<notin> hb_dropped h \<longrightarrow> hb_got h c @ hb_lost h c @ hb_buf h c = drop (hb_since h c) (hb_log h))
        \<and> (c \<in> hb_clients h \<and> c \<notin> hb_dropped h \<and> hb_lost h c = [] \<longrightarrow> hb_got h c @ hb_buf h c = drop (hb_since h c) (hb_log h)))"
proof -
  have "hub_ok h" using hub.reachable_inv [OF assms] NewHub_ok by blast
  then have s: "stream_ok h c" "\<not> hb_panic h" "length (hb_broadcast h) \<le> 256" for c by (simp_all add: hub_ok_def)
  show ?thesis using s(2,3)
  proof (intro conjI allI)
    fix c
    note c = s(1) [of c, unfolded stream_ok_def]
    show "hb_closed h c \<le> 1" "length (hb_buf h c) \<le> 64" "length (hb_lost h c) \<le> 1"
      "subseq (hb_got h c @ hb_lost h c @ hb_buf h c) (drop (hb_since h c) (hb_log h))"
      "c \<in> hb_clients h \<and> c \<notin> hb_dropped h \<longrightarrow> hb_got h c @ hb_lost h c @ hb_buf h c = drop (hb_since h c) (hb_log h)"
      using c by blast+
    then show "c \<in> hb_clients h \<and> c \<notin> hb_dropped h \<and> hb_lost h c = [] \<longrightarrow> hb_got h c @ hb_buf h c = drop (hb_since h c) (hb_log h)"
      by (metis append_Nil)
  qed
qed

theorem hub_streams_in_order_witness:
  "let h = write_next False 1 (on_broadcast [1] (Broadcast ''m2'' (on_broadcast [1] (Broadcast ''m1'' (on_register 1 (connect 1 (NewHub :: string Hub)))))))
   in hub_step\<^sup>*\<^sup>* NewHub h \<and> hb_lost h 1 = [''m1''] \<and> hb_buf h 1 = [''m2''] \<and> \<not> hb_panic h"
proof -
  let ?h1 = "connect 1 (NewHub :: string Hub)"
  let ?h2 = "on_register 1 ?h1"
  let ?h3 = "Broadcast ''m1'' ?h2"
  let ?h4 = "on_broadcast [1] ?h3"
  let ?h5 = "Broadcast ''m2'' ?h4"
  let ?h6 = "on_broadcast [1] ?h5"
  let ?h7 = "write_next False 1 ?h6"
  have "hub_step NewHub ?h1" by (rule hs_connect) (simp add: NewHub_def)
  moreover have "hub_step ?h1 ?h2" by (rule hs_register) (simp_all add: NewHub_def connect_def)
  moreover have "hub_step ?h2 ?h3" "hub_step ?h4 ?h5" by (rule hs_broadcast)+
  moreover have "hub_step ?h3 ?h4"
    by (rule hs_deliver) (simp_all add: NewHub_def connect_def on_register_def Broadcast_def)
  moreover have "hub_step ?h5 ?h6"
    by (rule hs_deliver) (simp_all add: NewHub_def connect_def on_register_def Broadcast_def on_broadcast_def send_or_drop_def)
  moreover have "hub_step ?h6 ?h7" by (rule hs_write)
  ultimately have run: "hub_step\<^sup>*\<^sup>* NewHub ?h7" by (meson rtranclp.rtrancl_into_rtrancl rtranclp.rtrancl_refl)
  moreover have "1 \<in> hb_clients ?h7 \<and> 1 \<notin> hb_dropped ?h7 \<and> hb_got ?h7 1 = [] \<and> hb_lost ?h7 1 = [''m1''] \<and> drop (hb_since ?h7 1) (hb_log ?h7) = [''m1'', ''m2'']"
    by (simp add: NewHub_def connect_def on_register_def Broadcast_def on_broadcast_def send_or_drop_def write_next_def)
  moreover from hub_streams_in_order [OF run] have "1 \<in> hb_clients ?h7 \<and> 1 \<notin> hb_dropped ?h7 \<longrightarrow>
      hb_got ?h7 1 @ hb_lost ?h7 1 @ hb_buf ?h7 1 = drop (hb_since ?h7 1) (hb_log ?h7)" "\<not> hb_panic ?h7" by blast+
  ultimately show ?thesis unfolding Let_def by simp
qed

text \<open>
  A client found with a full buffer is not cut off at once: until its goroutine gets through to the hub, later messages
  still reach it, after a gap.
\<close>

lemma dropped_message_leaves_gap:
  assumes "hb_broadcast h = [m1, m2]" "hb_closed h c = 0" "hb_buf h c = x # xs" "length xs = 63" "hb_lost h c = []"
  shows "hb_got (on_broadcast [c] (write_next True c (on_broadcast [c] h))) c @ hb_buf (on_broadcast [c] (write_next True c (on_broadcast [c] h))) c
     = hb_got h c @ x # xs @ [m2]"
  using assms by (simp add: on_broadcast_def send_or_drop_def write_next_def)

end
