(* ===== verification/Operator.thy ===== *)
theory Operator
  imports Kill_Path
begin

text \<open>
  How operators reach the watchdog: the three control calls over gRPC as a client sees them, the interface \<open>control_client\<close>
  the dashboard and the Telegram bot are written against, and the connection \<^verbatim>\<open>cmd/dashboard\<close> and \<^verbatim>\<open>cmd/alertbot\<close>
  open, which carries no caller identity.
\<close>

section \<open>Control calls\<close>

datatype control_call =
    KillCall pb_KillSwitchLevel string string string
  | AckCall string string string
  | ResumeCall string string

text \<open>\<open>executed\<close> and the detail of the reply; a halt that is missing or not acknowledged is no gRPC error.\<close>

record control_reply =
  cr_executed :: bool
  cr_detail :: "halt_error option"

type_synonym ('e, 'w) control_client = "control_call \<Rightarrow> 'w \<Rightarrow> ('e, control_reply) result \<times> 'w"

definition control_method :: "control_call \<Rightarrow> string" where
  "control_method c =
     (case c of KillCall _ _ _ _ \<Rightarrow> ''/watchdog.Watchdog/TriggerKillSwitch'' | AckCall _ _ _ \<Rightarrow> ''/watchdog.Watchdog/AcknowledgeHalt''
      | ResumeCall _ _ \<Rightarrow> ''/watchdog.Watchdog/ResumeTrading'')"

definition control_handler ::
  "(HashInput \<Rightarrow> string) \<Rightarrow> 'x ExecutionControl \<Rightarrow> 'r RiskControl \<Rightarrow> faults \<Rightarrow> (halts \<Rightarrow> string list) \<Rightarrow> time \<Rightarrow> uuid
     \<Rightarrow> (watchdog_error, ('x, 'r) KillSwitchManager) control_client" where
  "control_handler H ec rk flt visit now aid c w =
     (case c of
        KillCall level scope reason triggeredBy \<Rightarrow>
          (case GRPC_TriggerKillSwitch H ec rk flt visit now aid level scope reason triggeredBy w of
             (Inl err, w) \<Rightarrow> (Inl err, w)
           | (Inr resp, w) \<Rightarrow> (Inr \<lparr>cr_executed = kr_Executed resp, cr_detail = kr_Detail resp\<rparr>, w))
      | AckCall scope ackedBy rootCause \<Rightarrow>
          (case GRPC_AcknowledgeHalt H flt now aid scope ackedBy rootCause w of ((ok, d), w) \<Rightarrow> (Inr \<lparr>cr_executed = ok, cr_detail = d\<rparr>, w))
      | ResumeCall scope resumedBy \<Rightarrow>
          (case GRPC_ResumeTrading H ec rk flt visit now aid scope resumedBy w of ((ok, d), w) \<Rightarrow> (Inr \<lparr>cr_executed = ok, cr_detail = d\<rparr>, w)))"

text \<open>A call on a connection with the outgoing metadata \<open>ctx\<close>, through the server's caller check.\<close>

definition control_rpc ::
  "metadata option \<Rightarrow> (HashInput \<Rightarrow> string) \<Rightarrow> 'x ExecutionControl \<Rightarrow> 'r RiskControl \<Rightarrow> faults \<Rightarrow> (halts \<Rightarrow> string list) \<Rightarrow> time \<Rightarrow> uuid
     \<Rightarrow> (watchdog_error rpc_error, ('x, 'r) KillSwitchManager) control_client" where
  "control_rpc ctx H ec rk flt visit now aid c w =
     UnaryCallerInterceptor watchdog_callers ctx (control_method c) (control_handler H ec rk flt visit now aid c) w"


section \<open>The interface of a control client\<close>

text \<open>
  What holds of every client: a failed call has changed nothing, or the reply was lost. \<open>may_call\<close> tells which calls the
  other side lets through.
\<close>

locale control_client =
  fixes call :: "('e, 'w) control_client"
    and may_call :: "control_call \<Rightarrow> bool"
  assumes refused: "\<not> may_call c \<Longrightarrow> \<exists>err. call c w = (Inl err, w)"
    and executed_or_unchanged: "call c w = (Inr r, w') \<Longrightarrow> \<not> cr_executed r \<Longrightarrow> w' = w"
begin

lemma refused_state: "\<not> may_call c \<Longrightarrow> snd (call c w) = w"
  using refused [of c w] by auto

lemma refused_error: "\<not> may_call c \<Longrightarrow> fst (call c w) \<noteq> Inr r"
  using refused [of c w] by auto

lemma changed_was_executed: "call c w = (Inr r, w') \<Longrightarrow> w' \<noteq> w \<Longrightarrow> may_call c \<and> cr_executed r"
  using refused [of c w] executed_or_unchanged by fastforce

end

definition caller_may :: "metadata option \<Rightarrow> control_call \<Rightarrow> bool" where
  "caller_may ctx c \<longleftrightarrow> permitted watchdog_callers (control_method c) (callerFromContext ctx)"

lemma control_rpc_may:
  "caller_may ctx c \<Longrightarrow> control_rpc ctx H ec rk flt visit now aid c w = run_handler (control_handler H ec rk flt visit now aid c) w"
  unfolding control_rpc_def caller_may_def by (rule interceptor_cases(1))

lemma control_rpc_refused:
  assumes "\<not> caller_may ctx c"
  shows "\<exists>err. control_rpc ctx H ec rk flt visit now aid c w = (Inl err, w)"
  using interceptor_cases(2) [OF assms [unfolded caller_may_def], of "control_handler H ec rk flt visit now aid c" w] unfolding control_rpc_def by blast

lemma handler_executed:
  assumes "control_handler H ec rk flt visit now aid c w = (Inr r, w')" "\<not> cr_executed r"
  shows "w' = w"
proof (cases c)
  case (KillCall level scope reason triggeredBy)
  then show ?thesis using assms by (auto simp: control_handler_def GRPC_TriggerKillSwitch_def Let_def split: if_splits)
next
  case (AckCall scope ackedBy rootCause)
  then show ?thesis using assms
    by (auto simp: control_handler_def GRPC_AcknowledgeHalt_def reply_def Acknowledge_def Let_def split: option.splits if_splits)
next
  case (ResumeCall scope resumedBy)
  then show ?thesis using assms
    by (auto simp: control_handler_def GRPC_ResumeTrading_def reply_def Resume_def Let_def split: option.splits if_splits)
qed

interpretation watchdog_rpc: control_client "control_rpc ctx H ec rk flt visit now aid" "caller_may ctx"
  for ctx H ec rk flt visit now aid
proof unfold_locales
  show "\<exists>err. control_rpc ctx H ec rk flt visit now aid c w = (Inl err, w)" if "\<not> caller_may ctx c" for c w
    using that by (rule control_rpc_refused)
  show "w' = w" if "control_rpc ctx H ec rk flt visit now aid c w = (Inr r, w')" "\<not> cr_executed r" for c w r w'
  proof (cases "caller_may ctx c")
    case True
    then have "control_handler H ec rk flt visit now aid c w = (Inr r, w')"
      using that(1) by (auto simp: control_rpc_may run_handler_def split: prod.splits sum.splits)
    then show ?thesis using that(2) by (rule handler_executed)
  next
    case False
    then show ?thesis using that(1) control_rpc_refused [OF False, of H ec rk flt visit now aid w] by auto
  qed
qed

text \<open>The connections of the dashboard and the bot are dialled without \<^verbatim>\<open>CallerIdentityInterceptor\<close>.\<close>

definition operator_rpc ::
  "(HashInput \<Rightarrow> string) \<Rightarrow> 'x ExecutionControl \<Rightarrow> 'r RiskControl \<Rightarrow> faults \<Rightarrow> (halts \<Rightarrow> string list) \<Rightarrow> time \<Rightarrow> uuid
     \<Rightarrow> (watchdog_error rpc_error, ('x, 'r) KillSwitchManager) control_client" where
  "operator_rpc = control_rpc None"

lemma no_identity_refused: "\<not> caller_may None c"
  by (cases c) (simp_all add: caller_may_def control_method_def table_rows callerFromContext_def)

end
