(* ===== verification/Dashboard.thy ===== *)
theory Dashboard
  imports Operator
begin

text \<open>
  The dashboard's HTTP server (\<^verbatim>\<open>services/dashboard/server.go\<close>) and its queries (\<^verbatim>\<open>queries.go\<close>). A request is what the
  standard library makes of it: method, path, session cookie, and the string fields of the JSON body (None when it cannot be
  decoded). Query results keep their rows; how JSON prints them is not modelled. \<open>mac\<close> is the hex HMAC-SHA256 of a
  message under a key, \<open>order_by\<close> the database's sort with its ties open.
\<close>

section \<open>Queries\<close>

record OrderView =
  ov_InternalOrderID :: string
  ov_TraceID :: string
  ov_StrategyID :: string
  ov_Venue :: string
  ov_MarketID :: string
  ov_Side :: string
  ov_Quantity :: int32
  ov_PriceMicros :: int64
  ov_NotionalMicros :: int64
  ov_Status :: string
  ov_FilledQuantity :: int32
  ov_ExchangeOrderID :: string
  ov_ProposedAt :: time
  ov_CompletedAt :: "time option"

record PositionView =
  pv_Venue :: string
  pv_MarketID :: string
  pv_StrategyID :: string
  pv_NetQuantity :: int32
  pv_NotionalMicros :: int64

record AuditEntry =
  av_ID :: string
  av_Service :: string
  av_EventType :: string
  av_TraceID :: string
  av_Severity :: string
  av_Timestamp :: time

record HaltRow =
  hv_Level :: string
  hv_Scope :: string
  hv_Reason :: string
  hv_TriggeredBy :: string
  hv_TriggeredAt :: time
  hv_Acknowledged :: bool

record RiskStats =
  rv_DailyPnlMicros :: int64
  rv_TotalTurnoverMicros :: int64
  rv_FillCount :: int32
  rv_OrderCount :: int32

datatype query_error = QueryFailed | ScanFailed

definition query :: "faults \<Rightarrow> string \<Rightarrow> 'a \<Rightarrow> (query_error, 'a) result" where
  "query flt table a = (if flt (Db table []) then Inl QueryFailed else Inr a)"

definition order_view :: "OrderRow \<Rightarrow> OrderView" where
  "order_view r =
     \<lparr>ov_InternalOrderID = or_internal_order_id r, ov_TraceID = or_trace_id r, ov_StrategyID = or_strategy_id r, ov_Venue = or_venue r,
      ov_MarketID = or_market_id r, ov_Side = or_side r, ov_Quantity = or_quantity r, ov_PriceMicros = or_price_micros r,
      ov_NotionalMicros = or_notional_micros r, ov_Status = or_status r, ov_FilledQuantity = or_filled_quantity r,
      ov_ExchangeOrderID = (case or_exchange_order_id r of None \<Rightarrow> [] | Some x \<Rightarrow> x), ov_ProposedAt = or_proposed_at r,
      ov_CompletedAt = or_completed_at r\<rparr>"

definition QueryOpenOrders :: "faults \<Rightarrow> (OrderRow list \<Rightarrow> OrderRow list) \<Rightarrow> OrderRow list \<Rightarrow> (query_error, OrderView list) result" where
  "QueryOpenOrders flt order_by rows =
     query flt ''execution.orders'' (map order_view (take 100 (order_by
       (filter (\<lambda>r. or_status r \<in> {''pending'', ''open'', ''partially_filled''}) rows))))"

definition QueryRecentOrders :: "faults \<Rightarrow> (OrderRow list \<Rightarrow> OrderRow list) \<Rightarrow> OrderRow list \<Rightarrow> nat \<Rightarrow> (query_error, OrderView list) result" where
  "QueryRecentOrders flt order_by rows lmt = query flt ''execution.orders'' (map order_view (take lmt (order_by rows)))"

definition QueryPositions :: "faults \<Rightarrow> (PositionRow list \<Rightarrow> PositionRow list) \<Rightarrow> PositionRow list \<Rightarrow> (query_error, PositionView list) result" where
  "QueryPositions flt order_by rows =
     query flt ''risk.positions'' (map (\<lambda>r. \<lparr>pv_Venue = pos_venue r, pv_MarketID = pos_market_id r, pv_StrategyID = pos_strategy_id r,
         pv_NetQuantity = pos_net_quantity r, pv_NotionalMicros = pos_notional_micros r\<rparr>)
       (order_by (filter (\<lambda>r. pos_net_quantity r \<noteq> 0) rows)))"

definition QueryRecentAudit :: "faults \<Rightarrow> (AuditRow list \<Rightarrow> AuditRow list) \<Rightarrow> AuditRow list \<Rightarrow> nat \<Rightarrow> (query_error, AuditEntry list) result" where
  "QueryRecentAudit flt order_by rows lmt =
     query flt ''audit.event_log'' (map (\<lambda>r. \<lparr>av_ID = ar_id r, av_Service = ar_service r, av_EventType = ar_event_type r,
         av_TraceID = (case ar_trace_id r of None \<Rightarrow> [] | Some t \<Rightarrow> t), av_Severity = ar_severity r, av_Timestamp = ar_timestamp r\<rparr>)
       (take lmt (order_by rows)))"

definition QueryActiveHalts :: "faults \<Rightarrow> (KillRow list \<Rightarrow> KillRow list) \<Rightarrow> KillRow list \<Rightarrow> (query_error, HaltRow list) result" where
  "QueryActiveHalts flt order_by rows =
     query flt ''watchdog.kill_switch_events'' (map (\<lambda>r. \<lparr>hv_Level = ks_level r, hv_Scope = ks_scope r, hv_Reason = ks_reason r,
         hv_TriggeredBy = ks_triggered_by r, hv_TriggeredAt = ks_triggered_at r, hv_Acknowledged = ks_acknowledged r\<rparr>)
       (order_by (filter (\<lambda>r. \<not> ks_resumed r) rows)))"

text \<open>The database sums exactly; a sum that does not fit its Go variable fails the scan.\<close>

definition QueryRiskStats :: "faults \<Rightarrow> int \<Rightarrow> DailyStatRow list \<Rightarrow> (query_error, RiskStats) result" where
  "QueryRiskStats flt today rows =
     (if flt (Db ''risk.daily_stats'' []) then Inl QueryFailed
      else let rs = filter (\<lambda>r. ds_date r = today \<and> ds_scope r = ''global'') rows;
               pnl = (\<Sum>r\<leftarrow>rs. sint (ds_pnl_micros r)); turnover = (\<Sum>r\<leftarrow>rs. sint (ds_turnover_micros r));
               fills = (\<Sum>r\<leftarrow>rs. sint (ds_fill_count r)); orders = (\<Sum>r\<leftarrow>rs. sint (ds_order_count r)) in
        if \<bar>pnl\<bar> < 2 ^ 63 \<and> \<bar>turnover\<bar> < 2 ^ 63 \<and> \<bar>fills\<bar> < 2 ^ 31 \<and> \<bar>orders\<bar> < 2 ^ 31
        then Inr \<lparr>rv_DailyPnlMicros = word_of_int pnl, rv_TotalTurnoverMicros = word_of_int turnover, rv_FillCount = word_of_int fills,
                  rv_OrderCount = word_of_int orders\<rparr>
        else Inl ScanFailed)"


section \<open>Requests and routes\<close>

record HttpRequest =
  hq_method :: string
  hq_path :: string
  hq_cookie :: "string option"
  hq_body :: "(string \<rightharpoonup> string) option"

datatype payload_body =
    PlainText string | StatusJSON string | OrdersJSON "OrderView list" | PositionsJSON "PositionView list" | AuditJSON "AuditEntry list"
  | HaltsJSON "HaltRow list" | RiskJSON RiskStats | StaticContent | MovedTo string | WebSocketAccepted

record HttpResponse =
  hr_status :: nat
  hr_cookie :: "string option"
  hr_body :: payload_body

definition http_error :: "string \<Rightarrow> nat \<Rightarrow> HttpResponse" where
  "http_error msg code = \<lparr>hr_status = code, hr_cookie = None, hr_body = PlainText msg\<rparr>"

definition writeJSON :: "payload_body \<Rightarrow> HttpResponse" where
  "writeJSON b = \<lparr>hr_status = 200, hr_cookie = None, hr_body = b\<rparr>"

datatype route = Static | Login | Orders | Positions | Audit | Halts | RiskRoute | Kill | Ack | ResumeRoute | WS | Moved | MethodNotAllowed

definition get_routes :: "(string \<times> route) list" where
  "get_routes = [(''/api/orders'', Orders), (''/api/positions'', Positions), (''/api/audit'', Audit), (''/api/halts'', Halts),
     (''/api/risk'', RiskRoute), (''/ws'', WS)]"

definition post_routes :: "(string \<times> route) list" where
  "post_routes = [(''/api/login'', Login), (''/api/kill'', Kill), (''/api/ack'', Ack), (''/api/resume'', ResumeRoute)]"

text \<open>
  \<^verbatim>\<open>http.ServeMux\<close> first cleans the path (no empty, \<^verbatim>\<open>.\<close> or \<^verbatim>\<open>..\<close> segments; a slash at the end is kept) and answers a request,
  but for CONNECT, whose path it changes with a redirect. \<open>hq_path\<close> is the path with its percent escapes decoded.
\<close>

fun path_segments :: "string \<Rightarrow> string list" where
  "path_segments [] = [[]]"
| "path_segments (c # cs) =
     (if c = CHR ''/'' then [] # path_segments cs
      else case path_segments cs of [] \<Rightarrow> [[c]] | seg # segs \<Rightarrow> (c # seg) # segs)"

definition clean_segment :: "string list \<Rightarrow> string \<Rightarrow> string list" where
  "clean_segment segs seg = (if seg = [] \<or> seg = ''.'' then segs else if seg = ''..'' then butlast segs else segs @ [seg])"

definition cleanPath :: "string \<Rightarrow> string" where
  "cleanPath p =
     (let segs = foldl clean_segment [] (path_segments p) in
      if segs = [] then ''/''
      else concat (map (\<lambda>seg. CHR ''/'' # seg) segs) @ (if last p = CHR ''/'' then ''/'' else []))"

text \<open>A pattern for GET also takes HEAD; \<^verbatim>\<open>GET /\<close> takes every other path of these methods.\<close>

definition route_of :: "HttpRequest \<Rightarrow> route" where
  "route_of rq =
     (if hq_method rq \<noteq> ''CONNECT'' \<and> cleanPath (hq_path rq) \<noteq> hq_path rq then Moved
      else if hq_method rq \<in> {''GET'', ''HEAD''} then (case map_of get_routes (hq_path rq) of None \<Rightarrow> Static | Some r \<Rightarrow> r)
      else if hq_method rq = ''POST'' then (case map_of post_routes (hq_path rq) of None \<Rightarrow> MethodNotAllowed | Some r \<Rightarrow> r)
      else MethodNotAllowed)"


section \<open>Handlers\<close>

record Server =
  sv_apiKey :: string
  sv_mac :: "string \<Rightarrow> string \<Rightarrow> string"
  sv_accept :: "HttpRequest \<Rightarrow> (nat \<times> string) option"
  sv_files :: "HttpRequest \<Rightarrow> nat"  \<comment> \<open>the status the file server of the embedded directory answers with\<close>

definition sessionToken :: "Server \<Rightarrow> string" where
  "sessionToken s = sv_mac s (sv_apiKey s) ''dashboard-session''"

definition field :: "(string \<rightharpoonup> string) \<Rightarrow> string \<Rightarrow> string" where
  "field body k = (case body k of None \<Rightarrow> [] | Some v \<Rightarrow> v)"

definition or_default :: "string \<Rightarrow> string \<Rightarrow> string" where
  "or_default s d = (if s = [] then d else s)"

definition handleLogin :: "Server \<Rightarrow> HttpRequest \<Rightarrow> HttpResponse" where
  "handleLogin s rq =
     (case hq_body rq of None \<Rightarrow> http_error ''invalid request'' 400
      | Some body \<Rightarrow>
          if field body ''api_key'' \<noteq> sv_apiKey s then http_error ''unauthorized'' 401
          else (writeJSON (StatusJSON ''ok''))\<lparr>hr_cookie := Some (sessionToken s)\<rparr>)"

definition requireAuth :: "Server \<Rightarrow> (HttpRequest \<Rightarrow> 'w \<Rightarrow> HttpResponse \<times> 'w) \<Rightarrow> HttpRequest \<Rightarrow> 'w \<Rightarrow> HttpResponse \<times> 'w" where
  "requireAuth s handler rq w =
     (if hq_cookie rq = None \<or> the (hq_cookie rq) \<noteq> sessionToken s then (http_error ''unauthorized'' 401, w) else handler rq w)"

text \<open>The tables the queries read, and the results they give.\<close>

record Database =
  db_faults :: faults
  db_orders :: "OrderRow list"
  db_positions :: "PositionRow list"
  db_audit :: "AuditRow list"
  db_kills :: "KillRow list"
  db_stats :: "DailyStatRow list"
  db_today :: int
  db_orders_by :: "OrderRow list \<Rightarrow> OrderRow list"
  db_positions_by :: "PositionRow list \<Rightarrow> PositionRow list"
  db_audit_by :: "AuditRow list \<Rightarrow> AuditRow list"
  db_kills_by :: "KillRow list \<Rightarrow> KillRow list"

definition data_response :: "('a \<Rightarrow> payload_body) \<Rightarrow> (query_error, 'a) result \<Rightarrow> HttpResponse" where
  "data_response body r = (case r of Inl _ \<Rightarrow> http_error ''internal error'' 500 | Inr a \<Rightarrow> writeJSON (body a))"

definition handleOrders :: "Database \<Rightarrow> HttpRequest \<Rightarrow> 'w \<Rightarrow> HttpResponse \<times> 'w" where
  "handleOrders db rq w = (data_response OrdersJSON (QueryRecentOrders (db_faults db) (db_orders_by db) (db_orders db) 50), w)"

definition handlePositions :: "Database \<Rightarrow> HttpRequest \<Rightarrow> 'w \<Rightarrow> HttpResponse \<times> 'w" where
  "handlePositions db rq w = (data_response PositionsJSON (QueryPositions (db_faults db) (db_positions_by db) (db_positions db)), w)"

definition handleAudit :: "Database \<Rightarrow> HttpRequest \<Rightarrow> 'w \<Rightarrow> HttpResponse \<times> 'w" where
  "handleAudit db rq w = (data_response AuditJSON (QueryRecentAudit (db_faults db) (db_audit_by db) (db_audit db) 30), w)"

definition handleHalts :: "Database \<Rightarrow> HttpRequest \<Rightarrow> 'w \<Rightarrow> HttpResponse \<times> 'w" where
  "handleHalts db rq w = (data_response HaltsJSON (QueryActiveHalts (db_faults db) (db_kills_by db) (db_kills db)), w)"

definition handleRiskStats :: "Database \<Rightarrow> HttpRequest \<Rightarrow> 'w \<Rightarrow> HttpResponse \<times> 'w" where
  "handleRiskStats db rq w = (data_response RiskJSON (QueryRiskStats (db_faults db) (db_today db) (db_stats db)), w)"

definition levelMap :: "string \<rightharpoonup> pb_KillSwitchLevel" where
  "levelMap = [''soft_pause'' \<mapsto> KILL_LEVEL_SOFT_PAUSE, ''cancel_only'' \<mapsto> KILL_LEVEL_CANCEL_ONLY, ''full_stop'' \<mapsto> KILL_LEVEL_FULL_STOP]"

text \<open>The reply of a call that gave no error is not looked at.\<close>

definition control_response :: "('e \<Rightarrow> string) \<Rightarrow> string \<Rightarrow> string \<Rightarrow> ('e, control_reply) result \<times> 'w \<Rightarrow> HttpResponse \<times> 'w" where
  "control_response err_text failed done_status r =
     (case r of (Inl err, w) \<Rightarrow> (http_error (failed @ '': '' @ err_text err) 500, w) | (Inr _, w) \<Rightarrow> (writeJSON (StatusJSON done_status), w))"

definition handleKill :: "('e \<Rightarrow> string) \<Rightarrow> ('e, 'w) control_client \<Rightarrow> HttpRequest \<Rightarrow> 'w \<Rightarrow> HttpResponse \<times> 'w" where
  "handleKill err_text call rq w =
     (case hq_body rq of None \<Rightarrow> (http_error ''invalid request'' 400, w)
      | Some body \<Rightarrow>
          let reqLevel = or_default (field body ''level'') ''cancel_only''; scope = or_default (field body ''scope'') ''global'' in
          case levelMap reqLevel of None \<Rightarrow> (http_error ''invalid level'' 400, w)
          | Some level \<Rightarrow>
              control_response err_text ''kill switch failed'' ''triggered'' (call (KillCall level scope ''dashboard kill switch'' ''dashboard'') w))"

definition handleAck :: "('e \<Rightarrow> string) \<Rightarrow> ('e, 'w) control_client \<Rightarrow> HttpRequest \<Rightarrow> 'w \<Rightarrow> HttpResponse \<times> 'w" where
  "handleAck err_text call rq w =
     (case hq_body rq of None \<Rightarrow> (http_error ''invalid request'' 400, w)
      | Some body \<Rightarrow>
          control_response err_text ''ack failed'' ''acknowledged''
            (call (AckCall (or_default (field body ''scope'') ''global'') ''dashboard'' (field body ''root_cause'')) w))"

definition handleResume :: "('e \<Rightarrow> string) \<Rightarrow> ('e, 'w) control_client \<Rightarrow> HttpRequest \<Rightarrow> 'w \<Rightarrow> HttpResponse \<times> 'w" where
  "handleResume err_text call rq w =
     (case hq_body rq of None \<Rightarrow> (http_error ''invalid request'' 400, w)
      | Some body \<Rightarrow>
          control_response err_text ''resume failed'' ''resumed'' (call (ResumeCall (or_default (field body ''scope'') ''global'') ''dashboard'') w))"

text \<open>\<open>sv_accept\<close> is the error \<^verbatim>\<open>websocket.Accept\<close> answers a request with, None when it takes over the connection.\<close>

definition handleWS :: "Server \<Rightarrow> HttpRequest \<Rightarrow> 'w \<Rightarrow> HttpResponse \<times> 'w" where
  "handleWS s rq w =
     ((case sv_accept s rq of None \<Rightarrow> \<lparr>hr_status = 101, hr_cookie = None, hr_body = WebSocketAccepted\<rparr> | Some (code, msg) \<Rightarrow> http_error msg code), w)"

definition serve :: "Server \<Rightarrow> Database \<Rightarrow> ('e \<Rightarrow> string) \<Rightarrow> ('e, 'w) control_client \<Rightarrow> HttpRequest \<Rightarrow> 'w \<Rightarrow> HttpResponse \<times> 'w" where
  "serve s db err_text call rq w =
     (case route_of rq of
        Static \<Rightarrow> (\<lparr>hr_status = sv_files s rq, hr_cookie = None, hr_body = StaticContent\<rparr>, w)
      | Moved \<Rightarrow> (\<lparr>hr_status = 301, hr_cookie = None, hr_body = MovedTo (cleanPath (hq_path rq))\<rparr>, w)
      | MethodNotAllowed \<Rightarrow> (http_error ''Method Not Allowed'' 405, w)
      | Login \<Rightarrow> (handleLogin s rq, w)
      | Orders \<Rightarrow> requireAuth s (handleOrders db) rq w
      | Positions \<Rightarrow> requireAuth s (handlePositions db) rq w
      | Audit \<Rightarrow> requireAuth s (handleAudit db) rq w
      | Halts \<Rightarrow> requireAuth s (handleHalts db) rq w
      | RiskRoute \<Rightarrow> requireAuth s (handleRiskStats db) rq w
      | Kill \<Rightarrow> requireAuth s (handleKill err_text call) rq w
      | Ack \<Rightarrow> requireAuth s (handleAck err_text call) rq w
      | ResumeRoute \<Rightarrow> requireAuth s (handleResume err_text call) rq w
      | WS \<Rightarrow> requireAuth s (handleWS s) rq w)"


section \<open>What a request can do\<close>

text \<open>The call a control request makes, when its body is in order.\<close>

definition requested_call :: "HttpRequest \<Rightarrow> control_call option" where
  "requested_call rq =
     (case hq_body rq of None \<Rightarrow> None
      | Some body \<Rightarrow>
          if route_of rq = Kill then
            map_option (\<lambda>level. KillCall level (or_default (field body ''scope'') ''global'') ''dashboard kill switch'' ''dashboard'')
              (levelMap (or_default (field body ''level'') ''cancel_only''))
          else if route_of rq = Ack then Some (AckCall (or_default (field body ''scope'') ''global'') ''dashboard'' (field body ''root_cause''))
          else if route_of rq = ResumeRoute then Some (ResumeCall (or_default (field body ''scope'') ''global'') ''dashboard'')
          else None)"

definition open_routes :: "route set" where
  "open_routes = {Static, Login, Moved, MethodNotAllowed}"

definition control_routes :: "route set" where
  "control_routes = {Kill, Ack, ResumeRoute}"

lemma levelMap_cases: "levelMap l = None \<longleftrightarrow> l \<notin> {''soft_pause'', ''cancel_only'', ''full_stop''}"
  by (simp add: levelMap_def)

lemma serve_unauthorized:
  fixes call :: "('a, 'w) control_client" and w :: 'w
  assumes "route_of rq \<notin> open_routes" "hq_cookie rq \<noteq> Some (sessionToken s)"
  shows "serve s db err_text call rq w = (http_error ''unauthorized'' 401, w)"
proof -
  have "hq_cookie rq = None \<or> the (hq_cookie rq) \<noteq> sessionToken s" using assms(2) by (cases "hq_cookie rq") simp_all
  then have "requireAuth s handler rq w = (http_error ''unauthorized'' 401, w)" for handler :: "HttpRequest \<Rightarrow> 'w \<Rightarrow> HttpResponse \<times> 'w"
    by (simp add: requireAuth_def)
  then show ?thesis using assms(1) by (cases "route_of rq") (simp_all add: serve_def open_routes_def)
qed

lemma serve_control:
  fixes call :: "('a, 'w) control_client" and w :: 'w
  assumes "route_of rq \<in> control_routes" "hq_cookie rq = Some (sessionToken s)"
  shows "serve s db err_text call rq w =
    (case requested_call rq of None \<Rightarrow> (http_error (if hq_body rq = None then ''invalid request'' else ''invalid level'') 400, w)
     | Some c \<Rightarrow> (case call c w of
          (Inl err, w') \<Rightarrow> (http_error ((if route_of rq = Kill then ''kill switch failed'' else if route_of rq = Ack then ''ack failed'' else ''resume failed'')
              @ '': '' @ err_text err) 500, w')
        | (Inr _, w') \<Rightarrow> (writeJSON (StatusJSON (if route_of rq = Kill then ''triggered'' else if route_of rq = Ack then ''acknowledged'' else ''resumed'')), w')))"
proof -
  have auth: "requireAuth s handler rq w = handler rq w" for handler :: "HttpRequest \<Rightarrow> 'w \<Rightarrow> HttpResponse \<times> 'w"
    using assms(2) by (simp add: requireAuth_def)
  consider "route_of rq = Kill" | "route_of rq = Ack" | "route_of rq = ResumeRoute" using assms(1) by (auto simp: control_routes_def)
  then show ?thesis
  proof cases
    case 1
    then show ?thesis
      by (cases "hq_body rq") (auto simp: serve_def auth handleKill_def requested_call_def control_response_def Let_def split: option.splits)
  next
    case 2
    then show ?thesis by (cases "hq_body rq") (simp_all add: serve_def auth handleAck_def requested_call_def control_response_def)
  next
    case 3
    then show ?thesis by (cases "hq_body rq") (simp_all add: serve_def auth handleResume_def requested_call_def control_response_def)
  qed
qed

lemma serve_other:
  fixes call :: "('a, 'w) control_client" and w :: 'w
  assumes "route_of rq \<notin> control_routes"
  shows "snd (serve s db err_text call rq w) = w"
proof -
  have "snd (requireAuth s handler rq w) = w" if "snd (handler rq w) = w" for handler :: "HttpRequest \<Rightarrow> 'w \<Rightarrow> HttpResponse \<times> 'w"
    using that by (simp add: requireAuth_def)
  then show ?thesis using assms
    by (cases "route_of rq")
       (simp_all add: serve_def control_routes_def handleOrders_def handlePositions_def handleAudit_def handleHalts_def handleRiskStats_def handleWS_def)
qed

lemma control_routes_no_cookie:
  fixes call :: "('a, 'w) control_client" and w :: 'w
  assumes "route_of rq \<noteq> Login"
  shows "hr_cookie (fst (serve s db err_text call rq w)) = None"
proof -
  have err: "hr_cookie (http_error msg code) = None" "hr_cookie (writeJSON b) = None" for msg code b by (simp_all add: http_error_def writeJSON_def)
  have auth: "hr_cookie (fst (requireAuth s handler rq w)) = None" if "hr_cookie (fst (handler rq w)) = None"
    for handler :: "HttpRequest \<Rightarrow> 'w \<Rightarrow> HttpResponse \<times> 'w" using that by (simp add: requireAuth_def err)
  have data: "hr_cookie (data_response body r) = None" for body :: "'b \<Rightarrow> payload_body" and r by (simp add: data_response_def err split: sum.split)
  have ctl: "hr_cookie (fst (control_response et f d r)) = None" for et :: "'a \<Rightarrow> string" and f d and r :: "('a, control_reply) result \<times> 'w"
    by (simp add: control_response_def err split: prod.split sum.split)
  have "hr_cookie (fst (handleKill err_text call rq w)) = None" "hr_cookie (fst (handleAck err_text call rq w)) = None"
    "hr_cookie (fst (handleResume err_text call rq w)) = None"
    by (simp_all add: handleKill_def handleAck_def handleResume_def err ctl Let_def split: option.split)
  then show ?thesis using assms
    by (cases "route_of rq") (simp_all add: serve_def auth err data handleOrders_def handlePositions_def handleAudit_def handleHalts_def handleRiskStats_def handleWS_def split: option.split)
qed

text \<open>
  C24: The dashboard acts only for a session, and exactly as asked. Whatever the request: without the session cookie every
  data, control and WebSocket path answers 401 and nothing is called; only a control request with the cookie and a valid
  body makes a call to the watchdog, one, with the requested level, scope and cause, and it answers 500 exactly when
  that call fails; no other request changes anything; and a response sets a cookie only for a login with the right
  key, and then it is the session token.
\<close>

theorem dashboard_requests_exact:
  shows "(route_of rq \<notin> open_routes \<and> hq_cookie rq \<noteq> Some (sessionToken s)
        \<longrightarrow> serve s db err_text call rq w = (http_error ''unauthorized'' 401, w))
    \<and> (route_of rq \<notin> control_routes \<or> requested_call rq = None \<longrightarrow> snd (serve s db err_text call rq w) = w)
    \<and> (route_of rq \<in> control_routes \<and> hq_cookie rq = Some (sessionToken s)
        \<longrightarrow> (case requested_call rq of None \<Rightarrow> hr_status (fst (serve s db err_text call rq w)) = 400
             | Some c \<Rightarrow> snd (serve s db err_text call rq w) = snd (call c w)
                 \<and> hr_status (fst (serve s db err_text call rq w)) = (case fst (call c w) of Inl _ \<Rightarrow> 500 | Inr _ \<Rightarrow> 200)))
    \<and> (hr_cookie (fst (serve s db err_text call rq w)) \<noteq> None
        \<longrightarrow> route_of rq = Login \<and> hr_cookie (fst (serve s db err_text call rq w)) = Some (sessionToken s)
            \<and> (\<exists>body. hq_body rq = Some body \<and> field body ''api_key'' = sv_apiKey s))"
proof (intro conjI impI)
  assume "route_of rq \<notin> open_routes \<and> hq_cookie rq \<noteq> Some (sessionToken s)"
  then show "serve s db err_text call rq w = (http_error ''unauthorized'' 401, w)" by (intro serve_unauthorized) simp_all
next
  assume none: "route_of rq \<notin> control_routes \<or> requested_call rq = None"
  show "snd (serve s db err_text call rq w) = w"
  proof (cases "route_of rq \<in> control_routes \<and> hq_cookie rq = Some (sessionToken s)")
    case True
    then show ?thesis using none by (simp add: serve_control)
  next
    case False
    have "route_of rq \<in> control_routes \<Longrightarrow> route_of rq \<notin> open_routes" by (auto simp: control_routes_def open_routes_def)
    then show ?thesis using False serve_unauthorized [of rq s db err_text call w] serve_other [of rq s db err_text call w] by fastforce
  qed
next
  assume "route_of rq \<in> control_routes \<and> hq_cookie rq = Some (sessionToken s)"
  then show "case requested_call rq of None \<Rightarrow> hr_status (fst (serve s db err_text call rq w)) = 400
      | Some c \<Rightarrow> snd (serve s db err_text call rq w) = snd (call c w)
          \<and> hr_status (fst (serve s db err_text call rq w)) = (case fst (call c w) of Inl _ \<Rightarrow> 500 | Inr _ \<Rightarrow> 200)"
    by (simp add: serve_control http_error_def writeJSON_def split: option.split sum.split prod.split)
next
  assume some: "hr_cookie (fst (serve s db err_text call rq w)) \<noteq> None"
  show login: "route_of rq = Login"
  proof (rule ccontr)
    assume "route_of rq \<noteq> Login"
    from control_routes_no_cookie [OF this, of s db err_text call w] some show False by simp
  qed
  from some login show "hr_cookie (fst (serve s db err_text call rq w)) = Some (sessionToken s)"
    "\<exists>body. hq_body rq = Some body \<and> field body ''api_key'' = sv_apiKey s"
    by (auto simp: serve_def handleLogin_def http_error_def writeJSON_def split: option.splits if_splits)
qed

definition sample_server :: Server where
  "sample_server = \<lparr>sv_apiKey = ''key'', sv_mac = (\<lambda>k m. k @ ''/'' @ m), sv_accept = (\<lambda>_. None), sv_files = (\<lambda>_. 200)\<rparr>"

definition sample_database :: Database where
  "sample_database = \<lparr>db_faults = no_faults, db_orders = [], db_positions = [], db_audit = [], db_kills = [], db_stats = [], db_today = 0,
     db_orders_by = (\<lambda>x. x), db_positions_by = (\<lambda>x. x), db_audit_by = (\<lambda>x. x), db_kills_by = (\<lambda>x. x)\<rparr>"

definition recording :: "(unit, control_call list) control_client" where
  "recording c w = (Inr \<lparr>cr_executed = True, cr_detail = None\<rparr>, w @ [c])"

theorem dashboard_requests_exact_witness:
  "snd (serve sample_server sample_database (\<lambda>_. []) recording
      \<lparr>hq_method = ''POST'', hq_path = ''/api/kill'', hq_cookie = Some ''key/dashboard-session'', hq_body = Some [''level'' \<mapsto> ''full_stop'']\<rparr> [])
     = [KillCall KILL_LEVEL_FULL_STOP ''global'' ''dashboard kill switch'' ''dashboard'']"
proof -
  let ?rq = "\<lparr>hq_method = ''POST'', hq_path = ''/api/kill'', hq_cookie = Some ''key/dashboard-session'', hq_body = Some [''level'' \<mapsto> ''full_stop'']\<rparr>"
  have route: "route_of ?rq = Kill" by (simp add: route_of_def post_routes_def cleanPath_def clean_segment_def)
  have call: "requested_call ?rq = Some (KillCall KILL_LEVEL_FULL_STOP ''global'' ''dashboard kill switch'' ''dashboard'')"
    by (simp add: requested_call_def route or_default_def field_def levelMap_def)
  have cookie: "hq_cookie ?rq = Some (sessionToken sample_server)" by (simp add: sessionToken_def sample_server_def)
  have "route_of ?rq \<in> control_routes" by (simp add: route control_routes_def)
  with dashboard_requests_exact [of ?rq sample_server sample_database "\<lambda>_ :: unit. []" recording "[]"] cookie
  show ?thesis unfolding call by (simp add: recording_def)
qed

text \<open>On the connection it is given, the dashboard's calls are all refused: its kill switch answers 500 and stops nothing.\<close>

lemma dashboard_changes_nothing:
  "snd (serve s db err_text (operator_rpc H ec rk flt visit now aid) rq w) = w"
proof (cases "route_of rq \<in> control_routes \<and> hq_cookie rq = Some (sessionToken s)")
  case True
  have "snd (operator_rpc H ec rk flt visit now aid c w) = w" for c
    unfolding operator_rpc_def by (rule watchdog_rpc.refused_state [OF no_identity_refused])
  then show ?thesis
    using True by (simp add: serve_control split: option.split prod.split sum.split) (metis sndI)
next
  case False
  have "route_of rq \<in> control_routes \<Longrightarrow> route_of rq \<notin> open_routes" by (auto simp: control_routes_def open_routes_def)
  then show ?thesis using False serve_unauthorized [of rq s db err_text _ w] serve_other [of rq s db err_text _ w] by fastforce
qed

text \<open>On a connection that is let through, a resume that the watchdog turns down is still answered with \<^verbatim>\<open>resumed\<close>.\<close>

lemma refused_resume_reported:
  assumes "route_of rq = ResumeRoute" "hq_cookie rq = Some (sessionToken s)" "hq_body rq = Some body"
    and "call (ResumeCall (or_default (field body ''scope'') ''global'') ''dashboard'') w = (Inr \<lparr>cr_executed = False, cr_detail = Some d\<rparr>, w)"
  shows "serve s db err_text call rq w = (writeJSON (StatusJSON ''resumed''), w)"
  using assms by (simp add: serve_control control_routes_def requested_call_def)

end
