(* ===== verification/Alert_Bot.thy ===== *)
theory Alert_Bot
  imports Dashboard Market_Feed "HOL-Library.Sublist"
begin

text \<open>
  The Telegram bot (\<^verbatim>\<open>services/alertbot\<close>): commands with the allowed chats, the per-chat limiter and the two-step kill, the
  texts, and the notifier with its batches. The rate limiter of \<^verbatim>\<open>golang.org/x/time/rate\<close>, the watchdog connection and the
  database are arguments. What was sent to Telegram is a log; a failed send is only logged by the code. A slice
  beyond a string's end panics: None.
\<close>

section \<open>Texts\<close>

definition nl :: string where
  "nl = [CHR 0x0A]"

text \<open>UTF-8 of the dash, the yellow circle, the cross, the check mark, the outbox, the money bag and the siren.\<close>

definition em_dash :: string where "em_dash = [CHR 0xE2, CHR 0x80, CHR 0x94]"
definition yellow_circle :: string where "yellow_circle = [CHR 0xF0, CHR 0x9F, CHR 0x9F, CHR 0xA1]"
definition cross_mark :: string where "cross_mark = [CHR 0xE2, CHR 0x9D, CHR 0x8C]"
definition check_mark :: string where "check_mark = [CHR 0xE2, CHR 0x9C, CHR 0x85]"
definition outbox_tray :: string where "outbox_tray = [CHR 0xF0, CHR 0x9F, CHR 0x93, CHR 0xA4]"
definition money_bag :: string where "money_bag = [CHR 0xF0, CHR 0x9F, CHR 0x92, CHR 0xB0]"
definition siren :: string where "siren = [CHR 0xF0, CHR 0x9F, CHR 0x9A, CHR 0xA8]"

definition micros :: "int64 \<Rightarrow> string" where
  "micros v = ''$'' @ show_float 2 (f_div (f_of_int (sint v)) (f_of_int 1000000))"

definition trace8 :: "string \<Rightarrow> string option" where
  "trace8 t = (if length t < 8 then None else Some (take 8 t))"

definition halt_line :: "HaltRow \<Rightarrow> string" where
  "halt_line h = ''  - '' @ hv_Level h @ '' ('' @ hv_Scope h @ ''): '' @ hv_Reason h @ nl"

definition FormatStatus :: "string \<Rightarrow> HaltRow list \<Rightarrow> string" where
  "FormatStatus mode halts =
     ''System Status'' @ nl @ ''Mode: '' @ mode @ nl
     @ (if halts = [] then ''Halts: none'' @ nl else ''Active Halts: '' @ show_nat (length halts) @ nl @ concat (map halt_line halts))"

definition FormatRiskStats :: "RiskStats \<Rightarrow> string" where
  "FormatRiskStats st =
     ''P&L Report'' @ nl @ ''Daily P&L: '' @ micros (rv_DailyPnlMicros st) @ nl @ ''Turnover: '' @ micros (rv_TotalTurnoverMicros st) @ nl
     @ ''Fills: '' @ d32 (rv_FillCount st) @ nl @ ''Orders: '' @ d32 (rv_OrderCount st)"

definition order_line :: "OrderView \<Rightarrow> string" where
  "order_line ord = ov_MarketID ord @ '' '' @ ov_Side ord @ '' '' @ d32 (ov_Quantity ord) @ '' @ '' @ micros (ov_PriceMicros ord)
     @ '' ['' @ ov_Status ord @ '']'' @ nl"

definition FormatOrders :: "OrderView list \<Rightarrow> string" where
  "FormatOrders orders =
     (if orders = [] then ''Orders'' @ nl @ ''No open orders''
      else ''Open Orders'' @ nl @ concat (map order_line (take 10 orders))
        @ (if 10 < length orders then ''... and '' @ show_nat (length orders - 10) @ '' more'' @ nl else []))"

definition FormatOrderProposed :: "OrderProposedEvent \<Rightarrow> string option" where
  "FormatOrderProposed e = map_option (\<lambda>t.
     yellow_circle @ '' Order Proposed'' @ nl @ ope_Side e @ '' '' @ ope_Venue e @ '' '' @ d32 (ope_Quantity e) @ '' @ '' @ micros (ope_PriceMicros e)
     @ nl @ ''Strategy: '' @ ope_StrategyID e @ nl @ ''Market: '' @ ope_MarketID e @ nl @ ''Trace: '' @ t) (trace8 (ope_TraceID e))"

definition FormatOrderApproved :: "OrderApprovedEvent \<Rightarrow> string option" where
  "FormatOrderApproved e = map_option (\<lambda>t. check_mark @ '' Order Approved'' @ nl @ ''Trace: '' @ t) (trace8 (oae_TraceID e))"

definition FormatOrderSubmitted :: "OrderSubmittedEvent \<Rightarrow> string option" where
  "FormatOrderSubmitted e = map_option (\<lambda>t.
     outbox_tray @ '' Order Submitted'' @ nl @ ''Venue: '' @ ose_Venue e @ nl @ ''Exchange ID: '' @ ose_ExchangeOrderID e @ nl @ ''Trace: '' @ t)
     (trace8 (ose_TraceID e))"

definition FormatFillNotification :: "OrderFilledEvent \<Rightarrow> string option" where
  "FormatFillNotification e = map_option (\<lambda>t.
     money_bag @ '' Fill: '' @ d32 (ofe_FilledQuantity e) @ '' @ '' @ micros (ofe_AveragePriceMicros e) @ '' (remaining: '' @ d32 (ofe_RemainingQuantity e)
     @ '')'' @ nl @ ''Trace: '' @ t) (trace8 (ofe_TraceID e))"

text \<open>\<open>rfc3339\<close> prints a time.\<close>

definition FormatKillSwitchNotification :: "(time \<Rightarrow> string) \<Rightarrow> KillSwitchEvent \<Rightarrow> string" where
  "FormatKillSwitchNotification rfc3339 e =
     siren @ '' KILL SWITCH'' @ nl @ ''Level: '' @ kse_Level e @ nl @ ''Scope: '' @ kse_Scope e @ nl @ ''Reason: '' @ kse_Reason e @ nl
     @ ''By: '' @ kse_TriggeredBy e @ nl @ ''Time: '' @ rfc3339 (kse_Timestamp e)"

definition FormatOrderDenied :: "OrderDeniedEvent \<Rightarrow> string option" where
  "FormatOrderDenied e = map_option (\<lambda>t.
     cross_mark @ '' Order DENIED'' @ nl @ ''Reason: '' @ ode_DenyReason e @ nl @ ''Trace: '' @ t
     @ (if ode_FailedChecks e = [] then []
        else nl @ ''Failed checks:'' @ concat (map (\<lambda>c. nl @ ''  - '' @ cr_Name c @ '': '' @ cr_Detail c) (ode_FailedChecks e))))
     (trace8 (ode_TraceID e))"


section \<open>Chat ids\<close>

fun split_comma :: "string \<Rightarrow> string \<Rightarrow> string list" where
  "split_comma [] acc = [acc]"
| "split_comma (c # cs) acc = (if c = CHR '','' then acc # split_comma cs [] else split_comma cs (acc @ [c]))"

definition is_space :: "char \<Rightarrow> bool" where
  "is_space c \<longleftrightarrow> c \<in> {CHR 0x09, CHR 0x0A, CHR 0x0B, CHR 0x0C, CHR 0x0D, CHR 0x20}"

definition trim_space :: "string \<Rightarrow> string" where
  "trim_space s = rev (dropWhile is_space (rev (dropWhile is_space s)))"

definition parse_int64 :: "string \<Rightarrow> int64 option" where
  "parse_int64 s =
     (let (neg, ds) = split_sign s; v = (if neg then - int (dec_value ds) else int (dec_value ds)) in
      if ds = [] \<or> \<not> list_all is_digit ds then None
      else if - (2 ^ 63) \<le> v \<and> v < 2 ^ 63 then Some (word_of_int v) else None)"

definition parseChatIDs :: "string \<Rightarrow> int64 list" where
  "parseChatIDs s = (if s = [] then [] else List.map_filter (\<lambda>p. parse_int64 (trim_space p)) (split_comma s []))"


section \<open>Commands\<close>

text \<open>The limiter of a chat is made on its first command; \<open>lim_allow\<close> is \<^verbatim>\<open>Allow\<close> of the rate package at a time.\<close>

record 'l rate_limits =
  rl_fresh :: 'l
  rl_allow :: "time \<Rightarrow> 'l \<Rightarrow> bool \<times> 'l"

definition ChatLimiter_Allow :: "'l rate_limits \<Rightarrow> time \<Rightarrow> int64 \<Rightarrow> (int64 \<rightharpoonup> 'l) \<Rightarrow> bool \<times> (int64 \<rightharpoonup> 'l)" where
  "ChatLimiter_Allow rl now chatID limiters =
     (let (ok, lim) = rl_allow rl now (map_get limiters chatID (rl_fresh rl)) in (ok, limiters(chatID \<mapsto> lim)))"

record ('l, 'w) Bot =
  bo_watchdog :: 'w
  bo_allowed :: "int64 \<rightharpoonup> bool"
  bo_limiter :: "int64 \<rightharpoonup> 'l"
  bo_pendingKills :: "int64 \<rightharpoonup> time"
  bo_sent :: "(int64 \<times> string) list"

definition NewBot :: "'w \<Rightarrow> int64 list \<Rightarrow> ('l, 'w) Bot" where
  "NewBot watchdog allowedChatIDs =
     \<lparr>bo_watchdog = watchdog, bo_allowed = foldl (\<lambda>m id. m(id \<mapsto> True)) Map.empty allowedChatIDs, bo_limiter = Map.empty,
      bo_pendingKills = Map.empty, bo_sent = []\<rparr>"

text \<open>What a command meets: the limiter, the watchdog and the database at the time.\<close>

record ('l, 'e, 'w) bot_env =
  be_limits :: "'l rate_limits"
  be_call :: "time \<Rightarrow> ('e, 'w) control_client"
  be_err_text :: "'e \<Rightarrow> string"
  be_query_text :: "query_error \<Rightarrow> string"
  be_db :: "time \<Rightarrow> Database"

definition bot_reply :: "int64 \<Rightarrow> string \<Rightarrow> ('l, 'w) Bot \<Rightarrow> ('l, 'w) Bot" where
  "bot_reply chatID text b = b\<lparr>bo_sent := bo_sent b @ [(chatID, text)]\<rparr>"

definition cmdStatus :: "('l, 'e, 'w) bot_env \<Rightarrow> time \<Rightarrow> int64 \<Rightarrow> ('l, 'w) Bot \<Rightarrow> ('l, 'w) Bot" where
  "cmdStatus env now chatID b =
     (let db = be_db env now in
      case QueryActiveHalts (db_faults db) (db_kills_by db) (db_kills db) of
        Inl err \<Rightarrow> bot_reply chatID (''Failed to query status: '' @ be_query_text env err) b
      | Inr halts \<Rightarrow> bot_reply chatID (FormatStatus (if halts = [] then ''NORMAL'' else ''HALTED'') halts) b)"

definition cmdPnL :: "('l, 'e, 'w) bot_env \<Rightarrow> time \<Rightarrow> int64 \<Rightarrow> ('l, 'w) Bot \<Rightarrow> ('l, 'w) Bot" where
  "cmdPnL env now chatID b =
     (let db = be_db env now in
      case QueryRiskStats (db_faults db) (db_today db) (db_stats db) of
        Inl err \<Rightarrow> bot_reply chatID (''Failed to query P&L: '' @ be_query_text env err) b
      | Inr stats \<Rightarrow> bot_reply chatID (FormatRiskStats stats) b)"

definition cmdOrders :: "('l, 'e, 'w) bot_env \<Rightarrow> time \<Rightarrow> int64 \<Rightarrow> ('l, 'w) Bot \<Rightarrow> ('l, 'w) Bot" where
  "cmdOrders env now chatID b =
     (let db = be_db env now in
      case QueryOpenOrders (db_faults db) (db_orders_by db) (db_orders db) of
        Inl err \<Rightarrow> bot_reply chatID (''Failed to query orders: '' @ be_query_text env err) b
      | Inr orders \<Rightarrow> bot_reply chatID (FormatOrders orders) b)"

definition cmdKill :: "time \<Rightarrow> int64 \<Rightarrow> ('l, 'w) Bot \<Rightarrow> ('l, 'w) Bot" where
  "cmdKill now chatID b =
     bot_reply chatID (''Are you sure you want to trigger the kill switch?'' @ nl @ ''Send /confirm_kill within 30 seconds to confirm.'')
       (b\<lparr>bo_pendingKills := (bo_pendingKills b)(chatID \<mapsto> now + 30 * time_Second)\<rparr>)"

definition telegram_user :: "int64 \<Rightarrow> string" where
  "telegram_user chatID = ''telegram:'' @ show_int (sint chatID)"

definition cmdConfirmKill :: "('l, 'e, 'w) bot_env \<Rightarrow> time \<Rightarrow> int64 \<Rightarrow> ('l, 'w) Bot \<Rightarrow> ('l, 'w) Bot" where
  "cmdConfirmKill env now chatID b =
     (let deadline = bo_pendingKills b chatID; b = b\<lparr>bo_pendingKills := (bo_pendingKills b)(chatID := None)\<rparr> in
      if deadline = None \<or> the deadline < now then bot_reply chatID ''No pending kill confirmation or it expired. Send /kill first.'' b
      else case be_call env now (KillCall KILL_LEVEL_CANCEL_ONLY ''global'' ''telegram kill switch'' (telegram_user chatID)) (bo_watchdog b) of
        (Inl err, w) \<Rightarrow> bot_reply chatID (''Kill switch failed: '' @ be_err_text env err) (b\<lparr>bo_watchdog := w\<rparr>)
      | (Inr _, w) \<Rightarrow> bot_reply chatID ''Kill switch activated. All open orders will be cancelled.'' (b\<lparr>bo_watchdog := w\<rparr>))"

definition cmdResume :: "('l, 'e, 'w) bot_env \<Rightarrow> time \<Rightarrow> int64 \<Rightarrow> ('l, 'w) Bot \<Rightarrow> ('l, 'w) Bot" where
  "cmdResume env now chatID b =
     (case be_call env now (ResumeCall ''global'' []) (bo_watchdog b) of
        (Inl err, w) \<Rightarrow> bot_reply chatID (''Resume failed: '' @ be_err_text env err) (b\<lparr>bo_watchdog := w\<rparr>)
      | (Inr _, w) \<Rightarrow> bot_reply chatID ''Trading resumed.'' (b\<lparr>bo_watchdog := w\<rparr>))"

definition help_line :: "string \<Rightarrow> string \<Rightarrow> string" where
  "help_line c t = nl @ c @ '' '' @ em_dash @ '' '' @ t"

definition cmdHelp :: "int64 \<Rightarrow> ('l, 'w) Bot \<Rightarrow> ('l, 'w) Bot" where
  "cmdHelp chatID b =
     bot_reply chatID (''TraderBot Commands:'' @ help_line ''/status'' ''System status and active halts'' @ help_line ''/pnl'' ''Daily P&L report''
       @ help_line ''/orders'' ''Open orders'' @ help_line ''/kill'' ''Trigger kill switch (requires confirmation)''
       @ help_line ''/resume'' ''Resume trading after halt'' @ help_line ''/help'' ''This message'') b"

definition handleCommand :: "('l, 'e, 'w) bot_env \<Rightarrow> time \<Rightarrow> int64 \<Rightarrow> string \<Rightarrow> ('l, 'w) Bot \<Rightarrow> ('l, 'w) Bot" where
  "handleCommand env now chatID command b =
     (if \<not> map_get (bo_allowed b) chatID False then b
      else let (ok, limiter) = ChatLimiter_Allow (be_limits env) now chatID (bo_limiter b); b = b\<lparr>bo_limiter := limiter\<rparr> in
        if \<not> ok then bot_reply chatID ''Rate limited. Please wait.'' b
        else if command = ''status'' then cmdStatus env now chatID b
        else if command = ''pnl'' then cmdPnL env now chatID b
        else if command = ''orders'' then cmdOrders env now chatID b
        else if command = ''kill'' then cmdKill now chatID b
        else if command = ''confirm_kill'' then cmdConfirmKill env now chatID b
        else if command = ''resume'' then cmdResume env now chatID b
        else if command = ''help'' then cmdHelp chatID b
        else bot_reply chatID ''Unknown command. Send /help for available commands.'' b)"

text \<open>Commands in the order their handlers run: the time, the chat and the command.\<close>

type_synonym bot_message = "time \<times> int64 \<times> string"

definition run_bot :: "('l, 'e, 'w) bot_env \<Rightarrow> bot_message list \<Rightarrow> ('l, 'w) Bot \<Rightarrow> ('l, 'w) Bot" where
  "run_bot env msgs b = foldl (\<lambda>b (now, chatID, command). handleCommand env now chatID command b) b msgs"


section \<open>The notifier\<close>

record ChatGroups =
  cg_Trades :: "int64 list"
  cg_Alerts :: "int64 list"

definition batchSize :: nat where
  "batchSize = 500"

text \<open>
  \<open>nt_bot\<close> is Telegram: whether the send with this number, to this chat and with this text, succeeds (it fails
  when Telegram is unreachable, the chat is gone or the text is longer than Telegram takes). \<open>nt_tried\<close> are the
  messages passed to \<^verbatim>\<open>bot.Send\<close>, \<open>nt_delivered\<close> those of them it returned no error for.
\<close>

record Notifier =
  nt_groups :: ChatGroups
  nt_proposed :: "OrderProposedEvent list"
  nt_denied :: "OrderDeniedEvent list"
  nt_bot :: "nat \<Rightarrow> int64 \<times> string \<Rightarrow> bool"
  nt_tried :: "(int64 \<times> string) list"
  nt_delivered :: "(int64 \<times> string) list"

definition NewNotifier :: "(nat \<Rightarrow> int64 \<times> string \<Rightarrow> bool) \<Rightarrow> int64 list \<Rightarrow> ChatGroups \<Rightarrow> Notifier" where
  "NewNotifier tg chatIDs groups =
     \<lparr>nt_groups = \<lparr>cg_Trades = (if cg_Trades groups = [] then chatIDs else cg_Trades groups),
        cg_Alerts = (if cg_Alerts groups = [] then chatIDs else cg_Alerts groups)\<rparr>,
      nt_proposed = [], nt_denied = [], nt_bot = tg, nt_tried = [], nt_delivered = []\<rparr>"

text \<open>A send that fails is logged and not repeated.\<close>

definition send_one :: "string \<Rightarrow> Notifier \<Rightarrow> int64 \<Rightarrow> Notifier" where
  "send_one text n chatID =
     n\<lparr>nt_tried := nt_tried n @ [(chatID, text)],
       nt_delivered := (if nt_bot n (length (nt_tried n)) (chatID, text) then nt_delivered n @ [(chatID, text)] else nt_delivered n)\<rparr>"

definition broadcastTo :: "int64 list \<Rightarrow> string \<Rightarrow> Notifier \<Rightarrow> Notifier" where
  "broadcastTo chatIDs text n = foldl (send_one text) n chatIDs"

text \<open>The events of a batch counted by a key, and the message in the order \<open>visit\<close> goes through the counts.\<close>

definition count_by :: "('e \<Rightarrow> string) \<Rightarrow> 'e list \<Rightarrow> string \<rightharpoonup> nat" where
  "count_by key batch = foldl (\<lambda>m e. m(key e \<mapsto> Suc (map_get m (key e) 0))) Map.empty batch"

definition batch_message :: "((string \<rightharpoonup> nat) \<Rightarrow> string list) \<Rightarrow> string \<Rightarrow> string \<Rightarrow> ('e \<Rightarrow> string) \<Rightarrow> 'e list \<Rightarrow> string" where
  "batch_message visit mark what key batch =
     (let counts = count_by key batch in
      mark @ '' '' @ show_nat (length batch) @ '' Orders '' @ what @ nl
      @ concat (map (\<lambda>k. ''  '' @ k @ '': '' @ show_nat (map_get counts k 0) @ nl) (visit counts)))"

definition flushProposed :: "((string \<rightharpoonup> nat) \<Rightarrow> string list) \<Rightarrow> Notifier \<Rightarrow> Notifier" where
  "flushProposed visit n =
     (let batch = nt_proposed n; n = n\<lparr>nt_proposed := []\<rparr> in
      if batch = [] then n else broadcastTo (cg_Trades (nt_groups n)) (batch_message visit yellow_circle ''Proposed'' ope_MarketID batch) n)"

definition flushDenied :: "((string \<rightharpoonup> nat) \<Rightarrow> string list) \<Rightarrow> Notifier \<Rightarrow> Notifier" where
  "flushDenied visit n =
     (let batch = nt_denied n; n = n\<lparr>nt_denied := []\<rparr> in
      if batch = [] then n else broadcastTo (cg_Alerts (nt_groups n)) (batch_message visit cross_mark ''Denied'' ode_DenyReason batch) n)"

text \<open>A handler gets the decoded event, None when it cannot be decoded. None as a result is a panic.\<close>

definition handleProposed :: "((string \<rightharpoonup> nat) \<Rightarrow> string list) \<Rightarrow> OrderProposedEvent option \<Rightarrow> Notifier \<Rightarrow> Notifier" where
  "handleProposed visit msg n =
     (case msg of None \<Rightarrow> n
      | Some e \<Rightarrow> let n = n\<lparr>nt_proposed := nt_proposed n @ [e]\<rparr> in if batchSize \<le> length (nt_proposed n) then flushProposed visit n else n)"

definition handleDenied :: "((string \<rightharpoonup> nat) \<Rightarrow> string list) \<Rightarrow> OrderDeniedEvent option \<Rightarrow> Notifier \<Rightarrow> Notifier" where
  "handleDenied visit msg n =
     (case msg of None \<Rightarrow> n
      | Some e \<Rightarrow> let n = n\<lparr>nt_denied := nt_denied n @ [e]\<rparr> in if batchSize \<le> length (nt_denied n) then flushDenied visit n else n)"

definition handleSubmitted :: "OrderSubmittedEvent option \<Rightarrow> Notifier \<Rightarrow> Notifier option" where
  "handleSubmitted msg n =
     (case msg of None \<Rightarrow> Some n | Some e \<Rightarrow> map_option (\<lambda>text. broadcastTo (cg_Trades (nt_groups n)) text n) (FormatOrderSubmitted e))"

definition handleFill :: "OrderFilledEvent option \<Rightarrow> Notifier \<Rightarrow> Notifier option" where
  "handleFill msg n =
     (case msg of None \<Rightarrow> Some n | Some e \<Rightarrow> map_option (\<lambda>text. broadcastTo (cg_Trades (nt_groups n)) text n) (FormatFillNotification e))"

definition handleKill_event :: "(time \<Rightarrow> string) \<Rightarrow> KillSwitchEvent option \<Rightarrow> Notifier \<Rightarrow> Notifier" where
  "handleKill_event rfc3339 msg n =
     (case msg of None \<Rightarrow> n | Some e \<Rightarrow> broadcastTo (cg_Alerts (nt_groups n)) (FormatKillSwitchNotification rfc3339 e) n)"

definition notifier_subjects :: "(string \<times> string) list" where
  "notifier_subjects = [(''order.proposed.>'', ''alertbot-proposed''), (''order.approved.>'', ''alertbot-approved''), (''order.denied.>'', ''alertbot-denied''),
     (''order.submitted.>'', ''alertbot-submitted''), (''order.filled.>'', ''alertbot-fills''), (''kill.activated.>'', ''alertbot-kills'')]"

text \<open>What the notifier lives through: the events of its subjects, and the ticks of \<^verbatim>\<open>batchFlusher\<close>. Approvals are silent.\<close>

datatype notifier_input =
    GotProposed "OrderProposedEvent option" | GotApproved | GotDenied "OrderDeniedEvent option" | GotSubmitted "OrderSubmittedEvent option"
  | GotFill "OrderFilledEvent option" | GotKill "KillSwitchEvent option" | FlushTick

definition notify :: "((string \<rightharpoonup> nat) \<Rightarrow> string list) \<Rightarrow> (time \<Rightarrow> string) \<Rightarrow> notifier_input \<Rightarrow> Notifier \<Rightarrow> Notifier option" where
  "notify visit rfc3339 inp n =
     (case inp of
        GotProposed msg \<Rightarrow> Some (handleProposed visit msg n)
      | GotApproved \<Rightarrow> Some n
      | GotDenied msg \<Rightarrow> Some (handleDenied visit msg n)
      | GotSubmitted msg \<Rightarrow> handleSubmitted msg n
      | GotFill msg \<Rightarrow> handleFill msg n
      | GotKill msg \<Rightarrow> Some (handleKill_event rfc3339 msg n)
      | FlushTick \<Rightarrow> Some (flushDenied visit (flushProposed visit n)))"

fun run_notifier :: "((string \<rightharpoonup> nat) \<Rightarrow> string list) \<Rightarrow> (time \<Rightarrow> string) \<Rightarrow> notifier_input list \<Rightarrow> Notifier \<Rightarrow> Notifier option" where
  "run_notifier visit rfc3339 [] n = Some n"
| "run_notifier visit rfc3339 (inp # inps) n =
     (case notify visit rfc3339 inp n of None \<Rightarrow> None | Some n \<Rightarrow> run_notifier visit rfc3339 inps n)"


section \<open>The kill switch needs two messages\<close>

text \<open>A watchdog connection that keeps the calls made over it, with their times.\<close>

definition logged :: "(time \<Rightarrow> ('e, 'w) control_client) \<Rightarrow> time \<Rightarrow> ('e, 'w \<times> (time \<times> control_call) list) control_client" where
  "logged call now c s = (case s of (w, lg) \<Rightarrow> (case call now c w of (r, w') \<Rightarrow> (r, (w', lg @ [(now, c)]))))"

definition calls_of :: "('l, 'w \<times> (time \<times> control_call) list) Bot \<Rightarrow> (time \<times> control_call) list" where
  "calls_of b = snd (bo_watchdog b)"

definition confirm_call :: "int64 \<Rightarrow> control_call" where
  "confirm_call chatID = KillCall KILL_LEVEL_CANCEL_ONLY ''global'' ''telegram kill switch'' (telegram_user chatID)"

lemma bot_reply_fields [simp]:
  "bo_watchdog (bot_reply chatID t b) = bo_watchdog b" "bo_allowed (bot_reply chatID t b) = bo_allowed b"
  "bo_pendingKills (bot_reply chatID t b) = bo_pendingKills b"
  by (simp_all add: bot_reply_def)

lemma logged_calls: "snd (snd (logged call now c s)) = snd s @ [(now, c)]"
  by (simp add: logged_def split: prod.split)

lemma queries_change_nothing:
  "bo_watchdog (cmdStatus env now chatID b) = bo_watchdog b \<and> bo_allowed (cmdStatus env now chatID b) = bo_allowed b \<and> bo_pendingKills (cmdStatus env now chatID b) = bo_pendingKills b"
  "bo_watchdog (cmdPnL env now chatID b) = bo_watchdog b \<and> bo_allowed (cmdPnL env now chatID b) = bo_allowed b \<and> bo_pendingKills (cmdPnL env now chatID b) = bo_pendingKills b"
  "bo_watchdog (cmdOrders env now chatID b) = bo_watchdog b \<and> bo_allowed (cmdOrders env now chatID b) = bo_allowed b \<and> bo_pendingKills (cmdOrders env now chatID b) = bo_pendingKills b"
  "bo_watchdog (cmdHelp chatID b) = bo_watchdog b \<and> bo_allowed (cmdHelp chatID b) = bo_allowed b \<and> bo_pendingKills (cmdHelp chatID b) = bo_pendingKills b"
  by (simp_all add: cmdStatus_def cmdPnL_def cmdOrders_def cmdHelp_def Let_def split: sum.split)

lemma confirm_effect:
  assumes "be_call env = logged call"
  shows "bo_allowed (cmdConfirmKill env now chatID b) = bo_allowed b
    \<and> bo_pendingKills (cmdConfirmKill env now chatID b) = (bo_pendingKills b)(chatID := None)
    \<and> calls_of (cmdConfirmKill env now chatID b) = calls_of b
        @ (case bo_pendingKills b chatID of None \<Rightarrow> [] | Some d \<Rightarrow> if d < now then [] else [(now, confirm_call chatID)])"
proof -
  obtain r w lg where e: "logged call now (confirm_call chatID) (bo_watchdog b) = (r, w, lg)"
    by (cases "logged call now (confirm_call chatID) (bo_watchdog b)") auto
  have lg: "lg = snd (bo_watchdog b) @ [(now, confirm_call chatID)]"
    using logged_calls [of call now "confirm_call chatID" "bo_watchdog b"] by (simp add: e)
  show ?thesis
    by (cases "bo_pendingKills b chatID"; cases r)
       (simp_all add: cmdConfirmKill_def calls_of_def confirm_call_def [symmetric] assms Let_def e lg)
qed

lemma resume_effect:
  assumes "be_call env = logged call"
  shows "bo_allowed (cmdResume env now chatID b) = bo_allowed b \<and> bo_pendingKills (cmdResume env now chatID b) = bo_pendingKills b
    \<and> calls_of (cmdResume env now chatID b) = calls_of b @ [(now, ResumeCall ''global'' [])]"
proof -
  obtain r w lg where e: "logged call now (ResumeCall ''global'' []) (bo_watchdog b) = (r, w, lg)"
    by (cases "logged call now (ResumeCall ''global'' []) (bo_watchdog b)") auto
  have lg: "lg = snd (bo_watchdog b) @ [(now, ResumeCall ''global'' [])]"
    using logged_calls [of call now "ResumeCall ''global'' []" "bo_watchdog b"] by (simp add: e)
  show ?thesis by (cases r) (simp_all add: cmdResume_def calls_of_def assms e lg)
qed

lemma if_prop: "(c \<Longrightarrow> P x) \<Longrightarrow> (\<not> c \<Longrightarrow> P y) \<Longrightarrow> P (if c then x else y)"
  by simp

text \<open>What a message changes besides replies.\<close>

definition bot_changes :: "time \<Rightarrow> int64 \<Rightarrow> string \<Rightarrow> ('l, 'w \<times> (time \<times> control_call) list) Bot \<Rightarrow> ('l, 'w \<times> (time \<times> control_call) list) Bot \<Rightarrow> bool" where
  "bot_changes now chatID command b b' \<longleftrightarrow>
     (bo_pendingKills b' = bo_pendingKills b \<and> calls_of b' = calls_of b
      \<or> command = ''kill'' \<and> bo_pendingKills b' = (bo_pendingKills b)(chatID \<mapsto> now + 30 * time_Second) \<and> calls_of b' = calls_of b
      \<or> command = ''confirm_kill'' \<and> bo_pendingKills b' = (bo_pendingKills b)(chatID := None)
         \<and> (calls_of b' = calls_of b
            \<or> (\<exists>d. bo_pendingKills b chatID = Some d \<and> now \<le> d \<and> calls_of b' = calls_of b @ [(now, confirm_call chatID)]))
      \<or> command = ''resume'' \<and> bo_pendingKills b' = bo_pendingKills b \<and> calls_of b' = calls_of b @ [(now, ResumeCall ''global'' [])])"

lemma handle_effect:
  assumes "be_call env = logged call"
  shows "bo_allowed (handleCommand env now chatID command b) = bo_allowed b
    \<and> (if map_get (bo_allowed b) chatID False then bot_changes now chatID command b (handleCommand env now chatID command b)
       else handleCommand env now chatID command b = b)"
proof (cases "map_get (bo_allowed b) chatID False")
  case True
  obtain ok limiter where lim: "ChatLimiter_Allow (be_limits env) now chatID (bo_limiter b) = (ok, limiter)" by (cases "ChatLimiter_Allow (be_limits env) now chatID (bo_limiter b)")
  define b1 where "b1 = b\<lparr>bo_limiter := limiter\<rparr>"
  have b1: "bo_allowed b1 = bo_allowed b" "bo_pendingKills b1 = bo_pendingKills b" "bo_watchdog b1 = bo_watchdog b" "calls_of b1 = calls_of b"
    by (simp_all add: b1_def calls_of_def)
  have h: "handleCommand env now chatID command b =
      (if \<not> ok then bot_reply chatID ''Rate limited. Please wait.'' b1
        else if command = ''status'' then cmdStatus env now chatID b1
        else if command = ''pnl'' then cmdPnL env now chatID b1
        else if command = ''orders'' then cmdOrders env now chatID b1
        else if command = ''kill'' then cmdKill now chatID b1
        else if command = ''confirm_kill'' then cmdConfirmKill env now chatID b1
        else if command = ''resume'' then cmdResume env now chatID b1
        else if command = ''help'' then cmdHelp chatID b1
        else bot_reply chatID ''Unknown command. Send /help for available commands.'' b1)"
    using True by (simp add: handleCommand_def lim b1_def)
  define P where "P b' \<longleftrightarrow> bo_allowed b' = bo_allowed b \<and> bot_changes now chatID command b b'" for b'
  have same: "P b'" if "bo_watchdog b' = bo_watchdog b1 \<and> bo_allowed b' = bo_allowed b1 \<and> bo_pendingKills b' = bo_pendingKills b1" for b'
    using that b1 by (simp add: P_def bot_changes_def calls_of_def)
  have replied: "P (bot_reply chatID t b1)" for t
    by (rule same) simp
  have kill: "P (cmdKill now chatID b1)" if "command = ''kill''"
    using b1 by (simp add: P_def that bot_changes_def cmdKill_def calls_of_def)
  have confirm: "P (cmdConfirmKill env now chatID b1)" if "command = ''confirm_kill''"
    using confirm_effect [OF assms, of now chatID b1] b1 by (simp add: P_def that bot_changes_def split: option.splits if_splits)
  have resume: "P (cmdResume env now chatID b1)" if "command = ''resume''"
    using resume_effect [OF assms, of now chatID b1] b1 by (simp add: P_def that bot_changes_def)
  have "P (handleCommand env now chatID command b)"
    unfolding h
    by (rule if_prop, rule replied, rule if_prop, rule same [OF queries_change_nothing(1)], rule if_prop, rule same [OF queries_change_nothing(2)],
        rule if_prop, rule same [OF queries_change_nothing(3)], rule if_prop, erule kill, rule if_prop, erule confirm, rule if_prop, erule resume,
        rule if_prop, rule same [OF queries_change_nothing(4)], rule replied)
  then show ?thesis by (simp only: P_def True if_True)
next
  case False
  then show ?thesis by (simp add: handleCommand_def)
qed

text \<open>The grounds for a call: an allowed chat's resume, or its kill and then its confirmation at most thirty seconds later.\<close>

definition grounds :: "(int64 \<Rightarrow> bool) \<Rightarrow> bot_message list \<Rightarrow> time \<times> control_call \<Rightarrow> bool" where
  "grounds allowed msgs tc \<longleftrightarrow> (\<exists>chatID. allowed chatID \<and>
     (snd tc = ResumeCall ''global'' [] \<and> (fst tc, chatID, ''resume'') \<in> set msgs
      \<or> snd tc = confirm_call chatID
         \<and> (\<exists>t0. fst tc \<le> t0 + 30 * time_Second \<and> subseq [(t0, chatID, ''kill''), (fst tc, chatID, ''confirm_kill'')] msgs)))"

definition kills_asked :: "int64 \<Rightarrow> bot_message list \<Rightarrow> nat" where
  "kills_asked chatID msgs = length (filter (\<lambda>m. snd m = (chatID, ''kill'')) msgs)"

definition kills_called :: "int64 \<Rightarrow> (time \<times> control_call) list \<Rightarrow> nat" where
  "kills_called chatID lg = length (filter (\<lambda>tc. snd tc = confirm_call chatID) lg)"

lemma telegram_user_inj [simp]: "telegram_user c = telegram_user d \<longleftrightarrow> c = d"
  by (simp add: telegram_user_def show_int_inj) (metis word_eq_iff_signed)

lemma confirm_call_inj [simp]: "confirm_call c = confirm_call d \<longleftrightarrow> c = d" "confirm_call c \<noteq> ResumeCall s r" "ResumeCall s r \<noteq> confirm_call c"
  by (simp_all add: confirm_call_def)

lemma grounds_mono: "grounds allowed msgs tc \<Longrightarrow> grounds allowed (msgs @ [m]) tc"
  unfolding grounds_def by (fastforce intro: list_emb_append2 list_emb_prefix)

lemma subseq_two: "a \<in> set xs \<Longrightarrow> subseq [a, b] (xs @ [b])"
  using list_emb_append_mono [of "(=)" "[a]" xs "[b]" "[b]"] by (simp add: subseq_singleton_left)

lemma run_bot_snoc: "run_bot env (msgs @ [(t, c, cmd)]) b = handleCommand env t c cmd (run_bot env msgs b)"
  by (simp add: run_bot_def)

definition kill_inv :: "(int64 \<Rightarrow> bool) \<Rightarrow> bot_message list \<Rightarrow> ('l, 'w \<times> (time \<times> control_call) list) Bot \<Rightarrow> bool" where
  "kill_inv allowed msgs b \<longleftrightarrow>
     (\<forall>chatID. map_get (bo_allowed b) chatID False = allowed chatID)
     \<and> (\<forall>chatID d. bo_pendingKills b chatID = Some d \<longrightarrow> (\<exists>t0. d = t0 + 30 * time_Second \<and> (t0, chatID, ''kill'') \<in> set msgs))
     \<and> (\<forall>tc\<in>set (calls_of b). grounds allowed msgs tc)
     \<and> (\<forall>chatID. kills_called chatID (calls_of b) + (if bo_pendingKills b chatID = None then 0 else 1) \<le> kills_asked chatID msgs)"

lemma kill_invI:
  assumes "\<And>c. map_get (bo_allowed b) c False = allowed c"
    and "\<And>c d. bo_pendingKills b c = Some d \<Longrightarrow> \<exists>t0. d = t0 + 30 * time_Second \<and> (t0, c, ''kill'') \<in> set msgs"
    and "\<And>tc. tc \<in> set (calls_of b) \<Longrightarrow> grounds allowed msgs tc"
    and "\<And>c. kills_called c (calls_of b) + (if bo_pendingKills b c = None then 0 else 1) \<le> kills_asked c msgs"
  shows "kill_inv allowed msgs b"
  unfolding kill_inv_def using assms(1,3,4) assms(2) [THEN exE] by (intro conjI allI ballI impI) (assumption | rule assms | blast)+

lemma kill_inv_step:
  assumes call: "be_call env = logged call" and inv: "kill_inv allowed msgs b"
  shows "kill_inv allowed (msgs @ [(t, chatID, cmd)]) (handleCommand env t chatID cmd b)"
proof -
  define b' where "b' = handleCommand env t chatID cmd b"
  have al: "map_get (bo_allowed b) c False = allowed c" for c using inv by (simp add: kill_inv_def)
  have al': "map_get (bo_allowed b') c False = allowed c" for c using handle_effect [OF call, of t chatID cmd b] al by (simp add: b'_def)
  have pend: "\<exists>t0. d = t0 + 30 * time_Second \<and> (t0, c, ''kill'') \<in> set msgs" if "bo_pendingKills b c = Some d" for c d
    using inv that by (simp add: kill_inv_def)
  have gr: "grounds allowed (msgs @ [(t, chatID, cmd)]) tc" if "tc \<in> set (calls_of b)" for tc
    by (rule grounds_mono) (use inv that in \<open>simp add: kill_inv_def\<close>)
  have cnt: "kills_called c (calls_of b) + (if bo_pendingKills b c = None then 0 else 1) \<le> kills_asked c msgs" for c
    using inv by (simp add: kill_inv_def)
  have asked: "kills_asked c (msgs @ [(t, chatID, cmd)]) = kills_asked c msgs + (if c = chatID \<and> cmd = ''kill'' then 1 else 0)" for c
    by (simp add: kills_asked_def)
  have pend': "\<exists>t0. d = t0 + 30 * time_Second \<and> (t0, c, ''kill'') \<in> set (msgs @ [(t, chatID, cmd)])" if "bo_pendingKills b c = Some d" for c d
    using pend [OF that] by auto
  have cnt': "kills_called c (calls_of b) + (if bo_pendingKills b c = None then 0 else 1) \<le> kills_asked c (msgs @ [(t, chatID, cmd)])" for c
    using cnt [of c] by (simp add: asked)
  have pendN: "\<exists>t0. d = t0 + 30 * time_Second \<and> (t0, c, ''kill'') \<in> set (msgs @ [(t, chatID, cmd)])"
    if "((bo_pendingKills b)(chatID := None)) c = Some d" for c d
    using that by (cases "c = chatID") (simp, intro pend', simp)
  have cntN: "kills_called c (calls_of b) + (if ((bo_pendingKills b)(chatID := None)) c = None then 0 else 1) \<le> kills_asked c (msgs @ [(t, chatID, cmd)])" for c
    using cnt' [of c] by (cases "c = chatID"; cases "bo_pendingKills b c") simp_all
  have eff: "if allowed chatID then bot_changes t chatID cmd b b' else b' = b"
    using handle_effect [OF call, of t chatID cmd b] by (simp add: b'_def al)
  consider (same) "bo_pendingKills b' = bo_pendingKills b" "calls_of b' = calls_of b"
    | (kill) "cmd = ''kill''" "bo_pendingKills b' = (bo_pendingKills b)(chatID \<mapsto> t + 30 * time_Second)" "calls_of b' = calls_of b"
    | (drop) "bo_pendingKills b' = (bo_pendingKills b)(chatID := None)" "calls_of b' = calls_of b"
    | (confirm) d where "allowed chatID" "cmd = ''confirm_kill''" "bo_pendingKills b' = (bo_pendingKills b)(chatID := None)"
        "bo_pendingKills b chatID = Some d" "t \<le> d" "calls_of b' = calls_of b @ [(t, confirm_call chatID)]"
    | (resume) "allowed chatID" "cmd = ''resume''" "bo_pendingKills b' = bo_pendingKills b" "calls_of b' = calls_of b @ [(t, ResumeCall ''global'' [])]"
  proof (cases "allowed chatID")
    case True
    then have "bot_changes t chatID cmd b b'" using eff by simp
    then show ?thesis unfolding bot_changes_def using True by (elim disjE conjE exE) (rule that; assumption)+
  next
    case False
    then have "b' = b" using eff by simp
    then show ?thesis by (intro same) simp_all
  qed
  then show ?thesis unfolding b'_def [symmetric]
  proof cases
    case same
    then show "kill_inv allowed (msgs @ [(t, chatID, cmd)]) b'"
      by (intro kill_invI) (simp_all only: al' pend' gr cnt')
  next
    case kill
    have up: "kills_called c (calls_of b) + (if c = chatID \<or> bo_pendingKills b c \<noteq> None then 1 else 0) \<le> kills_asked c (msgs @ [(t, chatID, cmd)])" for c
      using cnt [of c] asked [of c] kill(1) by (auto split: if_splits)
    have "kills_called c (calls_of b') + (if bo_pendingKills b' c = None then 0 else 1) \<le> kills_asked c (msgs @ [(t, chatID, cmd)])" for c
      using up [of c] unfolding kill(2,3) by (cases "c = chatID"; cases "bo_pendingKills b c") simp_all
    moreover have "\<exists>t0. d = t0 + 30 * time_Second \<and> (t0, c, ''kill'') \<in> set (msgs @ [(t, chatID, cmd)])" if "bo_pendingKills b' c = Some d" for c d
    proof (cases "c = chatID")
      case True
      then have "d = t + 30 * time_Second" using that kill(2) by simp
      then show ?thesis using True kill(1) by (intro exI [of _ t]) simp
    next
      case False
      then show ?thesis using that kill(2) by (intro pend') simp
    qed
    ultimately show "kill_inv allowed (msgs @ [(t, chatID, cmd)]) b'"
      using gr kill(3) by (intro kill_invI al') simp_all
  next
    case drop
    then show "kill_inv allowed (msgs @ [(t, chatID, cmd)]) b'"
      by (intro kill_invI al') (simp_all only: pendN gr cntN)
  next
    case (confirm d)
    obtain t0 where "d = t0 + 30 * time_Second" "(t0, chatID, ''kill'') \<in> set msgs" using pend confirm(4) by blast
    then have "grounds allowed (msgs @ [(t, chatID, cmd)]) (t, confirm_call chatID)"
      unfolding grounds_def using confirm(1,2,5) by (auto intro!: subseq_two)
    then have "grounds allowed (msgs @ [(t, chatID, cmd)]) tc" if "tc \<in> set (calls_of b')" for tc
      using that confirm(6) gr [of tc] by auto
    moreover have "kills_called c (calls_of b') = kills_called c (calls_of b) + (if c = chatID then 1 else 0)" for c
      using confirm(6) by (auto simp: kills_called_def)
    then have "kills_called c (calls_of b') + (if bo_pendingKills b' c = None then 0 else 1) \<le> kills_asked c (msgs @ [(t, chatID, cmd)])" for c
      using cntN [of c] cnt' [of c] confirm(4) unfolding confirm(3) by (cases "c = chatID") simp_all
    ultimately show "kill_inv allowed (msgs @ [(t, chatID, cmd)]) b'"
      by (intro kill_invI al') (simp_all only: confirm(3) pendN)
  next
    case resume
    have "grounds allowed (msgs @ [(t, chatID, cmd)]) (t, ResumeCall ''global'' [])"
      unfolding grounds_def using resume(1,2) by auto
    then have "grounds allowed (msgs @ [(t, chatID, cmd)]) tc" if "tc \<in> set (calls_of b')" for tc
      using that resume(4) gr [of tc] by auto
    moreover have "kills_called c (calls_of b') = kills_called c (calls_of b)" for c
      using resume(4) by (simp add: kills_called_def)
    ultimately show "kill_inv allowed (msgs @ [(t, chatID, cmd)]) b'"
      by (intro kill_invI al') (simp_all only: resume(3) pend' cnt')
  qed
qed

lemma NewBot_allowed: "map_get (bo_allowed (NewBot w ids)) c False = (c \<in> set ids)"
proof -
  have "map_get (foldl (\<lambda>m id. m(id \<mapsto> True)) m ids) c False = (c \<in> set ids \<or> map_get m c False)" for m
    by (induction ids arbitrary: m) (auto simp: map_get_def)
  then show ?thesis by (simp add: NewBot_def map_get_def)
qed

lemma kill_inv_run:
  assumes "be_call env = logged call"
  shows "kill_inv (\<lambda>c. c \<in> set ids) msgs (run_bot env msgs (NewBot (w, []) ids))"
proof (induction msgs rule: rev_induct)
  case Nil
  show ?case
    unfolding kill_inv_def using NewBot_allowed [of "(w, [])" ids]
    by (simp add: run_bot_def calls_of_def kills_called_def NewBot_def)
next
  case (snoc m msgs)
  obtain t chatID cmd where "m = (t, chatID, cmd)" by (cases m)
  then show ?case using kill_inv_step [OF assms snoc] by (simp add: run_bot_snoc)
qed

definition bot_env_of ::
  "'l rate_limits \<Rightarrow> (time \<Rightarrow> ('e, 'w) control_client) \<Rightarrow> ('e \<Rightarrow> string) \<Rightarrow> (query_error \<Rightarrow> string) \<Rightarrow> (time \<Rightarrow> Database)
     \<Rightarrow> ('l, 'e, 'w \<times> (time \<times> control_call) list) bot_env" where
  "bot_env_of limits call errs qerrs db =
     \<lparr>be_limits = limits, be_call = logged call, be_err_text = errs, be_query_text = qerrs, be_db = db\<rparr>"

text \<open>
  C23: Whatever messages reach a bot, in whatever order and whatever the limiter, the watchdog and the database answer, the
  bot calls the watchdog only with grounds: a resume only for \<open>/resume\<close> of an allowed chat, and the kill switch (always
  CANCEL_ONLY, global, in the name of the chat) only for a \<open>/confirm_kill\<close> of an allowed chat that sent \<open>/kill\<close> before, at
  most thirty seconds earlier. No chat gets more kills than it asked for.
\<close>

theorem kill_needs_confirmation:
  "list_all (grounds (\<lambda>c. c \<in> set ids) msgs)
       (calls_of (run_bot (bot_env_of limits call errs qerrs db) msgs (NewBot (w, []) ids)))
   \<and> kills_called chatID (calls_of (run_bot (bot_env_of limits call errs qerrs db) msgs (NewBot (w, []) ids)))
       \<le> kills_asked chatID msgs"
proof -
  have "be_call (bot_env_of limits call errs qerrs db) = logged call" by (simp add: bot_env_of_def)
  from kill_inv_run [OF this, of ids msgs w] show ?thesis
    unfolding kill_inv_def list_all_iff by (auto dest: spec [of _ chatID] add_leD1)
qed

text \<open>The other direction: what an allowed chat confirms in time is called, once, and the confirmation is used up.\<close>

lemma confirmed_kill_is_called:
  fixes limits :: "'l rate_limits" and call :: "time \<Rightarrow> ('e, 'w) control_client"
  assumes "chatID \<in> set ids" "\<forall>now l. fst (rl_allow limits now l)" "t0 \<le> t" "t \<le> t0 + 30 * time_Second"
  shows "calls_of (run_bot (bot_env_of limits call errs qerrs db) [(t0, chatID, ''kill''), (t, chatID, ''confirm_kill''), (t', chatID, ''confirm_kill'')]
      (NewBot (w, []) ids)) = [(t, confirm_call chatID)]"
proof -
  define env where "env = bot_env_of limits call errs qerrs db"
  have env: "be_call env = logged call" "be_limits env = limits" by (simp_all add: env_def bot_env_of_def)
  have ok: "fst (ChatLimiter_Allow limits now c m)" for now c m
    using assms(2) by (simp add: ChatLimiter_Allow_def split: prod.split) (metis fst_conv)
  have opened: "\<exists>m. ChatLimiter_Allow limits now chatID (bo_limiter b) = (True, m)" for now and b :: "('l, 'w \<times> (time \<times> control_call) list) Bot"
    using ok [of now chatID "bo_limiter b"] by (cases "ChatLimiter_Allow limits now chatID (bo_limiter b)") simp
  have kill: "handleCommand env now chatID ''kill'' b = cmdKill now chatID (b\<lparr>bo_limiter := snd (ChatLimiter_Allow limits now chatID (bo_limiter b))\<rparr>)"
    if "map_get (bo_allowed b) chatID False" for b now
    using that opened [of now b] by (auto simp: handleCommand_def env)
  have confirm: "handleCommand env now chatID ''confirm_kill'' b
      = cmdConfirmKill env now chatID (b\<lparr>bo_limiter := snd (ChatLimiter_Allow limits now chatID (bo_limiter b))\<rparr>)"
    if "map_get (bo_allowed b) chatID False" for b now
    using that opened [of now b] by (auto simp: handleCommand_def env)
  define b0 :: "('l, 'w \<times> (time \<times> control_call) list) Bot" where "b0 = NewBot (w, []) ids"
  define b1 where "b1 = handleCommand env t0 chatID ''kill'' b0"
  define b2 where "b2 = handleCommand env t chatID ''confirm_kill'' b1"
  have b0: "map_get (bo_allowed b0) chatID False" "calls_of b0 = []"
    using assms(1) NewBot_allowed [of "(w, [])" ids chatID] by (simp_all add: b0_def) (simp add: NewBot_def calls_of_def)
  have b1: "map_get (bo_allowed b1) chatID False" "calls_of b1 = []" "bo_pendingKills b1 chatID = Some (t0 + 30 * time_Second)"
    using b0 unfolding b1_def kill [OF b0(1)] by (simp_all add: cmdKill_def calls_of_def)
  have b2: "map_get (bo_allowed b2) chatID False" "calls_of b2 = [(t, confirm_call chatID)]" "bo_pendingKills b2 chatID = None"
    using confirm_effect [OF env(1), of t chatID "b1\<lparr>bo_limiter := snd (ChatLimiter_Allow limits t chatID (bo_limiter b1))\<rparr>"] b1 assms(4)
    unfolding b2_def confirm [OF b1(1)] by (simp_all add: calls_of_def)
  have "calls_of (handleCommand env t' chatID ''confirm_kill'' b2) = [(t, confirm_call chatID)]"
    using confirm_effect [OF env(1), of t' chatID "b2\<lparr>bo_limiter := snd (ChatLimiter_Allow limits t' chatID (bo_limiter b2))\<rparr>"] b2
    unfolding confirm [OF b2(1)] by (simp add: calls_of_def)
  then show ?thesis unfolding env_def [symmetric] b0_def [symmetric] by (simp add: run_bot_def b1_def [symmetric] b2_def [symmetric])
qed

text \<open>With the connection \<^verbatim>\<open>cmd/alertbot\<close> opens, every one of these calls is refused.\<close>

lemma bot_calls_refused:
  "\<exists>err. operator_rpc H ec rk flt visit now aid c s = (Inl err, s)"
  unfolding operator_rpc_def by (rule control_rpc_refused [OF no_identity_refused])


section \<open>Every event is reported\<close>

text \<open>The messages whose send succeeded, by the numbers of the sends.\<close>

definition accepted_of :: "(nat \<Rightarrow> 'm \<Rightarrow> bool) \<Rightarrow> 'm list \<Rightarrow> 'm list" where
  "accepted_of tg ms = map snd (filter (\<lambda>(i, m). tg i m) (List.enumerate 0 ms))"

lemma accepted_of_snoc: "accepted_of tg (ms @ [m]) = accepted_of tg ms @ (if tg (length ms) m then [m] else [])"
  by (simp add: accepted_of_def enumerate_append_eq)

lemma accepted_of_all: "(\<And>i m. tg i m) \<Longrightarrow> accepted_of tg ms = ms"
  by (induction ms rule: rev_induct) (simp_all add: accepted_of_snoc, simp add: accepted_of_def)

definition deliveries_ok :: "Notifier \<Rightarrow> bool" where
  "deliveries_ok n \<longleftrightarrow> nt_delivered n = accepted_of (nt_bot n) (nt_tried n)"

lemma broadcastTo_fields:
  "nt_groups (broadcastTo cs t n) = nt_groups n" "nt_proposed (broadcastTo cs t n) = nt_proposed n" "nt_denied (broadcastTo cs t n) = nt_denied n"
  "nt_bot (broadcastTo cs t n) = nt_bot n" "nt_tried (broadcastTo cs t n) = nt_tried n @ map (\<lambda>c. (c, t)) cs"
  unfolding broadcastTo_def by (induction cs arbitrary: n) (simp_all add: send_one_def)

lemma broadcastTo_deliveries: "deliveries_ok n \<Longrightarrow> deliveries_ok (broadcastTo cs t n)"
  unfolding broadcastTo_def
  by (induction cs arbitrary: n) (simp_all add: send_one_def deliveries_ok_def accepted_of_snoc)

lemma flush_deliveries:
  assumes "deliveries_ok n"
  shows "deliveries_ok (flushProposed visit n)" "deliveries_ok (flushDenied visit n)"
proof -
  have "deliveries_ok (n\<lparr>nt_proposed := []\<rparr>)" "deliveries_ok (n\<lparr>nt_denied := []\<rparr>)" using assms by (simp_all add: deliveries_ok_def)
  then show "deliveries_ok (flushProposed visit n)" "deliveries_ok (flushDenied visit n)"
    by (simp_all add: flushProposed_def flushDenied_def broadcastTo_deliveries Let_def)
qed

lemma handle_deliveries:
  assumes "deliveries_ok n"
  shows "deliveries_ok (handleProposed visit msg n)" "deliveries_ok (handleDenied visit msg' n)"
proof -
  have "deliveries_ok (n\<lparr>nt_proposed := ps\<rparr>)" "deliveries_ok (n\<lparr>nt_denied := ds\<rparr>)" for ps ds using assms by (simp_all add: deliveries_ok_def)
  then show "deliveries_ok (handleProposed visit msg n)" "deliveries_ok (handleDenied visit msg' n)"
    using assms by (simp_all add: handleProposed_def handleDenied_def flush_deliveries Let_def split: option.split)
qed

lemma same_bot:
  "nt_bot (flushProposed visit n) = nt_bot n" "nt_bot (flushDenied visit n) = nt_bot n"
  "nt_bot (handleProposed visit msg n) = nt_bot n" "nt_bot (handleDenied visit msg' n) = nt_bot n"
  by (simp_all add: handleProposed_def handleDenied_def flushProposed_def flushDenied_def broadcastTo_fields Let_def split: option.split)

lemma notify_deliveries: "notify visit rfc3339 inp n = Some n' \<Longrightarrow> deliveries_ok n \<Longrightarrow> deliveries_ok n' \<and> nt_bot n' = nt_bot n"
  by (auto simp: notify_def handleSubmitted_def handleFill_def handleKill_event_def handle_deliveries flush_deliveries broadcastTo_deliveries
      broadcastTo_fields same_bot split: notifier_input.splits option.splits)

lemma run_deliveries: "run_notifier visit rfc3339 inps n = Some n' \<Longrightarrow> deliveries_ok n \<Longrightarrow> deliveries_ok n' \<and> nt_bot n' = nt_bot n"
proof (induction inps arbitrary: n)
  case (Cons inp inps)
  then obtain n1 where n1: "notify visit rfc3339 inp n = Some n1" "run_notifier visit rfc3339 inps n1 = Some n'" by (auto split: option.splits)
  with notify_deliveries [OF n1(1) Cons.prems(2)] Cons.IH [OF n1(2)] show ?case by simp
qed simp

lemma count_by_exact: "map_get (count_by key batch) k 0 = length (filter (\<lambda>e. key e = k) batch)"
proof -
  have "map_get (foldl (\<lambda>m e. m(key e \<mapsto> Suc (map_get m (key e) 0))) m batch) k 0 = map_get m k 0 + length (filter (\<lambda>e. key e = k) batch)" for m
    by (induction batch arbitrary: m) (auto simp: map_get_def)
  then show ?thesis by (simp add: count_by_def map_get_def)
qed

text \<open>A report: a batch, or an event that is sent on by itself.\<close>

datatype report = ProposedBatch "OrderProposedEvent list" | DeniedBatch "OrderDeniedEvent list" | Immediate notifier_input

definition immediate :: "notifier_input \<Rightarrow> bool" where
  "immediate inp = (case inp of GotSubmitted (Some _) \<Rightarrow> True | GotFill (Some _) \<Rightarrow> True | GotKill (Some _) \<Rightarrow> True | _ \<Rightarrow> False)"

definition report_text :: "((string \<rightharpoonup> nat) \<Rightarrow> string list) \<Rightarrow> (time \<Rightarrow> string) \<Rightarrow> report \<Rightarrow> string" where
  "report_text visit rfc3339 r =
     (case r of
        ProposedBatch batch \<Rightarrow> batch_message visit yellow_circle ''Proposed'' ope_MarketID batch
      | DeniedBatch batch \<Rightarrow> batch_message visit cross_mark ''Denied'' ode_DenyReason batch
      | Immediate (GotSubmitted (Some e)) \<Rightarrow> the (FormatOrderSubmitted e)
      | Immediate (GotFill (Some e)) \<Rightarrow> the (FormatFillNotification e)
      | Immediate (GotKill (Some e)) \<Rightarrow> FormatKillSwitchNotification rfc3339 e
      | _ \<Rightarrow> [])"

definition report_chats :: "ChatGroups \<Rightarrow> report \<Rightarrow> int64 list" where
  "report_chats g r = (case r of ProposedBatch _ \<Rightarrow> cg_Trades g | DeniedBatch _ \<Rightarrow> cg_Alerts g | Immediate (GotKill _) \<Rightarrow> cg_Alerts g | _ \<Rightarrow> cg_Trades g)"

definition report_sent :: "((string \<rightharpoonup> nat) \<Rightarrow> string list) \<Rightarrow> (time \<Rightarrow> string) \<Rightarrow> ChatGroups \<Rightarrow> report list \<Rightarrow> (int64 \<times> string) list" where
  "report_sent visit rfc3339 g reports = concat (map (\<lambda>r. map (\<lambda>c. (c, report_text visit rfc3339 r)) (report_chats g r)) reports)"

definition proposed_in :: "report list \<Rightarrow> OrderProposedEvent list list" where
  "proposed_in = List.map_filter (\<lambda>r. case r of ProposedBatch b \<Rightarrow> Some b | _ \<Rightarrow> None)"

definition denied_in :: "report list \<Rightarrow> OrderDeniedEvent list list" where
  "denied_in = List.map_filter (\<lambda>r. case r of DeniedBatch b \<Rightarrow> Some b | _ \<Rightarrow> None)"

definition immediate_in :: "report list \<Rightarrow> notifier_input list" where
  "immediate_in = List.map_filter (\<lambda>r. case r of Immediate i \<Rightarrow> Some i | _ \<Rightarrow> None)"

definition decoded_proposed :: "notifier_input list \<Rightarrow> OrderProposedEvent list" where
  "decoded_proposed = List.map_filter (\<lambda>i. case i of GotProposed m \<Rightarrow> m | _ \<Rightarrow> None)"

definition decoded_denied :: "notifier_input list \<Rightarrow> OrderDeniedEvent list" where
  "decoded_denied = List.map_filter (\<lambda>i. case i of GotDenied m \<Rightarrow> m | _ \<Rightarrow> None)"

definition batch_ok :: "'e list \<Rightarrow> bool" where
  "batch_ok b \<longleftrightarrow> b \<noteq> [] \<and> length b \<le> batchSize"

text \<open>An event the notifier cannot format: its handler panics, and the process ends.\<close>

definition panics :: "notifier_input \<Rightarrow> bool" where
  "panics inp = (case inp of GotSubmitted (Some e) \<Rightarrow> length (ose_TraceID e) < 8 | GotFill (Some e) \<Rightarrow> length (ofe_TraceID e) < 8 | _ \<Rightarrow> False)"

lemmas report_defs = report_sent_def report_text_def report_chats_def proposed_in_def denied_in_def immediate_in_def decoded_proposed_def
  decoded_denied_def List.map_filter_def immediate_def

definition reported :: "((string \<rightharpoonup> nat) \<Rightarrow> string list) \<Rightarrow> (time \<Rightarrow> string) \<Rightarrow> ChatGroups \<Rightarrow> notifier_input list \<Rightarrow> report list \<Rightarrow> Notifier \<Rightarrow> bool" where
  "reported visit rfc3339 g inps reports n \<longleftrightarrow>
     nt_groups n = g \<and> nt_tried n = report_sent visit rfc3339 g reports
     \<and> concat (proposed_in reports) @ nt_proposed n = decoded_proposed inps \<and> length (nt_proposed n) \<le> batchSize
     \<and> concat (denied_in reports) @ nt_denied n = decoded_denied inps \<and> length (nt_denied n) \<le> batchSize
     \<and> list_all batch_ok (proposed_in reports) \<and> list_all batch_ok (denied_in reports)
     \<and> immediate_in reports = filter immediate inps"

lemma trace8_None: "trace8 t = None \<longleftrightarrow> length t < 8"
  by (simp add: trace8_def)

lemma notify_None: "notify visit rfc3339 inp n = None \<longleftrightarrow> panics inp"
  by (auto simp: notify_def panics_def handleSubmitted_def handleFill_def FormatOrderSubmitted_def FormatFillNotification_def trace8_None
      split: notifier_input.split option.split)

definition settled :: "Notifier \<Rightarrow> bool" where
  "settled n \<longleftrightarrow> length (nt_proposed n) < batchSize \<and> length (nt_denied n) < batchSize"

lemma flushProposed_reported:
  assumes "reported visit rfc3339 g inps reports n"
  shows "\<exists>reports'. reported visit rfc3339 g inps reports' (flushProposed visit n)"
proof (cases "nt_proposed n = []")
  case True
  then have "flushProposed visit n = n" by (simp add: flushProposed_def)
  then show ?thesis using assms by auto
next
  case False
  have "reported visit rfc3339 g inps (reports @ [ProposedBatch (nt_proposed n)]) (flushProposed visit n)"
    using assms False unfolding reported_def by (simp add: flushProposed_def broadcastTo_fields report_defs batch_ok_def Let_def)
  then show ?thesis by blast
qed

lemma flushDenied_reported:
  assumes "reported visit rfc3339 g inps reports n"
  shows "\<exists>reports'. reported visit rfc3339 g inps reports' (flushDenied visit n)"
proof (cases "nt_denied n = []")
  case True
  then have "flushDenied visit n = n" by (simp add: flushDenied_def)
  then show ?thesis using assms by auto
next
  case False
  have "reported visit rfc3339 g inps (reports @ [DeniedBatch (nt_denied n)]) (flushDenied visit n)"
    using assms False unfolding reported_def by (simp add: flushDenied_def broadcastTo_fields report_defs batch_ok_def Let_def)
  then show ?thesis by blast
qed

lemma flush_settled:
  "nt_proposed (flushProposed visit n) = []" "nt_denied (flushProposed visit n) = nt_denied n"
  "nt_denied (flushDenied visit n) = []" "nt_proposed (flushDenied visit n) = nt_proposed n"
  by (simp_all add: flushProposed_def flushDenied_def broadcastTo_fields Let_def)

lemma reported_silent:
  assumes "reported visit rfc3339 g inps reports n" "\<not> immediate inp" "decoded_proposed [inp] = []" "decoded_denied [inp] = []"
  shows "reported visit rfc3339 g (inps @ [inp]) reports n"
  using assms unfolding reported_def by (simp add: report_defs split: option.splits)

lemma reported_immediate:
  assumes "reported visit rfc3339 g inps reports n" "immediate inp"
    and "n' = broadcastTo (report_chats g (Immediate inp)) (report_text visit rfc3339 (Immediate inp)) n"
  shows "\<exists>reports'. reported visit rfc3339 g (inps @ [inp]) reports' n' \<and> nt_proposed n' = nt_proposed n \<and> nt_denied n' = nt_denied n"
proof -
  have d: "decoded_proposed (inps @ [inp]) = decoded_proposed inps" "decoded_denied (inps @ [inp]) = decoded_denied inps"
    using assms(2) by (auto simp: decoded_proposed_def decoded_denied_def List.map_filter_def immediate_def split: notifier_input.splits)
  have i: "immediate_in (reports @ [Immediate inp]) = immediate_in reports @ [inp]" "proposed_in (reports @ [Immediate inp]) = proposed_in reports"
      "denied_in (reports @ [Immediate inp]) = denied_in reports"
    by (simp_all add: immediate_in_def proposed_in_def denied_in_def List.map_filter_def)
  have s: "report_sent visit rfc3339 g (reports @ [Immediate inp])
      = report_sent visit rfc3339 g reports @ map (\<lambda>c. (c, report_text visit rfc3339 (Immediate inp))) (report_chats g (Immediate inp))"
    by (simp add: report_sent_def)
  have "reported visit rfc3339 g (inps @ [inp]) (reports @ [Immediate inp]) n'"
    using assms(1,2) unfolding reported_def d i s assms(3) by (simp add: broadcastTo_fields)
  then show ?thesis unfolding assms(3) by (auto simp: broadcastTo_fields)
qed

lemma handleProposed_reported:
  assumes "reported visit rfc3339 g inps reports n" "settled n"
  shows "\<exists>reports'. reported visit rfc3339 g (inps @ [GotProposed (Some e)]) reports' (handleProposed visit (Some e) n) \<and> settled (handleProposed visit (Some e) n)"
proof -
  define n1 where "n1 = n\<lparr>nt_proposed := nt_proposed n @ [e]\<rparr>"
  have h: "handleProposed visit (Some e) n = (if batchSize \<le> length (nt_proposed n1) then flushProposed visit n1 else n1)"
    by (simp add: handleProposed_def n1_def Let_def)
  have r1: "reported visit rfc3339 g (inps @ [GotProposed (Some e)]) reports n1"
    using assms unfolding reported_def settled_def by (simp add: n1_def report_defs)
  show ?thesis
  proof (cases "batchSize \<le> length (nt_proposed n1)")
    case True
    then have "settled (flushProposed visit n1)" using assms(2) by (simp add: settled_def flush_settled n1_def batchSize_def)
    then show ?thesis using flushProposed_reported [OF r1] True by (auto simp: h)
  next
    case False
    then have "settled n1" using assms(2) by (simp add: settled_def n1_def)
    then show ?thesis using r1 False by (auto simp: h)
  qed
qed

lemma handleDenied_reported:
  assumes "reported visit rfc3339 g inps reports n" "settled n"
  shows "\<exists>reports'. reported visit rfc3339 g (inps @ [GotDenied (Some e)]) reports' (handleDenied visit (Some e) n) \<and> settled (handleDenied visit (Some e) n)"
proof -
  define n1 where "n1 = n\<lparr>nt_denied := nt_denied n @ [e]\<rparr>"
  have h: "handleDenied visit (Some e) n = (if batchSize \<le> length (nt_denied n1) then flushDenied visit n1 else n1)"
    by (simp add: handleDenied_def n1_def Let_def)
  have r1: "reported visit rfc3339 g (inps @ [GotDenied (Some e)]) reports n1"
    using assms unfolding reported_def settled_def by (simp add: n1_def report_defs)
  show ?thesis
  proof (cases "batchSize \<le> length (nt_denied n1)")
    case True
    then have "settled (flushDenied visit n1)" using assms(2) by (simp add: settled_def flush_settled n1_def batchSize_def)
    then show ?thesis using flushDenied_reported [OF r1] True by (auto simp: h)
  next
    case False
    then have "settled n1" using assms(2) by (simp add: settled_def n1_def)
    then show ?thesis using r1 False by (auto simp: h)
  qed
qed

lemma notify_reported:
  assumes r: "reported visit rfc3339 g inps reports n" and st: "settled n" and run: "notify visit rfc3339 inp n = Some n'"
  shows "\<exists>reports'. reported visit rfc3339 g (inps @ [inp]) reports' n' \<and> settled n'"
proof -
  have g: "nt_groups n = g" using r by (simp add: reported_def)
  have silent: ?thesis if "n' = n" "\<not> immediate inp" "decoded_proposed [inp] = []" "decoded_denied [inp] = []"
    using reported_silent [OF r that(2-4)] st that(1) by auto
  have sent: ?thesis if "immediate inp" "n' = broadcastTo (report_chats g (Immediate inp)) (report_text visit rfc3339 (Immediate inp)) n"
    using reported_immediate [OF r that] st by (auto simp: settled_def)
  show ?thesis
  proof (cases inp)
    case (GotProposed msg)
    show ?thesis
    proof (cases msg)
      case None
      then show ?thesis using run GotProposed by (intro silent) (simp_all add: notify_def handleProposed_def immediate_def decoded_proposed_def decoded_denied_def List.map_filter_def)
    next
      case (Some e)
      then show ?thesis using handleProposed_reported [OF r st, of e] run GotProposed by (simp add: notify_def)
    qed
  next
    case GotApproved
    then show ?thesis using run by (intro silent) (simp_all add: notify_def immediate_def decoded_proposed_def decoded_denied_def List.map_filter_def)
  next
    case (GotDenied msg)
    show ?thesis
    proof (cases msg)
      case None
      then show ?thesis using run GotDenied by (intro silent) (simp_all add: notify_def handleDenied_def immediate_def decoded_proposed_def decoded_denied_def List.map_filter_def)
    next
      case (Some e)
      then show ?thesis using handleDenied_reported [OF r st, of e] run GotDenied by (simp add: notify_def)
    qed
  next
    case (GotSubmitted msg)
    show ?thesis
    proof (cases msg)
      case None
      then show ?thesis using run GotSubmitted by (intro silent) (simp_all add: notify_def handleSubmitted_def immediate_def decoded_proposed_def decoded_denied_def List.map_filter_def)
    next
      case (Some e)
      then show ?thesis using run GotSubmitted g by (intro sent) (auto simp: notify_def handleSubmitted_def immediate_def report_chats_def report_text_def)
    qed
  next
    case (GotFill msg)
    show ?thesis
    proof (cases msg)
      case None
      then show ?thesis using run GotFill by (intro silent) (simp_all add: notify_def handleFill_def immediate_def decoded_proposed_def decoded_denied_def List.map_filter_def)
    next
      case (Some e)
      then show ?thesis using run GotFill g by (intro sent) (auto simp: notify_def handleFill_def immediate_def report_chats_def report_text_def)
    qed
  next
    case (GotKill msg)
    show ?thesis
    proof (cases msg)
      case None
      then show ?thesis using run GotKill by (intro silent) (simp_all add: notify_def handleKill_event_def immediate_def decoded_proposed_def decoded_denied_def List.map_filter_def)
    next
      case (Some e)
      then show ?thesis using run GotKill g by (intro sent) (auto simp: notify_def handleKill_event_def immediate_def report_chats_def report_text_def)
    qed
  next
    case FlushTick
    have n': "n' = flushDenied visit (flushProposed visit n)" using run FlushTick by (simp add: notify_def)
    have "reported visit rfc3339 g (inps @ [inp]) reports n"
      using r by (rule reported_silent) (simp_all add: FlushTick immediate_def decoded_proposed_def decoded_denied_def List.map_filter_def)
    then obtain r1 where "reported visit rfc3339 g (inps @ [inp]) r1 (flushProposed visit n)" using flushProposed_reported by blast
    then have "\<exists>r2. reported visit rfc3339 g (inps @ [inp]) r2 n'" unfolding n' by (rule flushDenied_reported)
    moreover have "settled n'" by (simp add: n' settled_def flush_settled batchSize_def)
    ultimately show ?thesis by blast
  qed
qed

lemma run_reported:
  assumes "reported visit rfc3339 g before reports n" "settled n"
  shows "case run_notifier visit rfc3339 inps n of
      None \<Rightarrow> list_ex panics inps
    | Some n' \<Rightarrow> \<not> list_ex panics inps \<and> settled n' \<and> (\<exists>reports'. reported visit rfc3339 g (before @ inps) reports' n')"
  using assms
proof (induction inps arbitrary: "before" reports n)
  case Nil
  then show ?case by auto
next
  case (Cons inp inps)
  show ?case
  proof (cases "notify visit rfc3339 inp n")
    case None
    then show ?thesis using notify_None [of visit rfc3339 inp n] by simp
  next
    case (Some n1)
    then obtain r1 where r1: "reported visit rfc3339 g (before @ [inp]) r1 n1" "settled n1" using notify_reported [OF Cons.prems] by blast
    have "\<not> panics inp" using notify_None [of visit rfc3339 inp n] Some by simp
    then show ?thesis using Cons.IH [OF r1] Some by (cases "run_notifier visit rfc3339 inps n1") simp_all
  qed
qed

definition notifier_groups :: "int64 list \<Rightarrow> ChatGroups \<Rightarrow> ChatGroups" where
  "notifier_groups chatIDs groups =
     \<lparr>cg_Trades = (if cg_Trades groups = [] then chatIDs else cg_Trades groups), cg_Alerts = (if cg_Alerts groups = [] then chatIDs else cg_Alerts groups)\<rparr>"

text \<open>
  C38: A notifier that starts empty tries to report every event it can decode, once and in order, to the chats of its kind: the
  messages it passes to Telegram are those of a sequence of reports, in the texts the code formats for them, in which proposals
  and denials are cut into batches of 1 to 500, whose
  concatenation with the fewer than 500 still waiting is the decoded events in order, and in which submissions, fills and
  kills come singly in their order. Delivered are exactly those of the messages whose send returned no error: one that fails is
  not tried again, and its events are lost. The notifier fails to end the run only by a panic, exactly when a submission
  or a fill has a trace id of less than eight characters.
\<close>

theorem notifier_reports_everything:
  "case run_notifier visit rfc3339 inps (NewNotifier tg chatIDs groups) of
     None \<Rightarrow> list_ex panics inps
   | Some n \<Rightarrow> \<not> list_ex panics inps \<and> settled n
       \<and> (\<exists>reports. reported visit rfc3339 (notifier_groups chatIDs groups) inps reports n)
       \<and> nt_delivered n = accepted_of tg (nt_tried n)"
proof -
  let ?n = "NewNotifier tg chatIDs groups"
  have "reported visit rfc3339 (notifier_groups chatIDs groups) [] [] ?n" "settled ?n"
    by (simp_all add: reported_def settled_def notifier_groups_def NewNotifier_def report_defs batchSize_def)
  note run = run_reported [OF this, of inps, unfolded append_Nil]
  have new: "deliveries_ok ?n" "nt_bot ?n = tg" by (simp_all add: deliveries_ok_def NewNotifier_def accepted_of_def)
  have "nt_delivered n = accepted_of tg (nt_tried n)" if "run_notifier visit rfc3339 inps ?n = Some n" for n
    using run_deliveries [OF that new(1)] new(2) by (simp add: deliveries_ok_def)
  with run show ?thesis by (cases "run_notifier visit rfc3339 inps ?n") simp_all
qed

text \<open>A batch whose only send fails is gone: nothing is left waiting and nothing was delivered.\<close>

lemma failed_send_loses_batch:
  assumes "nt_proposed n = e # es" "cg_Trades (nt_groups n) = [c]" "\<And>i m. \<not> nt_bot n i m"
  shows "nt_proposed (flushProposed visit n) = [] \<and> nt_delivered (flushProposed visit n) = nt_delivered n"
  using assms by (simp add: flushProposed_def broadcastTo_def send_one_def Let_def)

end
