(* ===== verification/Kill_Board.thy ===== *)
theory Kill_Board
  imports Watchdog_Runs
begin

text \<open>
  What the kill switch promises, without its maps of records, tables, events and services: a board that keeps for every
  scope in halt how severe the halt is and whether it was acknowledged. The manager of \<^verbatim>\<open>killswitch.go\<close> with the
  dead man's switch refines the board: every operation does to the halts what the board's does, fails exactly when
  the board refuses, and the mode it gives out is the board's.
\<close>

section \<open>The board\<close>

type_synonym board = "string \<rightharpoonup> nat \<times> bool"

definition board_raise :: "string \<Rightarrow> nat \<Rightarrow> board \<Rightarrow> board" where
  "board_raise s n b = (case b s of None \<Rightarrow> b(s \<mapsto> (n, False)) | Some (m, _) \<Rightarrow> if n \<le> m then b else b(s \<mapsto> (n, False)))"

definition board_ack :: "string \<Rightarrow> board \<Rightarrow> board option" where
  "board_ack s b = (case b s of Some (n, False) \<Rightarrow> Some (b(s \<mapsto> (n, True))) | _ \<Rightarrow> None)"

definition board_resume :: "string \<Rightarrow> board \<Rightarrow> board option" where
  "board_resume s b = (case b s of Some (_, True) \<Rightarrow> Some (b(s := None)) | _ \<Rightarrow> None)"

definition board_mode :: "board \<Rightarrow> string" where
  "board_mode b = mode_of_rank (Max (insert 0 (fst ` ran b)))"

inductive board_step :: "board \<Rightarrow> board \<Rightarrow> bool" where
  bs_raise: "board_step b (board_raise s n b)"
| bs_ack: "board_ack s b = Some b' \<Longrightarrow> board_step b b'"
| bs_resume: "board_resume s b = Some b' \<Longrightarrow> board_step b b'"

text \<open>On the board a halt goes away only when it was acknowledged, and gets weaker only by going away.\<close>

lemma board_step_halt:
  assumes "board_step b b'" "b s = Some (n, a)"
  shows "(\<exists>m a'. b' s = Some (m, a') \<and> n \<le> m) \<or> a \<and> b' s = None"
  using assms
  by cases (auto simp: board_raise_def board_ack_def board_resume_def split: option.splits bool.splits if_splits prod.splits)

lemma board_raise_idem: "board_raise s n (board_raise s n b) = board_raise s n b"
  by (auto simp: board_raise_def split: option.splits prod.splits)


section \<open>The manager as a board\<close>

definition board_of :: "('x, 'r) KillSwitchManager \<Rightarrow> board" where
  "board_of w = (\<lambda>s. map_option (\<lambda>h. (severityRank (ah_Level h), ah_Acknowledged h)) (km_activeHalts w s))"

lemma board_of_new: "board_of (NewKillSwitchManager x r rows) = Map.empty"
  by (simp add: board_of_def NewKillSwitchManager_def)

lemma board_of_trigger:
  "board_of (Trigger H ec rk flt visit now aid level scope reason triggeredBy w) = board_raise scope (severityRank level) (board_of w)"
proof (cases "blocked level scope w")
  case True
  then obtain h where "km_activeHalts w scope = Some h" "severityRank level \<le> severityRank (ah_Level h)"
    by (auto simp: blocked_def split: option.splits)
  then show ?thesis by (simp add: Trigger_cases(1) [OF True] board_raise_def board_of_def)
next
  case False
  then show ?thesis
    by (auto simp: Trigger_cases(2) [OF False] board_raise_def board_of_def blocked_def new_halt_def fun_eq_iff split: option.splits)
qed

lemma board_of_ack:
  "(case Acknowledge H flt now aid scope ackedBy rootCause w of
      (Inr _, w') \<Rightarrow> board_ack scope (board_of w) = Some (board_of w')
    | (Inl _, w') \<Rightarrow> board_ack scope (board_of w) = None \<and> w' = w)"
  by (cases "km_activeHalts w scope")
     (auto simp: Acknowledge_def board_ack_def board_of_def Let_def fun_eq_iff)

lemma board_of_resume:
  "(case Resume H ec rk flt visit now aid scope resumedBy w of
      (Inr _, w') \<Rightarrow> board_resume scope (board_of w) = Some (board_of w')
    | (Inl _, w') \<Rightarrow> board_resume scope (board_of w) = None \<and> w' = w)"
  by (cases "km_activeHalts w scope")
     (auto simp: Resume_def board_resume_def board_of_def Let_def fun_eq_iff)

lemma board_of_tick:
  "board_of (Monitor_tick H ec rk flt visit now aids d w) =
     (if \<exists>svc \<in> set criticalServices. beat_missed now d svc then board_raise ''global'' (severityRank LevelCancelOnly) (board_of w) else board_of w)"
  by (simp add: Monitor_tick_def criticalServices_def check_service_def board_of_trigger board_raise_idem)

lemma board_of_mode:
  assumes "mode_ok w"
  shows "GetCurrentMode w = board_mode (board_of w)"
proof -
  have "fst ` ran (board_of w) = (\<lambda>h. severityRank (ah_Level h)) ` ran (km_activeHalts w)"
    by (force simp: ran_def board_of_def image_iff)
  then show ?thesis using assms by (simp add: mode_ok_def GetCurrentMode_def board_mode_def peak_def)
qed

lemma wd_step_board:
  assumes "wd_step H ec rk visit flt_ok ack_ok res_ok w w'"
  shows "board_step\<^sup>*\<^sup>* (board_of w) (board_of w')"
  using assms
proof cases
  case (ws_trigger flt level now aid scope reason triggeredBy)
  then show ?thesis unfolding ws_trigger(1) board_of_trigger by (intro r_into_rtranclp bs_raise)
next
  case (ws_ack flt scope now aid ackedBy rootCause)
  then show ?thesis
    using board_of_ack [where H = H and flt = flt and now = now and aid = aid and scope = scope and ackedBy = ackedBy and rootCause = rootCause and w = w]
    by (cases "Acknowledge H flt now aid scope ackedBy rootCause w"; cases "fst (Acknowledge H flt now aid scope ackedBy rootCause w)")
       (auto intro: bs_ack)
next
  case (ws_resume flt scope now aid resumedBy)
  then show ?thesis
    using board_of_resume [where H = H and ec = ec and rk = rk and flt = flt and visit = visit and now = now and aid = aid and scope = scope and resumedBy = resumedBy and w = w]
    by (cases "Resume H ec rk flt visit now aid scope resumedBy w"; cases "fst (Resume H ec rk flt visit now aid scope resumedBy w)")
       (auto intro: bs_resume)
next
  case (ws_tick flt now aids d)
  then show ?thesis unfolding ws_tick(1) board_of_tick by (auto intro: r_into_rtranclp bs_raise)
qed

section \<open>Refinement\<close>

text \<open>Every step of the concrete system is some steps of the abstract one, seen through \<open>abs\<close>.\<close>

locale refinement =
  fixes step :: "'s \<Rightarrow> 's \<Rightarrow> bool" and abs_of :: "'s \<Rightarrow> 'a" and astep :: "'a \<Rightarrow> 'a \<Rightarrow> bool"
  assumes sim: "step s t \<Longrightarrow> astep\<^sup>*\<^sup>* (abs_of s) (abs_of t)"
begin

lemma run: "step\<^sup>*\<^sup>* s t \<Longrightarrow> astep\<^sup>*\<^sup>* (abs_of s) (abs_of t)"
proof (induction rule: rtranclp_induct)
  case (step t u)
  show ?case using step.IH sim [OF step.hyps(2)] by (rule rtranclp_trans)
qed simp

end

interpretation kill_board: refinement "wd_step H ec rk visit flt_ok ack_ok res_ok" board_of board_step for H ec rk visit flt_ok ack_ok res_ok
  by unfold_locales (rule wd_step_board)

text \<open>
  C21: The watchdog refines the kill board. In every state a run of the watchdog reaches, whatever fails and in whatever
  order Go visits its map: the board is one that a run of the board reaches from the empty one; the mode given out is
  the board's; a trigger raises the board's halt; an acknowledgment and a resume succeed exactly when the board allows
  them, change it as the board does, and change nothing otherwise; and a tick of the monitor raises a global cancel-only
  halt exactly when a critical service is silent.
\<close>

theorem watchdog_refines_board:
  assumes "visits_all visit"
    and "(wd_step H ec rk visit any_faults any_scope any_scope)\<^sup>*\<^sup>* (NewKillSwitchManager x r rows) w"
  shows "board_step\<^sup>*\<^sup>* Map.empty (board_of w)
    \<and> GetCurrentMode w = board_mode (board_of w)
    \<and> board_of (Trigger H ec rk flt visit now aid level scope reason triggeredBy w) = board_raise scope (severityRank level) (board_of w)
    \<and> (case Acknowledge H flt now aid scope ackedBy rootCause w of
         (Inr _, w') \<Rightarrow> board_ack scope (board_of w) = Some (board_of w')
       | (Inl _, w') \<Rightarrow> board_ack scope (board_of w) = None \<and> w' = w)
    \<and> (case Resume H ec rk flt visit now aid scope resumedBy w of
         (Inr _, w') \<Rightarrow> board_resume scope (board_of w) = Some (board_of w')
       | (Inl _, w') \<Rightarrow> board_resume scope (board_of w) = None \<and> w' = w)
    \<and> board_of (Monitor_tick H ec rk flt visit now aids d w) =
        (if \<exists>svc \<in> set criticalServices. beat_missed now d svc
         then board_raise ''global'' (severityRank LevelCancelOnly) (board_of w) else board_of w)"
proof -
  have "board_step\<^sup>*\<^sup>* Map.empty (board_of w)"
    using kill_board.run [OF assms(2)] unfolding board_of_new .
  moreover have "mode_ok w"
    using wd_mode.reachable_inv [OF steps_with [OF assms] mode_ok_new] .
  ultimately show ?thesis
    by (intro conjI board_of_mode board_of_trigger board_of_ack board_of_resume board_of_tick)
qed

theorem watchdog_refines_board_witness:
  "board_of sample_halted ''global'' = Some (3, False) \<and> board_mode (board_of sample_halted) = ''full_stop''
   \<and> fst (Resume (\<lambda>_. []) null_exec null_risk no_faults sorted_visit 5 ''a'' ''global'' ''ops'' sample_halted) \<noteq> Inr ()"
proof -
  have "wd_step (\<lambda>_. []) null_exec null_risk sorted_visit any_faults any_scope any_scope (NewKillSwitchManager () () []) sample_halted"
    unfolding sample_halted_def by (rule ws_trigger) (simp_all add: any_faults_def kill_levels_def)
  note run = r_into_rtranclp [of "wd_step (\<lambda>_. []) null_exec null_risk sorted_visit any_faults any_scope any_scope", OF this]
  note facts = watchdog_refines_board [OF visits_all_sorted run, where flt = no_faults and now = 5 and aid = "''a''" and scope = "''global''" and resumedBy = "''ops''"]
  have b: "board_of sample_halted ''global'' = Some (3, False)"
    by (simp add: board_of_def sample_halted_facts new_halt_def severityRank_def)
  then have "board_resume ''global'' (board_of sample_halted) = None" by (simp add: board_resume_def)
  then have "fst (Resume (\<lambda>_. []) null_exec null_risk no_faults sorted_visit 5 ''a'' ''global'' ''ops'' sample_halted) \<noteq> Inr ()"
    using facts [THEN conjunct2, THEN conjunct2, THEN conjunct2, THEN conjunct2, THEN conjunct1]
    by (cases "Resume (\<lambda>_. []) null_exec null_risk no_faults sorted_visit 5 ''a'' ''global'' ''ops'' sample_halted") (auto split: sum.splits)
  moreover have "board_mode (board_of sample_halted) = ''full_stop''"
    using facts [THEN conjunct2, THEN conjunct1] sample_halted_facts
    by (simp add: GetCurrentMode_def mode_ok_def peak_def ran_def new_halt_def severityRank_def mode_of_rank_def)
  ultimately show ?thesis using b by simp
qed

end
