(* ===== verification/Trade_Ctl.thy ===== *)
theory Trade_Ctl
  imports Alert_Bot Backtest_Metrics Kill_Board
begin

text \<open>
  The operator's command line tool (\<^verbatim>\<open>cmd/trade-ctl/main.go\<close>): its flags and its thirteen commands, over the tables
  of the database. A command gives what it prints, line by line, and its exit status (2 for a panic), and only three
  commands change a table. What lies outside (environment, clock, files, the YAML library, how times and JSON are printed,
  the database's sorts and failures, what \<^verbatim>\<open>pgx\<close> makes of a UUID column scanned into an integer, the HTTP probes, the
  order of a Go map) is in the record \<open>shell\<close>.
\<close>

section \<open>Tables and surroundings\<close>

record LimitRow =
  lm_limit_name :: string
  lm_scope :: string
  lm_value_micros :: int64
  lm_unit :: string
  lm_active :: bool
  lm_updated_by :: string
  lm_updated_at :: time

record ConfigChangeRow =
  cc_config_type :: string
  cc_scope :: string
  cc_changed_by :: string
  cc_reason :: "string option"
  cc_changed_at :: time

record Tables =
  tb_kills :: "KillRow list"
  tb_orders :: "OrderRow list"
  tb_fills :: "Fill list"
  tb_intents :: "OrderIntent list"
  tb_stats :: "DailyStatRow list"
  tb_limits :: "LimitRow list"
  tb_decisions :: "PolicyDecisionRow list"
  tb_audit :: "AuditRow list"
  tb_changes :: "ConfigChangeRow list"
  tb_snapshots :: "Snapshot list"

record shell =
  sh_getenv :: "string \<Rightarrow> string"
  sh_flt :: faults
  sh_err :: "string \<Rightarrow> string"
  sh_now :: time
  sh_today :: int
  sh_clock :: "time \<Rightarrow> string"
  sh_date :: "time \<Rightarrow> string"
  sh_minute :: "time \<Rightarrow> string"
  sh_quote :: "string \<Rightarrow> string"
  sh_json :: "json_value \<Rightarrow> string"
  sh_preview :: "nat \<Rightarrow> json_value \<Rightarrow> string"
  sh_is_uuid :: "string \<Rightarrow> bool"
  sh_scan_uuid :: "uuid \<Rightarrow> int64 option"
  sh_services :: "string list"
  sh_probe :: "string \<Rightarrow> (string \<times> string) option"
  sh_readFile :: "string \<Rightarrow> bytes option"
  sh_file_text :: "bytes \<Rightarrow> string"
  sh_yaml_Unmarshal :: "bytes \<Rightarrow> Policy option"
  sh_yaml_Marshal :: "Policy \<Rightarrow> bytes"
  sh_parse_date :: "string \<Rightarrow> time option"
  sh_any_kill :: "KillRow list \<Rightarrow> KillRow list"
  sh_kills_by :: "KillRow list \<Rightarrow> KillRow list"
  sh_orders_by :: "OrderRow list \<Rightarrow> OrderRow list"
  sh_fills_by :: "Fill list \<Rightarrow> Fill list"
  sh_intents_by :: "OrderIntent list \<Rightarrow> OrderIntent list"
  sh_stats_by :: "DailyStatRow list \<Rightarrow> DailyStatRow list"
  sh_limits_by :: "LimitRow list \<Rightarrow> LimitRow list"
  sh_decisions_by :: "PolicyDecisionRow list \<Rightarrow> PolicyDecisionRow list"
  sh_audit_by :: "AuditRow list \<Rightarrow> AuditRow list"
  sh_changes_by :: "ConfigChangeRow list \<Rightarrow> ConfigChangeRow list"
  sh_groups_by :: "(string \<times> string) list \<Rightarrow> (string \<times> string) list"
  sh_snapshots_by :: "Snapshot list \<Rightarrow> Snapshot list"
  sh_sort_slice :: "Snapshot list \<Rightarrow> Snapshot list"
  sh_backtest :: "RunConfig \<Rightarrow> (backtest_error, RunResult) result"
  sh_backtest_err :: "backtest_error \<Rightarrow> string"
  sh_duration :: "duration \<Rightarrow> string"
  sh_print_json :: "RunResult \<Rightarrow> string list"

record Outcome =
  oc_out :: "string list"
  oc_err :: "string list"
  oc_exit :: nat

definition printed :: "string list \<Rightarrow> Outcome" where
  "printed out = \<lparr>oc_out = out, oc_err = [], oc_exit = 0\<rparr>"

definition exits :: "string list \<Rightarrow> string list \<Rightarrow> Outcome" where
  "exits out err = \<lparr>oc_out = out, oc_err = err, oc_exit = 1\<rparr>"

definition envOrDefault :: "shell \<Rightarrow> string \<Rightarrow> string \<Rightarrow> string" where
  "envOrDefault sh key def = (if sh_getenv sh key \<noteq> [] then sh_getenv sh key else def)"

fun flagValue :: "string list \<Rightarrow> string \<Rightarrow> string \<Rightarrow> string" where
  "flagValue [] flag defaultVal = defaultVal"
| "flagValue (arg # args) flag defaultVal =
     (if arg = flag \<and> args \<noteq> [] then hd args
      else if prefix (flag @ ''='') arg then drop (length flag + 1) arg
      else flagValue args flag defaultVal)"

definition mustConnectDB :: "shell \<Rightarrow> Outcome \<times> 'd \<Rightarrow> 'd \<Rightarrow> Outcome \<times> 'd" where
  "mustConnectDB sh go db =
     (if sh_flt sh (Db ''connect'' []) then (exits [] [''failed to connect to database: '' @ sh_err sh ''connect''], db) else go)"

text \<open>A query fails at once or gives its rows.\<close>

definition fails :: "shell \<Rightarrow> string \<Rightarrow> bool" where
  "fails sh table \<longleftrightarrow> sh_flt sh (Db table [])"

text \<open>\<^verbatim>\<open>%-20s\<close>, \<^verbatim>\<open>%.2f\<close> of micro-dollars, \<^verbatim>\<open>%d\<close>.\<close>

definition pad_right :: "nat \<Rightarrow> string \<Rightarrow> string" where
  "pad_right w s = s @ replicate (w - length s) CHR '' ''"

definition dollars :: "nat \<Rightarrow> int64 \<Rightarrow> string" where
  "dollars k v = ''$'' @ show_float k (f_div (f_of_int (sint v)) (f_of_int 1000000))"

definition dd :: "'a::len word \<Rightarrow> string" where
  "dd v = show_int (sint v)"

text \<open>\<^verbatim>\<open>strconv.Atoi\<close> with its error ignored: 0 for what is no number, the nearest bound for one out of range.\<close>

definition atoi :: "string \<Rightarrow> int" where
  "atoi s =
     (let (neg, ds) = split_sign s; v = (if neg then - int (dec_value ds) else int (dec_value ds)) in
      if ds = [] \<or> \<not> list_all is_digit ds then 0 else max (- (2 ^ 63)) (min (2 ^ 63 - 1) v))"

definition limit_flag :: "string list \<Rightarrow> nat \<Rightarrow> nat" where
  "limit_flag args d = (let lmt = atoi (flagValue args ''--limit'' (show_nat d)) in if lmt \<le> 0 then d else nat lmt)"

text \<open>
  A loop \<^verbatim>\<open>for rows.Next()\<close> whose \<^verbatim>\<open>Scan\<close> error is ignored: the row's line is printed in any case, and a failed scan
  closes the rows.
\<close>

fun scan_loop :: "('r \<Rightarrow> string \<times> bool) \<Rightarrow> 'r list \<Rightarrow> string list" where
  "scan_loop line [] = []"
| "scan_loop line (r # rs) = (case line r of (text, ok) \<Rightarrow> text # (if ok then scan_loop line rs else []))"

text \<open>A loop whose line may panic.\<close>

fun cut_loop :: "('r \<Rightarrow> string option) \<Rightarrow> 'r list \<Rightarrow> string list \<Rightarrow> Outcome" where
  "cut_loop line [] out = printed out"
| "cut_loop line (r # rs) out =
     (case line r of None \<Rightarrow> \<lparr>oc_out = out, oc_err = [], oc_exit = 2\<rparr> | Some text \<Rightarrow> cut_loop line rs (out @ [text]))"

definition or_else :: "string \<Rightarrow> string list \<Rightarrow> string list" where
  "or_else text out = (if out = [] then [text] else out)"


section \<open>The status\<close>

definition open_statuses :: "string set" where
  "open_statuses = {''pending'', ''open'', ''partially_filled''}"

definition status_line :: "shell \<Rightarrow> KillRow \<Rightarrow> string" where
  "status_line sh r =
     ''  HALT: level='' @ ks_level r @ '' scope='' @ ks_scope r @ '' reason='' @ sh_quote sh (ks_reason r) @ '' by='' @ ks_triggered_by r
     @ '' at='' @ sh_clock sh (ks_triggered_at r) @ '' ['' @ (if ks_acknowledged r then ''acknowledged'' else ''NOT ACKNOWLEDGED'') @ '']''"

definition services :: "shell \<Rightarrow> (string \<times> string) list" where
  "services sh =
     [(''execution-engine'', envOrDefault sh ''EXEC_HEALTH_URL'' ''http://localhost:50041/health''),
      (''risk-engine'', envOrDefault sh ''RISK_HEALTH_URL'' ''http://localhost:50021/health''),
      (''watchdog'', envOrDefault sh ''WATCHDOG_HEALTH_URL'' ''http://localhost:50056/health''),
      (''strategy-engine'', envOrDefault sh ''STRATEGY_HEALTH_URL'' ''http://localhost:50031/health''),
      (''data-ingestion'', envOrDefault sh ''DATA_HEALTH_URL'' ''http://localhost:50011/health'')]"

definition upper :: "char \<Rightarrow> char" where
  "upper c = (let n = of_char c :: nat in if 97 \<le> n \<and> n \<le> 122 then char_of (n - 32) else c)"

definition service_line :: "shell \<Rightarrow> string \<Rightarrow> string" where
  "service_line sh name =
     ''  '' @ pad_right 20 name
     @ (case sh_probe sh (the (map_of (services sh) name)) of None \<Rightarrow> '' UNREACHABLE''
        | Some (status, uptime) \<Rightarrow> '' '' @ map upper status @ '' (uptime: '' @ uptime @ '')'')"

definition ctl_Status :: "shell \<Rightarrow> Tables \<Rightarrow> Outcome \<times> Tables" where
  "ctl_Status sh db =
     mustConnectDB sh
       (if fails sh ''watchdog.kill_switch_events'' then (exits [] [''query failed: '' @ sh_err sh ''watchdog.kill_switch_events''], db)
        else let halts = map (status_line sh) (sh_kills_by sh (filter (\<lambda>r. \<not> ks_resumed r) (tb_kills db)));
                 openCount = (if fails sh ''execution.orders'' then 0 else length (filter (\<lambda>r. or_status r \<in> open_statuses) (tb_orders db)));
                 pnl = (if fails sh ''risk.daily_stats'' then 0
                        else case find (\<lambda>r. ds_date r = sh_today sh \<and> ds_scope r = ''global'') (tb_stats db) of
                          None \<Rightarrow> 0 | Some r \<Rightarrow> ds_pnl_micros r) in
          (printed ([''=== System Status ===''] @ or_else ''  Mode: NORMAL (no active halts)'' halts
             @ [''  Open orders: '' @ show_nat openCount, ''  Daily P&L: '' @ dollars 2 pnl, [], ''=== Service Health ==='']
             @ map (service_line sh) (sh_services sh)), db)) db"


section \<open>Kill, acknowledge, resume\<close>

definition operator :: "shell \<Rightarrow> string" where
  "operator sh = ''trade-ctl:'' @ sh_getenv sh ''USER''"

definition ctl_Kill :: "shell \<Rightarrow> string list \<Rightarrow> Tables \<Rightarrow> Outcome \<times> Tables" where
  "ctl_Kill sh args db =
     (let level = flagValue args ''--level'' ''cancel_only''; scope = flagValue args ''--scope'' ''global'';
          reason = flagValue args ''--reason'' ''manual operator kill via trade-ctl'' in
      mustConnectDB sh
        (if sh_flt sh (Db ''watchdog.kill_switch_events.insert'' scope) \<or> level \<notin> set kill_levels
         then (exits [] [''failed to insert kill switch event: '' @ sh_err sh ''watchdog.kill_switch_events.insert''], db)
         else (printed [''KILL SWITCH ACTIVATED: level='' @ level @ '' scope='' @ scope,
                  ''Services will pick up the halt on next health check.'',
                  ''To acknowledge: trade-ctl ack --scope '' @ scope @ '' --cause '' @ [CHR 0x22] @ ''<reason>'' @ [CHR 0x22]],
               db\<lparr>tb_kills := tb_kills db @ [kill_row (new_halt (sh_now sh) level scope reason (operator sh))]\<rparr>)) db)"

definition unacked :: "string \<Rightarrow> KillRow \<Rightarrow> bool" where
  "unacked scope r \<longleftrightarrow> ks_scope r = scope \<and> \<not> ks_resumed r \<and> \<not> ks_acknowledged r"

definition unresumed :: "string \<Rightarrow> KillRow \<Rightarrow> bool" where
  "unresumed scope r \<longleftrightarrow> ks_scope r = scope \<and> \<not> ks_resumed r"

definition ctl_Ack :: "shell \<Rightarrow> string list \<Rightarrow> Tables \<Rightarrow> Outcome \<times> Tables" where
  "ctl_Ack sh args db =
     (let scope = flagValue args ''--scope'' ''global''; cause = flagValue args ''--cause'' [] in
      if cause = [] then (exits [] [''error: --cause is required''], db)
      else mustConnectDB sh
        (if sh_flt sh (Db ''watchdog.kill_switch_events.ack'' scope)
         then (exits [] [''failed: '' @ sh_err sh ''watchdog.kill_switch_events.ack''], db)
         else (printed [if rows_affected (unacked scope) (tb_kills db) = 0 then ''No unacknowledged halt found for scope: '' @ scope
                        else ''Halt on '' @ scope @ '' acknowledged. To resume: trade-ctl resume --scope '' @ scope],
               db\<lparr>tb_kills := sql_update (unacked scope)
                 (\<lambda>r. r\<lparr>ks_acknowledged := True, ks_acknowledged_by := Some (operator sh), ks_acknowledged_at := Some (sh_now sh),
                        ks_root_cause := Some cause\<rparr>) (tb_kills db)\<rparr>)) db)"

definition ctl_Resume :: "shell \<Rightarrow> string list \<Rightarrow> Tables \<Rightarrow> Outcome \<times> Tables" where
  "ctl_Resume sh args db =
     (let scope = flagValue args ''--scope'' ''global'' in
      mustConnectDB sh
        (case (if fails sh ''watchdog.kill_switch_events'' then [] else take 1 (sh_any_kill sh (filter (unresumed scope) (tb_kills db)))) of
           [] \<Rightarrow> (printed [''No active halt found for scope: '' @ scope], db)
         | r # _ \<Rightarrow>
             if \<not> ks_acknowledged r
             then (exits [] [''error: halt must be acknowledged before resuming. Use: trade-ctl ack --scope '' @ scope @ '' --cause ''
                     @ [CHR 0x22] @ ''...'' @ [CHR 0x22]], db)
             else if sh_flt sh (Db ''watchdog.kill_switch_events.resume'' scope)
             then (exits [] [''failed: '' @ sh_err sh ''watchdog.kill_switch_events.resume''], db)
             else (printed [''Trading resumed on scope '' @ scope],
                   db\<lparr>tb_kills := sql_update (unresumed scope)
                     (\<lambda>r. r\<lparr>ks_resumed := True, ks_resumed_by := Some (operator sh), ks_resumed_at := Some (sh_now sh)\<rparr>) (tb_kills db)\<rparr>)) db)"


section \<open>Reports\<close>

definition ctl_order_line :: "OrderRow \<Rightarrow> string option" where
  "ctl_order_line r =
     map_option (\<lambda>id8. ''  '' @ id8 @ '' | '' @ or_strategy_id r @ '' | '' @ or_side r @ '' '' @ or_market_id r @ '' '' @ dd (or_quantity r) @ ''@''
       @ dollars 2 (or_price_micros r) @ '' | filled='' @ dd (or_filled_quantity r) @ '' | '' @ or_status r) (trace8 (or_internal_order_id r))"

definition ctl_Orders :: "shell \<Rightarrow> Tables \<Rightarrow> Outcome \<times> Tables" where
  "ctl_Orders sh db =
     mustConnectDB sh
       (if fails sh ''execution.orders'' then (exits [] [''query failed: '' @ sh_err sh ''execution.orders''], db)
        else (cut_loop ctl_order_line (take 20 (sh_orders_by sh (filter (\<lambda>r. or_status r \<in> open_statuses) (tb_orders db))))
                [''=== Open Orders ===''], db)) db"

definition risk_line :: "DailyStatRow \<Rightarrow> string" where
  "risk_line r =
     ''  '' @ ds_scope r @ '': P&L='' @ dollars 2 (ds_pnl_micros r) @ '' turnover='' @ dollars 2 (ds_turnover_micros r) @ '' orders=''
     @ dd (ds_order_count r) @ '' fills='' @ dd (ds_fill_count r)"

definition ctl_Risk :: "shell \<Rightarrow> Tables \<Rightarrow> Outcome \<times> Tables" where
  "ctl_Risk sh db =
     mustConnectDB sh
       (if fails sh ''risk.daily_stats''
        then (\<lparr>oc_out = [''=== Risk State ===''], oc_err = [''query failed: '' @ sh_err sh ''risk.daily_stats''], oc_exit = 0\<rparr>, db)
        else (printed ([''=== Risk State ==='']
                @ map risk_line (sh_stats_by sh (filter (\<lambda>r. ds_date r = sh_today sh) (tb_stats db)))), db)) db"

definition active_limits :: "shell \<Rightarrow> Tables \<Rightarrow> LimitRow list" where
  "active_limits sh db = sh_limits_by sh (filter lm_active (tb_limits db))"

definition limit_line :: "LimitRow \<Rightarrow> string" where
  "limit_line r =
     ''  '' @ pad_right 35 (lm_limit_name r) @ '' ['' @ pad_right 20 (lm_scope r) @ ''] = '' @ dd (lm_value_micros r) @ '' '' @ lm_unit r"

definition ctl_Limits :: "shell \<Rightarrow> Tables \<Rightarrow> Outcome \<times> Tables" where
  "ctl_Limits sh db =
     mustConnectDB sh
       (printed ([''=== Active Limits ===''] @ (if fails sh ''risk.limits'' then [] else map limit_line (active_limits sh db))), db) db"

definition policy_path :: "shell \<Rightarrow> string" where
  "policy_path sh = envOrDefault sh ''POLICY_FILE'' ''./policies/paper.yaml''"

definition ctl_Policy :: "shell \<Rightarrow> Outcome" where
  "ctl_Policy sh =
     (case LoadPolicy (sh_readFile sh) (sh_yaml_Unmarshal sh) (policy_path sh) of
        Inl err \<Rightarrow> exits [] [''failed to load policy: '' @ sh_err sh ''policy'']
      | Inr p \<Rightarrow> printed
          [''=== Policy: '' @ policy_path sh @ '' ==='', ''  Mode: '' @ p_Mode p, ''  Hash: '' @ ConfigHash (sh_yaml_Marshal sh) p,
           ''  Max trade notional: '' @ dollars 2 (pt_MaxNotionalMicros (p_PerTrade p)),
           ''  Max daily loss: '' @ dollars 2 (gl_MaxDailyLossMicros (p_Global p)),
           ''  Max drawdown: '' @ show_float 1 (gl_MaxDrawdownPct (p_Global p)) @ ''%''])"

definition audit_line :: "shell \<Rightarrow> AuditRow \<Rightarrow> string option" where
  "audit_line sh r =
     map_option (\<lambda>tid. ''  '' @ sh_clock sh (ar_timestamp r) @ '' | '' @ pad_right 14 (ar_service r) @ '' | '' @ pad_right 20 (ar_event_type r)
         @ '' | ['' @ pad_right 8 (ar_severity r) @ ''] | trace='' @ tid @ '' | '' @ sh_preview sh 120 (JObj (ar_payload r)))
       (case ar_trace_id r of None \<Rightarrow> Some ''-'' | Some t \<Rightarrow> if t = [] then Some ''-'' else trace8 t)"

definition ctl_Audit :: "shell \<Rightarrow> string list \<Rightarrow> Tables \<Rightarrow> Outcome \<times> Tables" where
  "ctl_Audit sh args db =
     mustConnectDB sh
       (let eventType = flagValue args ''--type'' []; severity = flagValue args ''--severity'' []; lmt = limit_flag args 50 in
        if fails sh ''audit.event_log'' then (exits [] [''query failed: '' @ sh_err sh ''audit.event_log''], db)
        else let rows = take lmt (sh_audit_by sh (filter (\<lambda>r. (eventType = [] \<or> ar_event_type r = eventType)
                          \<and> (severity = [] \<or> ar_severity r = severity)) (tb_audit db))) in
          (if rows = [] then printed [''=== Audit Log ==='', ''  (no audit entries found)'']
           else cut_loop (audit_line sh) rows [''=== Audit Log ===''], db)) db"


section \<open>The trace of an order\<close>

text \<open>The ledger entry: \<^verbatim>\<open>intent_id\<close>, a UUID, is scanned into an integer first.\<close>

definition trace_intent :: "shell \<Rightarrow> string \<Rightarrow> Tables \<Rightarrow> string list" where
  "trace_intent sh traceID db =
     (case (if fails sh ''execution.order_intents'' then None else find (\<lambda>i. i_TraceID i = traceID) (tb_intents db)) of
        None \<Rightarrow> [''  (no intent ledger entry found)'']
      | Some i \<Rightarrow>
          (case sh_scan_uuid sh (i_IntentID i) of
             None \<Rightarrow> [''  (no intent ledger entry found)'']
           | Some _ \<Rightarrow>
               [''  version='' @ dd (i_Version i) @ '' | '' @ i_StrategyID i @ '' | '' @ i_MarketID i @ '' | '' @ i_Side i @ '' ''
                  @ dd (i_Quantity i) @ ''@'' @ dollars 6 (i_PriceMicros i) @ '' ('' @ dollars 2 (i_NotionalMicros i) @ '') | status='' @ i_Status i,
                ''  created='' @ sh_clock sh (i_CreatedAt i) @ ''  updated='' @ sh_clock sh (i_UpdatedAt i)]))"

definition trace_decision :: "shell \<Rightarrow> string \<Rightarrow> Tables \<Rightarrow> string list" where
  "trace_decision sh traceID db =
     (case (if fails sh ''risk.policy_decisions'' \<or> \<not> sh_is_uuid sh traceID then []
            else take 1 (sh_decisions_by sh (filter (\<lambda>r. pd_trace_id r = traceID) (tb_decisions db)))) of
        [] \<Rightarrow> [''  (no risk decision found)'']
      | r # _ \<Rightarrow> [''  decision='' @ pd_decision r @ ''  policy='' @ pd_policy_config_hash r @ ''  decided='' @ sh_clock sh (pd_decided_at r),
                 ''  checks: '' @ sh_json sh (pd_checks_json r)])"

definition clock_or_dash :: "shell \<Rightarrow> time option \<Rightarrow> string" where
  "clock_or_dash sh t = (case t of None \<Rightarrow> ''-'' | Some t \<Rightarrow> sh_clock sh t)"

text \<open>The order: \<^verbatim>\<open>exchange_order_id\<close> and \<^verbatim>\<open>avg_fill_price_micros\<close> are scanned into variables that take no NULL.\<close>

definition trace_order :: "shell \<Rightarrow> string \<Rightarrow> Tables \<Rightarrow> OrderRow option" where
  "trace_order sh traceID db =
     (if fails sh ''execution.orders'' \<or> \<not> sh_is_uuid sh traceID then None
      else case find (\<lambda>r. or_trace_id r = traceID) (tb_orders db) of
        None \<Rightarrow> None
      | Some r \<Rightarrow> if or_exchange_order_id r = None \<or> or_avg_fill_price_micros r = None then None else Some r)"

definition trace_order_lines :: "shell \<Rightarrow> OrderRow \<Rightarrow> string list option" where
  "trace_order_lines sh r =
     map_option (\<lambda>id8.
       [''  id='' @ id8 @ ''  exchange='' @ the (or_exchange_order_id r) @ ''  status='' @ or_status r @ ''  filled='' @ dd (or_filled_quantity r)
          @ ''/'' @ dd (or_quantity r) @ ''  avg='' @ dollars 6 (the (or_avg_fill_price_micros r)),
        ''  submitted='' @ clock_or_dash sh (or_submitted_at r) @ ''  completed='' @ clock_or_dash sh (or_completed_at r)])
       (trace8 (or_internal_order_id r))"

fun fill_lines :: "shell \<Rightarrow> nat \<Rightarrow> Fill list \<Rightarrow> string list" where
  "fill_lines sh i [] = []"
| "fill_lines sh i (f # fs) =
     (''  ['' @ show_nat (Suc i) @ ''] '' @ dd (fl_Quantity f) @ ''@'' @ dollars 6 (fl_PriceMicros f) @ '' fee='' @ dollars 2 (fl_FeeMicros f)
        @ '' at='' @ sh_clock sh (fl_FilledAt f)) # fill_lines sh (Suc i) fs"

definition trace_fills :: "shell \<Rightarrow> OrderRow \<Rightarrow> Tables \<Rightarrow> string list" where
  "trace_fills sh r db =
     (if fails sh ''execution.fills'' then []
      else [[], ''--- Fills ---''] @ or_else ''  (no fills)''
        (fill_lines sh 0 (sh_fills_by sh (filter (\<lambda>f. fl_InternalOrderID f = or_internal_order_id r) (tb_fills db)))))"

definition trace_audit_line :: "shell \<Rightarrow> AuditRow \<Rightarrow> string" where
  "trace_audit_line sh r =
     ''  '' @ sh_clock sh (ar_timestamp r) @ '' '' @ pad_right 14 (ar_service r) @ '' '' @ pad_right 20 (ar_event_type r) @ '' [''
     @ pad_right 8 (ar_severity r) @ ''] '' @ sh_preview sh 100 (JObj (ar_payload r))"

definition trace_audit :: "shell \<Rightarrow> string \<Rightarrow> Tables \<Rightarrow> string list" where
  "trace_audit sh traceID db =
     or_else ''  (no audit entries)''
       (if fails sh ''audit.event_log'' \<or> \<not> sh_is_uuid sh traceID then []
        else map (trace_audit_line sh) (sh_audit_by sh (filter (\<lambda>r. ar_trace_id r = Some traceID) (tb_audit db))))"

definition ctl_Trace :: "shell \<Rightarrow> string \<Rightarrow> Tables \<Rightarrow> Outcome \<times> Tables" where
  "ctl_Trace sh traceID db =
     mustConnectDB sh
       (let start = [''=== Trace: '' @ traceID @ '' ==='', [], ''--- Intent Ledger ---''] @ trace_intent sh traceID db
              @ [[], ''--- Risk Decision ---''] @ trace_decision sh traceID db @ [[], ''--- Order ---''];
            trail = [[], ''--- Audit Trail ---''] @ trace_audit sh traceID db in
        (case trace_order sh traceID db of
           None \<Rightarrow> printed (start @ [''  (no order record found)''] @ trail)
         | Some r \<Rightarrow>
             (case trace_order_lines sh r of
                None \<Rightarrow> \<lparr>oc_out = start, oc_err = [], oc_exit = 2\<rparr>
              | Some order_lines \<Rightarrow> printed (start @ order_lines @ trace_fills sh r db @ trail)), db)) db"


section \<open>Configuration, ledger, backtest\<close>

definition config_limit_line :: "shell \<Rightarrow> LimitRow \<Rightarrow> string" where
  "config_limit_line sh r = limit_line r @ ''  (by: '' @ lm_updated_by r @ '', at: '' @ sh_date sh (lm_updated_at r) @ '')''"

text \<open>A change without a reason: the NULL cannot be scanned, and what follows it in the row keeps Go's zero values.\<close>

definition change_line :: "shell \<Rightarrow> ConfigChangeRow \<Rightarrow> string \<times> bool" where
  "change_line sh r =
     (case cc_reason r of
        None \<Rightarrow> (''  '' @ sh_minute sh zero_time @ '' | '' @ cc_config_type r @ '' | '' @ cc_scope r @ '' | by='' @ cc_changed_by r @ '' | '', False)
      | Some reason \<Rightarrow>
          (''  '' @ sh_minute sh (cc_changed_at r) @ '' | '' @ cc_config_type r @ '' | '' @ cc_scope r @ '' | by='' @ cc_changed_by r @ '' | '' @ reason, True))"

definition ctl_Config :: "shell \<Rightarrow> Tables \<Rightarrow> Outcome \<times> Tables" where
  "ctl_Config sh db =
     (let path = policy_path sh in
      case LoadPolicy (sh_readFile sh) (sh_yaml_Unmarshal sh) path of
        Inl err \<Rightarrow> (exits [] [''failed to load policy: '' @ sh_err sh ''policy''], db)
      | Inr p \<Rightarrow>
          let start = [''=== Running Configuration ==='', ''Policy file: '' @ path, ''Policy hash: '' @ ConfigHash (sh_yaml_Marshal sh) p,
                       ''Mode: '' @ p_Mode p, [], ''--- Policy YAML ---'']
                @ (case sh_readFile sh path of None \<Rightarrow> [] | Some data \<Rightarrow> [sh_file_text sh data]) in
          if sh_flt sh (Db ''connect'' []) then (exits start [''failed to connect to database: '' @ sh_err sh ''connect''], db)
          else (\<lparr>oc_out = start @ [''--- Active Runtime Limits ---'']
                   @ (if fails sh ''risk.limits'' then [] else or_else ''  (no active limits)'' (map (config_limit_line sh) (active_limits sh db)))
                   @ [[], ''--- Recent Config Changes ---'']
                   @ (if fails sh ''audit.config_changes'' then [''  (none)'']
                      else or_else ''  (none)'' (scan_loop (change_line sh) (take 10 (sh_changes_by sh (tb_changes db))))),
                 oc_err = (if fails sh ''risk.limits'' then [''  (query failed: '' @ sh_err sh ''risk.limits'' @ '')''] else []), oc_exit = 0\<rparr>, db))"

definition ledger_line ::
  "shell \<Rightarrow> int64 \<Rightarrow> string \<Rightarrow> string \<Rightarrow> string \<Rightarrow> string \<Rightarrow> int32 \<Rightarrow> int64 \<Rightarrow> int64 \<Rightarrow> string \<Rightarrow> time \<Rightarrow> string" where
  "ledger_line sh version traceID stratID mktID side qty price notional st created =
     ''  v'' @ pad_right 4 (dd version) @ '' | '' @ take 8 traceID @ '' | '' @ pad_right 18 stratID @ '' | '' @ pad_right 15 mktID @ '' | '' @ side
     @ '' '' @ dd qty @ ''@'' @ dollars 6 price @ '' ('' @ dollars 2 notional @ '') | '' @ pad_right 8 st @ '' | '' @ sh_clock sh created"

definition intent_line :: "shell \<Rightarrow> OrderIntent \<Rightarrow> string \<times> bool" where
  "intent_line sh i =
     (case sh_scan_uuid sh (i_IntentID i) of
        None \<Rightarrow> (ledger_line sh 0 [] [] [] [] 0 0 0 [] zero_time, False)
      | Some _ \<Rightarrow> (ledger_line sh (i_Version i) (i_TraceID i) (i_StrategyID i) (i_MarketID i) (i_Side i) (i_Quantity i) (i_PriceMicros i)
            (i_NotionalMicros i) (i_Status i) (i_CreatedAt i), True))"

text \<open>A group of outstanding intents; a sum or count that does not fit its variable ends the loop with zeros in its place.\<close>

definition group_line :: "OrderIntent list \<Rightarrow> string \<times> string \<Rightarrow> string \<times> bool" where
  "group_line live g =
     (let these = filter (\<lambda>i. (i_MarketID i, i_Side i) = g) live; qty = (\<Sum>i\<leftarrow>these. sint (i_Quantity i));
          notional = (\<Sum>i\<leftarrow>these. sint (i_NotionalMicros i)); n = int (length these);
          fits = (\<bar>notional\<bar> < 2 ^ 63); ok = (fits \<and> n < 2 ^ 31) in
      (''  '' @ pad_right 20 (fst g) @ '' '' @ snd g @ '': qty='' @ show_int qty @ ''  notional='' @ dollars 2 (if fits then word_of_int notional else 0)
         @ ''  ('' @ show_int (if ok then n else 0) @ '' intents)'', ok))"

definition ctl_Ledger :: "shell \<Rightarrow> string list \<Rightarrow> Tables \<Rightarrow> Outcome \<times> Tables" where
  "ctl_Ledger sh args db =
     mustConnectDB sh
       (let statusFilter = flagValue args ''--status'' []; marketFilter = flagValue args ''--market'' []; lmt = limit_flag args 20 in
        if fails sh ''execution.order_intents'' then (exits [] [''query failed: '' @ sh_err sh ''execution.order_intents''], db)
        else let rows = take lmt (sh_intents_by sh (filter (\<lambda>i. (statusFilter = [] \<or> i_Status i = statusFilter)
                          \<and> (marketFilter = [] \<or> i_MarketID i = marketFilter)) (tb_intents db)));
                 start = [''=== Intent Ledger ===''] @ or_else ''  (no intents found)'' (scan_loop (intent_line sh) rows)
                   @ [[], ''=== Exposure by Market ===''];
                 live = filter (\<lambda>i. IsOutstanding (i_Status i)) (tb_intents db);
                 groups = sh_groups_by sh (remdups (map (\<lambda>i. (i_MarketID i, i_Side i)) live));
                 total = (\<Sum>i\<leftarrow>live. sint (i_NotionalMicros i)) in
          if fails sh ''execution.order_intents.groups''
          then (\<lparr>oc_out = start, oc_err = [''  (query failed: '' @ sh_err sh ''execution.order_intents.groups'' @ '')''], oc_exit = 0\<rparr>, db)
          else (printed (start @ or_else ''  (no outstanding exposure)'' (scan_loop (group_line live) groups)
                  @ [[], ''Total outstanding exposure: ''
                     @ dollars 2 (if \<bar>total\<bar> < 2 ^ 63 \<and> \<not> fails sh ''execution.order_intents.total'' then word_of_int total else 0)]), db)) db"

definition capital_micros :: "string \<Rightarrow> int64" where
  "capital_micros s = word_of_int (f_trunc (f_mul (case ParseFloat s of None \<Rightarrow> f_lit 0 | Some f \<Rightarrow> f) (f_of_int 1000000)))"

definition backtest_usage :: string where
  "backtest_usage = ''usage: trade-ctl backtest --strategy=<name> --from=2025-01-01 --to=2025-06-01 [--venue=kalshi] [--capital=100000] [--fill-mode=deterministic] [--policy=path] [--json]''"

definition run_backtest :: "shell \<Rightarrow> string list \<Rightarrow> Policy \<Rightarrow> string list \<Rightarrow> Tick list \<Rightarrow> Outcome" where
  "run_backtest sh args p notes ticks =
     (case sh_backtest sh \<lparr>rc_StrategyName = flagValue args ''--strategy'' ''simple-momentum'', rc_Venue = flagValue args ''--venue'' ''mock'',
             rc_Policy = p, rc_InitialCapital = capital_micros (flagValue args ''--capital'' ''100000''),
             rc_FillMode = flagValue args ''--fill-mode'' ''deterministic'', rc_Ticks = ticks\<rparr> of
        Inl err \<Rightarrow> exits [] (notes @ [''backtest failed: '' @ sh_backtest_err sh err])
      | Inr result \<Rightarrow>
          \<lparr>oc_out = (if ''--json'' \<in> set args then sh_print_json sh result else PrintTable (sh_duration sh (rr_Duration result)) result),
           oc_err = notes, oc_exit = 0\<rparr>)"

definition ctl_Backtest :: "shell \<Rightarrow> string list \<Rightarrow> Tables \<Rightarrow> Outcome" where
  "ctl_Backtest sh args db =
     (let fromStr = flagValue args ''--from'' []; toStr = flagValue args ''--to'' [] in
      case LoadPolicy (sh_readFile sh) (sh_yaml_Unmarshal sh) (flagValue args ''--policy'' (policy_path sh)) of
        Inl err \<Rightarrow> exits [] [''failed to load policy: '' @ sh_err sh ''policy'']
      | Inr p \<Rightarrow>
          if fromStr = [] \<or> toStr = [] then exits [] [backtest_usage]
          else if sh_flt sh (Db ''connect'' []) then exits [] [''failed to connect to database: '' @ sh_err sh ''connect'']
          else case sh_parse_date sh fromStr of None \<Rightarrow> exits [] [''invalid --from date: '' @ sh_err sh ''date'']
          | Some from_time \<Rightarrow>
            (case sh_parse_date sh toStr of None \<Rightarrow> exits [] [''invalid --to date: '' @ sh_err sh ''date'']
             | Some to_time \<Rightarrow>
                if fails sh ''backtest.market_snapshots'' then exits [] [''failed to load snapshots: '' @ sh_err sh ''backtest.market_snapshots'']
                else let snapshots = LoadSnapshots (sh_snapshots_by sh) (flagValue args ''--venue'' ''mock'') from_time
                           (to_time + 24 * 60 * time_Minute) (tb_snapshots db) in
                  if snapshots = [] then exits [] [''no market data found for the given date range. Run the scraper first.'']
                  else let ticks = GroupByTimestamp (sh_sort_slice sh) snapshots (5 * time_Second) in
                    run_backtest sh args p [''Loaded '' @ show_nat (length snapshots) @ '' snapshots '' @ [CHR 0xE2, CHR 0x86, CHR 0x92] @ '' ''
                      @ show_nat (length ticks) @ '' ticks''] ticks))"


section \<open>The program\<close>

definition printUsage :: "string list" where
  "printUsage =
     [''Usage: trade-ctl <command> [flags]'', [], ''Commands:'', ''  status   Show system status'',
      ''  kill     Trigger kill switch (--level, --scope, --reason)'', ''  ack      Acknowledge a halt (--scope, --cause)'',
      ''  resume   Resume trading (--scope)'', ''  orders   List open orders'', ''  risk     Show risk state'',
      ''  limits   Show active limits'', ''  policy   Show loaded policy summary'', ''  audit    Query audit log (--type, --severity, --limit)'',
      ''  trace    Full lifecycle trace (trace <trace_id>)'', ''  config   Show running configuration'',
      ''  ledger   Query intent ledger (--status, --market, --limit)'',
      ''  backtest Run strategy backtest (--strategy, --from, --to, --venue, --capital, --fill-mode, --policy, --json)'']"

text \<open>\<open>args\<close> is \<^verbatim>\<open>os.Args\<close>: the program's name and what follows it.\<close>

definition trade_ctl :: "shell \<Rightarrow> string list \<Rightarrow> Tables \<Rightarrow> Outcome \<times> Tables" where
  "trade_ctl sh args db =
     (if length args < 2 then (exits [] printUsage, db)
      else let cmd = args ! 1 in
        if cmd = ''status'' then ctl_Status sh db
        else if cmd = ''kill'' then ctl_Kill sh args db
        else if cmd = ''ack'' then ctl_Ack sh args db
        else if cmd = ''resume'' then ctl_Resume sh args db
        else if cmd = ''orders'' then ctl_Orders sh db
        else if cmd = ''risk'' then ctl_Risk sh db
        else if cmd = ''limits'' then ctl_Limits sh db
        else if cmd = ''policy'' then (ctl_Policy sh, db)
        else if cmd = ''audit'' then ctl_Audit sh args db
        else if cmd = ''trace'' then (if length args < 3 then (exits [] [''usage: trade-ctl trace <trace_id>''], db) else ctl_Trace sh (args ! 2) db)
        else if cmd = ''config'' then ctl_Config sh db
        else if cmd = ''ledger'' then ctl_Ledger sh args db
        else if cmd = ''backtest'' then (ctl_Backtest sh args db, db)
        else (exits [] ((''unknown command: '' @ cmd) # printUsage), db))"

end
