(* ===== verification/Trade_Ctl_Halts.thy ===== *)
theory Trade_Ctl_Halts
  imports Trade_Ctl
begin

text \<open>
  What the command line tool does to the halts: exactly which rows change and when; that a running watchdog behaves as if
  nothing had been done, and a restarted one reads the changed table; and where its reports say less than the tables hold.
\<close>

section \<open>Flags\<close>

lemma flagValue_separate:
  "list_all (\<lambda>a. a \<noteq> flag \<and> \<not> prefix (flag @ ''='') a) xs \<Longrightarrow> flagValue (xs @ flag # v # ys) flag d = v"
  by (induction xs) auto

lemma flagValue_joined:
  "list_all (\<lambda>a. a \<noteq> flag \<and> \<not> prefix (flag @ ''='') a) xs \<Longrightarrow> flagValue (xs @ (flag @ ''='' @ v) # ys) flag d = v"
  by (induction xs) auto

lemma flagValue_default:
  "list_all (\<lambda>a. a \<noteq> flag \<and> \<not> prefix (flag @ ''='') a) xs \<Longrightarrow> flagValue xs flag d = d"
  by (induction xs) auto


section \<open>Which rows change\<close>

definition scope_flag :: "string list \<Rightarrow> string" where
  "scope_flag args = flagValue args ''--scope'' ''global''"

definition killed_by :: "string list \<Rightarrow> KillRow list \<Rightarrow> KillRow list \<Rightarrow> bool" where
  "killed_by args rows rows' \<longleftrightarrow>
     (\<exists>r. rows' = rows @ [r] \<and> ks_level r = flagValue args ''--level'' ''cancel_only'' \<and> ks_level r \<in> set kill_levels
        \<and> ks_scope r = scope_flag args \<and> \<not> ks_acknowledged r \<and> \<not> ks_resumed r)"

definition acked_by :: "string list \<Rightarrow> KillRow list \<Rightarrow> KillRow list \<Rightarrow> bool" where
  "acked_by args rows rows' \<longleftrightarrow> flagValue args ''--cause'' [] \<noteq> []
     \<and> (\<exists>who t. rows' = map (\<lambda>r. if ks_scope r = scope_flag args \<and> \<not> ks_resumed r \<and> \<not> ks_acknowledged r
           then r\<lparr>ks_acknowledged := True, ks_acknowledged_by := Some who, ks_acknowledged_at := Some t,
                  ks_root_cause := Some (flagValue args ''--cause'' [])\<rparr> else r) rows)"

definition resumed_by :: "string list \<Rightarrow> KillRow list \<Rightarrow> KillRow list \<Rightarrow> bool" where
  "resumed_by args rows rows' \<longleftrightarrow> (\<exists>r \<in> set rows. ks_scope r = scope_flag args \<and> \<not> ks_resumed r \<and> ks_acknowledged r)
     \<and> (\<exists>who t. rows' = map (\<lambda>r. if ks_scope r = scope_flag args \<and> \<not> ks_resumed r
           then r\<lparr>ks_resumed := True, ks_resumed_by := Some who, ks_resumed_at := Some t\<rparr> else r) rows)"

lemma connect_state: "snd (mustConnectDB sh (go, db') db) \<in> {db, db'}"
  by (simp add: mustConnectDB_def)

lemma reports_change_nothing:
  "snd (ctl_Status sh db) = db" "snd (ctl_Orders sh db) = db" "snd (ctl_Risk sh db) = db" "snd (ctl_Limits sh db) = db"
  "snd (ctl_Audit sh args db) = db" "snd (ctl_Trace sh t db) = db" "snd (ctl_Config sh db) = db" "snd (ctl_Ledger sh args db) = db"
  by (simp_all add: ctl_Status_def ctl_Orders_def ctl_Risk_def ctl_Limits_def ctl_Audit_def ctl_Trace_def ctl_Config_def ctl_Ledger_def
      mustConnectDB_def Let_def split: sum.split)

lemma ctl_Kill_cases:
  obtains o1 where "ctl_Kill sh args db = (o1, db)" "oc_exit o1 = 1"
  | o1 rows where "ctl_Kill sh args db = (o1, db\<lparr>tb_kills := rows\<rparr>)" "oc_exit o1 = 0" "killed_by args (tb_kills db) rows"
proof (cases "sh_flt sh (Db ''connect'' []) \<or> sh_flt sh (Db ''watchdog.kill_switch_events.insert'' (scope_flag args))
    \<or> flagValue args ''--level'' ''cancel_only'' \<notin> set kill_levels")
  case True
  show ?thesis
    by (rule that(1) [of "fst (ctl_Kill sh args db)"]) (use True in \<open>auto simp: ctl_Kill_def mustConnectDB_def scope_flag_def exits_def Let_def\<close>)
next
  case False
  let ?r = "kill_row (new_halt (sh_now sh) (flagValue args ''--level'' ''cancel_only'') (scope_flag args)
      (flagValue args ''--reason'' ''manual operator kill via trade-ctl'') (operator sh))"
  have "killed_by args (tb_kills db) (tb_kills db @ [?r])"
    using False by (simp add: killed_by_def kill_row_def new_halt_def)
  then show ?thesis
    using False by (intro that(2) [of "fst (ctl_Kill sh args db)" "tb_kills db @ [?r]"])
      (auto simp: ctl_Kill_def mustConnectDB_def scope_flag_def printed_def Let_def)
qed

lemma ctl_Ack_cases:
  obtains o1 where "ctl_Ack sh args db = (o1, db)" "oc_exit o1 = 1"
  | o1 rows where "ctl_Ack sh args db = (o1, db\<lparr>tb_kills := rows\<rparr>)" "oc_exit o1 = 0" "acked_by args (tb_kills db) rows"
proof (cases "sh_flt sh (Db ''connect'' []) \<or> sh_flt sh (Db ''watchdog.kill_switch_events.ack'' (scope_flag args))
    \<or> flagValue args ''--cause'' [] = []")
  case True
  show ?thesis
    by (rule that(1) [of "fst (ctl_Ack sh args db)"]) (use True in \<open>auto simp: ctl_Ack_def mustConnectDB_def scope_flag_def exits_def Let_def\<close>)
next
  case False
  let ?rows = "map (\<lambda>r. if unacked (scope_flag args) r
      then r\<lparr>ks_acknowledged := True, ks_acknowledged_by := Some (operator sh), ks_acknowledged_at := Some (sh_now sh),
             ks_root_cause := Some (flagValue args ''--cause'' [])\<rparr> else r) (tb_kills db)"
  have "acked_by args (tb_kills db) ?rows" using False by (auto simp: acked_by_def unacked_def)
  then show ?thesis
    using False by (intro that(2) [of "fst (ctl_Ack sh args db)" ?rows])
      (auto simp: ctl_Ack_def mustConnectDB_def scope_flag_def printed_def sql_update_def Let_def)
qed

lemma ctl_Resume_cases:
  assumes "\<And>rows. set (sh_any_kill sh rows) \<subseteq> set rows"
  obtains o1 where "ctl_Resume sh args db = (o1, db)" "oc_exit o1 \<le> 1"
  | o1 rows where "ctl_Resume sh args db = (o1, db\<lparr>tb_kills := rows\<rparr>)" "oc_exit o1 = 0" "resumed_by args (tb_kills db) rows"
proof (cases "sh_flt sh (Db ''connect'' []) \<or> fails sh ''watchdog.kill_switch_events''")
  case True
  show ?thesis
    by (rule that(1) [of "fst (ctl_Resume sh args db)"])
       (use True in \<open>auto simp: ctl_Resume_def mustConnectDB_def exits_def printed_def Let_def\<close>)
next
  case no_faults: False
  show ?thesis
  proof (cases "sh_any_kill sh (filter (unresumed (scope_flag args)) (tb_kills db))")
    case Nil
    show ?thesis
      by (rule that(1) [of "fst (ctl_Resume sh args db)"])
         (use Nil no_faults in \<open>auto simp: ctl_Resume_def mustConnectDB_def printed_def scope_flag_def Let_def\<close>)
  next
    case (Cons r rs)
    then have r: "r \<in> set (tb_kills db)" "unresumed (scope_flag args) r"
      using assms [of "filter (unresumed (scope_flag args)) (tb_kills db)"] by auto
    show ?thesis
    proof (cases "ks_acknowledged r \<and> \<not> sh_flt sh (Db ''watchdog.kill_switch_events.resume'' (scope_flag args))")
      case True
      let ?rows = "map (\<lambda>r. if unresumed (scope_flag args) r
          then r\<lparr>ks_resumed := True, ks_resumed_by := Some (operator sh), ks_resumed_at := Some (sh_now sh)\<rparr> else r) (tb_kills db)"
      have "resumed_by args (tb_kills db) ?rows" using r True by (auto simp: resumed_by_def unresumed_def)
      then show ?thesis
        using True Cons no_faults by (intro that(2) [of "fst (ctl_Resume sh args db)" ?rows])
          (auto simp: ctl_Resume_def mustConnectDB_def printed_def scope_flag_def sql_update_def Let_def)
    next
      case False
      show ?thesis
        by (rule that(1) [of "fst (ctl_Resume sh args db)"])
           (use False Cons no_faults in \<open>auto simp: ctl_Resume_def mustConnectDB_def exits_def scope_flag_def Let_def\<close>)
    qed
  qed
qed

definition table_changed :: "string list \<Rightarrow> KillRow list \<Rightarrow> KillRow list \<Rightarrow> bool" where
  "table_changed args rows rows' \<longleftrightarrow>
     args ! 1 = ''kill'' \<and> killed_by args rows rows' \<or> args ! 1 = ''ack'' \<and> acked_by args rows rows'
     \<or> args ! 1 = ''resume'' \<and> resumed_by args rows rows'"

lemma trade_ctl_other:
  assumes "length args < 2 \<or> args ! 1 \<notin> {''kill'', ''ack'', ''resume''}"
  shows "snd (trade_ctl sh args db) = db"
  using assms unfolding trade_ctl_def Let_def by (cases "length args < 2") (simp_all add: reports_change_nothing)

text \<open>
  C39: The tool changes the tables only by \<open>kill\<close>, \<open>ack\<close> and \<open>resume\<close>, only the halts, only with exit status 0, and
  exactly so: a kill appends one row, of a valid level, neither acknowledged nor resumed; an acknowledgment needs a cause
  and marks the unacknowledged halts of the scope; a resume needs an acknowledged halt of the scope and marks every halt
  of it. Every other run, whatever is asked and whatever fails, leaves all tables as they are.
\<close>

theorem trade_ctl_changes_exact:
  assumes "\<And>rows. set (sh_any_kill sh rows) \<subseteq> set rows"
  shows "snd (trade_ctl sh args db) = db
    \<or> (\<exists>rows. snd (trade_ctl sh args db) = db\<lparr>tb_kills := rows\<rparr> \<and> oc_exit (fst (trade_ctl sh args db)) = 0
         \<and> table_changed args (tb_kills db) rows)"
proof (cases "length args < 2 \<or> args ! 1 \<notin> {''kill'', ''ack'', ''resume''}")
  case True
  then show ?thesis by (simp add: trade_ctl_other)
next
  case False
  then consider "args ! 1 = ''kill''" "trade_ctl sh args db = ctl_Kill sh args db"
    | "args ! 1 = ''ack''" "trade_ctl sh args db = ctl_Ack sh args db"
    | "args ! 1 = ''resume''" "trade_ctl sh args db = ctl_Resume sh args db"
    by (auto simp: trade_ctl_def Let_def)
  then show ?thesis
  proof cases
    case 1
    then show ?thesis by (cases rule: ctl_Kill_cases [of sh args db]) (auto simp: table_changed_def)
  next
    case 2
    then show ?thesis by (cases rule: ctl_Ack_cases [of sh args db]) (auto simp: table_changed_def)
  next
    case 3
    then show ?thesis by (cases rule: ctl_Resume_cases [of sh args db, OF assms]) (auto simp: table_changed_def)
  qed
qed


section \<open>A running watchdog does not notice\<close>

definition but_rows :: "('x, 'r) KillSwitchManager \<Rightarrow> ('x, 'r) KillSwitchManager" where
  "but_rows w = w\<lparr>km_rows := []\<rparr>"

lemma but_rows_fields:
  assumes "but_rows w = but_rows v"
  shows "km_activeHalts w = km_activeHalts v" "km_currentMode w = km_currentMode v" "km_exec w = km_exec v" "km_risk w = km_risk v"
    "km_out w = km_out v" "km_auditor w = km_auditor v"
  using assms by (cases w; cases v; simp add: but_rows_def)+

lemma Trigger_but_rows:
  "but_rows w = but_rows v \<Longrightarrow>
   but_rows (Trigger H ec rk flt visit now aid level scope reason triggeredBy w) = but_rows (Trigger H ec rk flt visit now aid level scope reason triggeredBy v)"
  by (cases w; cases v) (auto simp: but_rows_def Trigger_def trigger_actions_def recalcMode_def Let_def split: option.split)

lemma Acknowledge_but_rows:
  "but_rows w = but_rows v \<Longrightarrow>
   but_rows (snd (Acknowledge H flt now aid scope ackedBy rootCause w)) = but_rows (snd (Acknowledge H flt now aid scope ackedBy rootCause v))"
  by (cases w; cases v) (auto simp: but_rows_def Acknowledge_def Let_def split: option.split)

lemma Resume_but_rows:
  "but_rows w = but_rows v \<Longrightarrow>
   but_rows (snd (Resume H ec rk flt visit now aid scope resumedBy w)) = but_rows (snd (Resume H ec rk flt visit now aid scope resumedBy v))"
  by (cases w; cases v) (auto simp: but_rows_def Resume_def recalcMode_def Let_def split: option.split)

lemma Monitor_tick_but_rows:
  assumes "but_rows w = but_rows v"
  shows "but_rows (Monitor_tick H ec rk flt visit now aids d w) = but_rows (Monitor_tick H ec rk flt visit now aids d v)"
proof -
  have "but_rows (foldl (check_service H ec rk flt visit now aids d) w svcs) = but_rows (foldl (check_service H ec rk flt visit now aids d) v svcs)"
    for svcs using assms
  proof (induction svcs arbitrary: w v)
    case (Cons svc svcs)
    have "but_rows (check_service H ec rk flt visit now aids d w svc) = but_rows (check_service H ec rk flt visit now aids d v svc)"
      unfolding check_service_def using Trigger_but_rows [OF Cons.prems] Cons.prems by (cases "beat_missed now d svc") (simp_all only: if_True if_False)
    then show ?case unfolding foldl.simps by (rule Cons.IH)
  qed simp
  then show ?thesis by (simp only: Monitor_tick_def)
qed

text \<open>
  Everything a running watchdog is asked or does by itself, with all its arguments: the four calls that change
  its state, the status, a heartbeat and a tick of the monitor; and, between them, a run of the tool on the table.
\<close>

datatype wd_event =
    EvTrigger faults time uuid pb_KillSwitchLevel string string string
  | EvAcknowledge faults time uuid string string string
  | EvResume faults time uuid string string
  | EvHeartbeat faults time string string string
  | EvStatus time
  | EvTick faults time "string \<Rightarrow> uuid"
  | EvTool shell "string list" Tables

datatype wd_reply =
    ReTrigger "(watchdog_error, KillSwitchResponse) result"
  | ReHalt "bool \<times> halt_error option"
  | ReBeat "bool \<times> string"
  | ReStatus SystemStatus

fun by_tool :: "wd_event \<Rightarrow> bool" where
  "by_tool (EvTool sh args db) = True"
| "by_tool e = False"

fun serve_event ::
  "(HashInput \<Rightarrow> string) \<Rightarrow> 'x ExecutionControl \<Rightarrow> 'r RiskControl \<Rightarrow> (halts \<Rightarrow> string list) \<Rightarrow> wd_event
     \<Rightarrow> ('x, 'r) KillSwitchManager \<times> DeadMansSwitch \<Rightarrow> wd_reply list \<times> ('x, 'r) KillSwitchManager \<times> DeadMansSwitch" where
  "serve_event H ec rk visit (EvTrigger flt now aid l scope reason by1) (w, d) =
     (let (res, w') = GRPC_TriggerKillSwitch H ec rk flt visit now aid l scope reason by1 w in ([ReTrigger res], w', d))"
| "serve_event H ec rk visit (EvAcknowledge flt now aid scope by1 cause) (w, d) =
     (let (res, w') = GRPC_AcknowledgeHalt H flt now aid scope by1 cause w in ([ReHalt res], w', d))"
| "serve_event H ec rk visit (EvResume flt now aid scope by1) (w, d) =
     (let (res, w') = GRPC_ResumeTrading H ec rk flt visit now aid scope by1 w in ([ReHalt res], w', d))"
| "serve_event H ec rk visit (EvHeartbeat flt now service status detail) (w, d) =
     (let (res, d') = GRPC_Heartbeat flt now service status detail w d in ([ReBeat res], w, d'))"
| "serve_event H ec rk visit (EvStatus now) (w, d) = ([ReStatus (GetSystemStatus visit now w d)], w, d)"
| "serve_event H ec rk visit (EvTick flt now aids) (w, d) = ([], Monitor_tick H ec rk flt visit now aids d w, d)"
| "serve_event H ec rk visit (EvTool sh args db) (w, d) =
     ([], w\<lparr>km_rows := tb_kills (snd (trade_ctl sh args (db\<lparr>tb_kills := km_rows w\<rparr>)))\<rparr>, d)"

fun serve_all ::
  "(HashInput \<Rightarrow> string) \<Rightarrow> 'x ExecutionControl \<Rightarrow> 'r RiskControl \<Rightarrow> (halts \<Rightarrow> string list) \<Rightarrow> wd_event list
     \<Rightarrow> ('x, 'r) KillSwitchManager \<times> DeadMansSwitch \<Rightarrow> wd_reply list \<times> ('x, 'r) KillSwitchManager \<times> DeadMansSwitch" where
  "serve_all H ec rk visit [] st = ([], st)"
| "serve_all H ec rk visit (e # es) st =
     (let (rs, st') = serve_event H ec rk visit e st; (rs', st'') = serve_all H ec rk visit es st' in (rs @ rs', st''))"

text \<open>Two outcomes that differ at most in the table.\<close>

definition same_view ::
  "wd_reply list \<times> ('x, 'r) KillSwitchManager \<times> DeadMansSwitch \<Rightarrow> wd_reply list \<times> ('x, 'r) KillSwitchManager \<times> DeadMansSwitch \<Rightarrow> bool" where
  "same_view a b \<longleftrightarrow> fst a = fst b \<and> but_rows (fst (snd a)) = but_rows (fst (snd b)) \<and> snd (snd a) = snd (snd b)"

lemma replies_but_rows:
  assumes "but_rows w = but_rows v"
  shows "fst (Acknowledge H flt now aid scope by1 cause w) = fst (Acknowledge H flt now aid scope by1 cause v)"
    and "fst (Resume H ec rk flt visit now aid scope by1 w) = fst (Resume H ec rk flt visit now aid scope by1 v)"
    and "GetCurrentMode w = GetCurrentMode v" "GetActiveHalts visit w = GetActiveHalts visit v"
  using but_rows_fields [OF assms]
  by (simp_all add: Acknowledge_def Resume_def GetCurrentMode_def GetActiveHalts_def Let_def split: option.split)

lemma reply_parts: "fst (reply r) = (case fst r of Inl err \<Rightarrow> (False, Some err) | Inr _ \<Rightarrow> (True, None))" "snd (reply r) = snd r"
  by (simp_all add: reply_def split: prod.split sum.split)

lemma serve_event_view:
  assumes "but_rows w = but_rows v" and "\<not> by_tool e"
  shows "same_view (serve_event H ec rk visit e (w, d)) (serve_event H ec rk visit e (v, d))"
proof (cases e)
  case (EvTrigger flt now aid l scope reason by1)
  then show ?thesis
    using Trigger_but_rows [OF assms(1)] assms(1) by (simp add: same_view_def GRPC_TriggerKillSwitch_def Let_def)
next
  case (EvAcknowledge flt now aid scope by1 cause)
  then show ?thesis
    using Acknowledge_but_rows [OF assms(1)] replies_but_rows(1) [OF assms(1)]
    by (simp add: same_view_def GRPC_AcknowledgeHalt_def reply_parts split_beta)
next
  case (EvResume flt now aid scope by1)
  then show ?thesis
    using Resume_but_rows [OF assms(1)] replies_but_rows(2) [OF assms(1)]
    by (simp add: same_view_def GRPC_ResumeTrading_def reply_parts split_beta)
next
  case (EvHeartbeat flt now service status detail)
  then show ?thesis using assms(1) replies_but_rows(3) [OF assms(1)] by (simp add: same_view_def GRPC_Heartbeat_def)
next
  case (EvStatus now)
  then show ?thesis using assms(1) replies_but_rows(3,4) [OF assms(1)] by (simp add: same_view_def GetSystemStatus_def)
next
  case (EvTick flt now aids)
  then show ?thesis using Monitor_tick_but_rows [OF assms(1)] by (simp add: same_view_def)
next
  case (EvTool sh args db)
  then show ?thesis using assms(2) by simp
qed

lemma serve_all_view:
  assumes "but_rows w = but_rows v"
  shows "same_view (serve_all H ec rk visit evs (w, d)) (serve_all H ec rk visit (filter (\<lambda>e. \<not> by_tool e) evs) (v, d))"
  using assms
proof (induction evs arbitrary: w v d)
  case (Cons e evs)
  show ?case
  proof (cases "by_tool e")
    case True
    then obtain sh args db where e: "e = EvTool sh args db" by (cases e) simp_all
    let ?w = "w\<lparr>km_rows := tb_kills (snd (trade_ctl sh args (db\<lparr>tb_kills := km_rows w\<rparr>)))\<rparr>"
    have "but_rows ?w = but_rows v" using Cons.prems by (simp add: but_rows_def)
    from Cons.IH [OF this, of d] show ?thesis by (simp add: e split_beta)
  next
    case False
    obtain rs w' d' where w: "serve_event H ec rk visit e (w, d) = (rs, w', d')" by (metis surj_pair)
    obtain rs' v' d'' where v: "serve_event H ec rk visit e (v, d) = (rs', v', d'')" by (metis surj_pair)
    have "rs = rs'" "but_rows w' = but_rows v'" "d' = d''"
      using serve_event_view [OF Cons.prems False, of H ec rk visit d] by (simp_all add: same_view_def w v)
    with Cons.IH [of w' v' d'] False show ?thesis by (simp add: w v split_beta same_view_def)
  qed
qed (simp add: same_view_def)

text \<open>
  C25: A running watchdog does not notice the tool. Let a watchdog in any state handle any sequence of trigger,
  acknowledge and resume calls, status requests, heartbeats and ticks of the monitor, each with any arguments and failures,
  with any runs of the tool on its table in between. Leave the runs of the tool out of the sequence: the
  watchdog gives the same replies to the same calls, and ends with the same halts, mode, heartbeats,
  events and audit log, and the same commands given to the execution engine and the risk engine. A kill by the tool halts nothing and a
  resume by the tool resumes nothing until the watchdog is restarted.
\<close>

theorem running_watchdog_ignores_tool:
  "case (serve_all H ec rk visit evs (w, d), serve_all H ec rk visit (filter (\<lambda>e. \<not> by_tool e) evs) (w, d)) of
     ((rs, w', d'), (rs0, w0, d0)) \<Rightarrow>
       rs = rs0 \<and> d' = d0
       \<and> km_activeHalts w' = km_activeHalts w0 \<and> km_currentMode w' = km_currentMode w0 \<and> km_exec w' = km_exec w0
       \<and> km_risk w' = km_risk w0 \<and> km_out w' = km_out w0 \<and> km_auditor w' = km_auditor w0"
proof -
  obtain rs w' d' rs0 w0 d0 where e: "serve_all H ec rk visit evs (w, d) = (rs, w', d')"
      "serve_all H ec rk visit (filter (\<lambda>e. \<not> by_tool e) evs) (w, d) = (rs0, w0, d0)"
    by (metis surj_pair)
  have v: "rs = rs0" "but_rows w' = but_rows w0" "d' = d0"
    using serve_all_view [OF refl, of H ec rk visit evs w d] by (simp_all add: same_view_def e)
  show ?thesis using v(1,3) but_rows_fields [OF v(2)] by (simp add: e)
qed

text \<open>A restarted watchdog that reads the rows in the order they were inserted has the halt.\<close>

lemma restart_reads_kill:
  assumes "killed_by args rows rows'" "LoadActiveHalts no_faults visit (\<lambda>rows. rows) (NewKillSwitchManager x r rows') = (res, w')"
  shows "\<exists>h. km_activeHalts w' (scope_flag args) = Some h \<and> ah_Level h = flagValue args ''--level'' ''cancel_only'' \<and> \<not> ah_Acknowledged h"
proof -
  obtain k where k: "rows' = rows @ [k]" "ks_level k = flagValue args ''--level'' ''cancel_only''" "ks_scope k = scope_flag args"
      "\<not> ks_acknowledged k" "\<not> ks_resumed k" using assms(1) by (auto simp: killed_by_def)
  have "km_activeHalts w' = (foldl (\<lambda>hs r. hs(ks_scope r \<mapsto> halt_of_row r)) Map.empty (filter (\<lambda>r. \<not> ks_resumed r) rows))(ks_scope k \<mapsto> halt_of_row k)"
    using assms(2) k(1,5) by (auto simp: LoadActiveHalts_def NewKillSwitchManager_def)
  then show ?thesis using k by (simp add: halt_of_row_def)
qed

definition sample_shell :: shell where
  "sample_shell =
     \<lparr>sh_getenv = (\<lambda>_. []), sh_flt = no_faults, sh_err = (\<lambda>_. []), sh_now = 1, sh_today = 0, sh_clock = (\<lambda>_. ''12:00:00''), sh_date = (\<lambda>_. []),
      sh_minute = (\<lambda>_. []), sh_quote = (\<lambda>s. s), sh_json = (\<lambda>_. []), sh_preview = (\<lambda>_ _. []), sh_is_uuid = (\<lambda>_. True), sh_scan_uuid = (\<lambda>_. None),
      sh_services = [], sh_probe = (\<lambda>_. None), sh_readFile = (\<lambda>_. None), sh_file_text = (\<lambda>_. []), sh_yaml_Unmarshal = (\<lambda>_. None),
      sh_yaml_Marshal = (\<lambda>_. []), sh_parse_date = (\<lambda>_. None), sh_any_kill = (\<lambda>x. x), sh_kills_by = (\<lambda>x. x), sh_orders_by = (\<lambda>x. x),
      sh_fills_by = (\<lambda>x. x), sh_intents_by = (\<lambda>x. x), sh_stats_by = (\<lambda>x. x), sh_limits_by = (\<lambda>x. x), sh_decisions_by = (\<lambda>x. x),
      sh_audit_by = (\<lambda>x. x), sh_changes_by = (\<lambda>x. x), sh_groups_by = (\<lambda>x. x), sh_snapshots_by = (\<lambda>x. x), sh_sort_slice = (\<lambda>x. x),
      sh_backtest = (\<lambda>_. Inl ContextCancelled), sh_backtest_err = (\<lambda>_. []), sh_duration = (\<lambda>_. []), sh_print_json = (\<lambda>_. [])\<rparr>"

definition no_rows :: Tables where
  "no_rows = \<lparr>tb_kills = [], tb_orders = [], tb_fills = [], tb_intents = [], tb_stats = [], tb_limits = [], tb_decisions = [], tb_audit = [],
     tb_changes = [], tb_snapshots = []\<rparr>"

definition kill_args :: "string list" where
  "kill_args = [''trade-ctl'', ''kill'', ''--level=full_stop'']"

lemma sample_kill:
  "tb_kills (snd (trade_ctl sample_shell kill_args no_rows)) = [kill_row (new_halt 1 LevelFullStop ''global'' ''manual operator kill via trade-ctl'' ''trade-ctl:'')]"
  by (simp add: trade_ctl_def kill_args_def ctl_Kill_def mustConnectDB_def sample_shell_def no_rows_def no_faults_def operator_def kill_levels_def Let_def)

theorem trade_ctl_changes_exact_witness:
  "oc_exit (fst (trade_ctl sample_shell kill_args no_rows)) = 0
   \<and> table_changed kill_args [] (tb_kills (snd (trade_ctl sample_shell kill_args no_rows)))"
proof -
  have "\<And>rows. set (sh_any_kill sample_shell rows) \<subseteq> set rows" by (simp add: sample_shell_def)
  from trade_ctl_changes_exact [OF this, of kill_args no_rows]
  have "snd (trade_ctl sample_shell kill_args no_rows) = no_rows
    \<or> (\<exists>rows. snd (trade_ctl sample_shell kill_args no_rows) = no_rows\<lparr>tb_kills := rows\<rparr> \<and> oc_exit (fst (trade_ctl sample_shell kill_args no_rows)) = 0
         \<and> table_changed kill_args (tb_kills no_rows) rows)" .
  moreover have "tb_kills (snd (trade_ctl sample_shell kill_args no_rows)) \<noteq> []" by (simp add: sample_kill)
  moreover have "tb_kills no_rows = []" by (simp add: no_rows_def)
  ultimately show ?thesis by auto
qed

text \<open>A full stop by the tool is in the table, and the next heartbeat is still told to trade.\<close>

theorem running_watchdog_ignores_tool_witness:
  "\<exists>w' d'. serve_all (\<lambda>_. []) null_exec null_risk sorted_visit
       [EvTool sample_shell kill_args no_rows, EvHeartbeat no_faults 5 ''execution-engine'' [] []]
       (NewKillSwitchManager () () [], NewDeadMansSwitch [] 10 3) = ([ReBeat (True, ''normal'')], w', d')
     \<and> map ks_level (km_rows w') = [LevelFullStop] \<and> km_currentMode w' = ''normal''"
proof -
  let ?w = "NewKillSwitchManager () () []" and ?d = "NewDeadMansSwitch [] 10 3"
  let ?evs = "[EvTool sample_shell kill_args no_rows, EvHeartbeat no_faults 5 ''execution-engine'' [] []]"
  obtain rs w' d' where r: "serve_all (\<lambda>_. []) null_exec null_risk sorted_visit ?evs (?w, ?d) = (rs, w', d')" by (metis surj_pair)
  have "no_rows\<lparr>tb_kills := km_rows ?w\<rparr> = no_rows" by (simp add: no_rows_def NewKillSwitchManager_def)
  then have "map ks_level (km_rows w') = [LevelFullStop]"
    using r sample_kill by (auto simp: GRPC_Heartbeat_def kill_row_def new_halt_def)
  moreover have "serve_all (\<lambda>_. []) null_exec null_risk sorted_visit (filter (\<lambda>e. \<not> by_tool e) ?evs) (?w, ?d) =
      ([ReBeat (True, ''normal'')], ?w, RecordHeartbeat no_faults 5 ''execution-engine'' [] [] ?d)"
    by (simp add: GRPC_Heartbeat_def GetCurrentMode_def NewKillSwitchManager_def)
  ultimately show ?thesis
    using running_watchdog_ignores_tool [where H = "\<lambda>_. []" and ec = null_exec and rk = null_risk and visit = sorted_visit
        and evs = ?evs and w = ?w and d = ?d, unfolded r] r
    by (auto simp: NewKillSwitchManager_def)
qed


section \<open>What the tool gets wrong\<close>

text \<open>
  Two halts of one scope that are not resumed (an escalation), only the first acknowledged: the check reads one row, the
  resume marks both.
\<close>

lemma resume_skips_acknowledgment:
  assumes "tb_kills db = [r1, r2]" "unresumed (scope_flag args) r1" "unresumed (scope_flag args) r2" "ks_acknowledged r1" "\<not> ks_acknowledged r2"
    and "sh_any_kill sh [r1, r2] = [r1, r2]" "sh_flt sh = no_faults"
  shows "list_all ks_resumed (tb_kills (snd (ctl_Resume sh args db)))"
  using assms by (simp add: ctl_Resume_def mustConnectDB_def fails_def no_faults_def scope_flag_def Let_def)

text \<open>
  \<^verbatim>\<open>intent_id\<close> is a UUID column, and no UUID scans into an \<^verbatim>\<open>int64\<close>: a trace never finds the ledger entry, and the
  ledger command prints a single line of zero values for any number of intents.
\<close>

lemma trace_finds_no_intent:
  assumes "sh_scan_uuid sh = (\<lambda>_. None)"
  shows "trace_intent sh traceID db = [''  (no intent ledger entry found)'']"
  by (simp add: trace_intent_def assms split: option.split)

lemma ledger_prints_zeros:
  assumes "sh_scan_uuid sh = (\<lambda>_. None)" "rows \<noteq> []"
  shows "scan_loop (intent_line sh) rows = [ledger_line sh 0 [] [] [] [] 0 0 0 [] zero_time]"
  using assms by (cases rows) (simp_all add: intent_line_def)

text \<open>An order without a fill has no average price: the trace says there is no order.\<close>

lemma trace_hides_unfilled_order:
  assumes "find (\<lambda>r. or_trace_id r = traceID) (tb_orders db) = Some r" "or_avg_fill_price_micros r = None"
  shows "trace_order sh traceID db = None"
  using assms by (simp add: trace_order_def)

end
