(* ===== verification/Service_Support.thy ===== *)
theory Service_Support
  imports Alert_Bot Grpc_Auth
begin

text \<open>
  What the services of \<^verbatim>\<open>cmd/\<close> have in common: settings read from the environment, the NATS wrappers of
  \<^verbatim>\<open>internal/events/publisher.go\<close> and \<^verbatim>\<open>subscriber.go\<close>, the health endpoint (\<^verbatim>\<open>internal/health/server.go\<close>), the metrics
  and their gRPC interceptor (\<^verbatim>\<open>internal/metrics\<close>), and the trace id of a context (\<^verbatim>\<open>internal/logging/trace.go\<close>). JetStream
  and the Prometheus registry are arguments: their calls with their outcomes.
\<close>

section \<open>The environment\<close>

text \<open>\<^verbatim>\<open>os.Getenv\<close>: the empty string for a variable that is not set. \<^verbatim>\<open>strconv.Atoi\<close> is \<^verbatim>\<open>ParseInt\<close> at 64 bits.\<close>

type_synonym environ = "string \<Rightarrow> string"

definition env_or_default :: "environ \<Rightarrow> string \<Rightarrow> string \<Rightarrow> string" where
  "env_or_default env key def = (if env key \<noteq> [] then env key else def)"

definition envOrInt64 :: "environ \<Rightarrow> string \<Rightarrow> int64 \<Rightarrow> int64" where
  "envOrInt64 env key def =
     (if env key \<noteq> [] then (case parse_int64 (env key) of Some n \<Rightarrow> n | None \<Rightarrow> def) else def)"

definition envOrInt :: "environ \<Rightarrow> string \<Rightarrow> int64 \<Rightarrow> int64" where
  "envOrInt env key def =
     (if env key \<noteq> [] then (case parse_int64 (env key) of Some n \<Rightarrow> n | None \<Rightarrow> def) else def)"

text \<open>\<^verbatim>\<open>time.Duration(n) * unit\<close> is a 64-bit product. \<^verbatim>\<open>time.NewTicker\<close> panics unless its period is positive.\<close>

definition times_unit :: "int64 \<Rightarrow> int64 \<Rightarrow> duration" where
  "times_unit n unit = sint (n * unit)"

abbreviation Second :: int64 where "Second \<equiv> 1000000000"
abbreviation Millisecond :: int64 where "Millisecond \<equiv> 1000000"

definition NewTicker_ok :: "duration \<Rightarrow> bool" where
  "NewTicker_ok period \<longleftrightarrow> 0 < period"

lemma env_unset [simp]:
  "env key = [] \<Longrightarrow> env_or_default env key s = s"
  "env key = [] \<Longrightarrow> envOrInt env key n = n"
  "env key = [] \<Longrightarrow> envOrInt64 env key n = n"
  by (simp_all add: env_or_default_def envOrInt_def envOrInt64_def)

text \<open>The ticker of a setting: it is started as long as the number is positive and its duration does not overflow.\<close>

lemma times_unit_positive:
  assumes "0 < sint n" "0 < sint unit" "sint n * sint unit < 9223372036854775808"
  shows "NewTicker_ok (times_unit n unit)"
proof -
  have "0 < sint n * sint unit" using assms by simp
  moreover have "sint (n * unit) = sint n * sint unit"
    using assms calculation by (intro sint64_mult) linarith+
  ultimately show ?thesis by (simp add: NewTicker_ok_def times_unit_def)
qed


section \<open>Streams and consumers\<close>

record StreamConfig =
  sc_Name :: string
  sc_Subjects :: "string list"
  sc_MaxAge :: duration

datatype deliver_policy = DeliverAll | DeliverNew

record Consumer =
  co_Subject :: string
  co_Durable :: string
  co_Deliver :: deliver_policy

record 'j jetstream =
  js_JetStream :: "bool"
  js_AddStream :: "StreamConfig \<Rightarrow> 'j \<Rightarrow> bool \<times> 'j"
  js_Subscribe :: "Consumer \<Rightarrow> 'j \<Rightarrow> bool \<times> 'j"

datatype nats_error = CreateContext | CreateStream string | SubscribeTo string

definition streams :: "(string \<times> string list) list" where
  "streams =
     [(''ORDERS'', [''order.>'']), (''RISK'', [''risk.>'']), (''KILL'', [''kill.>'']), (''SYSTEM'', [''system.>'']),
      (''DATA'', [''data.>''])]"

definition stream_config :: "string \<times> string list \<Rightarrow> StreamConfig" where
  "stream_config s = \<lparr>sc_Name = fst s, sc_Subjects = snd s, sc_MaxAge = 90 * 24 * 60 * 60 * 1000000000\<rparr>"

fun add_streams :: "'j jetstream \<Rightarrow> (string \<times> string list) list \<Rightarrow> 'j \<Rightarrow> (nats_error, unit) result \<times> 'j" where
  "add_streams js [] j = (Inr (), j)"
| "add_streams js (s # ss) j =
     (case js_AddStream js (stream_config s) j of
        (False, j) \<Rightarrow> (Inl (CreateStream (fst s)), j) | (True, j) \<Rightarrow> add_streams js ss j)"

definition NewPublisher :: "'j jetstream \<Rightarrow> 'j \<Rightarrow> (nats_error, unit) result \<times> 'j" where
  "NewPublisher js j = (if \<not> js_JetStream js then (Inl CreateContext, j) else add_streams js streams j)"

definition NewSubscriber :: "'j jetstream \<Rightarrow> (nats_error, unit) result" where
  "NewSubscriber js = (if \<not> js_JetStream js then Inl CreateContext else Inr ())"

definition Subscriber_Subscribe :: "'j jetstream \<Rightarrow> string \<Rightarrow> string \<Rightarrow> 'j \<Rightarrow> (nats_error, unit) result \<times> 'j" where
  "Subscriber_Subscribe js subject consumerName j =
     (case js_Subscribe js \<lparr>co_Subject = subject, co_Durable = consumerName, co_Deliver = DeliverAll\<rparr> j of
        (False, j) \<Rightarrow> (Inl (SubscribeTo subject), j) | (True, j) \<Rightarrow> (Inr (), j))"

definition SubscribeNew :: "'j jetstream \<Rightarrow> string \<Rightarrow> string \<Rightarrow> 'j \<Rightarrow> (nats_error, unit) result \<times> 'j" where
  "SubscribeNew js subject consumerName j =
     (case js_Subscribe js \<lparr>co_Subject = subject, co_Durable = consumerName, co_Deliver = DeliverNew\<rparr> j of
        (False, j) \<Rightarrow> (Inl (SubscribeTo subject), j) | (True, j) \<Rightarrow> (Inr (), j))"

text \<open>The loops of \<^verbatim>\<open>Notifier.Start\<close> and \<^verbatim>\<open>NATSBridge.Start\<close>: subscribe in turn, stop at the first failure.\<close>

fun subscribe_each :: "'j jetstream \<Rightarrow> (string \<times> string) list \<Rightarrow> 'j \<Rightarrow> (nats_error, unit) result \<times> 'j" where
  "subscribe_each js [] j = (Inr (), j)"
| "subscribe_each js ((subject, consumerName) # ss) j =
     (case SubscribeNew js subject consumerName j of
        (Inl err, j) \<Rightarrow> (Inl err, j) | (Inr _, j) \<Rightarrow> subscribe_each js ss j)"

text \<open>Every subject an event is published on belongs to one stream, whatever is appended to it.\<close>

definition stream_of :: "string \<Rightarrow> string list" where
  "stream_of subject = map fst (filter (\<lambda>(name, subjects). \<exists>p \<in> set subjects. take (length p - 1) subject = butlast p) streams)"

lemma published_subjects_have_a_stream:
  "stream_of (SubjectMarketData @ ''.'' @ s) = [''DATA'']"
  "stream_of (SubjectOrderProposed @ ''.'' @ s) = [''ORDERS'']"
  "stream_of (SubjectOrderApproved @ ''.'' @ s) = [''ORDERS'']"
  "stream_of (SubjectOrderDenied @ ''.'' @ s) = [''ORDERS'']"
  "stream_of (SubjectOrderSubmitted @ ''.'' @ s) = [''ORDERS'']"
  "stream_of (SubjectOrderFilled @ ''.'' @ s) = [''ORDERS'']"
  "stream_of (SubjectOrderCancelled @ ''.'' @ s) = [''ORDERS'']"
  "stream_of (SubjectKillActivated @ ''.'' @ s) = [''KILL'']"
  by (simp_all add: stream_of_def streams_def)

lemma add_streams_started:
  "fst (add_streams js ss j) = Inr () \<Longrightarrow> \<forall>s \<in> set ss. \<exists>j1 j2. js_AddStream js (stream_config s) j1 = (True, j2)"
proof (induction ss arbitrary: j)
  case (Cons s ss)
  obtain ok j1 where "js_AddStream js (stream_config s) j = (ok, j1)" by (cases "js_AddStream js (stream_config s) j")
  then show ?case using Cons by (cases ok) auto
qed simp


section \<open>The health endpoint\<close>

text \<open>
  A check is called at the time of the request and returns nil (None) or an error. The reply's headers are those set before the
  status line is written: \<^verbatim>\<open>handleHealth\<close> sets the content type after \<^verbatim>\<open>WriteHeader\<close> when a check fails.
\<close>

record HealthServer =
  hs_port :: string
  hs_service :: string
  hs_checks :: "(time \<Rightarrow> string option) list"
  hs_start :: time

record healthResponse =
  hr_Status :: string
  hr_Service :: string
  hr_Uptime :: string
  hr_Error :: string  \<comment> \<open>omitted when empty\<close>

record HealthReply =
  hy_Code :: nat
  hy_Headers :: "(string \<times> string) list"
  hy_Body :: healthResponse

definition NewHealth :: "time \<Rightarrow> string \<Rightarrow> string \<Rightarrow> (time \<Rightarrow> string option) list \<Rightarrow> HealthServer" where
  "NewHealth now port service checks = \<lparr>hs_port = port, hs_service = service, hs_checks = checks, hs_start = now\<rparr>"

fun first_error :: "time \<Rightarrow> (time \<Rightarrow> string option) list \<Rightarrow> string option" where
  "first_error now [] = None"
| "first_error now (check # checks) = (case check now of Some err \<Rightarrow> Some err | None \<Rightarrow> first_error now checks)"

definition handleHealth :: "time \<Rightarrow> HealthServer \<Rightarrow> HealthReply" where
  "handleHealth now s =
     (let resp = \<lparr>hr_Status = ''ok'', hr_Service = hs_service s,
                  hr_Uptime = show_float 0 (duration_Seconds (time_Sub now (hs_start s))) @ ''s'', hr_Error = []\<rparr> in
      case first_error now (hs_checks s) of
        Some err \<Rightarrow> \<lparr>hy_Code = 503, hy_Headers = [], hy_Body = resp\<lparr>hr_Status := ''unhealthy'', hr_Error := err\<rparr>\<rparr>
      | None \<Rightarrow> \<lparr>hy_Code = 200, hy_Headers = [(''Content-Type'', ''application/json'')], hy_Body = resp\<rparr>)"

lemma first_error_None: "first_error now checks = None \<longleftrightarrow> (\<forall>c \<in> set checks. c now = None)"
  by (induction checks) (auto split: option.splits)

lemma first_error_append: "first_error now (us @ vs) = (case first_error now us of Some err \<Rightarrow> Some err | None \<Rightarrow> first_error now vs)"
  by (induction us) (simp_all split: option.split)

text \<open>The endpoint answers 200 exactly when every check passes, and otherwise 503 with the first error.\<close>

lemma health_exact:
  "hy_Code (handleHealth now s) = (if \<forall>c \<in> set (hs_checks s). c now = None then 200 else 503)"
  "hy_Code (handleHealth now s) = 503 \<Longrightarrow> hy_Headers (handleHealth now s) = []"
  "hs_checks s = us @ c # vs \<Longrightarrow> \<forall>u \<in> set us. u now = None \<Longrightarrow> c now = Some err \<Longrightarrow>
     hr_Error (hy_Body (handleHealth now s)) = err"
proof -
  show "hy_Code (handleHealth now s) = (if \<forall>c \<in> set (hs_checks s). c now = None then 200 else 503)"
    unfolding first_error_None [symmetric] by (simp add: handleHealth_def Let_def split: option.split)
  show "hy_Code (handleHealth now s) = 503 \<Longrightarrow> hy_Headers (handleHealth now s) = []"
    by (simp add: handleHealth_def Let_def split: option.splits)
  assume "hs_checks s = us @ c # vs" "\<forall>u \<in> set us. u now = None" "c now = Some err"
  moreover have "first_error now us = None" unfolding first_error_None by (rule calculation(2))
  ultimately have "first_error now (hs_checks s) = Some err" by (simp add: first_error_append)
  then show "hr_Error (hy_Body (handleHealth now s)) = err" by (simp add: handleHealth_def Let_def)
qed


section \<open>Metrics\<close>

text \<open>A collector by what its constructor is given; the buckets of a histogram are rationals.\<close>

datatype metric_kind = MCounter | MGauge | MHistogram "rat list"

record Metric =
  mt_Name :: string
  mt_Help :: string
  mt_Kind :: metric_kind
  mt_Labels :: "string list"

definition counters :: "Metric list" where
  "counters =
     [\<lparr>mt_Name = ''orders_submitted_total'', mt_Help = ''Total orders submitted to venue'', mt_Kind = MCounter,
       mt_Labels = [''venue'', ''strategy_id'', ''status'']\<rparr>,
      \<lparr>mt_Name = ''orders_filled_total'', mt_Help = ''Total orders fully filled'', mt_Kind = MCounter,
       mt_Labels = [''venue'', ''strategy_id'']\<rparr>,
      \<lparr>mt_Name = ''orders_rejected_total'', mt_Help = ''Total orders rejected by risk engine'', mt_Kind = MCounter,
       mt_Labels = [''venue'', ''strategy_id'', ''reason'']\<rparr>,
      \<lparr>mt_Name = ''risk_checks_total'', mt_Help = ''Total risk check evaluations'', mt_Kind = MCounter,
       mt_Labels = [''check_name'', ''result'']\<rparr>,
      \<lparr>mt_Name = ''kills_triggered_total'', mt_Help = ''Total kill switch activations'', mt_Kind = MCounter,
       mt_Labels = [''level'', ''scope'']\<rparr>,
      \<lparr>mt_Name = ''fills_processed_total'', mt_Help = ''Total fills processed'', mt_Kind = MCounter, mt_Labels = [''venue'']\<rparr>]"

definition histograms :: "Metric list" where
  "histograms =
     [\<lparr>mt_Name = ''order_to_fill_latency_seconds'', mt_Help = ''Latency from order submission to fill'',
       mt_Kind = MHistogram [5/100, 1/10, 25/100, 5/10, 1, 25/10, 5, 10], mt_Labels = [''venue'']\<rparr>,
      \<lparr>mt_Name = ''risk_check_duration_seconds'', mt_Help = ''Duration of individual risk check evaluation'',
       mt_Kind = MHistogram [1/10000, 5/10000, 1/1000, 5/1000, 1/100, 5/100], mt_Labels = [''check_name'']\<rparr>,
      \<lparr>mt_Name = ''data_ingestion_latency_seconds'', mt_Help = ''Latency of market data ingestion cycle'',
       mt_Kind = MHistogram [1/100, 5/100, 1/10, 5/10, 1, 5], mt_Labels = [''venue'']\<rparr>,
      \<lparr>mt_Name = ''grpc_request_duration_seconds'', mt_Help = ''Duration of gRPC server requests'',
       mt_Kind = MHistogram [1/1000, 5/1000, 1/100, 5/100, 1/10, 5/10, 1], mt_Labels = [''service'', ''method'', ''code'']\<rparr>]"

definition gauges :: "Metric list" where
  "gauges =
     [\<lparr>mt_Name = ''total_exposure_micros'', mt_Help = ''Current total exposure in microdollars'', mt_Kind = MGauge, mt_Labels = []\<rparr>,
      \<lparr>mt_Name = ''daily_pnl_micros'', mt_Help = ''Current daily P&L in microdollars'', mt_Kind = MGauge, mt_Labels = []\<rparr>,
      \<lparr>mt_Name = ''open_orders_count'', mt_Help = ''Number of currently open orders'', mt_Kind = MGauge, mt_Labels = [''venue'']\<rparr>,
      \<lparr>mt_Name = ''market_data_age_seconds'', mt_Help = ''Age of latest market data in seconds'', mt_Kind = MGauge,
       mt_Labels = [''venue'', ''market_id'']\<rparr>,
      \<lparr>mt_Name = ''strategy_consecutive_losses'', mt_Help = ''Current consecutive losses per strategy'', mt_Kind = MGauge,
       mt_Labels = [''strategy_id'']\<rparr>,
      \<lparr>mt_Name = ''peak_equity_micros'', mt_Help = ''Peak equity watermark in microdollars'', mt_Kind = MGauge, mt_Labels = []\<rparr>,
      \<lparr>mt_Name = ''current_equity_micros'', mt_Help = ''Current equity in microdollars'', mt_Kind = MGauge, mt_Labels = []\<rparr>]"

text \<open>
  \<^verbatim>\<open>MustRegister\<close> under \<^verbatim>\<open>sync.Once\<close>: the first call registers everything in turn and panics (None) when the registry refuses
  one; a later call does nothing. \<open>'g\<close> is the registry, \<open>register\<close> its \<^verbatim>\<open>Register\<close>, \<open>build_info\<close> the collector of the library.
\<close>

record 'g metrics =
  mx_once :: bool
  mx_registry :: 'g

fun register_all :: "('c \<Rightarrow> 'g \<Rightarrow> 'g option) \<Rightarrow> 'c list \<Rightarrow> 'g \<Rightarrow> 'g option" where
  "register_all register [] g = Some g"
| "register_all register (c # cs) g = (case register c g of None \<Rightarrow> None | Some g \<Rightarrow> register_all register cs g)"

definition collectors :: "Metric \<Rightarrow> Metric list" where
  "collectors build_info = counters @ histograms @ gauges @ [build_info]"

definition MustRegister :: "(Metric \<Rightarrow> 'g \<Rightarrow> 'g option) \<Rightarrow> Metric \<Rightarrow> 'g metrics \<Rightarrow> 'g metrics option" where
  "MustRegister register build_info s =
     (if mx_once s then Some s
      else map_option (\<lambda>g. \<lparr>mx_once = True, mx_registry = g\<rparr>) (register_all register (collectors build_info) (mx_registry s)))"

text \<open>
  Whatever the registry does with a descriptor it has not seen, as long as it accepts names that are new to it,
  the first start registers all the platform's metrics once, and no later start changes anything.
\<close>

lemma collector_names:
  "distinct (map mt_Name (counters @ histograms @ gauges))"
  by (simp add: counters_def histograms_def gauges_def)

lemma histogram_buckets: "mt_Kind h = MHistogram bs \<Longrightarrow> h \<in> set (collectors b) \<Longrightarrow> mt_Kind b = MGauge \<Longrightarrow> sorted_wrt (<) bs \<and> bs \<noteq> []"
  by (auto simp: collectors_def counters_def histograms_def gauges_def)

lemma register_all_fresh:
  assumes "\<And>c g. mt_Name c \<notin> names g \<Longrightarrow> \<exists>g'. register c g = Some g' \<and> names g' = insert (mt_Name c) (names g)"
    and "distinct (map mt_Name cs)" "set (map mt_Name cs) \<inter> names g = {}"
  shows "\<exists>g'. register_all register cs g = Some g' \<and> names g' = names g \<union> set (map mt_Name cs)"
  using assms(2,3)
proof (induction cs arbitrary: g)
  case (Cons c cs)
  obtain g1 where g1: "register c g = Some g1" "names g1 = insert (mt_Name c) (names g)"
    using assms(1) [of c g] Cons.prems by auto
  with Cons.IH [of g1] Cons.prems show ?case by auto
qed simp

text \<open>\<^verbatim>\<open>WithLabelValues\<close> panics unless it is given one value per label: the calls of the program, by the metric and the values.\<close>

definition label_calls :: "(string \<times> nat) list" where
  "label_calls =
     [(''orders_submitted_total'', 3), (''orders_filled_total'', 2), (''risk_checks_total'', 2), (''kills_triggered_total'', 2),
      (''fills_processed_total'', 1), (''order_to_fill_latency_seconds'', 1), (''risk_check_duration_seconds'', 1),
      (''data_ingestion_latency_seconds'', 1), (''grpc_request_duration_seconds'', 3), (''open_orders_count'', 1),
      (''market_data_age_seconds'', 2)]"

lemma labels_given_exactly:
  "\<forall>(name, n) \<in> set label_calls. \<exists>c \<in> set (collectors b). mt_Name c = name \<and> length (mt_Labels c) = n"
  by (simp add: label_calls_def collectors_def counters_def histograms_def gauges_def)


section \<open>The interceptors of a server\<close>

text \<open>\<^verbatim>\<open>path.Base\<close>: the last element, after trailing slashes.\<close>

definition path_Base :: "string \<Rightarrow> string" where
  "path_Base p =
     (if p = [] then ''.''
      else let q = rev (dropWhile (\<lambda>c. c = CHR ''/'') (rev p)) in
        if q = [] then ''/'' else rev (takeWhile (\<lambda>c. c \<noteq> CHR ''/'') (rev q)))"

text \<open>\<^verbatim>\<open>status.Code(err).String()\<close>.\<close>

definition status_code :: "('e \<Rightarrow> string) \<Rightarrow> ('e rpc_error, 'a) result \<Rightarrow> string" where
  "status_code code r =
     (case r of Inr _ \<Rightarrow> ''OK'' | Inl (PermissionDenied _) \<Rightarrow> ''PermissionDenied'' | Inl (HandlerError e) \<Rightarrow> code e)"

text \<open>An observation: its label values and the elapsed seconds.\<close>

type_synonym observation = "string list \<times> float64"

definition UnaryServerMetricsInterceptor ::
  "('e \<Rightarrow> string) \<Rightarrow> string \<Rightarrow> time \<times> time \<Rightarrow> string \<Rightarrow> ('s \<Rightarrow> ('e rpc_error, 'a) result \<times> 's)
     \<Rightarrow> 's \<times> observation list \<Rightarrow> ('e rpc_error, 'a) result \<times> ('s \<times> observation list)" where
  "UnaryServerMetricsInterceptor code serviceName clock fullMethod handler st =
     (case st of (s, obs) \<Rightarrow>
       (case handler s of (resp, s) \<Rightarrow>
         (resp, s, obs @ [([serviceName, path_Base fullMethod, status_code code resp], duration_Seconds (time_Sub (snd clock) (fst clock)))])))"

text \<open>\<^verbatim>\<open>grpc.ChainUnaryInterceptor(metrics, callers)\<close> around a handler, as the three servers build it.\<close>

definition serve_rpc ::
  "('e \<Rightarrow> string) \<Rightarrow> string \<Rightarrow> AllowedCallers \<Rightarrow> time \<times> time \<Rightarrow> metadata option \<Rightarrow> string \<Rightarrow> ('s \<Rightarrow> ('e, 'a) result \<times> 's)
     \<Rightarrow> 's \<times> observation list \<Rightarrow> ('e rpc_error, 'a) result \<times> ('s \<times> observation list)" where
  "serve_rpc code serviceName callers clock ctx fullMethod handler =
     UnaryServerMetricsInterceptor code serviceName clock fullMethod (UnaryCallerInterceptor callers ctx fullMethod handler)"

text \<open>The chain answers what the caller check answers, and observes each call once, refusals included.\<close>

lemma serve_rpc_transparent:
  assumes "serve_rpc code serviceName callers clock ctx fullMethod handler (s, obs) = (resp, s', obs')"
  shows "UnaryCallerInterceptor callers ctx fullMethod handler s = (resp, s')" "length obs' = Suc (length obs)"
    "fst (last obs') = [serviceName, path_Base fullMethod, status_code code resp]"
  using assms by (auto simp: serve_rpc_def UnaryServerMetricsInterceptor_def split: prod.splits)

lemma serve_rpc_refuses:
  assumes "\<not> permitted callers fullMethod (callerFromContext ctx)"
  shows "\<exists>d sec. serve_rpc code serviceName callers clock ctx fullMethod handler (s, obs) =
     (Inl (PermissionDenied d), s, obs @ [([serviceName, path_Base fullMethod, ''PermissionDenied''], sec)])"
proof -
  obtain d where "UnaryCallerInterceptor callers ctx fullMethod handler s = (Inl (PermissionDenied d), s)"
    using interceptor_cases(2) [OF assms, of handler s] by auto
  then show ?thesis by (simp add: serve_rpc_def UnaryServerMetricsInterceptor_def status_code_def)
qed


section \<open>The trace id of a context\<close>

text \<open>The value of the private key \<^verbatim>\<open>traceIDKey\<close> in a context, and the attributes of a logger.\<close>

type_synonym trace_context = "string option"

definition WithTraceID :: "trace_context \<Rightarrow> string \<Rightarrow> trace_context" where
  "WithTraceID ctx traceID = Some traceID"

definition TraceID :: "trace_context \<Rightarrow> string" where
  "TraceID ctx = (case ctx of Some v \<Rightarrow> v | None \<Rightarrow> [])"

definition LoggerWithTrace :: "trace_context \<Rightarrow> (string \<times> string) list \<Rightarrow> (string \<times> string) list" where
  "LoggerWithTrace ctx logger = (let tid = TraceID ctx in if tid \<noteq> [] then logger @ [(''trace_id'', tid)] else logger)"

lemma logger_trace: "LoggerWithTrace (WithTraceID ctx t) logger = (if t = [] then logger else logger @ [(''trace_id'', t)])"
  by (simp add: LoggerWithTrace_def WithTraceID_def TraceID_def Let_def)

end
