(* ===== verification/Kalshi_Client.thy ===== *)
theory Kalshi_Client
  imports Market_Feed
begin

text \<open>
  The read-only client of the Kalshi API, \<^verbatim>\<open>pkg/kalshi/client.go\<close>: loading the RSA key, signing a request, the rate-limited
  GET, the redirects Go's HTTP client follows for it, and the three endpoints. The cryptography, the URL parser, the
  limiter and the server are arguments; prices
  and order books are in \<open>Market_Feed\<close>. The main result is on every request a client ever sends.
\<close>

section \<open>The client\<close>

record KalshiConfig =
  kc_BaseURL :: string
  kc_KeyID :: string
  kc_PrivateKeyPath :: string
  kc_PrivateKeyPEM :: string

text \<open>\<^verbatim>\<open>crypto\<close>: PEM, the two private key formats, SHA-256, RSA-PSS (None when signing fails) and base64.\<close>

datatype 'k any_key = RsaKey 'k | OtherKey

record 'k crypto =
  cr_pem :: "bytes \<Rightarrow> (string \<times> bytes) option"
  cr_pkcs1 :: "bytes \<Rightarrow> 'k option"
  cr_pkcs8 :: "bytes \<Rightarrow> 'k any_key option"
  cr_sha256 :: "bytes \<Rightarrow> bytes"
  cr_SignPSS :: "'k \<Rightarrow> bytes \<Rightarrow> bytes option"
  cr_base64 :: "bytes \<Rightarrow> string"

datatype client_error =
    ReadKeyFile string | KeyNotSet | NoPEMBlock | ParsePKCS1 | ParsePKCS8 | NotRSA | UnsupportedBlock string
  | RateLimiter | CreateRequest | SignRequest | HttpFailed | ReadBody | ApiStatus string nat bytes | DecodeResponse

record 'k KalshiClient =
  kl_config :: KalshiConfig
  kl_privateKey :: "'k option"

definition parseRSAPrivateKey :: "'k crypto \<Rightarrow> bytes \<Rightarrow> (client_error, 'k) result" where
  "parseRSAPrivateKey cr pemData =
     (case cr_pem cr pemData of None \<Rightarrow> Inl NoPEMBlock
      | Some (block_type, block_bytes) \<Rightarrow>
          if block_type = ''RSA PRIVATE KEY'' then
            (case cr_pkcs1 cr block_bytes of None \<Rightarrow> Inl ParsePKCS1 | Some key \<Rightarrow> Inr key)
          else if block_type = ''PRIVATE KEY'' then
            (case cr_pkcs8 cr block_bytes of None \<Rightarrow> Inl ParsePKCS8
             | Some OtherKey \<Rightarrow> Inl NotRSA | Some (RsaKey key) \<Rightarrow> Inr key)
          else Inl (UnsupportedBlock block_type))"

definition NewClient :: "(string \<Rightarrow> bytes option) \<Rightarrow> 'k crypto \<Rightarrow> KalshiConfig \<Rightarrow> (client_error, 'k KalshiClient) result" where
  "NewClient readFile cr cfg =
     (let pemData = (if kc_PrivateKeyPath cfg \<noteq> [] then
                       (case readFile (kc_PrivateKeyPath cfg) of None \<Rightarrow> Inl (ReadKeyFile (kc_PrivateKeyPath cfg)) | Some d \<Rightarrow> Inr d)
                     else if kc_PrivateKeyPEM cfg \<noteq> [] then Inr (bytes_of (kc_PrivateKeyPEM cfg))
                     else Inl KeyNotSet) in
      case pemData of Inl err \<Rightarrow> Inl err
      | Inr d \<Rightarrow>
          (case parseRSAPrivateKey cr d of Inl err \<Rightarrow> Inl err
           | Inr privKey \<Rightarrow> Inr \<lparr>kl_config = cfg, kl_privateKey = Some privKey\<rparr>))"

text \<open>The clients the tests make: without a key, or with a generated one (None when generation fails).\<close>

definition NewTestClient :: "string \<Rightarrow> 'k KalshiClient" where
  "NewTestClient baseURL =
     \<lparr>kl_config = \<lparr>kc_BaseURL = baseURL, kc_KeyID = [], kc_PrivateKeyPath = [], kc_PrivateKeyPEM = []\<rparr>, kl_privateKey = None\<rparr>"

definition newTestClientWithKey :: "'k option \<Rightarrow> string \<Rightarrow> 'k KalshiClient option" where
  "newTestClientWithKey generated baseURL =
     (case generated of None \<Rightarrow> None
      | Some key \<Rightarrow> Some \<lparr>kl_config = \<lparr>kc_BaseURL = baseURL, kc_KeyID = ''test-key'', kc_PrivateKeyPath = [], kc_PrivateKeyPEM = []\<rparr>,
                          kl_privateKey = Some key\<rparr>)"

definition SetBaseURL :: "string \<Rightarrow> 'k KalshiClient \<Rightarrow> 'k KalshiClient" where
  "SetBaseURL url c =
     c\<lparr>kl_config := (kl_config c)\<lparr>kc_BaseURL := rev (dropWhile (\<lambda>ch. ch = CHR ''/'') (rev url))\<rparr>\<rparr>"


section \<open>A request\<close>

record ApiRequest =
  aq_Method :: string
  aq_URL :: string
  aq_Path :: string  \<comment> \<open>\<^verbatim>\<open>URL.Path\<close>\<close>
  aq_Header :: "string \<rightharpoonup> string"

definition signRequest :: "'k crypto \<Rightarrow> 'k KalshiClient \<Rightarrow> string \<Rightarrow> ApiRequest \<Rightarrow> ApiRequest option" where
  "signRequest cr c timestampMs req =
     (case kl_privateKey c of None \<Rightarrow> Some req
      | Some key \<Rightarrow>
          let message = timestampMs @ aq_Method req @ aq_Path req in
          (case cr_SignPSS cr key (cr_sha256 cr (bytes_of message)) of None \<Rightarrow> None
           | Some signature \<Rightarrow> Some (req\<lparr>aq_Header := (aq_Header req)(''KALSHI-ACCESS-KEY'' \<mapsto> kc_KeyID (kl_config c),
                 ''KALSHI-ACCESS-TIMESTAMP'' \<mapsto> timestampMs, ''KALSHI-ACCESS-SIGNATURE'' \<mapsto> cr_base64 cr signature)\<rparr>)))"

text \<open>
  What a call meets: the clock in milliseconds, \<^verbatim>\<open>Wait\<close> of the limiter (false when the context ends first), the URL parser (the path,
  None when the request cannot be made), and the server, asked for the request with this number of the call: None when the
  exchange fails, the status, the \<^verbatim>\<open>Location\<close> (empty when absent) and the body (None when reading it fails). For a
  redirect: the address and path a \<^verbatim>\<open>Location\<close> means relative to the address it came from (None when it does not parse), the
  \<^verbatim>\<open>Referer\<close>, and whether \<^verbatim>\<open>Content-Type\<close> is sent again, which depends on the status and on the release of Go. The state
  keeps the limiter, the number of waits granted and every request that was sent.
\<close>

record 'l api_env =
  ae_UnixMilli :: int
  ae_Wait :: "'l \<Rightarrow> bool \<times> 'l"
  ae_parse :: "string \<Rightarrow> string option"
  ae_server :: "nat \<Rightarrow> ApiRequest \<Rightarrow> (nat \<times> string \<times> bytes option) option"
  ae_resolve :: "string \<Rightarrow> string \<Rightarrow> (string \<times> string) option"
  ae_referer :: "string \<Rightarrow> string \<Rightarrow> string option"
  ae_keeps_type :: "nat \<Rightarrow> bool"

record 'l api_state =
  ap_limiter :: 'l
  ap_granted :: nat
  ap_sent :: "ApiRequest list"

definition make_request :: "'k crypto \<Rightarrow> 'k KalshiClient \<Rightarrow> int \<Rightarrow> string \<Rightarrow> string \<Rightarrow> ApiRequest option" where
  "make_request cr c now url url_path =
     (case signRequest cr c (show_int now) \<lparr>aq_Method = ''GET'', aq_URL = url, aq_Path = url_path, aq_Header = Map.empty\<rparr> of
        None \<Rightarrow> None
      | Some req \<Rightarrow> Some (req\<lparr>aq_Header := (aq_Header req)(''Accept'' \<mapsto> ''application/json'', ''Content-Type'' \<mapsto> ''application/json'')\<rparr>))"

definition read_answer :: "(bytes \<Rightarrow> 'a option) \<Rightarrow> string \<Rightarrow> (nat \<times> bytes option) option \<Rightarrow> (client_error, 'a) result" where
  "read_answer decode path answer =
     (case answer of None \<Rightarrow> Inl HttpFailed
      | Some (status, None) \<Rightarrow> Inl ReadBody
      | Some (status, Some body) \<Rightarrow>
          if status \<noteq> 200 then Inl (ApiStatus path status body)
          else (case decode body of None \<Rightarrow> Inl DecodeResponse | Some v \<Rightarrow> Inr v))"

text \<open>
  \<^verbatim>\<open>Do\<close> of the \<^verbatim>\<open>http.Client\<close> the code makes, which has no \<^verbatim>\<open>CheckRedirect\<close>: a redirect with a \<^verbatim>\<open>Location\<close> is followed by the
  same method with the headers of the first request, and after ten requests the next redirect is an error.
\<close>

definition redirect_status :: "nat list" where
  "redirect_status = [301, 302, 303, 307, 308]"

definition redirected :: "'l api_env \<Rightarrow> ApiRequest \<Rightarrow> nat \<Rightarrow> ApiRequest \<Rightarrow> string \<Rightarrow> string \<Rightarrow> ApiRequest" where
  "redirected ae ireq i prev url url_path =
     (let h = (if ae_keeps_type ae i then aq_Header ireq else (aq_Header ireq)(''Content-Type'' := None)) in
      \<lparr>aq_Method = aq_Method ireq, aq_URL = url, aq_Path = url_path,
       aq_Header = (case ae_referer ae (aq_URL prev) url of None \<Rightarrow> h | Some ref \<Rightarrow> h(''Referer'' \<mapsto> ref))\<rparr>)"

function http_do :: "'l api_env \<Rightarrow> ApiRequest \<Rightarrow> ApiRequest list \<Rightarrow> ApiRequest \<Rightarrow> (nat \<times> bytes option) option \<times> ApiRequest list" where
  "http_do ae ireq via req =
     (let via' = via @ [req] in
      case ae_server ae (length via) req of
        None \<Rightarrow> (None, via')
      | Some (status, location, body) \<Rightarrow>
          if status \<notin> set redirect_status \<or> location = [] then (Some (status, body), via')
          else (case ae_resolve ae (aq_URL req) location of
                  None \<Rightarrow> (None, via')
                | Some (url, url_path) \<Rightarrow>
                    if 10 \<le> length via' then (None, via')
                    else http_do ae ireq via' (redirected ae ireq (length via) req url url_path)))"
  by pat_completeness auto

termination by (relation "measure (\<lambda>(ae, ireq, via, req). 10 - length via)") auto

definition doGet ::
  "'k crypto \<Rightarrow> 'l api_env \<Rightarrow> 'k KalshiClient \<Rightarrow> (bytes \<Rightarrow> 'a option) \<Rightarrow> string \<Rightarrow> 'l api_state \<Rightarrow> (client_error, 'a) result \<times> 'l api_state" where
  "doGet cr ae c decode path s =
     (case ae_Wait ae (ap_limiter s) of
        (False, rl) \<Rightarrow> (Inl RateLimiter, s\<lparr>ap_limiter := rl\<rparr>)
      | (True, rl) \<Rightarrow>
          let s = s\<lparr>ap_limiter := rl, ap_granted := Suc (ap_granted s)\<rparr>; url = kc_BaseURL (kl_config c) @ path in
          (case ae_parse ae url of None \<Rightarrow> (Inl CreateRequest, s)
           | Some url_path \<Rightarrow>
               (case make_request cr c (ae_UnixMilli ae) url url_path of None \<Rightarrow> (Inl SignRequest, s)
                | Some req \<Rightarrow>
                    let (answer, sent) = http_do ae req [] req
                    in (read_answer decode path answer, s\<lparr>ap_sent := ap_sent s @ sent\<rparr>))))"

definition DoGetPublic ::
  "'k crypto \<Rightarrow> 'l api_env \<Rightarrow> 'k KalshiClient \<Rightarrow> (bytes \<Rightarrow> 'a option) \<Rightarrow> string \<Rightarrow> 'l api_state \<Rightarrow> (client_error, 'a) result \<times> 'l api_state" where
  "DoGetPublic cr ae c decode path s = doGet cr ae c decode path s"


section \<open>The endpoints\<close>

record MarketsResponse =
  ms_Markets :: "KalshiMarket list"
  ms_Cursor :: string

definition markets_query :: "string \<Rightarrow> int64 \<Rightarrow> string" where
  "markets_query cursor limit =
     (let (path, sep) = (if 0 < sint limit then (''/markets'' @ ''?limit='' @ show_int (sint limit), ''&'') else (''/markets'', ''?''))
      in if cursor \<noteq> [] then path @ sep @ ''cursor='' @ cursor else path)"

definition GetMarkets ::
  "'k crypto \<Rightarrow> 'l api_env \<Rightarrow> 'k KalshiClient \<Rightarrow> (bytes \<Rightarrow> MarketsResponse option) \<Rightarrow> string \<Rightarrow> int64 \<Rightarrow> 'l api_state
     \<Rightarrow> (client_error, MarketsResponse) result \<times> 'l api_state" where
  "GetMarkets cr ae c decode cursor limit s = doGet cr ae c decode (markets_query cursor limit) s"

definition GetMarket ::
  "'k crypto \<Rightarrow> 'l api_env \<Rightarrow> 'k KalshiClient \<Rightarrow> (bytes \<Rightarrow> KalshiMarket option) \<Rightarrow> string \<Rightarrow> 'l api_state
     \<Rightarrow> (client_error, KalshiMarket) result \<times> 'l api_state" where
  "GetMarket cr ae c decode ticker s = doGet cr ae c decode (''/markets/'' @ ticker) s"

record Orderbook =
  ob_Yes :: "int64 list list"
  ob_No :: "int64 list list"

definition GetOrderbook ::
  "'k crypto \<Rightarrow> 'l api_env \<Rightarrow> 'k KalshiClient \<Rightarrow> (bytes \<Rightarrow> Orderbook option) \<Rightarrow> string \<Rightarrow> 'l api_state
     \<Rightarrow> (client_error, Orderbook) result \<times> 'l api_state" where
  "GetOrderbook cr ae c decode ticker s = doGet cr ae c decode (''/markets/'' @ ticker @ ''/orderbook'') s"

lemma markets_query_cases:
  "0 < sint limit \<Longrightarrow> markets_query [] limit = ''/markets?limit='' @ show_int (sint limit)"
  "sint limit \<le> 0 \<Longrightarrow> cursor \<noteq> [] \<Longrightarrow> markets_query cursor limit = ''/markets?cursor='' @ cursor"
  "0 < sint limit \<Longrightarrow> cursor \<noteq> [] \<Longrightarrow> markets_query cursor limit = ''/markets?limit='' @ show_int (sint limit) @ ''&cursor='' @ cursor"
  by (simp_all add: markets_query_def)

text \<open>The cursor goes into the query as it is: one with an ampersand adds parameters of its own.\<close>

lemma cursor_not_escaped:
  "0 < sint limit \<Longrightarrow> markets_query ''x&status=closed'' limit = markets_query ''x'' limit @ ''&status=closed''"
  by (simp add: markets_query_def)


section \<open>Every request a client sends\<close>

datatype api_call = CallMarkets string int64 | CallMarket string | CallOrderbook string | CallPublic string

datatype 'v api_reply = GotMarkets MarketsResponse | GotMarket KalshiMarket | GotOrderbook Orderbook | GotPublic 'v

record 'v decoders =
  dc_Markets :: "bytes \<Rightarrow> MarketsResponse option"
  dc_Market :: "bytes \<Rightarrow> KalshiMarket option"
  dc_Orderbook :: "bytes \<Rightarrow> Orderbook option"
  dc_Public :: "bytes \<Rightarrow> 'v option"

fun api_call_exec ::
  "'k crypto \<Rightarrow> 'v decoders \<Rightarrow> 'k KalshiClient \<Rightarrow> 'l api_env \<Rightarrow> api_call \<Rightarrow> 'l api_state \<Rightarrow> (client_error, 'v api_reply) result \<times> 'l api_state" where
  "api_call_exec cr dc c ae (CallMarkets cursor limit) s = map_prod (map_sum id GotMarkets) id (GetMarkets cr ae c (dc_Markets dc) cursor limit s)"
| "api_call_exec cr dc c ae (CallMarket ticker) s = map_prod (map_sum id GotMarket) id (GetMarket cr ae c (dc_Market dc) ticker s)"
| "api_call_exec cr dc c ae (CallOrderbook ticker) s = map_prod (map_sum id GotOrderbook) id (GetOrderbook cr ae c (dc_Orderbook dc) ticker s)"
| "api_call_exec cr dc c ae (CallPublic path) s = map_prod (map_sum id GotPublic) id (DoGetPublic cr ae c (dc_Public dc) path s)"

text \<open>A use of a client: a call with what it meets, or another base URL.\<close>

datatype 'l client_use = Call "'l api_env" api_call | Rebase string

fun run_client ::
  "'k crypto \<Rightarrow> 'v decoders \<Rightarrow> 'k KalshiClient \<Rightarrow> 'l client_use list \<Rightarrow> 'l api_state \<Rightarrow> (client_error, 'v api_reply) result list \<times> 'l api_state" where
  "run_client cr dc c [] s = ([], s)"
| "run_client cr dc c (Rebase url # us) s = run_client cr dc (SetBaseURL url c) us s"
| "run_client cr dc c (Call ae call # us) s =
     (let (answer, s) = api_call_exec cr dc c ae call s; (answers, s) = run_client cr dc c us s in (answer # answers, s))"

fun call_path :: "api_call \<Rightarrow> string" where
  "call_path (CallMarkets cursor limit) = markets_query cursor limit"
| "call_path (CallMarket ticker) = ''/markets/'' @ ticker"
| "call_path (CallOrderbook ticker) = ''/markets/'' @ ticker @ ''/orderbook''"
| "call_path (CallPublic path) = path"

fun call_decode :: "'v decoders \<Rightarrow> api_call \<Rightarrow> bytes \<Rightarrow> 'v api_reply option" where
  "call_decode dc (CallMarkets cursor limit) body = map_option GotMarkets (dc_Markets dc body)"
| "call_decode dc (CallMarket ticker) body = map_option GotMarket (dc_Market dc body)"
| "call_decode dc (CallOrderbook ticker) body = map_option GotOrderbook (dc_Orderbook dc body)"
| "call_decode dc (CallPublic path) body = map_option GotPublic (dc_Public dc body)"

text \<open>The calls of a run with the base URL each of them finds: the configured one, or the last one set, without its trailing slashes.\<close>

fun based_calls :: "string \<Rightarrow> 'l client_use list \<Rightarrow> (string \<times> 'l api_env \<times> api_call) list" where
  "based_calls base [] = []"
| "based_calls base (Rebase url # us) = based_calls (rev (dropWhile (\<lambda>ch. ch = CHR ''/'') (rev url))) us"
| "based_calls base (Call ae call # us) = (base, ae, call) # based_calls base us"

text \<open>
  The contract: the first request of a call is a GET on the base URL, carries the key id and the time of the call and a
  signature of time, method and path with the key; each further one is the redirect the server answered the one before with, by
  the same method and with the same key, time and signature, and there are at most ten; and a call answers with a value
  exactly when the server answered the last one with status 200 and a body that decodes.
\<close>

definition signed_get :: "'k crypto \<Rightarrow> string \<Rightarrow> string \<Rightarrow> 'k \<Rightarrow> int \<Rightarrow> string \<Rightarrow> string \<Rightarrow> bytes \<Rightarrow> ApiRequest" where
  "signed_get cr base keyID key now path url_path signature =
     \<lparr>aq_Method = ''GET'', aq_URL = base @ path, aq_Path = url_path,
      aq_Header = [''KALSHI-ACCESS-KEY'' \<mapsto> keyID, ''KALSHI-ACCESS-TIMESTAMP'' \<mapsto> show_int now,
        ''KALSHI-ACCESS-SIGNATURE'' \<mapsto> cr_base64 cr signature,
        ''Accept'' \<mapsto> ''application/json'', ''Content-Type'' \<mapsto> ''application/json'']\<rparr>"

definition access_headers :: "string list" where
  "access_headers = [''KALSHI-ACCESS-KEY'', ''KALSHI-ACCESS-TIMESTAMP'', ''KALSHI-ACCESS-SIGNATURE'', ''Accept'']"

definition leads_to :: "'l api_env \<Rightarrow> nat \<Rightarrow> ApiRequest \<Rightarrow> ApiRequest \<Rightarrow> bool" where
  "leads_to ae i r r' \<longleftrightarrow>
     (\<exists>status location body. ae_server ae i r = Some (status, location, body) \<and> status \<in> {301, 302, 303, 307, 308}
        \<and> ae_resolve ae (aq_URL r) location = Some (aq_URL r', aq_Path r'))
     \<and> aq_Method r' = aq_Method r \<and> (\<forall>h \<in> set access_headers. aq_Header r' h = aq_Header r h)"

definition call_outcome ::
  "'k crypto \<Rightarrow> 'v decoders \<Rightarrow> string \<Rightarrow> 'k \<Rightarrow> string \<times> 'l api_env \<times> api_call \<Rightarrow> ApiRequest list \<Rightarrow> (client_error, 'v api_reply) result \<Rightarrow> bool" where
  "call_outcome cr dc keyID key x sent answer =
     (case x of (base, ae, call) \<Rightarrow>
        case sent of
          [] \<Rightarrow> answer \<in> {Inl RateLimiter, Inl CreateRequest, Inl SignRequest}
        | req # redirs \<Rightarrow>
            (\<exists>url_path signature.
               ae_parse ae (base @ call_path call) = Some url_path
               \<and> cr_SignPSS cr key (cr_sha256 cr (bytes_of (show_int (ae_UnixMilli ae) @ ''GET'' @ url_path))) = Some signature
               \<and> req = signed_get cr base keyID key (ae_UnixMilli ae) (call_path call) url_path signature)
            \<and> (\<forall>i < length redirs. leads_to ae i (sent ! i) (sent ! Suc i)) \<and> length sent \<le> 10
            \<and> (\<forall>v. answer = Inr v \<longleftrightarrow>
                 (\<exists>location body. ae_server ae (length redirs) (last sent) = Some (200, location, Some body) \<and> call_decode dc call body = Some v)))"

definition loaded_key :: "(string \<Rightarrow> bytes option) \<Rightarrow> 'k crypto \<Rightarrow> KalshiConfig \<Rightarrow> 'k \<Rightarrow> bool" where
  "loaded_key readFile cr cfg key \<longleftrightarrow>
     (\<exists>pemData block. (if kc_PrivateKeyPath cfg \<noteq> [] then readFile (kc_PrivateKeyPath cfg) = Some pemData
                       else kc_PrivateKeyPEM cfg \<noteq> [] \<and> pemData = bytes_of (kc_PrivateKeyPEM cfg))
        \<and> (cr_pem cr pemData = Some (''RSA PRIVATE KEY'', block) \<and> cr_pkcs1 cr block = Some key
           \<or> cr_pem cr pemData = Some (''PRIVATE KEY'', block) \<and> cr_pkcs8 cr block = Some (RsaKey key)))"

lemma parse_key:
  assumes "parseRSAPrivateKey cr d = Inr key"
  shows "\<exists>block. cr_pem cr d = Some (''RSA PRIVATE KEY'', block) \<and> cr_pkcs1 cr block = Some key
           \<or> cr_pem cr d = Some (''PRIVATE KEY'', block) \<and> cr_pkcs8 cr block = Some (RsaKey key)"
  using assms by (auto simp: parseRSAPrivateKey_def split: option.splits prod.splits if_splits any_key.splits)

lemma new_client:
  assumes "NewClient readFile cr cfg = Inr c"
  obtains key where "loaded_key readFile cr cfg key" "c = \<lparr>kl_config = cfg, kl_privateKey = Some key\<rparr>"
proof -
  obtain d key where d: "if kc_PrivateKeyPath cfg \<noteq> [] then readFile (kc_PrivateKeyPath cfg) = Some d
      else kc_PrivateKeyPEM cfg \<noteq> [] \<and> d = bytes_of (kc_PrivateKeyPEM cfg)"
    and key: "parseRSAPrivateKey cr d = Inr key" and c: "c = \<lparr>kl_config = cfg, kl_privateKey = Some key\<rparr>"
    using assms by (auto simp: NewClient_def Let_def split: if_splits option.splits sum.splits)
  from parse_key [OF key] obtain block where
    "cr_pem cr d = Some (''RSA PRIVATE KEY'', block) \<and> cr_pkcs1 cr block = Some key
     \<or> cr_pem cr d = Some (''PRIVATE KEY'', block) \<and> cr_pkcs8 cr block = Some (RsaKey key)" ..
  with d have "loaded_key readFile cr cfg key" unfolding loaded_key_def by (intro exI conjI)
  then show ?thesis using c by (rule that)
qed

text \<open>The endpoints differ only in their path and in what they decode.\<close>

lemma doGet_map:
  "map_prod (map_sum id g) id (doGet cr ae c decode path s) = doGet cr ae c (\<lambda>b. map_option g (decode b)) path s"
proof -
  have "map_sum id g (read_answer decode path answer) = read_answer (\<lambda>b. map_option g (decode b)) path answer" for answer
    by (simp add: read_answer_def split: option.split)
  then show ?thesis by (simp add: doGet_def Let_def split: prod.split bool.split option.split)
qed

lemma decode_fun:
  "call_decode dc (CallMarkets cursor limit) = (\<lambda>b. map_option GotMarkets (dc_Markets dc b))"
  "call_decode dc (CallMarket ticker) = (\<lambda>b. map_option GotMarket (dc_Market dc b))"
  "call_decode dc (CallOrderbook ticker) = (\<lambda>b. map_option GotOrderbook (dc_Orderbook dc b))"
  "call_decode dc (CallPublic path) = (\<lambda>b. map_option GotPublic (dc_Public dc b))"
  by (simp_all add: fun_eq_iff)

lemma api_call_is_get:
  "api_call_exec cr dc c ae call s = doGet cr ae c (call_decode dc call) (call_path call) s"
  by (cases call) (simp_all add: GetMarkets_def GetMarket_def GetOrderbook_def DoGetPublic_def doGet_map decode_fun)

lemma read_answer_ok: "read_answer decode path answer = Inr v \<longleftrightarrow> (\<exists>body. answer = Some (200, Some body) \<and> decode body = Some v)"
  by (auto simp: read_answer_def split: option.splits if_splits)

text \<open>The requests of one call.\<close>

lemma redirected_leads:
  assumes "ae_server ae i req = Some (status, location, body)" "status \<in> set redirect_status"
    and "ae_resolve ae (aq_URL req) location = Some (url, url_path)"
    and "aq_Method req = aq_Method ireq" "\<forall>h \<in> set access_headers. aq_Header req h = aq_Header ireq h"
  shows "leads_to ae i req (redirected ae ireq i req url url_path)"
    and "aq_Method (redirected ae ireq i req url url_path) = aq_Method ireq"
    and "\<forall>h \<in> set access_headers. aq_Header (redirected ae ireq i req url url_path) h = aq_Header ireq h"
proof -
  show m: "aq_Method (redirected ae ireq i req url url_path) = aq_Method ireq" by (simp add: redirected_def Let_def)
  show h: "\<forall>h \<in> set access_headers. aq_Header (redirected ae ireq i req url url_path) h = aq_Header ireq h"
    by (simp add: redirected_def Let_def access_headers_def split: option.split)
  have "aq_URL (redirected ae ireq i req url url_path) = url" "aq_Path (redirected ae ireq i req url url_path) = url_path"
    by (simp_all add: redirected_def Let_def)
  then show "leads_to ae i req (redirected ae ireq i req url url_path)"
    using assms m h unfolding leads_to_def redirect_status_def by auto
qed

definition do_outcome :: "'l api_env \<Rightarrow> nat \<Rightarrow> (nat \<times> bytes option) option \<Rightarrow> ApiRequest list \<Rightarrow> bool" where
  "do_outcome ae i answer rs \<longleftrightarrow> (\<forall>j. Suc j < length rs \<longrightarrow> leads_to ae (i + j) (rs ! j) (rs ! Suc j))
     \<and> (\<forall>body. answer = Some (200, body) \<longleftrightarrow> (\<exists>location. ae_server ae (i + (length rs - 1)) (last rs) = Some (200, location, body)))"

lemma do_outcome_single:
  "(\<forall>body. answer = Some (200, body) \<longleftrightarrow> (\<exists>location. ae_server ae i r = Some (200, location, body))) \<Longrightarrow> do_outcome ae i answer [r]"
  by (simp add: do_outcome_def)

lemma do_outcome_Cons:
  assumes "leads_to ae i r r'" "do_outcome ae (Suc i) answer (r' # rs)"
  shows "do_outcome ae i answer (r # r' # rs)"
proof -
  have "leads_to ae (i + j) ((r # r' # rs) ! j) ((r # r' # rs) ! Suc j)" if "Suc j < length (r # r' # rs)" for j
    using that assms by (cases j) (auto simp: do_outcome_def)
  then show ?thesis using assms(2) by (simp add: do_outcome_def)
qed

lemma http_do_requests:
  assumes "http_do ae ireq via req = (answer, sent)" "length via < 10"
    and "aq_Method req = aq_Method ireq" "\<forall>h \<in> set access_headers. aq_Header req h = aq_Header ireq h"
  shows "\<exists>redirs. sent = via @ req # redirs \<and> length sent \<le> 10 \<and> do_outcome ae (length via) answer (req # redirs)"
  using assms
proof (induction ae ireq via req arbitrary: rule: http_do.induct)
  case (1 ae ireq via req)
  note run = "1.prems"(1) [unfolded http_do.simps [of ae ireq via req] Let_def]
  have ends: ?case if "sent = via @ [req]"
      "\<And>body. answer = Some (200, body) \<longleftrightarrow> (\<exists>location. ae_server ae (length via) req = Some (200, location, body))"
    using that "1.prems"(2) by (intro exI [of _ "[]"]) (simp add: do_outcome_single)
  show ?case
  proof (cases "ae_server ae (length via) req")
    case None
    then show ?thesis using run by (intro ends) auto
  next
    case (Some a)
    then obtain status location body where srv: "ae_server ae (length via) req = Some (status, location, body)" by (cases a) auto
    show ?thesis
    proof (cases "status \<notin> set redirect_status \<or> location = []")
      case True
      then show ?thesis using run srv by (intro ends) auto
    next
      case redirect: False
      then have "status \<noteq> 200" by (auto simp: redirect_status_def)
      show ?thesis
      proof (cases "ae_resolve ae (aq_URL req) location")
        case None
        then show ?thesis using run srv redirect \<open>status \<noteq> 200\<close> by (intro ends) auto
      next
        case resolved: (Some a)
        then obtain url url_path where res: "ae_resolve ae (aq_URL req) location = Some (url, url_path)" by (cases a) auto
        show ?thesis
        proof (cases "10 \<le> length (via @ [req])")
          case True
          then show ?thesis using run srv redirect res \<open>status \<noteq> 200\<close> by (intro ends) auto
        next
          case False
          let ?next = "redirected ae ireq (length via) req url url_path"
          have st: "status \<in> set redirect_status" using redirect by blast
          note nxt = redirected_leads [OF srv st res "1.prems"(3,4)]
          have go: "http_do ae ireq (via @ [req]) ?next = (answer, sent)" using run srv redirect res False by simp
          have "\<exists>redirs. sent = (via @ [req]) @ ?next # redirs \<and> length sent \<le> 10 \<and> do_outcome ae (length (via @ [req])) answer (?next # redirs)"
            by (rule "1.IH" [OF refl srv refl refl redirect res refl False go _ nxt(2,3)]) (use False in simp)
          then obtain redirs where more: "sent = (via @ [req]) @ ?next # redirs" "length sent \<le> 10"
            "do_outcome ae (length (via @ [req])) answer (?next # redirs)" by blast
          have "do_outcome ae (length via) answer (req # ?next # redirs)"
            by (rule do_outcome_Cons [OF nxt(1)]) (use more(3) in simp)
          then show ?thesis using more by (intro exI [of _ "?next # redirs"]) simp
        qed
      qed
    qed
  qed
qed

lemma doGet_cases:
  "ae_Wait ae (ap_limiter s) = (False, rl) \<Longrightarrow> doGet cr ae c decode path s = (Inl RateLimiter, s\<lparr>ap_limiter := rl\<rparr>)"
  "ae_Wait ae (ap_limiter s) = (True, rl) \<Longrightarrow> ae_parse ae (kc_BaseURL (kl_config c) @ path) = None \<Longrightarrow>
     doGet cr ae c decode path s = (Inl CreateRequest, s\<lparr>ap_limiter := rl, ap_granted := Suc (ap_granted s)\<rparr>)"
  "ae_Wait ae (ap_limiter s) = (True, rl) \<Longrightarrow> ae_parse ae (kc_BaseURL (kl_config c) @ path) = Some p \<Longrightarrow>
     make_request cr c (ae_UnixMilli ae) (kc_BaseURL (kl_config c) @ path) p = None \<Longrightarrow>
     doGet cr ae c decode path s = (Inl SignRequest, s\<lparr>ap_limiter := rl, ap_granted := Suc (ap_granted s)\<rparr>)"
  "ae_Wait ae (ap_limiter s) = (True, rl) \<Longrightarrow> ae_parse ae (kc_BaseURL (kl_config c) @ path) = Some p \<Longrightarrow>
     make_request cr c (ae_UnixMilli ae) (kc_BaseURL (kl_config c) @ path) p = Some req \<Longrightarrow> http_do ae req [] req = (answer, sent) \<Longrightarrow>
     doGet cr ae c decode path s =
       (read_answer decode path answer, s\<lparr>ap_limiter := rl, ap_granted := Suc (ap_granted s), ap_sent := ap_sent s @ sent\<rparr>)"
  by (simp_all add: doGet_def Let_def del: http_do.simps)

definition calls_sent :: "'a list \<Rightarrow> nat" where
  "calls_sent sent = (if sent = [] then 0 else 1)"

lemma call_sends:
  assumes "api_call_exec cr dc \<lparr>kl_config = cfg, kl_privateKey = Some key\<rparr> ae call s = (answer, s')"
  shows "\<exists>sent. call_outcome cr dc (kc_KeyID cfg) key (kc_BaseURL cfg, ae, call) sent answer \<and> ap_sent s' = ap_sent s @ sent
    \<and> calls_sent sent + ap_granted s \<le> ap_granted s'"
proof -
  let ?c = "\<lparr>kl_config = cfg, kl_privateKey = Some key\<rparr>"
  have get: "doGet cr ae ?c (call_decode dc call) (call_path call) s = (answer, s')"
    using assms by (simp add: api_call_is_get)
  obtain ok rl where w: "ae_Wait ae (ap_limiter s) = (ok, rl)" by (cases "ae_Wait ae (ap_limiter s)")
  let ?url = "kc_BaseURL cfg @ call_path call"
  have none: ?thesis if "(answer, s') = (Inl err, s2)" "err \<in> {RateLimiter, CreateRequest, SignRequest}" "ap_sent s2 = ap_sent s"
      "ap_granted s \<le> ap_granted s2" for err s2
    using that by (intro exI [of _ "[]"]) (auto simp: call_outcome_def calls_sent_def)
  let ?s = "s\<lparr>ap_limiter := rl, ap_granted := Suc (ap_granted s)\<rparr>"
  show ?thesis
  proof (cases ok)
    case False
    then show ?thesis using w by (intro none [of RateLimiter "s\<lparr>ap_limiter := rl\<rparr>"]) (simp_all add: get [symmetric] doGet_cases)
  next
    case True
    then have w: "ae_Wait ae (ap_limiter s) = (True, rl)" using w by simp
    show ?thesis
    proof (cases "ae_parse ae ?url")
      case None
      then show ?thesis using w by (intro none [of CreateRequest ?s]) (simp_all add: get [symmetric] doGet_cases)
    next
      case (Some p)
      let ?msg = "cr_sha256 cr (bytes_of (show_int (ae_UnixMilli ae) @ ''GET'' @ p))"
      show ?thesis
      proof (cases "cr_SignPSS cr key ?msg")
        case None
        then have "make_request cr ?c (ae_UnixMilli ae) ?url p = None" by (simp add: make_request_def signRequest_def)
        then show ?thesis using w Some by (intro none [of SignRequest ?s]) (simp_all add: get [symmetric] doGet_cases)
      next
        case sg: (Some sg)
        let ?req = "signed_get cr (kc_BaseURL cfg) (kc_KeyID cfg) key (ae_UnixMilli ae) (call_path call) p sg"
        have make: "make_request cr ?c (ae_UnixMilli ae) ?url p = Some ?req"
          using sg by (simp add: make_request_def signRequest_def signed_get_def)
        obtain ans sent where do1: "http_do ae ?req [] ?req = (ans, sent)" by (cases "http_do ae ?req [] ?req")
        obtain redirs where more: "sent = ?req # redirs" "length sent \<le> 10" "do_outcome ae 0 ans (?req # redirs)"
          using http_do_requests [OF do1] by auto
        have final: "answer = read_answer (call_decode dc call) (call_path call) ans" "ap_sent s' = ap_sent s @ sent" "ap_granted s' = Suc (ap_granted s)"
          using doGet_cases(4) [where c = ?c and decode = "call_decode dc call", unfolded KalshiClient.simps, OF w Some make do1] get by simp_all
        have "answer = Inr v \<longleftrightarrow> (\<exists>location body. ae_server ae (length redirs) (last sent) = Some (200, location, Some body) \<and> call_decode dc call body = Some v)" for v
          unfolding final(1) read_answer_ok using more(3) by (auto simp: do_outcome_def more(1))
        then have "call_outcome cr dc (kc_KeyID cfg) key (kc_BaseURL cfg, ae, call) sent answer"
          using Some sg more unfolding call_outcome_def by (simp add: do_outcome_def)
        then show ?thesis using final more(1) by (intro exI [of _ sent]) (simp add: calls_sent_def)
      qed
    qed
  qed
qed

text \<open>
  C40: What a Kalshi client does to the outside world. However a client loaded from its configuration is used, its base URL
  changed in between and \<^verbatim>\<open>DoGetPublic\<close> called with any path, and
  whatever the limiter, the clock and the server do: a call sends nothing, or first a GET on its base URL, signed over time,
  method and path with the configured key, and then at most nine more requests, each of them the redirect the server answered
  the one before with, by the same method and with the same access headers; the requests leave in
  the order of the calls, and no call sends any without a wait granted by the limiter; and a call returns a value exactly when
  the last of its requests was answered with status 200 and a body that decodes.
\<close>

theorem client_reads_only:
  assumes "NewClient readFile cr cfg = Inr c"
  shows "\<exists>key sent. loaded_key readFile cr cfg key
    \<and> (case run_client cr dc c us s of (answers, s') \<Rightarrow>
        list_all2 (\<lambda>x (reqs, answer). call_outcome cr dc (kc_KeyID cfg) key x reqs answer) (based_calls (kc_BaseURL cfg) us) (zip sent answers)
        \<and> length sent = length (based_calls (kc_BaseURL cfg) us) \<and> length answers = length sent
        \<and> ap_sent s' = ap_sent s @ concat sent
        \<and> sum_list (map calls_sent sent) + ap_granted s \<le> ap_granted s')"
proof -
  from new_client [OF assms] obtain key where k: "loaded_key readFile cr cfg key"
    and c: "c = \<lparr>kl_config = cfg, kl_privateKey = Some key\<rparr>" .
  have "\<exists>sent. case run_client cr dc \<lparr>kl_config = cf, kl_privateKey = Some key\<rparr> us s of (answers, s') \<Rightarrow>
        list_all2 (\<lambda>x (reqs, answer). call_outcome cr dc (kc_KeyID cfg) key x reqs answer) (based_calls (kc_BaseURL cf) us) (zip sent answers)
        \<and> length sent = length (based_calls (kc_BaseURL cf) us) \<and> length answers = length sent
        \<and> ap_sent s' = ap_sent s @ concat sent
        \<and> sum_list (map calls_sent sent) + ap_granted s \<le> ap_granted s'" if "kc_KeyID cf = kc_KeyID cfg" for cf
    using that
  proof (induction us arbitrary: s cf)
    case (Cons u us)
    show ?case
    proof (cases u)
      case (Rebase url)
      from Cons.IH [of "cf\<lparr>kc_BaseURL := rev (dropWhile (\<lambda>ch. ch = CHR ''/'') (rev url))\<rparr>" s] Cons.prems
      show ?thesis by (simp add: Rebase SetBaseURL_def)
    next
      case (Call ae call)
      let ?c = "\<lparr>kl_config = cf, kl_privateKey = Some key\<rparr>"
      obtain answer s1 where one: "api_call_exec cr dc ?c ae call s = (answer, s1)" by (cases "api_call_exec cr dc ?c ae call s")
      obtain answers s2 where rest: "run_client cr dc ?c us s1 = (answers, s2)" by (cases "run_client cr dc ?c us s1")
      from call_sends [OF one] obtain reqs where reqs: "call_outcome cr dc (kc_KeyID cf) key (kc_BaseURL cf, ae, call) reqs answer"
        "ap_sent s1 = ap_sent s @ reqs" "calls_sent reqs + ap_granted s \<le> ap_granted s1" by blast
      from Cons.IH [OF Cons.prems, of s1] rest obtain sent where
        "list_all2 (\<lambda>x (reqs, answer). call_outcome cr dc (kc_KeyID cfg) key x reqs answer) (based_calls (kc_BaseURL cf) us) (zip sent answers)"
        "length sent = length (based_calls (kc_BaseURL cf) us)" "length answers = length sent"
        "ap_sent s2 = ap_sent s1 @ concat sent" "sum_list (map calls_sent sent) + ap_granted s1 \<le> ap_granted s2" by auto
      then show ?thesis using reqs one rest Cons.prems by (intro exI [of _ "reqs # sent"]) (simp add: Call)
    qed
  qed (auto intro: exI [of _ "[]"])
  from this [OF refl] obtain sent where "case run_client cr dc c us s of (answers, s') \<Rightarrow>
        list_all2 (\<lambda>x (reqs, answer). call_outcome cr dc (kc_KeyID cfg) key x reqs answer) (based_calls (kc_BaseURL cfg) us) (zip sent answers)
        \<and> length sent = length (based_calls (kc_BaseURL cfg) us) \<and> length answers = length sent
        \<and> ap_sent s' = ap_sent s @ concat sent
        \<and> sum_list (map calls_sent sent) + ap_granted s \<le> ap_granted s'" unfolding c ..
  with k show ?thesis by (intro exI [of _ key] exI [of _ sent] conjI)
qed

definition sample_crypto :: "int crypto" where
  "sample_crypto = \<lparr>cr_pem = (\<lambda>d. Some (''PRIVATE KEY'', d)), cr_pkcs1 = (\<lambda>d. None), cr_pkcs8 = (\<lambda>d. Some (RsaKey 7)),
     cr_sha256 = (\<lambda>d. d), cr_SignPSS = (\<lambda>k d. Some (word_of_int k # d)), cr_base64 = (\<lambda>d. show_int (int (length d)))\<rparr>"

definition sample_kalshi :: KalshiConfig where
  "sample_kalshi = \<lparr>kc_BaseURL = ''http://k'', kc_KeyID = ''id'', kc_PrivateKeyPath = [], kc_PrivateKeyPEM = ''pem''\<rparr>"

text \<open>A server that sends the first request of a call to another host, which then answers 404.\<close>

definition sample_api :: "unit api_env" where
  "sample_api = \<lparr>ae_UnixMilli = 5, ae_Wait = (\<lambda>l. (True, l)), ae_parse = (\<lambda>u. Some (drop 8 u)),
     ae_server = (\<lambda>i r. if i = 0 then Some (302, ''http://x/'', Some []) else Some (404, [], Some [])),
     ae_resolve = (\<lambda>from loc. Some (loc, ''/'')), ae_referer = (\<lambda>from to. Some from), ae_keeps_type = (\<lambda>i. False)\<rparr>"

definition sample_decoders :: "unit decoders" where
  "sample_decoders = \<lparr>dc_Markets = (\<lambda>b. None), dc_Market = (\<lambda>b. None), dc_Orderbook = (\<lambda>b. None), dc_Public = (\<lambda>b. None)\<rparr>"

definition sample_kalshi_client :: "int KalshiClient" where
  "sample_kalshi_client = \<lparr>kl_config = sample_kalshi, kl_privateKey = Some 7\<rparr>"

definition sample_api_state :: "unit api_state" where
  "sample_api_state = \<lparr>ap_limiter = (), ap_granted = 0, ap_sent = []\<rparr>"

lemma sample_client_new: "NewClient (\<lambda>_. None) sample_crypto sample_kalshi = Inr sample_kalshi_client"
  by (simp add: NewClient_def sample_crypto_def sample_kalshi_def sample_kalshi_client_def parseRSAPrivateKey_def)

text \<open>The access headers go to the host the redirect names.\<close>

lemma headers_follow_redirect:
  "map aq_URL (ap_sent (snd (run_client sample_crypto sample_decoders sample_kalshi_client
       [Rebase ''http://h//'', Call sample_api (CallPublic ''/p'')] sample_api_state))) = [''http://h/p'', ''http://x/'']
   \<and> (\<forall>r \<in> set (ap_sent (snd (run_client sample_crypto sample_decoders sample_kalshi_client
       [Rebase ''http://h//'', Call sample_api (CallPublic ''/p'')] sample_api_state))).
         aq_Header r ''KALSHI-ACCESS-KEY'' = Some ''id'' \<and> aq_Header r ''KALSHI-ACCESS-SIGNATURE'' \<noteq> None)"
proof -
  let ?c = "SetBaseURL ''http://h//'' sample_kalshi_client"
  have b: "kc_BaseURL (kl_config ?c) = ''http://h''" "kl_privateKey ?c = Some 7" "kc_KeyID (kl_config ?c) = ''id''"
    by (simp_all add: SetBaseURL_def sample_kalshi_client_def sample_kalshi_def)
  have "map aq_URL (ap_sent (snd (doGet sample_crypto sample_api ?c (call_decode sample_decoders (CallPublic ''/p'')) ''/p'' sample_api_state))) = [''http://h/p'', ''http://x/'']
    \<and> (\<forall>r \<in> set (ap_sent (snd (doGet sample_crypto sample_api ?c (call_decode sample_decoders (CallPublic ''/p'')) ''/p'' sample_api_state))).
         aq_Header r ''KALSHI-ACCESS-KEY'' = Some ''id'' \<and> aq_Header r ''KALSHI-ACCESS-SIGNATURE'' \<noteq> None)"
    unfolding doGet_def sample_api_def sample_api_state_def sample_crypto_def
    by (simp add: make_request_def signRequest_def read_answer_def b redirect_status_def redirected_def Let_def)
  then show ?thesis by (simp add: api_call_is_get Let_def split_beta)
qed

theorem client_reads_only_witness:
  "length (ap_sent (snd (run_client sample_crypto sample_decoders sample_kalshi_client
       [Rebase ''http://h//'', Call sample_api (CallPublic ''/p'')] sample_api_state))) = 2
   \<and> (\<exists>key sent. loaded_key (\<lambda>_. None) sample_crypto sample_kalshi key
      \<and> (case run_client sample_crypto sample_decoders sample_kalshi_client [Rebase ''http://h//'', Call sample_api (CallPublic ''/p'')] sample_api_state of (answers, s') \<Rightarrow>
        list_all2 (\<lambda>x (reqs, answer). call_outcome sample_crypto sample_decoders (kc_KeyID sample_kalshi) key x reqs answer)
          (based_calls (kc_BaseURL sample_kalshi) [Rebase ''http://h//'', Call sample_api (CallPublic ''/p'')]) (zip sent answers)
        \<and> length sent = length (based_calls (kc_BaseURL sample_kalshi) [Rebase ''http://h//'', Call sample_api (CallPublic ''/p'')])
        \<and> length answers = length sent
        \<and> ap_sent s' = ap_sent sample_api_state @ concat sent
        \<and> sum_list (map calls_sent sent) + ap_granted sample_api_state \<le> ap_granted s'))"
proof (rule conjI [OF _ client_reads_only [OF sample_client_new]])
  show "length (ap_sent (snd (run_client sample_crypto sample_decoders sample_kalshi_client
       [Rebase ''http://h//'', Call sample_api (CallPublic ''/p'')] sample_api_state))) = 2"
    using headers_follow_redirect [THEN conjunct1, THEN arg_cong [where f = length]] by simp
qed

end
