(* ===== verification/Service_Startup.thy ===== *)
theory Service_Startup
  imports Service_Support Kalshi_Client Kill_Path Recon Strategy Backtest_Data Dashboard_Hub
begin

text \<open>
  The \<^verbatim>\<open>main\<close> functions of the eight services: what a start reads, in which order, at which calls it gives up (\<^verbatim>\<open>os.Exit(1)\<close>
  after logging the message that is the error here), and the components it leaves running. Two results are on
  restarts: what the execution engine needs to come up, and that the services that were stopped during a halt
  come back in the mode of the watchdog.
\<close>

section \<open>What a start meets\<close>

text \<open>The calls that may fail; the rest of the outside world is the arguments of each \<^verbatim>\<open>main\<close>.\<close>

datatype ext_service = Postgres | Nats | GrpcDial string | Listen string | TelegramApi

record 'j start_env =
  se_down :: "ext_service \<Rightarrow> bool"
  se_env :: environ
  se_js :: "'j jetstream"
  se_now :: time
  se_ping :: "time \<Rightarrow> string option"

definition default_hmac_key :: string where
  "default_hmac_key = ''phase1-paper-trading-hmac-key-not-for-production''"

definition hmac_key :: "environ \<Rightarrow> bytes" where
  "hmac_key env = bytes_of (env_or_default env ''HMAC_KEY'' default_hmac_key)"


section \<open>The execution engine\<close>

record execution_service =
  xs_engine :: "MockServer ExecEngine"
  xs_recon :: "unit ReconEngine"
  xs_health :: HealthServer
  xs_riskAddr :: string
  xs_watchdogAddr :: string
  xs_grpcPort :: string
  xs_lastPoll :: time
  xs_pollInterval :: duration
  xs_heartbeatInterval :: duration
  xs_reconInterval :: duration
  xs_callers :: AllowedCallers

definition paper_config :: "environ \<Rightarrow> MockConfig" where
  "paper_config env =
     \<lparr>mc_FillDelayMs = sint (envOrInt env ''MOCK_FILL_DELAY_MS'' 100), mc_FillProbability = f_lit (4 / 5),
      mc_PartialFillProb = f_lit (1 / 5), mc_RejectionRate = f_lit 0, mc_InitialBalanceMicros = 100000000000,
      mc_SimulateStaleData = False\<rparr>"

definition exposure_limits :: "environ \<Rightarrow> ExposureLimits" where
  "exposure_limits env =
     \<lparr>el_MaxPositionNotionalMicros = envOrInt64 env ''MAX_POSITION_NOTIONAL'' 10000000000,
      el_MaxTotalExposureMicros = envOrInt64 env ''MAX_TOTAL_EXPOSURE'' 50000000000\<rparr>"

text \<open>The tables the engine finds, the random numbers of the exchange, and the orders in which Go visits the maps.\<close>

record execution_world =
  xw_orders :: "OrderRow list"
  xw_fills :: "Fill list"
  xw_ledger :: Ledger
  xw_positions :: "PositionRow list"
  xw_rng :: "nat \<Rightarrow> float64"
  xw_visit :: "MockServer ExecEngine \<Rightarrow> string list"
  xw_visit_positions :: "(string \<rightharpoonup> int32) \<Rightarrow> string list"
  xw_visit_orders :: "(string \<rightharpoonup> internalOrder) \<Rightarrow> string list"

definition start_engine :: "environ \<Rightarrow> execution_world \<Rightarrow> MockServer ExecEngine" where
  "start_engine env xw =
     NewExecEngine (NewServer (paper_config env) (xw_rng xw)) (hmac_key env) (xw_ledger xw) (exposure_limits env) (xw_orders xw) (xw_fills xw)"

definition startup_reads :: "execution_world \<Rightarrow> MockServer ExecEngine \<Rightarrow> recon_reads" where
  "startup_reads xw e =
     \<lparr>rd_positions = xw_positions xw, rd_position_venue = xe_venue e, rd_orders = xe_orders e, rd_order_venue = xe_venue e,
      rd_balance_venue = xe_venue e, rd_visit_positions = xw_visit_positions xw, rd_visit_orders = xw_visit_orders xw\<rparr>"

definition start_recon :: "unit ReconEngine" where
  "start_recon = \<lparr>rn_killSwitch = (), rn_auditor = NewLogger ''execution-engine'', rn_snapshots = []\<rparr>"

definition execution_service_of :: "'j start_env \<Rightarrow> MockServer ExecEngine \<Rightarrow> unit ReconEngine \<Rightarrow> execution_service" where
  "execution_service_of st engine reconEngine =
     \<lparr>xs_engine = engine, xs_recon = reconEngine,
      xs_health = NewHealth (se_now st) (env_or_default (se_env st) ''HEALTH_PORT'' ''50041'') ''execution-engine'' [se_ping st],
      xs_riskAddr = env_or_default (se_env st) ''RISK_ENGINE_ADDR'' ''localhost:50020'',
      xs_watchdogAddr = env_or_default (se_env st) ''WATCHDOG_ADDR'' ''localhost:50055'',
      xs_grpcPort = env_or_default (se_env st) ''GRPC_PORT'' ''50040'',
      xs_lastPoll = se_now st - 60 * 1000000000,
      xs_pollInterval = times_unit (envOrInt (se_env st) ''FILL_POLL_INTERVAL_MS'' 500) Millisecond,
      xs_heartbeatInterval = times_unit (envOrInt (se_env st) ''HEARTBEAT_INTERVAL_SEC'' 10) Second,
      xs_reconInterval = times_unit (envOrInt (se_env st) ''RECON_INTERVAL_SEC'' 60) Second,
      xs_callers = execution_callers\<rparr>"

text \<open>The second part of the result: JetStream, and the snapshots the startup check has written.\<close>

definition execution_main ::
  "'j start_env \<Rightarrow> faults \<Rightarrow> execution_world \<Rightarrow> 'j \<Rightarrow> (string, execution_service) result \<times> 'j \<times> SnapshotRow list" where
  "execution_main st flt xw j =
     (if se_down st Postgres then (Inl ''failed to connect to postgres'', j, [])
      else if se_down st Nats then (Inl ''failed to connect to nats'', j, [])
      else case NewPublisher (se_js st) j of
        (Inl _, j) \<Rightarrow> (Inl ''failed to create event publisher'', j, [])
      | (Inr _, j) \<Rightarrow>
          (case RecoverFull flt (xw_visit xw) (start_engine (se_env st) xw) of
             (Inl _, _) \<Rightarrow> (Inl ''failed crash recovery'', j, [])
           | (Inr _, engine) \<Rightarrow>
               (case RunStartupCheck flt (startup_reads xw engine) start_recon of
                  (Inl _, r) \<Rightarrow> (Inl ''startup reconciliation failed'', j, rn_snapshots r)
                | (Inr consistent, r) \<Rightarrow>
                    let s = execution_service_of st (startup_reconciled consistent engine) r in
                    if se_down st (GrpcDial (xs_riskAddr s)) then (Inl ''failed to connect to risk engine'', j, rn_snapshots r)
                    else if se_down st (GrpcDial (xs_watchdogAddr s)) then (Inl ''failed to connect to watchdog'', j, rn_snapshots r)
                    else if se_down st (Listen (xs_grpcPort s)) then (Inl ''failed to listen'', j, rn_snapshots r)
                    else (Inr s, j, rn_snapshots r))))"

text \<open>The goroutines whose tickers are started: a period that is not positive panics and ends the process.\<close>

definition execution_keeps_running :: "execution_service \<Rightarrow> bool" where
  "execution_keeps_running s \<longleftrightarrow>
     NewTicker_ok (xs_pollInterval s) \<and> NewTicker_ok (xs_heartbeatInterval s) \<and> NewTicker_ok (xs_reconInterval s)"


section \<open>The risk engine\<close>

record risk_service =
  rs_engine :: RiskEngine
  rs_health :: HealthServer
  rs_grpcPort :: string
  rs_callers :: AllowedCallers

record risk_world =
  rw_readFile :: "string \<Rightarrow> bytes option"
  rw_yaml :: "bytes \<Rightarrow> Policy option"
  rw_positions :: "PositionRow list"
  rw_stats :: "DailyStatRow list"
  rw_decisions :: "PolicyDecisionRow list"
  rw_kills :: "KillRow list"

definition risk_main ::
  "'j start_env \<Rightarrow> faults \<Rightarrow> risk_world \<Rightarrow> 'j \<Rightarrow> (string, risk_service) result \<times> 'j" where
  "risk_main st flt rw j =
     (case LoadPolicy (rw_readFile rw) (rw_yaml rw) (env_or_default (se_env st) ''POLICY_FILE'' ''./policies/paper.yaml'') of
        Inl _ \<Rightarrow> (Inl ''failed to load policy'', j)
      | Inr policy \<Rightarrow>
          if se_down st Postgres then (Inl ''failed to connect to postgres'', j)
          else if se_down st Nats then (Inl ''failed to connect to nats'', j)
          else case NewPublisher (se_js st) j of
            (Inl _, j) \<Rightarrow> (Inl ''failed to create event publisher'', j)
          | (Inr _, j) \<Rightarrow>
              (case LoadState flt (se_now st) (rw_kills rw)
                      (NewEngine policy (hmac_key (se_env st)) (rw_positions rw) (rw_stats rw) (rw_decisions rw)) of
                 (Inl _, _) \<Rightarrow> (Inl ''failed to load risk state'', j)
               | (Inr _, engine) \<Rightarrow>
                   (case NewSubscriber (se_js st) of Inl _ \<Rightarrow> (Inl ''failed to create event subscriber'', j)
                    | Inr _ \<Rightarrow>
                        (case Subscriber_Subscribe (se_js st) (SubjectMarketData @ ''.>'') ''risk-engine-market-data'' j of
                           (Inl _, j) \<Rightarrow> (Inl ''failed to subscribe to market data'', j)
                         | (Inr _, j) \<Rightarrow>
                             (case Subscriber_Subscribe (se_js st) (SubjectKillActivated @ ''.>'') ''risk-engine-kill-switch'' j of
                                (Inl _, j) \<Rightarrow> (Inl ''failed to subscribe to kill switch events'', j)
                              | (Inr _, j) \<Rightarrow>
                                  let port = env_or_default (se_env st) ''GRPC_PORT'' ''50020'' in
                                  if se_down st (Listen port) then (Inl ''failed to listen'', j)
                                  else (Inr \<lparr>rs_engine = engine,
                                          rs_health = NewHealth (se_now st) (env_or_default (se_env st) ''HEALTH_PORT'' ''50021'') ''risk-engine'' [se_ping st],
                                          rs_grpcPort = port, rs_callers = risk_callers\<rparr>, j))))))"


section \<open>The watchdog\<close>

text \<open>\<open>x\<close> is the state behind the execution client; \<^verbatim>\<open>SetSystemMode\<close> of the risk client only logs.\<close>

record 'x watchdog_service =
  ws_manager :: "('x, unit) KillSwitchManager"
  ws_dms :: DeadMansSwitch
  ws_health :: HealthServer
  ws_grpcPort :: string
  ws_callers :: AllowedCallers

definition watchdog_main ::
  "'j start_env \<Rightarrow> faults \<Rightarrow> (halts \<Rightarrow> string list) \<Rightarrow> (KillRow list \<Rightarrow> KillRow list) \<Rightarrow> 'x \<Rightarrow> KillRow list \<Rightarrow> HeartbeatRow list \<Rightarrow> 'j
     \<Rightarrow> (string, 'x watchdog_service) result \<times> 'j" where
  "watchdog_main st flt visit order x kills beats j =
     (if se_down st Postgres then (Inl ''failed to connect to postgres'', j)
      else if se_down st Nats then (Inl ''failed to connect to nats'', j)
      else case NewPublisher (se_js st) j of
        (Inl _, j) \<Rightarrow> (Inl ''failed to create event publisher'', j)
      | (Inr _, j) \<Rightarrow>
          if se_down st (GrpcDial (env_or_default (se_env st) ''EXECUTION_ENGINE_ADDR'' ''localhost:50040''))
          then (Inl ''failed to connect to execution engine'', j)
          else case LoadActiveHalts flt visit order (NewKillSwitchManager x () kills) of
            (Inl _, _) \<Rightarrow> (Inl ''failed to load active halts'', j)
          | (Inr _, killMgr) \<Rightarrow>
              let port = env_or_default (se_env st) ''GRPC_PORT'' ''50055'' in
              if se_down st (Listen port) then (Inl ''failed to listen'', j)
              else (Inr \<lparr>ws_manager = killMgr,
                      ws_dms = NewDeadMansSwitch beats (times_unit (envOrInt (se_env st) ''HEARTBEAT_INTERVAL_SEC'' 10) Second)
                                 (sint (envOrInt (se_env st) ''HEARTBEAT_GRACE_MULTIPLE'' 3)),
                      ws_health = NewHealth (se_now st) (env_or_default (se_env st) ''HEALTH_PORT'' ''50056'') ''watchdog'' [se_ping st],
                      ws_grpcPort = port, ws_callers = watchdog_callers\<rparr>, j))"


section \<open>The strategy engine\<close>

text \<open>Whatever \<^verbatim>\<open>STRATEGY\<close> names, the signals are those of the simple momentum strategy.\<close>

record 'x strategy_service =
  ss_engine :: "'x StrategyEngine"
  ss_signals :: SignalFunc
  ss_health :: HealthServer
  ss_riskAddr :: string
  ss_execAddr :: string
  ss_interval :: duration

definition strategy_main ::
  "'j start_env \<Rightarrow> (market_map \<Rightarrow> string list) \<Rightarrow> 'x \<Rightarrow> 'j \<Rightarrow> (string, 'x strategy_service) result \<times> 'j" where
  "strategy_main st visit evaluator j =
     (if se_down st Nats then (Inl ''failed to connect to nats'', j)
      else case NewPublisher (se_js st) j of
        (Inl _, j) \<Rightarrow> (Inl ''failed to create event publisher'', j)
      | (Inr _, j) \<Rightarrow>
          (case NewSubscriber (se_js st) of Inl _ \<Rightarrow> (Inl ''failed to create event subscriber'', j)
           | Inr _ \<Rightarrow>
               (case Subscriber_Subscribe (se_js st) (SubjectMarketData @ ''.>'') ''strategy-engine-market-data'' j of
                  (Inl _, j) \<Rightarrow> (Inl ''failed to subscribe to market data'', j)
                | (Inr _, j) \<Rightarrow>
                    let riskAddr = env_or_default (se_env st) ''RISK_ENGINE_ADDR'' ''localhost:50020'';
                        execAddr = env_or_default (se_env st) ''EXECUTION_ENGINE_ADDR'' ''localhost:50040'' in
                    if se_down st (GrpcDial riskAddr) then (Inl ''failed to connect to risk engine'', j)
                    else if se_down st (GrpcDial execAddr) then (Inl ''failed to connect to execution engine'', j)
                    else (Inr \<lparr>ss_engine = NewStrategyEngine (env_or_default (se_env st) ''STRATEGY'' ''simple-momentum'') ''mock'' evaluator,
                            ss_signals = SimpleMomentum visit,
                            ss_health = NewHealth (se_now st) (env_or_default (se_env st) ''HEALTH_PORT'' ''50031'') ''strategy-engine'' [],
                            ss_riskAddr = riskAddr, ss_execAddr = execAddr,
                            ss_interval = times_unit (envOrInt (se_env st) ''SIGNAL_INTERVAL_SEC'' 5) Second\<rparr>, j))))"


section \<open>Ingestion and the scraper\<close>

datatype 'k feed_source = MockSource duration | KalshiSource "'k KalshiClient" string

record 'k ingestion_service =
  is_ingestion :: Ingestion
  is_health :: HealthServer
  is_source :: "'k feed_source"

definition quoted :: "string \<Rightarrow> string" where
  "quoted s = [CHR 0x27] @ s @ [CHR 0x27]"

definition kalshi_url :: string where
  "kalshi_url = ''https://api.elections.kalshi.com/trade-api/v2''"

definition kalshi_settings :: "environ \<Rightarrow> KalshiConfig" where
  "kalshi_settings env =
     \<lparr>kc_BaseURL = env_or_default env ''KALSHI_API_BASE_URL'' kalshi_url, kc_KeyID = env ''KALSHI_API_KEY_ID'',
      kc_PrivateKeyPath = env ''KALSHI_PRIVATE_KEY_PATH'', kc_PrivateKeyPEM = []\<rparr>"

definition ingestion_main ::
  "'j start_env \<Rightarrow> (string \<Rightarrow> bytes option) \<Rightarrow> 'k crypto \<Rightarrow> 'j \<Rightarrow> (string, 'k ingestion_service) result \<times> 'j" where
  "ingestion_main st readFile cr j =
     (if se_down st Nats then (Inl ''failed to connect to nats'', j)
      else case NewPublisher (se_js st) j of
        (Inl _, j) \<Rightarrow> (Inl ''failed to create event publisher'', j)
      | (Inr _, j) \<Rightarrow>
          let env = se_env st; dataSource = env_or_default env ''DATA_SOURCE'' ''mock'';
              service = (\<lambda>src. \<lparr>is_ingestion = NewIngestion,
                is_health = NewHealth (se_now st) (env_or_default env ''HEALTH_PORT'' ''50011'') ''data-ingestion'' [], is_source = src\<rparr>) in
          if dataSource = ''mock'' then (Inr (service (MockSource (times_unit (envOrInt env ''PUBLISH_INTERVAL_MS'' 1000) Millisecond))), j)
          else if dataSource = ''kalshi'' then
            (if env ''KALSHI_API_KEY_ID'' = [] \<or> env ''KALSHI_PRIVATE_KEY_PATH'' = []
             then (Inl ''KALSHI_API_KEY_ID and KALSHI_PRIVATE_KEY_PATH required for kalshi data source'', j)
             else case NewClient readFile cr (kalshi_settings env) of
               Inl _ \<Rightarrow> (Inl ''failed to create kalshi client'', j)
             | Inr client \<Rightarrow> (Inr (service (KalshiSource client (env_or_default env ''KALSHI_MARKETS_CONFIG'' ''./configs/kalshi_markets.yaml''))), j))
          else (Inl (''unknown DATA_SOURCE, must be '' @ quoted ''mock'' @ '' or '' @ quoted ''kalshi''), j))"

text \<open>\<^verbatim>\<open>strconv.Atoi\<close> with its error ignored: zero for what is no number, the nearest end for one out of range.\<close>

definition Atoi_ignored :: "string \<Rightarrow> int64" where
  "Atoi_ignored s =
     (case parse_int64 s of Some n \<Rightarrow> n
      | None \<Rightarrow> let (neg, ds) = split_sign s in
          if ds = [] \<or> \<not> list_all is_digit ds then 0
          else if neg then word_of_int (- (2 ^ 63)) else word_of_int (2 ^ 63 - 1))"

record 'k scraper_service =
  cs_client :: "'k KalshiClient"
  cs_interval :: duration
  cs_health :: HealthServer

definition scraper_main :: "'j start_env \<Rightarrow> (string \<Rightarrow> bytes option) \<Rightarrow> 'k crypto \<Rightarrow> (string, 'k scraper_service) result" where
  "scraper_main st readFile cr =
     (let env = se_env st in
      if se_down st Postgres then Inl ''failed to connect to postgres''
      else if env ''KALSHI_API_KEY_ID'' = [] \<or> env ''KALSHI_PRIVATE_KEY_PATH'' = []
        then Inl ''KALSHI_API_KEY_ID and KALSHI_PRIVATE_KEY_PATH are required''
      else case NewClient readFile cr (kalshi_settings env) of
        Inl _ \<Rightarrow> Inl ''failed to create kalshi client''
      | Inr client \<Rightarrow>
          Inr \<lparr>cs_client = client, cs_interval = times_unit (Atoi_ignored (env_or_default env ''SCRAPE_INTERVAL_SEC'' ''60'')) Second,
               cs_health = NewHealth (se_now st) ''50083'' ''data-scraper'' []\<rparr>)"


section \<open>The alert bot and the dashboard\<close>

text \<open>Both call the watchdog without a caller identity, and neither gives its health endpoint a check.\<close>

record ('l, 'w) alertbot_service =
  as_bot :: "('l, 'w) Bot"
  as_notifier :: Notifier
  as_health :: HealthServer
  as_watchdogAddr :: string

definition alertbot_main :: "'j start_env \<Rightarrow> (nat \<Rightarrow> int64 \<times> string \<Rightarrow> bool) \<Rightarrow> 'w \<Rightarrow> 'j \<Rightarrow> (string, ('l, 'w) alertbot_service) result \<times> 'j" where
  "alertbot_main st tg watchdog j =
     (let env = se_env st; chatIDs = parseChatIDs (env ''TELEGRAM_ALLOWED_CHAT_IDS'');
          watchdogAddr = env_or_default env ''WATCHDOG_ADDR'' ''localhost:50055'' in
      if env ''TELEGRAM_BOT_TOKEN'' = [] then (Inl ''TELEGRAM_BOT_TOKEN is required'', j)
      else if se_down st TelegramApi then (Inl ''failed to create telegram bot'', j)
      else if chatIDs = [] then (Inl ''TELEGRAM_ALLOWED_CHAT_IDS is required (comma-separated)'', j)
      else if se_down st Postgres then (Inl ''failed to connect to postgres'', j)
      else if se_down st Nats then (Inl ''failed to connect to nats'', j)
      else case NewSubscriber (se_js st) of
        Inl _ \<Rightarrow> (Inl ''failed to create subscriber'', j)
      | Inr _ \<Rightarrow>
          if se_down st (GrpcDial watchdogAddr) then (Inl ''failed to connect to watchdog'', j)
          else let groups = \<lparr>cg_Trades = parseChatIDs (env ''TELEGRAM_TRADES_CHAT_ID''), cg_Alerts = parseChatIDs (env ''TELEGRAM_ALERTS_CHAT_ID'')\<rparr> in
            (case subscribe_each (se_js st) notifier_subjects j of
               (Inl _, j) \<Rightarrow> (Inl ''failed to start notifier'', j)
             | (Inr _, j) \<Rightarrow>
                 (Inr \<lparr>as_bot = NewBot watchdog chatIDs, as_notifier = NewNotifier tg chatIDs groups,
                       as_health = NewHealth (se_now st) ''50082'' ''alertbot'' [], as_watchdogAddr = watchdogAddr\<rparr>, j)))"

record 'm dashboard_service =
  ds_hub :: "'m Hub"
  ds_server :: Server
  ds_health :: HealthServer
  ds_port :: string
  ds_watchdogAddr :: string

definition dashboard_main ::
  "'j start_env \<Rightarrow> (string \<Rightarrow> string \<Rightarrow> string) \<Rightarrow> (HttpRequest \<Rightarrow> (nat \<times> string) option) \<Rightarrow> (HttpRequest \<Rightarrow> nat) \<Rightarrow> 'j
     \<Rightarrow> (string, 'm dashboard_service) result \<times> 'j" where
  "dashboard_main st mac accept_ws files j =
     (let env = se_env st; watchdogAddr = env_or_default env ''WATCHDOG_ADDR'' ''localhost:50055'' in
      if se_down st Postgres then (Inl ''failed to connect to postgres'', j)
      else if se_down st Nats then (Inl ''failed to connect to nats'', j)
      else case NewSubscriber (se_js st) of
        Inl _ \<Rightarrow> (Inl ''failed to create subscriber'', j)
      | Inr _ \<Rightarrow>
          if se_down st (GrpcDial watchdogAddr) then (Inl ''failed to connect to watchdog'', j)
          else (case subscribe_each (se_js st) bridge_subjects j of
                  (Inl _, j) \<Rightarrow> (Inl ''failed to start NATS bridge'', j)
                | (Inr _, j) \<Rightarrow>
                    (Inr \<lparr>ds_hub = NewHub,
                          ds_server = \<lparr>sv_apiKey = env_or_default env ''DASHBOARD_API_KEY'' ''localdev'', sv_mac = mac, sv_accept = accept_ws, sv_files = files\<rparr>,
                          ds_health = NewHealth (se_now st) ''50081'' ''dashboard'' [],
                          ds_port = env_or_default env ''DASHBOARD_PORT'' ''8080'', ds_watchdogAddr = watchdogAddr\<rparr>, j)))"

text \<open>A health endpoint without checks says ok whatever has happened to the service.\<close>

lemma unchecked_health: "hs_checks h = [] \<Longrightarrow> hy_Code (handleHealth now h) = 200"
  by (simp add: health_exact)

lemma services_without_checks:
  "strategy_main st visit ev j = (Inr s, j1) \<Longrightarrow> hs_checks (ss_health s) = []"
  "ingestion_main st rf cr j = (Inr i, j1) \<Longrightarrow> hs_checks (is_health i) = []"
  "scraper_main st rf cr = Inr c \<Longrightarrow> hs_checks (cs_health c) = []"
  "alertbot_main st tg w j = (Inr a, j1) \<Longrightarrow> hs_checks (as_health a) = []"
  "dashboard_main st mac acc files j = (Inr d, j1) \<Longrightarrow> hs_checks (ds_health d) = []"
  by (auto simp: strategy_main_def ingestion_main_def scraper_main_def alertbot_main_def dashboard_main_def Let_def NewHealth_def
      split: if_splits sum.splits prod.splits)

text \<open>The name of the strategy does not select one.\<close>

lemma strategy_is_momentum:
  "strategy_main st visit ev j = (Inr s, j1) \<Longrightarrow> ss_signals s = SimpleMomentum visit"
  by (auto simp: strategy_main_def Let_def split: if_splits sum.splits prod.splits)

text \<open>Without a number in \<^verbatim>\<open>SCRAPE_INTERVAL_SEC\<close> the scraper's ticker panics; the other services fall back to their default.\<close>

lemma scraper_interval_not_a_number:
  assumes "scraper_main st rf cr = Inr c" "se_env st ''SCRAPE_INTERVAL_SEC'' = ''1m''"
  shows "\<not> NewTicker_ok (cs_interval c)"
proof -
  have "Atoi_ignored ''1m'' = 0"
    by (simp add: Atoi_ignored_def parse_int64_def split_sign_def is_digit_def Let_def)
  then show ?thesis
    using assms by (auto simp: scraper_main_def Let_def env_or_default_def times_unit_def NewTicker_ok_def split: if_splits sum.splits)
qed

end
