(* ===== verification/Service_Restart.thy ===== *)
theory Service_Restart
  imports Service_Startup
begin

text \<open>
  Restarts of the platform: what the tables must look like for the execution engine to come up and how it comes up, and
  what the watchdog, the risk engine and the execution engine agree on when they are started over the same tables in
  the middle of a halt.
\<close>

section \<open>The execution engine comes up\<close>

lemma order_query_working: "order_query rows = working_rows rows"
  by (simp add: order_query_def working_rows_def)

lemma startup_check_cases:
  "\<exists>mkt. \<not> fits_int32 (market_sum (rd_positions rd) mkt) \<Longrightarrow> \<exists>err. fst (RunStartupCheck no_faults rd r) = Inl err"
  "\<forall>mkt. fits_int32 (market_sum (rd_positions rd) mkt) \<Longrightarrow> \<forall>row \<in> set (order_query (rd_orders rd)). or_exchange_order_id row \<noteq> None \<Longrightarrow>
     \<exists>consistent. fst (RunStartupCheck no_faults rd r) = Inr consistent"
proof -
  show "\<exists>err. fst (RunStartupCheck no_faults rd r) = Inl err" if "\<exists>mkt. \<not> fits_int32 (market_sum (rd_positions rd) mkt)"
  proof -
    have "\<not> (\<forall>mkt. fits_int32 (market_sum (rd_positions rd) mkt))" using that by simp
    then have "scan_positions (position_query (rd_positions rd)) Map.empty = Inl ScanPosition"
      unfolding scan_position_query by (rule if_not_P)
    then show ?thesis by (simp add: RunStartupCheck_def ComparePositions_def)
  qed
  show "\<exists>consistent. fst (RunStartupCheck no_faults rd r) = Inr consistent"
    if "\<forall>mkt. fits_int32 (market_sum (rd_positions rd) mkt)" "\<forall>row \<in> set (order_query (rd_orders rd)). or_exchange_order_id row \<noteq> None"
    using that by (simp add: RunStartupCheck_def ComparePositions_def CompareOrders_def scan_position_query scan_internal_orders_ok Let_def)
qed

lemma startup_reconciled_keeps [simp]:
  "xe_openOrders (startup_reconciled c e) = xe_openOrders e" "xe_systemMode (startup_reconciled c e) = xe_systemMode e"
  "xe_hmacKey (startup_reconciled c e) = xe_hmacKey e" "IsReconciled (startup_reconciled c e)" "xe_reconciled (startup_reconciled c e)"
  by (simp_all add: startup_reconciled_def SetReconciled_def IsReconciled_def)


lemma execution_main_up:
  assumes "\<forall>x. \<not> se_down st x" "fst (NewPublisher (se_js st) j) = Inr ()"
  shows "fst (execution_main st flt xw j) =
     (case RecoverFull flt (xw_visit xw) (start_engine (se_env st) xw) of
        (Inl _, _) \<Rightarrow> Inl ''failed crash recovery''
      | (Inr _, engine) \<Rightarrow>
          (case RunStartupCheck flt (startup_reads xw engine) start_recon of
             (Inl _, _) \<Rightarrow> Inl ''startup reconciliation failed''
           | (Inr consistent, r) \<Rightarrow> Inr (execution_service_of st (startup_reconciled consistent engine) r)))"
proof -
  obtain j1 where "NewPublisher (se_js st) j = (Inr (), j1)" using assms(2) by (cases "NewPublisher (se_js st) j") simp
  then show ?thesis
    using assms(1) by (simp add: execution_main_def Let_def split: prod.split sum.split)
qed

text \<open>What the started engine is: trading, on the orders of the table, with the key of the environment.\<close>

definition comes_up :: "environ \<Rightarrow> execution_world \<Rightarrow> MockServer ExecEngine \<Rightarrow> bool" where
  "comes_up env xw e \<longleftrightarrow>
     xe_openOrders e = recovered_orders (working_rows (xw_orders xw)) \<and> IsReconciled e \<and> xe_systemMode e = ''normal''
     \<and> xe_hmacKey e = hmac_key env"

lemma recovered_engine:
  assumes "\<not> (\<exists>row \<in> set (working_rows (xw_orders xw)). or_exchange_order_id row = None)"
    "distinct (map or_internal_order_id (xw_orders xw))"
  obtains e where "RecoverFull no_faults (xw_visit xw) (start_engine env xw) = (Inr (), e)" "xe_orders e = xw_orders xw"
    "\<forall>c. comes_up env xw (startup_reconciled c e)"
proof -
  let ?f = "(start_engine env xw)\<lparr>xe_openOrders := recovered_orders (working_rows (xw_orders xw))\<rparr>"
  let ?e = "foldl (load_intent no_faults) ?f (xw_visit xw ?f)"
  have "RecoverFull no_faults (xw_visit xw) (start_engine env xw) = (Inr (), ?e)"
    unfolding start_engine_def by (rule RecoverFull_ok [OF assms])
  moreover have "xe_orders ?e = xw_orders xw" by (simp add: start_engine_def NewExecEngine_def)
  moreover have "\<forall>c. comes_up env xw (startup_reconciled c ?e)"
    by (simp add: comes_up_def start_engine_def NewExecEngine_def)
  ultimately show ?thesis by (rule that)
qed




section \<open>The services agree\<close>

lemma scan_orders_keeps:
  "xe_hmacKey (snd (scan_orders rows e)) = xe_hmacKey e \<and> xe_systemMode (snd (scan_orders rows e)) = xe_systemMode e"
  by (induction rows arbitrary: e) (simp_all split: option.split)

lemma RecoverFull_keeps:
  "xe_hmacKey (snd (RecoverFull flt visit e)) = xe_hmacKey e \<and> xe_systemMode (snd (RecoverFull flt visit e)) = xe_systemMode e"
proof -
  have "xe_hmacKey (snd (LoadOpenOrders flt visit e)) = xe_hmacKey e \<and> xe_systemMode (snd (LoadOpenOrders flt visit e)) = xe_systemMode e"
    using scan_orders_keeps [of "filter (\<lambda>row. or_status row \<in> {StatusPending, StatusOpen, StatusPartiallyFilled}) (xe_orders e)" e]
    by (simp add: LoadOpenOrders_def split: prod.split sum.split) auto
  then show ?thesis by (simp add: RecoverFull_def split: prod.split sum.split) auto
qed

lemma execution_main_started:
  assumes "fst (execution_main st flt xw j) = Inr s"
  shows "xe_hmacKey (xs_engine s) = hmac_key (se_env st) \<and> xe_systemMode (xs_engine s) = ''normal''"
proof -
  obtain e c r where e: "RecoverFull flt (xw_visit xw) (start_engine (se_env st) xw) = (Inr (), e)"
    and s: "s = execution_service_of st (startup_reconciled c e) r"
    using assms by (auto simp: execution_main_def Let_def split: if_splits prod.splits sum.splits)
  from RecoverFull_keeps [of flt "xw_visit xw" "start_engine (se_env st) xw"]
  have "xe_hmacKey e = xe_hmacKey (start_engine (se_env st) xw) \<and> xe_systemMode e = xe_systemMode (start_engine (se_env st) xw)"
    by (simp only: e snd_conv)
  then show ?thesis by (simp add: s execution_service_of_def start_engine_def NewExecEngine_def)
qed

lemma risk_main_started:
  assumes "fst (risk_main st flt rw j) = Inr s"
  shows "\<exists>e. rs_engine s = snd (LoadState flt (se_now st) (rw_kills rw) e) \<and> re_hmacKey (rs_engine s) = hmac_key (se_env st)"
proof -
  obtain policy e where e: "LoadState flt (se_now st) (rw_kills rw)
      (NewEngine policy (hmac_key (se_env st)) (rw_positions rw) (rw_stats rw) (rw_decisions rw)) = (Inr (), e)" and s: "rs_engine s = e"
    using assms by (auto simp: risk_main_def Let_def split: if_splits prod.splits sum.splits)
  have "re_hmacKey (snd (LoadState flt now kills f)) = re_hmacKey f" for now kills f
    by (simp add: LoadState_def Let_def)
  from this [of "se_now st" "rw_kills rw" "NewEngine policy (hmac_key (se_env st)) (rw_positions rw) (rw_stats rw) (rw_decisions rw)"]
  have "re_hmacKey e = re_hmacKey (NewEngine policy (hmac_key (se_env st)) (rw_positions rw) (rw_stats rw) (rw_decisions rw))"
    by (simp only: e snd_conv)
  then have "re_hmacKey e = hmac_key (se_env st)" by (simp add: NewEngine_def)
  moreover have "rs_engine s = snd (LoadState flt (se_now st) (rw_kills rw)
      (NewEngine policy (hmac_key (se_env st)) (rw_positions rw) (rw_stats rw) (rw_decisions rw)))" by (simp only: e s snd_conv)
  ultimately show ?thesis unfolding s by (intro exI conjI)
qed

lemma watchdog_main_started:
  assumes "fst (watchdog_main st flt visit order x kills beats j) = Inr s"
  shows "LoadActiveHalts flt visit order (NewKillSwitchManager x () kills) = (Inr (), ws_manager s)"
  using assms by (auto simp: watchdog_main_def Let_def split: if_splits prod.splits sum.splits)

text \<open>
  \<^verbatim>\<open>LoadActiveHalts\<close> keeps the last row it reads for a scope, and its query has no ORDER BY. Any order of the rows is as good
  as the order of insertion when it returns the unresumed rows of each scope in the order they were inserted:
  trivially when no scope has two of them, that is, no halt in force was escalated.
\<close>

definition scope_order_kept :: "KillRow list \<Rightarrow> KillRow list \<Rightarrow> bool" where
  "scope_order_kept rows rows' \<longleftrightarrow>
     (\<forall>s. filter (\<lambda>r. ks_scope r = s \<and> \<not> ks_resumed r) rows' = filter (\<lambda>r. ks_scope r = s \<and> \<not> ks_resumed r) rows)"

lemma halts_of_lookup:
  "halts_of rows s = (let rs = filter (\<lambda>r. ks_scope r = s \<and> \<not> ks_resumed r) rows in if rs = [] then None else Some (halt_of_row (last rs)))"
  by (induction rows rule: rev_induct) (auto simp: Let_def)

lemma loaded_in_scope_order:
  assumes "scope_order_kept kills (order kills)"
  shows "LoadActiveHalts flt visit order (NewKillSwitchManager x r kills) = LoadActiveHalts flt visit (\<lambda>rows. rows) (NewKillSwitchManager x r kills)"
proof -
  have "halts_of (order kills) = halts_of kills"
    using assms by (simp add: fun_eq_iff halts_of_lookup scope_order_kept_def)
  then show ?thesis by (simp add: LoadActiveHalts_def halts_of_def NewKillSwitchManager_def)
qed

lemma any_order_unless_escalated:
  assumes "mset rows' = mset rows" and "\<forall>s. length (filter (\<lambda>r. ks_scope r = s \<and> \<not> ks_resumed r) rows) \<le> 1"
  shows "scope_order_kept rows rows'"
  unfolding scope_order_kept_def
proof
  fix s
  let ?P = "\<lambda>r. ks_scope r = s \<and> \<not> ks_resumed r"
  have "mset (filter ?P rows') = mset (filter ?P rows)" using assms(1) by (simp add: mset_filter)
  moreover from this have "length (filter ?P rows') = length (filter ?P rows)" by (rule mset_eq_length)
  moreover have "length (filter ?P rows) \<le> 1" using assms(2) by blast
  ultimately show "filter ?P rows' = filter ?P rows"
    by (cases "filter ?P rows"; cases "filter ?P rows'") auto
qed

text \<open>
  C19: A platform restarted in the middle of a halt. After any run of the watchdog without failing queries, let the watchdog,
  the risk engine and the execution engine be started over the tables the run has left, where PostgreSQL returns the
  unresumed rows of each scope to the watchdog in the order they were inserted (which its query does not ask for; with an
  escalated halt in force another order brings the watchdog up in a weaker mode, \<open>restart_order_matters\<close>, and
  without one every order will do, \<open>any_order_unless_escalated\<close>). The watchdog has every halt and
  the mode it had, the risk engine is in that mode too, and the two engines hold the same key when their environments
  name the same. The execution engine alone starts in mode normal, and adopts the mode with the reply to
  its first heartbeat.
\<close>

theorem restarted_services_agree:
  assumes "visits_all visit"
    and "(wd_step H ec rk visit no_faults_only any_scope any_scope)\<^sup>*\<^sup>* (NewKillSwitchManager x r []) w"
    and "fst (watchdog_main stw no_faults visit order x' (km_rows w) beats jw) = Inr ws"
    and "scope_order_kept (km_rows w) (order (km_rows w))"
    and "fst (risk_main str no_faults rw jr) = Inr rs" "rw_kills rw = km_rows w"
    and "fst (execution_main stx flt xw jx) = Inr xs"
    and "se_env str ''HMAC_KEY'' = se_env stx ''HMAC_KEY''"
    and "fst (GRPC_Heartbeat fltb now ''execution-engine'' status detail (ws_manager ws) (ws_dms ws)) = (ack, mode)"
  shows "km_activeHalts (ws_manager ws) = km_activeHalts w \<and> km_currentMode (ws_manager ws) = km_currentMode w
    \<and> st_SystemMode (re_state (rs_engine rs)) = km_currentMode w
    \<and> re_hmacKey (rs_engine rs) = xe_hmacKey (xs_engine xs)
    \<and> xe_systemMode (xs_engine xs) = ''normal''
    \<and> xe_systemMode (heartbeat_tick (Some mode) (xs_engine xs)) = km_currentMode w"
proof -
  have wd: "km_activeHalts (ws_manager ws) = km_activeHalts w" "km_currentMode (ws_manager ws) = km_currentMode w"
    using restart_recovers_halts [OF assms(1,2) watchdog_main_started [OF assms(3), unfolded loaded_in_scope_order [where order = order, OF assms(4)]]] by simp_all
  obtain e where e: "rs_engine rs = snd (LoadState no_faults (se_now str) (rw_kills rw) e)" and k: "re_hmacKey (rs_engine rs) = hmac_key (se_env str)"
    using risk_main_started [OF assms(5)] by blast
  have "st_SystemMode (re_state (rs_engine rs)) = km_currentMode w"
    unfolding e assms(6) by (rule risk_starts_in_watchdog_mode [OF assms(1,2)])
  moreover have "hmac_key (se_env str) = hmac_key (se_env stx)" using assms(8) by (simp add: hmac_key_def env_or_default_def)
  moreover have "mode = km_currentMode w" using assms(9) wd(2) by (simp add: GRPC_Heartbeat_def GetCurrentMode_def)
  moreover have "km_currentMode w \<noteq> []"
    using reachable_table_mode(2) [OF assms(1,2)] by (simp add: mode_ok_def mode_of_rank_def)
  ultimately show ?thesis
    using wd k execution_main_started [OF assms(7)] by (simp add: heartbeat_tick_def Exec_SetSystemMode_def)
qed



section \<open>Sample starts\<close>

definition sample_js :: "unit jetstream" where
  "sample_js = \<lparr>js_JetStream = True, js_AddStream = (\<lambda>c j. (True, j)), js_Subscribe = (\<lambda>c j. (True, j))\<rparr>"

definition sample_boot :: "unit start_env" where
  "sample_boot = \<lparr>se_down = (\<lambda>x. False), se_env = (\<lambda>key. []), se_js = sample_js, se_now = 9, se_ping = (\<lambda>t. None)\<rparr>"

definition sample_world :: "OrderRow list \<Rightarrow> execution_world" where
  "sample_world orders =
     \<lparr>xw_orders = orders, xw_fills = [], xw_ledger = NewLedger, xw_positions = [], xw_rng = (\<lambda>n. f_of_int 0),
      xw_visit = sorted_books, xw_visit_positions = (\<lambda>m. []), xw_visit_orders = (\<lambda>m. sorted_list_of_set (dom m))\<rparr>"

lemma sample_js_up: "NewPublisher sample_js j = (Inr (), ())" "NewSubscriber sample_js = Inr ()"
    "Subscriber_Subscribe sample_js subj n j = (Inr (), ())"
  by (simp_all add: NewPublisher_def NewSubscriber_def Subscriber_Subscribe_def sample_js_def streams_def)

lemma sample_boot_up: "\<forall>x. \<not> se_down sample_boot x" "fst (NewPublisher (se_js sample_boot) j) = Inr ()" "se_env sample_boot key = []"
  by (simp_all add: sample_boot_def sample_js_up)

lemma sample_fits: "\<forall>mkt. fits_int32 (market_sum (xw_positions (sample_world orders)) mkt)"
  by (simp add: sample_world_def market_sum_def fits_int32_def)

lemma sample_execution_starts: "\<exists>xs. fst (execution_main sample_boot no_faults (sample_world sample_rows) ()) = Inr xs"
proof -
  have w: "\<not> (\<exists>row \<in> set (working_rows (xw_orders (sample_world sample_rows))). or_exchange_order_id row = None)"
    by (simp add: sample_world_def sample_rows_working) (simp add: sample_rows_def)
  have d: "distinct (map or_internal_order_id (xw_orders (sample_world sample_rows)))"
    by (simp add: sample_world_def sample_rows_def)
  from recovered_engine [OF w d, of "se_env sample_boot"] obtain e where
    e: "RecoverFull no_faults (xw_visit (sample_world sample_rows)) (start_engine (se_env sample_boot) (sample_world sample_rows)) = (Inr (), e)"
      "xe_orders e = xw_orders (sample_world sample_rows)" by metis
  let ?rd = "startup_reads (sample_world sample_rows) e"
  have "rd_positions ?rd = xw_positions (sample_world sample_rows)" "rd_orders ?rd = xw_orders (sample_world sample_rows)"
    by (simp_all add: startup_reads_def e(2))
  with startup_check_cases(2) [of ?rd start_recon] sample_fits [of sample_rows] w
  obtain c where c: "fst (RunStartupCheck no_faults ?rd start_recon) = Inr c" by (auto simp: order_query_working)
  show ?thesis
    unfolding execution_main_up [OF sample_boot_up(1,2)] e(1) using c by (simp add: case_prod_beta)
qed


lemma sample_halted_mode: "km_currentMode sample_halted = ''full_stop''"
  using sample_halted_facts by (simp add: mode_ok_def peak_def new_halt_def severityRank_def mode_of_rank_def)

definition sample_risk_world :: risk_world where
  "sample_risk_world = \<lparr>rw_readFile = (\<lambda>path. Some []), rw_yaml = (\<lambda>d. Some sample_policy), rw_positions = [], rw_stats = [],
     rw_decisions = [], rw_kills = km_rows sample_halted\<rparr>"

lemma sample_risk_starts: "\<exists>rs. fst (risk_main sample_boot no_faults sample_risk_world ()) = Inr rs"
proof -
  have "LoadPolicy (\<lambda>path. Some []) (\<lambda>d. Some sample_policy) f = Inr sample_policy" for f
    by (simp add: LoadPolicy_def Policy_Validate_def sample_policy_def)
  then show ?thesis by (simp add: risk_main_def sample_boot_def sample_js_up sample_risk_world_def LoadState_def Let_def)
qed

lemma sample_watchdog_starts: "\<exists>ws. fst (watchdog_main sample_boot no_faults sorted_visit rev () (km_rows sample_halted) [] ()) = Inr ws"
  by (simp add: watchdog_main_def sample_boot_def sample_js_up LoadActiveHalts_def Let_def)

theorem restarted_services_agree_witness:
  "\<exists>ws rs xs. fst (watchdog_main sample_boot no_faults sorted_visit rev () (km_rows sample_halted) [] ()) = Inr ws
    \<and> fst (risk_main sample_boot no_faults sample_risk_world ()) = Inr rs
    \<and> fst (execution_main sample_boot no_faults (sample_world sample_rows) ()) = Inr xs
    \<and> km_currentMode (ws_manager ws) = ''full_stop'' \<and> st_SystemMode (re_state (rs_engine rs)) = ''full_stop''
    \<and> xe_systemMode (xs_engine xs) = ''normal'' \<and> xe_systemMode (heartbeat_tick (Some ''full_stop'') (xs_engine xs)) = ''full_stop''"
proof -
  obtain ws rs where ws: "fst (watchdog_main sample_boot no_faults sorted_visit rev () (km_rows sample_halted) [] ()) = Inr ws"
    and rs: "fst (risk_main sample_boot no_faults sample_risk_world ()) = Inr rs"
    using sample_watchdog_starts sample_risk_starts by blast
  obtain xs where xs: "fst (execution_main sample_boot no_faults (sample_world sample_rows) ()) = Inr xs"
    using sample_execution_starts by blast
  have "wd_step (\<lambda>_. []) null_exec null_risk sorted_visit no_faults_only any_scope any_scope (NewKillSwitchManager () () []) sample_halted"
    unfolding sample_halted_def by (rule ws_trigger) (simp_all add: no_faults_only_def kill_levels_def)
  note run = r_into_rtranclp [of "wd_step (\<lambda>_. []) null_exec null_risk sorted_visit no_faults_only any_scope any_scope", OF this]
  have kills: "rw_kills sample_risk_world = km_rows sample_halted" by (simp add: sample_risk_world_def)
  obtain ack mode where hb: "fst (GRPC_Heartbeat no_faults 9 ''execution-engine'' [] [] (ws_manager ws) (ws_dms ws)) = (ack, mode)"
    by (cases "fst (GRPC_Heartbeat no_faults 9 ''execution-engine'' [] [] (ws_manager ws) (ws_dms ws))")
  have "\<not> blocked LevelFullStop ''global'' (NewKillSwitchManager () () [])" by (simp add: blocked_def NewKillSwitchManager_def)
  from Trigger_cases(2) [OF this] have "length (km_rows sample_halted) = 1"
    by (simp add: sample_halted_def NewKillSwitchManager_def insert_kill_row_def kill_row_def new_halt_def kill_levels_def)
  then have "\<forall>s. length (filter (\<lambda>r. ks_scope r = s \<and> \<not> ks_resumed r) (km_rows sample_halted)) \<le> 1"
    by (metis length_filter_le)
  then have order: "scope_order_kept (km_rows sample_halted) (rev (km_rows sample_halted))"
    by (intro any_order_unless_escalated) simp_all
  from restarted_services_agree [where order = rev, OF visits_all_sorted run ws order rs kills xs refl hb]
  have all: "km_currentMode (ws_manager ws) = ''full_stop'' \<and> st_SystemMode (re_state (rs_engine rs)) = ''full_stop''
    \<and> xe_systemMode (xs_engine xs) = ''normal''"
    unfolding sample_halted_mode by simp
  show ?thesis using ws rs xs all by (simp add: heartbeat_tick_def Exec_SetSystemMode_def)
qed

end
