(* ===== verification/Spec2Isabelle.thy ===== *)
theory Spec2Isabelle
  imports Risk_Runs Kill_Path Recon Market_Scan Backtest_Data Backtest_Metrics Dashboard_Hub Trade_Ctl_Halts Service_Restart
begin

text \<open>
  \<^bold>\<open>A verification library of the trading platform.\<close>

  The program is a set of Go services around one pipeline: ingestion publishes quotes on NATS, the strategy engine
  proposes an order, the risk engine decides on it and signs the approval, the execution engine checks the signature, records
  the intent, persists the order and submits it to a venue, and fills flow back to the risk engine. Beside the
  pipeline stand the watchdog (kill switches, heartbeats), reconciliation of the books with the exchange, an audit
  chain, a backtest of the live checks on recorded quotes, and the operator's tools: a dashboard, an alert bot and the
  command line tool trade-ctl. The services share a PostgreSQL database and call each other by gRPC; the
  library follows the same lines: one theory per component, composed by the definitions the way the code composes
  its packages, with one group of theorems per component and a few theories for what holds between them.

  \<^bold>\<open>How the model reads.\<close> A struct is a record, an enum over strings the strings the code compares, an \<^verbatim>\<open>int64\<close> or \<^verbatim>\<open>int32\<close> a
  word that wraps, a \<^verbatim>\<open>float64\<close> a rational with IEEE rounding (\<open>Float64\<close>), a map a partial function, a table a list of
  rows. A function of the code is a definition on the state it works on that returns the new state; a returned error is
  the left side of a sum; a lock is held over one definition. What the code cannot decide is an argument: the clock,
  the ids, the random numbers, the HMAC and hash functions, the order in which Go visits a map (\<open>visit\<close>: any
  enumeration of the keys), and an oracle \<open>faults\<close> that says which statement, publication or report to another service fails. Theorems hold for
  all of these unless a premise says otherwise; \<open>no_faults\<close> is the premise that no statement fails.

  \<^bold>\<open>The shared base.\<close>
  \<^item> \<open>Prelude\<close>: words read as signed numbers, time, Go's division and formatting, SQL updates, enumerations of maps,
    the locale \<open>step_invariant\<close> (an invariant of a step relation holds in every reachable state), which every
    invariant over runs interprets. \<open>Float64\<close>: binary64 rounding with its error and monotonicity lemmas.
  \<^item> \<open>Models\<close> (\<^verbatim>\<open>internal/models\<close>): orders, the order state machine and validation; every reachable status is known and a final one
    is left by no transition. \<open>Config\<close> (\<^verbatim>\<open>internal/config\<close>): the policy, its validation and hash. \<open>Convert\<close>
    (\<^verbatim>\<open>internal/convert\<close>): the protobuf conversions. \<open>Events\<close> (\<^verbatim>\<open>internal/events/schemas.go\<close>): events, subjects, publication,
    kill switch rows and their severity.
  \<^item> \<open>Audit_Log\<close> (\<^verbatim>\<open>internal/audit\<close>): the hash chain; the hash of a stored row fixes every call of its logger up to it, failed writes
    included, when the hash has no collision on the inputs at hand. The columns keep less than was hashed (microseconds, JSONB).
  \<^item> \<open>Ledger\<close> (\<^verbatim>\<open>internal/ledger\<close>): order intents with versions and the exposure envelope; over every run the outstanding intents stay
    within the configured limits, and a settled intent never changes again.

  \<^bold>\<open>Deciding.\<close>
  \<^item> \<open>Risk_Checks\<close> (\<^verbatim>\<open>services/risk/checks.go\<close>, \<^verbatim>\<open>state.go\<close>): every check; together they pass exactly the orders within the limits they read (the policy has
    others that no check reads), stated on integers for numbers away from overflow. \<open>Risk_Engine\<close> (\<^verbatim>\<open>engine.go\<close>, \<^verbatim>\<open>grpc_server.go\<close>): evaluation, signing, fills, startup, the gRPC surface; the
    decision, its first cause and its signature, and that an approval still verifies after the wire. \<open>Risk_Runs\<close>: order rates over
    runs (a limit of 0 lets the first order of a strategy through), positions as sums of fills, and what a restart reads back.
  \<^item> \<open>Strategy\<close> (\<^verbatim>\<open>services/strategy\<close>): the momentum signals, the engine's tick and the evaluator that calls risk and
    execution; only permitted orders reach the venue, and a halted engine gets none.

  \<^bold>\<open>Executing.\<close>
  \<^item> \<open>Mock_Exchange\<close> (\<^verbatim>\<open>services/mockexchange\<close>): the simulated venue with its fills, positions and balance.
  \<^item> \<open>Execution_Engine\<close> (\<^verbatim>\<open>services/execution\<close>): submission behind its gate, cancellation, fills, recovery, over any venue adapter.
    \<open>Execution_Safety\<close>: what one submission may do and that no approval is executed twice. \<open>Execution_Runs\<close>: exposure of the engine's book and
    fill accounting over every run; a fill whose report to the risk engine failed is recorded and never reported again. \<open>Execution_Recovery\<close>: what a restart rebuilds.
  \<^item> \<open>Recon\<close> (\<^verbatim>\<open>services/recon\<close>): comparison of positions, orders and balance with the exchange, equal to a comparison of sums, and the
    cycle that triggers a kill exactly on a critical mismatch. Of working rows with the same exchange id the last one read is compared.

  \<^bold>\<open>Stopping.\<close>
  \<^item> \<open>Watchdog\<close> and \<open>Watchdog_Runs\<close> (\<^verbatim>\<open>services/watchdog\<close>): kill switches and the dead man's switch; halts hold until they are
    acknowledged and resumed, the mode is the most severe halt, silence of a critical service halts. \<open>Kill_Board\<close>: the abstract
    contract, a board of levels and acknowledgments, and the refinement of every step by the manager.
  \<^item> \<open>Grpc_Auth\<close> (\<^verbatim>\<open>internal/grpcauth\<close>): who may call what. \<open>Kill_Path\<close> (\<^verbatim>\<open>services/watchdog/grpc_clients.go\<close>): the way of a kill to the
    engines; its locale \<open>execution_control\<close> is what the watchdog relies on, interpreted on the gRPC client over the engine.

  \<^bold>\<open>Data and backtests.\<close>
  \<^item> \<open>Market_Feed\<close> (\<^verbatim>\<open>services/data\<close>, prices and books of \<^verbatim>\<open>pkg/kalshi\<close>): the mock and Kalshi feeds; every quote kept is tradable as long as the API's
    prices are between 0 and 99 cents and not crossed, with the exact bound on the truncation of dollar prices. \<open>Kalshi_Client\<close> (\<^verbatim>\<open>pkg/kalshi/client.go\<close>): keys, signing, the
    rate-limited GET with the redirects \<^verbatim>\<open>net/http\<close> follows, and what a client sends over any use. \<open>Market_Scan\<close> (\<^verbatim>\<open>cmd/find-markets\<close>, \<^verbatim>\<open>find-active\<close>, \<^verbatim>\<open>debug-kalshi\<close>).
  \<^item> \<open>Backtest\<close>, \<open>Backtest_Data\<close>, \<open>Backtest_Metrics\<close> (\<^verbatim>\<open>services/backtest\<close>): ticks, the simulated trades behind the live checks, whose risk
    state is written out from the trades and orders before (with what it misses against the live system), the scraper, and the metrics against their textbook definitions.

  \<^bold>\<open>Operating.\<close>
  \<^item> \<open>Operator\<close>: the calls of an operator to the watchdog, as the locale \<open>control_client\<close>, interpreted on the watchdog behind its caller check.
    \<open>Dashboard\<close> and \<open>Dashboard_Hub\<close> (\<^verbatim>\<open>services/dashboard\<close>): sessions, requests, queries, and the hub that streams to browsers,
    failing writes included. \<open>Alert_Bot\<close> (\<^verbatim>\<open>services/alertbot\<close>): commands with their confirmation, and the notifier's
    batches, of which a failed send loses one.
  \<^item> \<open>Trade_Ctl\<close> (\<^verbatim>\<open>cmd/trade-ctl\<close>): the thirteen commands over the tables. \<open>Trade_Ctl_Halts\<close>: what they change, and that a running watchdog behaves
    the same with and without them (two runs of the same calls, one with the tool writing in between).
  \<^item> \<open>Service_Support\<close> (settings, \<^verbatim>\<open>internal/events\<close>, \<^verbatim>\<open>health\<close>, \<^verbatim>\<open>metrics\<close>, \<^verbatim>\<open>logging\<close>), \<open>Service_Startup\<close> (the eight \<^verbatim>\<open>main\<close> functions
    of \<^verbatim>\<open>cmd/\<close>) and \<open>Service_Restart\<close>: what the execution engine needs to come up, and the modes after a restart in a
    halt, for any order of the rows that keeps those of a scope in the order of insertion.

  \<^bold>\<open>Runs, bounds and termination.\<close> A run is a list of operations or the reflexive transitive closure of an inductive step
  relation, so any interleaving of whole operations is covered; preemption inside an operation is not. Every recursion is
  structural or has a measure; no definition uses fuel. The page loops of the scans end by their page limits
  (300 pages, 100 and 100) because the API's cursor may never end. Statements on word arithmetic either say
  what happens on overflow or have the range of the inputs as a premise, met by the witness.

  \<^bold>\<open>Witnesses.\<close> A theorem with premises is followed by a closed theorem that applies it to concrete data (\<open>sample_\<close>
  definitions), so no premise is unsatisfiable.

  \<^bold>\<open>Not modelled.\<close> PostgreSQL, NATS JetStream, gRPC transport, the HTTP server, Telegram, Prometheus, TLS and the Kalshi
  service appear through the calls the code makes and their possible outcomes; the standard library's request routing (with
  its path cleaning) and redirects are modelled, its file server is an argument. Times in tables other than the audit log keep their
  nanoseconds, where the columns keep microseconds; redelivery of messages and partial
  transactions are not explored. Left out altogether: SQL migrations (the constraints the code relies on are part of
  the table operations), generated protobuf code, the static page of the dashboard, log output, \<^verbatim>\<open>PrintJSON\<close> of the backtest, the values of
  metrics, signal handling, and the test programs.
\<close>

end
